(* ===== verification/Prelude.thy ===== *)
theory Prelude
  imports Main "HOL-Library.AList" "HOL-Library.Product_Lexorder"
begin

text \<open>
  What every component of the development shares: the types that name dates, moments and
  primary keys, the tables the Django models are kept in, Python's stable descending sort, and
  the named collections of facts that the component proofs add to the simplifier.
\<close>

subsection \<open>Names for the basic types\<close>

text \<open>
  A \<open>date\<close> is its proleptic Gregorian ordinal (\<open>date.toordinal()\<close>), so comparing two dates and
  adding a \<open>timedelta(days=n)\<close> are comparison and addition of integers; the theory \<open>Calendar\<close>
  gives the year, the month and the day of an ordinal.  A \<open>moment\<close> is an aware datetime, in whole
  seconds.  Python's upper bound of the year 9999 is not modelled.
\<close>

type_synonym date = int
type_synonym moment = int
type_synonym pk = nat

definition date_min :: date where
  \<comment> \<open>\<open>date.min\<close>, the first of January of the year 1\<close>
  "date_min = 1"

subsection \<open>Collections of facts\<close>

named_theorems table_simps \<open>reading a table after a write\<close>
named_theorems model_defs \<open>unfolding the small definitions of the model\<close>

subsection \<open>Tables\<close>

text \<open>
  A database table is the list of its rows in the order they were inserted; \<open>key\<close> reads a row's
  primary key.  \<open>row_get\<close> is \<open>objects.get(pk=k)\<close>, \<open>row_put\<close> is \<open>row.save()\<close> of an existing row,
  \<open>rows_update\<close> is \<open>objects.filter(P).update(...)\<close> and \<open>rows_delete\<close> is
  \<open>objects.filter(P).delete()\<close>.
\<close>

definition row_get :: "('r \<Rightarrow> pk) \<Rightarrow> 'r list \<Rightarrow> pk \<Rightarrow> 'r option" where
  "row_get key t k = find (\<lambda>r. key r = k) t"

definition rows_update :: "('r \<Rightarrow> bool) \<Rightarrow> ('r \<Rightarrow> 'r) \<Rightarrow> 'r list \<Rightarrow> 'r list" where
  "rows_update P f t = map (\<lambda>r. if P r then f r else r) t"

definition rows_matched :: "('r \<Rightarrow> bool) \<Rightarrow> 'r list \<Rightarrow> nat" where
  \<comment> \<open>the number of rows an update reports\<close>
  "rows_matched P t = length (filter P t)"

definition row_put :: "('r \<Rightarrow> pk) \<Rightarrow> 'r \<Rightarrow> 'r list \<Rightarrow> 'r list" where
  "row_put key r t = rows_update (\<lambda>x. key x = key r) (\<lambda>_. r) t"

definition rows_delete :: "('r \<Rightarrow> bool) \<Rightarrow> 'r list \<Rightarrow> 'r list" where
  "rows_delete P t = filter (\<lambda>r. \<not> P r) t"

lemma row_get_Nil [simp, table_simps]: "row_get key [] k = None"
  by (simp add: row_get_def)

lemma row_get_Cons [simp, table_simps]:
  "row_get key (r # t) k = (if key r = k then Some r else row_get key t k)"
  by (simp add: row_get_def)

lemma row_get_append [table_simps]:
  "row_get key (t @ s) k = (case row_get key t k of None \<Rightarrow> row_get key s k | Some r \<Rightarrow> Some r)"
  by (induction t) auto

lemma row_get_SomeD:
  assumes "row_get key t k = Some r"
  shows "r \<in> set t" and "key r = k"
  using assms by (auto simp: row_get_def find_Some_iff)

lemma row_get_NoneD: "row_get key t k = None \<Longrightarrow> r \<in> set t \<Longrightarrow> key r \<noteq> k"
  by (auto simp: row_get_def find_None_iff)

lemma row_get_None_iff: "row_get key t k = None \<longleftrightarrow> k \<notin> key ` set t"
  by (auto simp: row_get_def find_None_iff)

lemma row_get_distinct:
  "distinct (map key t) \<Longrightarrow> r \<in> set t \<Longrightarrow> row_get key t (key r) = Some r"
  by (induction t) (auto simp: rev_image_eqI)

lemma rows_update_Nil [simp]: "rows_update P f [] = []"
  by (simp add: rows_update_def)

lemma rows_update_Cons [simp]:
  "rows_update P f (r # t) = (if P r then f r else r) # rows_update P f t"
  by (simp add: rows_update_def)

lemma rows_update_append [simp]:
  "rows_update P f (t @ s) = rows_update P f t @ rows_update P f s"
  by (simp add: rows_update_def)

lemma length_rows_update [simp]: "length (rows_update P f t) = length t"
  by (simp add: rows_update_def)

lemma set_rows_update: "set (rows_update P f t) = (\<lambda>r. if P r then f r else r) ` set t"
  by (simp add: rows_update_def)

lemma rows_update_none: "(\<And>r. r \<in> set t \<Longrightarrow> \<not> P r) \<Longrightarrow> rows_update P f t = t"
  by (induction t) auto

lemma rows_matched_0_iff: "rows_matched P t = 0 \<longleftrightarrow> (\<forall>r \<in> set t. \<not> P r)"
  by (auto simp: rows_matched_def filter_empty_conv)

lemma rows_update_unmatched: "rows_matched P t = 0 \<Longrightarrow> rows_update P f t = t"
  by (rule rows_update_none) (simp add: rows_matched_0_iff)

lemma map_key_rows_update:
  "(\<And>r. P r \<Longrightarrow> key (f r) = key r) \<Longrightarrow> map key (rows_update P f t) = map key t"
  by (induction t) auto

lemma row_get_rows_update [table_simps]:
  assumes "\<And>r. P r \<Longrightarrow> key (f r) = key r"
  shows "row_get key (rows_update P f t) k
    = map_option (\<lambda>r. if P r then f r else r) (row_get key t k)"
  using assms by (induction t) auto

lemma row_get_row_put [simp, table_simps]:
  "row_get key (row_put key r t) k
    = (if k = key r \<and> row_get key t k \<noteq> None then Some r else row_get key t k)"
  unfolding row_put_def by (induction t) auto

lemma map_key_row_put [simp]: "map key (row_put key r t) = map key t"
  unfolding row_put_def by (rule map_key_rows_update) simp

lemma in_set_row_put: "x \<in> set (row_put key r t) \<Longrightarrow> x = r \<or> x \<in> set t"
  by (auto simp: row_put_def set_rows_update split: if_splits)

lemma row_put_other:
  "x \<in> set t \<Longrightarrow> key x \<noteq> key r \<Longrightarrow> x \<in> set (row_put key r t)"
  by (force simp: row_put_def set_rows_update)

subsection \<open>Python's sorts\<close>

text \<open>
  \<open>xs.sort(key=f, reverse=True)\<close> is stable and keeps the original order of equal elements, so it
  is the reverse of a stable ascending sort of the reversed list.  \<open>first_of\<close> is \<open>xs[0]\<close> of a
  list that may be empty, and \<open>max_by\<close> is \<open>max(xs, key=f)\<close>, which answers the first of the
  greatest elements.
\<close>

definition sort_desc :: "('a \<Rightarrow> 'k::linorder) \<Rightarrow> 'a list \<Rightarrow> 'a list" where
  "sort_desc f xs = rev (sort_key f (rev xs))"

definition first_of :: "'a list \<Rightarrow> 'a option" where
  "first_of xs = (case xs of [] \<Rightarrow> None | x # _ \<Rightarrow> Some x)"

definition max_by :: "('a \<Rightarrow> 'k::linorder) \<Rightarrow> 'a list \<Rightarrow> 'a option" where
  "max_by f xs = first_of (sort_desc f xs)"

lemma set_sort_desc [simp]: "set (sort_desc f xs) = set xs"
  by (simp add: sort_desc_def)

lemma sort_desc_Nil_iff [simp]: "sort_desc f xs = [] \<longleftrightarrow> xs = []"
  by (metis set_empty set_sort_desc)

lemma first_of_None_iff [simp]: "first_of xs = None \<longleftrightarrow> xs = []"
  by (simp add: first_of_def split: list.splits)

lemma first_of_Nil [simp]: "first_of [] = None"
  by (simp add: first_of_def)

lemma first_of_Cons [simp]: "first_of (x # xs) = Some x"
  by (simp add: first_of_def)

lemma first_of_in_set: "first_of xs = Some x \<Longrightarrow> x \<in> set xs"
  by (cases xs) auto

lemma max_by_None_iff [simp]: "max_by f xs = None \<longleftrightarrow> xs = []"
  by (simp add: max_by_def)

lemma max_by_Nil [simp]: "max_by f [] = None"
  by simp

lemma max_by_in_set: "max_by f xs = Some x \<Longrightarrow> x \<in> set xs"
  by (auto simp: max_by_def dest: first_of_in_set)

lemma sorted_rev_head_greatest:
  assumes "sorted (map f ys)" and "rev ys = x # zs" and "y \<in> set ys"
  shows "f y \<le> f x"
proof -
  from assms(2) have ys: "ys = rev zs @ [x]"
    by (metis rev.simps(2) rev_rev_ident)
  with assms show ?thesis
    by (auto simp: sorted_append)
qed

lemma max_by_greatest:
  assumes "max_by f xs = Some x" and "y \<in> set xs"
  shows "f y \<le> f x"
proof -
  obtain zs where "rev (sort_key f (rev xs)) = x # zs"
    using assms(1) by (auto simp: max_by_def sort_desc_def first_of_def split: list.splits)
  moreover have "y \<in> set (sort_key f (rev xs))"
    using assms(2) by simp
  ultimately show ?thesis
    by (rule sorted_rev_head_greatest [OF sorted_sort_key])
qed

text \<open>The head of an ascending sort is a least element: what \<open>order_by(f).first()\<close> answers.\<close>

lemma first_of_sort_key_in_set: "first_of (sort_key f xs) = Some x \<Longrightarrow> x \<in> set xs"
  by (auto dest: first_of_in_set)

lemma first_of_sort_key_least:
  assumes "first_of (sort_key f xs) = Some x" and "y \<in> set xs"
  shows "f x \<le> f y"
proof -
  obtain zs where zs: "sort_key f xs = x # zs"
    using assms(1) by (auto simp: first_of_def split: list.splits)
  have "sorted (map f (x # zs))"
    using sorted_sort_key [of f xs] zs by simp
  moreover have "y \<in> set (x # zs)"
    using assms(2) zs by (metis set_sort)
  ultimately show ?thesis by auto
qed

lemma first_of_sort_key_None [simp]: "first_of (sort_key f xs) = None \<longleftrightarrow> xs = []"
  by (metis first_of_None_iff set_empty set_sort)

end
