(* ===== verification/Calendar.thy ===== *)
theory Calendar
  imports Prelude
begin

text \<open>
  The calendar: the parts of Python's \<open>datetime.date\<close> and \<open>calendar.monthrange\<close> the program
  uses (the proleptic Gregorian calendar, by the algorithm of the standard library), and the
  program's own date rules on top of them: how a mandate's cadence moves a charge date on
  (\<open>payments/renewals/schedule.py\<close>), when a report subscription is next due
  (\<open>reports/schedule.py\<close>), and the latest day a ledger date may carry (\<open>payments/dates.py\<close>).
\<close>

subsection \<open>The Gregorian calendar of the standard library\<close>

definition is_leap :: "int \<Rightarrow> bool" where
  "is_leap y \<longleftrightarrow> y mod 4 = 0 \<and> (y mod 100 \<noteq> 0 \<or> y mod 400 = 0)"

definition days_before_year :: "int \<Rightarrow> int" where
  "days_before_year year = (let y = year - 1 in y * 365 + y div 4 - y div 100 + y div 400)"

definition month_lengths :: "int \<Rightarrow> int list" where
  "month_lengths y = [31, if is_leap y then 29 else 28, 31, 30, 31, 30, 31, 31, 30, 31, 30, 31]"

definition days_in_month :: "int \<Rightarrow> nat \<Rightarrow> int" where
  \<comment> \<open>\<open>calendar.monthrange(y, m)[1]\<close> for a month from 1 to 12\<close>
  "days_in_month y m = month_lengths y ! (m - 1)"

definition days_before_month :: "int \<Rightarrow> nat \<Rightarrow> int" where
  "days_before_month y m = sum_list (take (m - 1) (month_lengths y))"

record civil =
  year :: int
  month :: nat
  day :: int

definition valid_civil :: "civil \<Rightarrow> bool" where
  "valid_civil c \<longleftrightarrow> 1 \<le> month c \<and> month c \<le> 12
     \<and> 1 \<le> day c \<and> day c \<le> days_in_month (year c) (month c)"

definition toordinal :: "civil \<Rightarrow> date" where
  "toordinal c = days_before_year (year c) + days_before_month (year c) (month c) + day c"

definition mk_date :: "int \<Rightarrow> nat \<Rightarrow> int \<Rightarrow> date" where
  "mk_date y m d = toordinal \<lparr>year = y, month = m, day = d\<rparr>"

fun find_month :: "nat \<Rightarrow> int \<Rightarrow> int list \<Rightarrow> nat \<times> int" where
  \<comment> \<open>the month a day of the year (counted from 0) falls in, and the day left within it\<close>
  "find_month m n [] = (m, n)"
| "find_month m n [l] = (m, n)"
| "find_month m n (l # k # ls) = (if n < l then (m, n) else find_month (m + 1) (n - l) (k # ls))"

definition year_of :: "date \<Rightarrow> int" where
  \<comment> \<open>the year of an ordinal: whole cycles of 400, 100, 4 and 1 years\<close>
  "year_of n =
     (let n0 = n - 1; n400 = n0 div 146097; a = n0 mod 146097;
          n100 = a div 36524; b = a mod 36524;
          n4 = b div 1461; c = b mod 1461;
          n1 = c div 365;
          y = n400 * 400 + 1 + n100 * 100 + n4 * 4 + n1
      in if n1 = 4 \<or> n100 = 4 then y - 1 else y)"

definition fromordinal :: "date \<Rightarrow> civil" where
  "fromordinal n =
     (let y = year_of n; r = find_month 1 (n - 1 - days_before_year y) (month_lengths y)
      in \<lparr>year = y, month = fst r, day = snd r + 1\<rparr>)"

definition weekday :: "date \<Rightarrow> int" where
  \<comment> \<open>0 is Monday\<close>
  "weekday d = (d + 6) mod 7"

lemma div_step:
  assumes "1 < (k::int)"
  shows "(x + 1) div k = x div k + (if (x + 1) mod k = 0 then 1 else 0)"
proof -
  define q r where "q = x div k" and "r = x mod k"
  have x: "x = k * q + r" and r: "0 \<le> r" "r < k"
    using assms by (simp_all add: q_def r_def)
  show ?thesis
  proof (cases "r + 1 = k")
    case True
    then have "x + 1 = k * (q + 1) + 0" using x by (simp add: algebra_simps)
    then have "(x + 1) div k = q + 1" and "(x + 1) mod k = 0"
      using assms int_div_pos_eq [of "x + 1" k "q + 1" 0] int_mod_pos_eq [of "x + 1" k "q + 1" 0]
      by simp_all
    then show ?thesis by (simp add: q_def)
  next
    case False
    then have "x + 1 = k * q + (r + 1)" and "r + 1 < k" using x r by simp_all
    then have "(x + 1) div k = q" and "(x + 1) mod k = r + 1"
      using r int_div_pos_eq [of "x + 1" k q "r + 1"] int_mod_pos_eq [of "x + 1" k q "r + 1"]
      by simp_all
    then show ?thesis using r by (simp add: q_def)
  qed
qed

lemma mod_mod_zero: "(k::int) dvd l \<Longrightarrow> x mod l = 0 \<Longrightarrow> x mod k = 0"
  by (metis dvd_imp_mod_0 dvd_trans mod_0_imp_dvd)

lemma days_before_year_Suc:
  "days_before_year (y + 1) = days_before_year y + (if is_leap y then 366 else 365)"
proof -
  define d4 d100 d400 where "d4 = (y - 1) div 4" and "d100 = (y - 1) div 100"
    and "d400 = (y - 1) div 400"
  define m4 m100 m400 where "m4 \<longleftrightarrow> y mod 4 = 0" and "m100 \<longleftrightarrow> y mod 100 = 0"
    and "m400 \<longleftrightarrow> y mod 400 = 0"
  have sub: "m100 \<Longrightarrow> m4" "m400 \<Longrightarrow> m100"
    using mod_mod_zero [of 4 100 y] mod_mod_zero [of 100 400 y]
    by (simp_all add: m4_def m100_def m400_def)
  have q: "y div 4 = d4 + (if m4 then 1 else 0)" "y div 100 = d100 + (if m100 then 1 else 0)"
    "y div 400 = d400 + (if m400 then 1 else 0)"
    using div_step [of 4 "y - 1"] div_step [of 100 "y - 1"] div_step [of 400 "y - 1"]
    by (simp_all only: m4_def m100_def m400_def d4_def d100_def d400_def diff_add_cancel)
  have next_year: "days_before_year (y + 1) = y * 365 + (d4 + (if m4 then 1 else 0))
      - (d100 + (if m100 then 1 else 0)) + (d400 + (if m400 then 1 else 0))"
    by (simp only: days_before_year_def Let_def add_diff_cancel_right' q)
  have this_year: "days_before_year y = (y - 1) * 365 + d4 - d100 + d400"
    by (simp only: days_before_year_def Let_def d4_def d100_def d400_def)
  have leap: "is_leap y = (m4 \<and> (\<not> m100 \<or> m400))"
    by (simp only: is_leap_def m4_def m100_def m400_def)
  consider "m4" "m100" "m400" | "m4" "m100" "\<not> m400" | "m4" "\<not> m100" "\<not> m400"
    | "\<not> m4" "\<not> m100" "\<not> m400"
    using sub by blast
  then show ?thesis
    by cases (simp_all add: next_year this_year leap left_diff_distrib)
qed

lemma sum_month_lengths: "sum_list (month_lengths y) = (if is_leap y then 366 else 365)"
  by (simp add: month_lengths_def)

lemma length_month_lengths [simp]: "length (month_lengths y) = 12"
  by (simp add: month_lengths_def)

lemma days_in_month_bounds: "1 \<le> m \<Longrightarrow> m \<le> 12 \<Longrightarrow> 28 \<le> days_in_month y m \<and> days_in_month y m \<le> 31"
proof -
  assume "1 \<le> m" "m \<le> 12"
  then have "days_in_month y m \<in> set (month_lengths y)"
    by (simp add: days_in_month_def)
  then show ?thesis by (auto simp: month_lengths_def split: if_splits)
qed

lemma days_before_year_decomp:
  assumes "0 \<le> p" "p \<le> 3" "0 \<le> q" "q \<le> 24" "0 \<le> r" "r \<le> 3"
  shows "days_before_year (400 * m + 100 * p + 4 * q + r + 1)
    = 146097 * m + 36524 * p + 1461 * q + 365 * r"
proof -
  define y where "y = 400 * m + 100 * p + 4 * q + r"
  have "y div 4 = 100 * m + 25 * p + q"
    by (rule int_div_pos_eq [of y 4 _ r]) (use assms in \<open>simp_all add: y_def\<close>)
  moreover have "y div 100 = 4 * m + p"
    by (rule int_div_pos_eq [of y 100 _ "4 * q + r"]) (use assms in \<open>simp_all add: y_def\<close>)
  moreover have "y div 400 = m"
    by (rule int_div_pos_eq [of y 400 _ "100 * p + 4 * q + r"]) (use assms in \<open>simp_all add: y_def\<close>)
  ultimately have "days_before_year (y + 1)
      = y * 365 + (100 * m + 25 * p + q) - (4 * m + p) + m"
    by (simp only: days_before_year_def Let_def add_diff_cancel_right')
  then show ?thesis by (simp add: y_def)
qed

lemma year_of_bounds:
  "days_before_year (year_of n) < n \<and> n \<le> days_before_year (year_of n + 1)"
proof -
  define n0 where "n0 = n - 1"
  define m where "m = n0 div 146097"
  define a where "a = n0 mod 146097"
  define p where "p = a div 36524"
  define b where "b = a mod 36524"
  define q where "q = b div 1461"
  define c where "c = b mod 1461"
  define r where "r = c div 365"
  define d where "d = c mod 365"
  have n0: "n0 = 146097 * m + a"
    unfolding m_def a_def by (simp only: mult_div_mod_eq)
  have a: "a = 36524 * p + b"
    unfolding p_def b_def by (simp only: mult_div_mod_eq)
  have b: "b = 1461 * q + c"
    unfolding q_def c_def by (simp only: mult_div_mod_eq)
  have c: "c = 365 * r + d"
    unfolding r_def d_def by (simp only: mult_div_mod_eq)
  have a_b: "0 \<le> a" "a < 146097" and b_b: "0 \<le> b" "b < 36524" and c_b: "0 \<le> c" "c < 1461"
    and d_b: "0 \<le> d" "d < 365"
    unfolding a_def b_def c_def d_def by simp_all
  have p_b: "0 \<le> p" "p \<le> 4" using a a_b b_b by linarith+
  have q_b: "0 \<le> q" "q \<le> 24" using b b_b c_b by linarith+
  have r_b: "0 \<le> r" "r \<le> 4" using c c_b d_b by linarith+
  have year: "year_of n = (if r = 4 \<or> p = 4 then m * 400 + 1 + p * 100 + q * 4 + r - 1
      else m * 400 + 1 + p * 100 + q * 4 + r)"
    unfolding year_of_def Let_def n0_def m_def a_def p_def b_def q_def c_def r_def ..
  consider (whole) "p = 4" | (leap) "p \<noteq> 4" "r = 4" | (plain) "p \<le> 3" "r \<le> 3"
    using p_b r_b by linarith
  then show ?thesis
  proof cases
    case whole
    then have "a = 146096" "b = 0" using a a_b b_b by linarith+
    then have "q = 0" "r = 0" using b q_b c c_b r_b d_b by linarith+
    with whole year have y: "year_of n = 400 * m + 100 * 3 + 4 * 24 + 3 + 1" by simp
    moreover from y have "year_of n = 400 * (m + 1)" by simp
    then have "is_leap (year_of n)"
      using mod_mod_zero [of 4 400 "year_of n"] by (simp add: is_leap_def)
    ultimately show ?thesis
      using days_before_year_decomp [of 3 24 3 m] days_before_year_Suc [of "year_of n"]
        n0 \<open>a = 146096\<close> n0_def by simp
  next
    case leap
    then have p3: "p \<le> 3" and cv: "c = 1460" "d = 0" using p_b c c_b d_b by linarith+
    then have q23: "q \<le> 23" using b b_b by linarith
    from leap year have y: "year_of n = 400 * m + 100 * p + 4 * q + 3 + 1" by simp
    moreover have "year_of n = 4 * (100 * m + 25 * p + q + 1)" using y by simp
    then have "year_of n mod 4 = 0" by simp
    moreover have "year_of n mod 100 = 4 * q + 4"
      using y q23 q_b int_mod_pos_eq [of "year_of n" 100 "4 * m + p" "4 * q + 4"] by simp
    then have "year_of n mod 100 \<noteq> 0" using q_b by simp
    ultimately have "is_leap (year_of n)" by (simp add: is_leap_def)
    with y show ?thesis
      using days_before_year_decomp [of p q 3 m] days_before_year_Suc [of "year_of n"]
        p_b p3 q_b n0 a b cv n0_def by simp
  next
    case plain
    with year have y: "year_of n = 400 * m + 100 * p + 4 * q + r + 1" by simp
    then show ?thesis
      using days_before_year_decomp [of p q r m] days_before_year_Suc [of "year_of n"]
        plain p_b q_b r_b n0 a b c d_b n0_def by auto
  qed
qed

lemma find_month_sound:
  assumes "0 \<le> n" and "n < sum_list ls" and "find_month m n ls = (k, d)"
  shows "\<exists>i < length ls. k = m + i \<and> 0 \<le> d \<and> d < ls ! i \<and> n = sum_list (take i ls) + d"
  using assms
proof (induction m n ls arbitrary: k d rule: find_month.induct)
  case (1 m n)
  then show ?case by simp
next
  case (2 m n l)
  then show ?case by simp
next
  case (3 m n l l' ls)
  show ?case
  proof (cases "n < l")
    case True
    with "3.prems" show ?thesis by (intro exI [of _ 0]) auto
  next
    case False
    with "3.prems" obtain i where "i < length (l' # ls)" "k = m + 1 + i" "0 \<le> d"
      "d < (l' # ls) ! i" "n - l = sum_list (take i (l' # ls)) + d"
      using "3.IH" [OF False, of k d] by auto
    then show ?thesis by (intro exI [of _ "Suc i"]) auto
  qed
qed

lemma fromordinal_sound: "valid_civil (fromordinal n) \<and> toordinal (fromordinal n) = n"
proof -
  define y where "y = year_of n"
  define k where "k = n - 1 - days_before_year y"
  obtain m d where md: "find_month 1 k (month_lengths y) = (m, d)"
    by (cases "find_month 1 k (month_lengths y)")
  have "0 \<le> k" and "k < sum_list (month_lengths y)"
    using year_of_bounds [of n] days_before_year_Suc [of y]
    by (auto simp: k_def y_def sum_month_lengths)
  from find_month_sound [OF this md] obtain i where i: "i < 12" "m = 1 + i" "0 \<le> d"
    "d < month_lengths y ! i" "k = sum_list (take i (month_lengths y)) + d"
    by auto
  have "fromordinal n = \<lparr>year = y, month = m, day = d + 1\<rparr>"
    using md by (simp add: fromordinal_def Let_def y_def k_def)
  with i show ?thesis
    by (simp add: valid_civil_def toordinal_def days_in_month_def days_before_month_def k_def)
qed

lemma sum_take_mono:
  assumes "\<And>x. x \<in> set xs \<Longrightarrow> 0 \<le> (x::int)" and "i \<le> j"
  shows "sum_list (take i xs) \<le> sum_list (take j xs)"
proof -
  have "take j xs = take i xs @ take (j - i) (drop i xs)"
    using assms(2) by (metis le_add_diff_inverse take_add)
  moreover have "0 \<le> sum_list (take (j - i) (drop i xs))"
    using assms(1) by (intro sum_list_nonneg) (auto dest!: in_set_takeD in_set_dropD)
  ultimately show ?thesis by simp
qed

lemma month_lengths_nonneg: "x \<in> set (month_lengths y) \<Longrightarrow> 0 \<le> x"
  by (auto simp: month_lengths_def split: if_splits)

lemma days_through_month:
  "1 \<le> m \<Longrightarrow> m \<le> 12
    \<Longrightarrow> days_before_month y m + days_in_month y m = sum_list (take m (month_lengths y))"
  by (cases m) (simp_all add: days_before_month_def days_in_month_def take_Suc_conv_app_nth)

lemma days_before_month_step:
  assumes "1 \<le> m" "m < m'" "m' \<le> 12"
  shows "days_before_month y m + days_in_month y m \<le> days_before_month y m'"
  using assms sum_take_mono [of "month_lengths y" m "m' - 1"]
  by (simp add: days_through_month month_lengths_nonneg days_before_month_def [of y m'])

lemma days_before_month_year:
  assumes "1 \<le> m" "m \<le> 12"
  shows "days_before_month y m + days_in_month y m \<le> (if is_leap y then 366 else 365)"
  using assms sum_take_mono [of "month_lengths y" m 12] sum_month_lengths [of y]
  by (simp add: days_through_month month_lengths_nonneg)

lemma days_before_month_nonneg: "0 \<le> days_before_month y m"
  unfolding days_before_month_def
  by (intro sum_list_nonneg) (auto dest!: in_set_takeD simp: month_lengths_nonneg)

lemma days_before_year_mono: "y \<le> y' \<Longrightarrow> days_before_year y \<le> days_before_year y'"
proof (induction "nat (y' - y)" arbitrary: y')
  case 0
  then show ?case by simp
next
  case (Suc k)
  then have "days_before_year y \<le> days_before_year (y' - 1)" by auto
  then show ?case using days_before_year_Suc [of "y' - 1"] by auto
qed

text \<open>Ordinals order dates as their year, month and day do.\<close>

lemma toordinal_mono_year:
  assumes "valid_civil c" and "valid_civil c'" and "year c < year c'"
  shows "toordinal c < toordinal c'"
proof -
  have "days_before_year (year c + 1) \<le> days_before_year (year c')"
    using assms(3) by (intro days_before_year_mono) simp
  then show ?thesis
    using assms days_before_year_Suc [of "year c"] days_before_month_year [of "month c" "year c"]
      days_before_month_nonneg [of "year c'" "month c'"]
    by (auto simp: toordinal_def valid_civil_def split: if_splits)
qed

lemma toordinal_mono_month:
  assumes "valid_civil c" and "valid_civil c'" and "year c = year c'" and "month c < month c'"
  shows "toordinal c < toordinal c'"
  using assms days_before_month_step [of "month c" "month c'" "year c"]
  by (auto simp: toordinal_def valid_civil_def)

lemma toordinal_less_iff:
  assumes "valid_civil c" and "valid_civil c'"
  shows "toordinal c < toordinal c' \<longleftrightarrow> (year c, month c, day c) < (year c', month c', day c')"
proof (cases "year c = year c' \<and> month c = month c'")
  case True
  then show ?thesis by (auto simp: toordinal_def)
next
  case False
  then show ?thesis
    using assms toordinal_mono_year [of c c'] toordinal_mono_year [of c' c]
      toordinal_mono_month [of c c'] toordinal_mono_month [of c' c]
    by (cases "year c" "year c'" rule: linorder_cases; cases "month c" "month c'" rule: linorder_cases)
      auto
qed

lemma toordinal_inject:
  assumes "valid_civil c" and "valid_civil c'" and "toordinal c = toordinal c'"
  shows "c = c'"
proof -
  have "\<not> (year c, month c, day c) < (year c', month c', day c')"
    and "\<not> (year c', month c', day c') < (year c, month c, day c)"
    using toordinal_less_iff [OF assms(1,2)] toordinal_less_iff [OF assms(2,1)] assms(3)
    by (auto simp del: less_prod_simp)
  then show ?thesis by (auto simp: not_less)
qed

lemma fromordinal_toordinal [simp]: "valid_civil c \<Longrightarrow> fromordinal (toordinal c) = c"
  using toordinal_inject fromordinal_sound by blast

lemma toordinal_fromordinal [simp]: "toordinal (fromordinal n) = n"
  using fromordinal_sound by blast

lemma valid_fromordinal [simp]: "valid_civil (fromordinal n)"
  using fromordinal_sound by blast

subsection \<open>A mandate's cadence\<close>

datatype cadence = Monthly | Quarterly | Yearly

fun cadence_months :: "cadence \<Rightarrow> nat" where
  "cadence_months Monthly = 1"
| "cadence_months Quarterly = 3"
| "cadence_months Yearly = 12"

definition advance_by_cadence :: "date \<Rightarrow> cadence \<Rightarrow> date" where
  "advance_by_cadence d c =
     (let cd = fromordinal d;
          months = month cd - 1 + cadence_months c;
          y = year cd + int (months div 12);
          m = months mod 12 + 1
      in mk_date y m (min (day cd) (days_in_month y m)))"

definition last_day_of_month :: "int \<Rightarrow> nat \<Rightarrow> date" where
  "last_day_of_month y m = mk_date y m (days_in_month y m)"

subsection \<open>Report subscriptions\<close>

datatype report_cadence = WeeklyReport | MonthlyReport | QuarterlyReport | YearlyReport

definition all_months :: "nat list" where
  "all_months = [1..<13]"

definition quarter_months :: "nat list" where
  "quarter_months = [1, 4, 7, 10]"

definition first_of_month_after :: "date \<Rightarrow> nat list \<Rightarrow> date" where
  "first_of_month_after d months =
     (let cd = fromordinal d in
      case filter (\<lambda>m. m > month cd) months of
        m # _ \<Rightarrow> mk_date (year cd) m 1
      | [] \<Rightarrow> mk_date (year cd + 1) (hd months) 1)"

fun next_due_after :: "report_cadence \<Rightarrow> int \<Rightarrow> date \<Rightarrow> date" where
  "next_due_after WeeklyReport wd d =
     (let ahead = (wd - weekday d) mod 7 in d + (if ahead = 0 then 7 else ahead))"
| "next_due_after MonthlyReport wd d = first_of_month_after d all_months"
| "next_due_after QuarterlyReport wd d = first_of_month_after d quarter_months"
| "next_due_after YearlyReport wd d = mk_date (year (fromordinal d) + 1) 1 1"

subsection \<open>Ledger dates\<close>

definition clock_grace_days :: int where
  "clock_grace_days = 1"

definition latest_ledger_date :: "date \<Rightarrow> date" where
  "latest_ledger_date today = today + clock_grace_days"

definition is_in_the_future :: "date \<Rightarrow> date \<Rightarrow> bool" where
  "is_in_the_future v today \<longleftrightarrow> v > latest_ledger_date today"

subsection \<open>What the date rules promise\<close>

lemma date_less_iff:
  "d < d' \<longleftrightarrow> (year (fromordinal d), month (fromordinal d), day (fromordinal d))
     < (year (fromordinal d'), month (fromordinal d'), day (fromordinal d'))"
  using toordinal_less_iff [of "fromordinal d" "fromordinal d'"] by simp

lemma valid_civil_first: "1 \<le> m \<Longrightarrow> m \<le> 12 \<Longrightarrow> valid_civil \<lparr>year = y, month = m, day = 1\<rparr>"
  using days_in_month_bounds [of m y] by (simp add: valid_civil_def)

lemma fromordinal_first [simp]:
  "1 \<le> m \<Longrightarrow> m \<le> 12 \<Longrightarrow> fromordinal (mk_date y m 1) = \<lparr>year = y, month = m, day = 1\<rparr>"
  unfolding mk_date_def by (intro fromordinal_toordinal valid_civil_first)

lemma fromordinal_advance:
  "fromordinal (advance_by_cadence d c)
    = (let cd = fromordinal d; months = month cd - 1 + cadence_months c;
           y = year cd + int (months div 12); m = months mod 12 + 1
       in \<lparr>year = y, month = m, day = min (day cd) (days_in_month y m)\<rparr>)"
proof -
  define cd where "cd = fromordinal d"
  define m where "m = (month cd - 1 + cadence_months c) mod 12 + 1"
  define y where "y = year cd + int ((month cd - 1 + cadence_months c) div 12)"
  have "valid_civil cd" by (simp add: cd_def)
  moreover have m_b: "1 \<le> m" "m \<le> 12" unfolding m_def by simp_all
  ultimately have "valid_civil \<lparr>year = y, month = m, day = min (day cd) (days_in_month y m)\<rparr>"
    using days_in_month_bounds [OF m_b, of y] by (simp add: valid_civil_def)
  then have "fromordinal (mk_date y m (min (day cd) (days_in_month y m)))
      = \<lparr>year = y, month = m, day = min (day cd) (days_in_month y m)\<rparr>"
    unfolding mk_date_def by (rule fromordinal_toordinal)
  then show ?thesis
    by (simp add: advance_by_cadence_def Let_def cd_def m_def y_def)
qed

text \<open>Moving a charge date on by a mandate's cadence always gives a later date: one, three or
  twelve months on, in the right year and month, with the day kept or clamped to the last day of
  the shorter month; so a successful charge of a recurring donation never leaves its next charge
  on or before the day just charged.\<close>

theorem advance_by_cadence_later:
  "d < advance_by_cadence d c
   \<and> year (fromordinal (advance_by_cadence d c)) * 12 + int (month (fromordinal (advance_by_cadence d c)))
     = year (fromordinal d) * 12 + int (month (fromordinal d)) + int (cadence_months c)
   \<and> day (fromordinal (advance_by_cadence d c))
     = min (day (fromordinal d))
         (days_in_month (year (fromordinal (advance_by_cadence d c)))
           (month (fromordinal (advance_by_cadence d c))))"
proof -
  define cd where "cd = fromordinal d"
  define k where "k = month cd - 1 + cadence_months c"
  define m where "m = k mod 12 + 1"
  define y where "y = year cd + int (k div 12)"
  have adv: "fromordinal (advance_by_cadence d c)
      = \<lparr>year = y, month = m, day = min (day cd) (days_in_month y m)\<rparr>"
    by (simp add: fromordinal_advance Let_def cd_def k_def m_def y_def)
  have mb: "1 \<le> month cd" "month cd \<le> 12"
    using valid_fromordinal [of d] by (simp_all add: valid_civil_def cd_def)
  have "int k = int (k div 12) * 12 + int (k mod 12)"
    by (metis mult_div_mod_eq mult.commute of_nat_add of_nat_mult of_nat_numeral)
  then have shift: "y * 12 + int m = year cd * 12 + int (month cd) + int (cadence_months c)"
    using mb by (simp add: m_def y_def k_def)
  moreover have "1 \<le> cadence_months c" by (cases c) simp_all
  moreover have "m \<le> 12" by (simp add: m_def)
  ultimately have "year cd < y \<or> year cd = y \<and> month cd < m"
    using mb by linarith
  then have "d < advance_by_cadence d c"
    by (auto simp: date_less_iff [of d] adv simp flip: cd_def)
  with shift adv show ?thesis by (simp flip: cd_def)
qed

text \<open>What it means for a report cadence to fall on a date.\<close>

fun falls_on :: "report_cadence \<Rightarrow> int \<Rightarrow> date \<Rightarrow> bool" where
  "falls_on WeeklyReport wd d = (weekday d = wd)"
| "falls_on MonthlyReport wd d = (day (fromordinal d) = 1)"
| "falls_on QuarterlyReport wd d
    = (day (fromordinal d) = 1 \<and> month (fromordinal d) \<in> {1, 4, 7, 10})"
| "falls_on YearlyReport wd d = (day (fromordinal d) = 1 \<and> month (fromordinal d) = 1)"

lemma weekly_next:
  assumes "0 \<le> wd" "wd \<le> 6"
  shows "d < next_due_after WeeklyReport wd d" and "weekday (next_due_after WeeklyReport wd d) = wd"
    and "d < x \<Longrightarrow> x < next_due_after WeeklyReport wd d \<Longrightarrow> weekday x \<noteq> wd"
proof -
  define a where "a = (wd - weekday d) mod 7"
  have n: "next_due_after WeeklyReport wd d = d + (if a = 0 then 7 else a)"
    by (simp add: a_def Let_def)
  have a: "0 \<le> a" "a < 7" by (simp_all add: a_def)
  show "d < next_due_after WeeklyReport wd d" using a n by simp
  define q where "q = (d + 6) div 7"
  define r where "r = (wd - weekday d) div 7"
  have "d + a + 6 = wd + 7 * (q - r)"
    using minus_mult_div_eq_mod [of "d + 6" 7] minus_mult_div_eq_mod [of "wd - weekday d" 7]
    by (simp add: a_def q_def r_def weekday_def)
  then have "weekday (d + a) = (wd + 7 * (q - r)) mod 7"
    by (simp only: weekday_def)
  also have "\<dots> = wd mod 7" by (rule mod_mult_self2)
  finally have da: "weekday (d + a) = wd" using assms by simp
  moreover have "weekday (d + 7) = weekday d"
    using mod_mult_self2 [of "d + 6" 7 1] by (simp add: weekday_def ac_simps)
  ultimately show "weekday (next_due_after WeeklyReport wd d) = wd" using n by auto
  show "weekday x \<noteq> wd" if "d < x" "x < next_due_after WeeklyReport wd d"
  proof
    assume "weekday x = wd"
    with da have "(x + 6) mod 7 = (d + a + 6) mod 7"
      by (simp add: weekday_def)
    then have "7 dvd (x + 6) - (d + a + 6)"
      by (simp only: mod_eq_dvd_iff)
    then have "7 dvd (x - (d + a))" by (simp add: algebra_simps)
    then obtain k where k: "x - (d + a) = 7 * k" ..
    have x: "d < x" "x < d + (if a = 0 then 7 else a)" using that n by simp_all
    show False
    proof (cases "a = 0")
      case True
      with k x have "0 < 7 * k" "7 * k < 7" by simp_all
      then show False by presburger
    next
      case False
      with k x a have "- 7 < 7 * k" "7 * k < 0" by simp_all
      then show False by presburger
    qed
  qed
qed

lemma first_of_month_after_spec:
  assumes "sorted_wrt (<) ms" and "hd ms = 1" and "set ms \<subseteq> {1..12}" and "ms \<noteq> []"
    and "n = first_of_month_after d ms"
  shows "d < n" and "day (fromordinal n) = 1 \<and> month (fromordinal n) \<in> set ms"
    and "d < x \<Longrightarrow> x < n \<Longrightarrow> \<not> (day (fromordinal x) = 1 \<and> month (fromordinal x) \<in> set ms)"
proof -
  define cd where "cd = fromordinal d"
  have cd: "1 \<le> month cd" "1 \<le> day cd"
    using valid_fromordinal [of d] by (simp_all add: valid_civil_def cd_def)
  have cx: "1 \<le> month (fromordinal x)" "1 \<le> day (fromordinal x)" for x
    using valid_fromordinal [of x] by (simp_all add: valid_civil_def)
  obtain y m where n: "n = mk_date y m 1" and m: "m \<in> set ms"
    and later: "year cd = y \<and> month cd < m \<or> year cd + 1 = y \<and> m = 1"
    and least: "\<And>k. k \<in> set ms \<Longrightarrow> month cd < k \<Longrightarrow> year cd = y \<and> m \<le> k"
  proof (cases "filter (\<lambda>m. m > month cd) ms")
    case Nil
    then have "\<forall>k \<in> set ms. \<not> month cd < k" by (simp add: filter_empty_conv)
    moreover have "1 \<in> set ms" using assms(2,4) by (metis hd_in_set)
    ultimately show ?thesis
      using that [of "year cd + 1" 1] Nil assms(2,5)
      by (auto simp: first_of_month_after_def Let_def cd_def)
  next
    case (Cons k ks)
    have "sorted_wrt (<) (k # ks)" using assms(1) Cons by (metis sorted_wrt_filter)
    moreover have km: "set (k # ks) = {m \<in> set ms. month cd < m}" using Cons by (metis set_filter)
    ultimately have "\<forall>j \<in> set ms. month cd < j \<longrightarrow> k \<le> j"
      by (auto simp: set_eq_iff less_imp_le)
    moreover have "k \<in> set ms" "month cd < k" using km by auto
    moreover have "n = mk_date (year cd) k 1"
      using Cons assms(5) by (simp add: first_of_month_after_def Let_def cd_def)
    ultimately show ?thesis using that [of "year cd" k] by blast
  qed
  have cn: "fromordinal n = \<lparr>year = y, month = m, day = 1\<rparr>"
    using m assms(3) n by auto
  show "day (fromordinal n) = 1 \<and> month (fromordinal n) \<in> set ms" using cn m by simp
  show "d < n" using later by (auto simp: date_less_iff [of d] cn simp flip: cd_def)
  show "\<not> (day (fromordinal x) = 1 \<and> month (fromordinal x) \<in> set ms)" if "d < x" "x < n"
  proof
    assume x: "day (fromordinal x) = 1 \<and> month (fromordinal x) \<in> set ms"
    have "(year cd, month cd, day cd) < (year (fromordinal x), month (fromordinal x), 1)"
      using that(1) x by (simp add: date_less_iff [of d] flip: cd_def)
    moreover have "(year (fromordinal x), month (fromordinal x), 1) < (y, m, 1::int)"
      using that(2) x by (simp add: date_less_iff [of x] cn)
    ultimately show False
      using later least [of "month (fromordinal x)"] x cd cx [of x] by auto
  qed
qed

text \<open>The next due date of a report subscription is the first date strictly after the given
  day on which its cadence falls: the chosen weekday, the first of a month, the first of a
  quarter, or the first of January; no date the cadence falls on is ever skipped.\<close>

theorem next_due_after_first:
  assumes "0 \<le> wd" and "wd \<le> 6"
  shows "d < next_due_after c wd d \<and> falls_on c wd (next_due_after c wd d)
    \<and> (\<forall>x. d < x \<and> x < next_due_after c wd d \<longrightarrow> \<not> falls_on c wd x)"
proof (cases c)
  case WeeklyReport
  with weekly_next [OF assms, of d] show ?thesis by auto
next
  case MonthlyReport
  have "sorted_wrt (<) all_months" "hd all_months = 1" "set all_months = {1..12}"
    "all_months \<noteq> []"
    by (simp_all add: all_months_def) auto
  with first_of_month_after_spec [of all_months "next_due_after c wd d" d] show ?thesis
    using MonthlyReport valid_fromordinal by (auto simp: valid_civil_def)
next
  case QuarterlyReport
  have "sorted_wrt (<) quarter_months" "hd quarter_months = 1" "set quarter_months = {1, 4, 7, 10}"
    "set quarter_months \<subseteq> {1..12}" "quarter_months \<noteq> []"
    by (auto simp: quarter_months_def)
  with first_of_month_after_spec [of quarter_months "next_due_after c wd d" d] show ?thesis
    using QuarterlyReport by auto
next
  case YearlyReport
  have "next_due_after c wd d = first_of_month_after d [1]"
    using valid_fromordinal [of d] YearlyReport
    by (auto simp: first_of_month_after_def Let_def valid_civil_def)
  with first_of_month_after_spec [of "[1]" "next_due_after c wd d" d] show ?thesis
    using YearlyReport by auto
qed

theorem next_due_after_first_witness:
  "100 < next_due_after WeeklyReport 3 100 \<and> falls_on WeeklyReport 3 (next_due_after WeeklyReport 3 100)"
  using next_due_after_first [of 3 100 WeeklyReport] by simp

end
