(* ===== verification/Store.thy ===== *)
theory Store
  imports Calendar
begin

text \<open>
  The database the services read and write: one record per Django model (its fields as the model
  declares them, each prefixed by the model's initials), the enumerations those models are keyed
  on, and the record \<open>db\<close> of all the tables, together with what the services emit besides rows:
  audit lines, notification events, mail, and calls to a payment provider.

  Columns that only a screen shows (\<open>updated_at\<close>, display labels, help texts) are left out.
  \<open>timezone.now()\<close> is the \<open>clock\<close> of the database record, so one operation runs at one instant and
  the environment moves the clock between operations.
\<close>

subsection \<open>Enumerations\<close>

datatype person_kind = Member | Friend | Donor

datatype term_status = TermActive | TermExpired | TermCanceled | TermSuspended

datatype term_source = SourcePayment | SourceManual | SourceSeed

datatype membership_state = StateCurrent | StateExpired | StateFriend | StateNone | StateDonor

datatype provider = Stripe | PayPal | Mock | Manual

datatype wallet = Card | ApplePay | GooglePay | Link | PayPalWallet | MockWallet | Check | Cash
  | BankTransfer | OtherWallet | UnknownWallet

datatype payment_status = Pending | Succeeded | Failed | PartiallyRefunded | Refunded

datatype refund_reason = RequestedByMember | Duplicate | ChargedInError | Fraudulent | OtherReason

datatype refund_status = RefundPending | RefundSucceeded | RefundFailed

datatype mandate_status = MandatePending | MandateActive | MandatePaused | MandateCanceled

datatype renewal_outcome = Scheduled | AttemptSucceeded | AttemptFailed | AttemptSkipped

datatype reminder_kind = First | Second | Final | ExpiredKind | Lapsed

subsection \<open>JSON columns\<close>

datatype json = JNull | JBool bool | JInt int | JStr string | JObj "(string \<times> json) list"

type_synonym json_object = "(string \<times> json) list"

subsection \<open>Rows\<close>

record user =
  u_id :: pk
  u_email :: string
  u_first_name :: string
  u_last_name :: string
  u_is_active :: bool
  u_kind :: person_kind
  u_friend_on :: "date option"

record profile =
  pf_user :: pk
  pf_member_since :: "date option"
  pf_details :: json_object

record plan =
  pl_id :: pk
  pl_name :: string
  pl_slug :: string
  pl_price_cents :: int
  pl_duration_days :: "int option"
  pl_is_active :: bool

record membership =
  m_id :: pk
  m_user :: pk
  m_plan :: pk
  m_starts_on :: date
  m_ends_on :: "date option"
  m_status :: term_status
  m_source :: term_source
  m_payment :: "pk option"
  m_granted_by :: "pk option"
  m_note :: string

record payment =
  p_id :: pk
  p_user :: pk
  p_plan :: "pk option"
  p_amount_cents :: int
  p_plan_amount_cents :: int
  p_contribution_cents :: int
  p_provider :: provider
  p_wallet :: wallet
  p_provider_ref :: string
  p_charge_customer_ref :: string
  p_charge_method_ref :: string
  p_charge_sent_at :: "moment option"
  p_status :: payment_status
  p_completed_at :: "moment option"
  p_fee_cents :: int
  p_net_cents :: int
  p_receipt_sent_at :: "moment option"
  p_received_on :: "date option"
  p_raw :: json_object
  p_donor_fields :: json_object

record refund =
  rf_id :: pk
  rf_payment :: pk
  rf_amount_cents :: int
  rf_reason :: refund_reason
  rf_note :: string
  rf_status :: refund_status
  rf_provider_ref :: string
  rf_requested_by :: "pk option"
  rf_refunded_at :: "moment option"
  rf_raw :: json_object

record mandate =
  rm_id :: pk
  rm_user :: pk
  rm_plan :: "pk option"
  rm_contribution_cents :: int
  rm_cadence :: cadence
  rm_next_charge_on :: date
  rm_provider :: provider
  rm_customer_ref :: string
  rm_method_ref :: string
  rm_method_brand :: string
  rm_method_last4 :: string
  rm_method_exp_month :: "nat option"
  rm_method_exp_year :: "int option"
  rm_method_label :: string
  rm_status :: mandate_status
  rm_failure_count :: nat
  rm_canceled_at :: "moment option"
  rm_canceled_by :: "pk option"
  rm_last_charged_at :: "moment option"
  rm_raw :: json_object

record attempt =
  ra_id :: pk
  ra_mandate :: pk
  ra_membership :: "pk option"
  ra_scheduled_on :: date
  ra_retry_of :: "pk option"
  ra_outcome :: renewal_outcome
  ra_payment :: "pk option"
  ra_error :: string
  ra_noticed_at :: "moment option"
  ra_attempted_at :: "moment option"
  ra_in_doubt :: bool
  ra_flagged_at :: "moment option"
  ra_result_emailed_at :: "moment option"

record reminder_log =
  rl_user :: pk
  rl_membership :: pk
  rl_kind :: reminder_kind
  rl_sent_at :: moment
  rl_to_email :: string

record reminder_schedule =
  first_days_before :: int
  second_days_before :: int
  final_days_before :: int
  lapsed_days_after :: int

subsection \<open>What the services emit\<close>

datatype actor = Command | Anonymous | Account pk

datatype audit_value = AInt int | ABool bool | ASlug string | ASlugs "string list" | ADate date

record audit_line =
  al_action :: string
  al_actor :: actor
  al_target :: "pk option"
  al_refused :: bool
  al_fields :: "(string \<times> audit_value) list"

datatype off_how = OffMember | OffAdministrator | OffLapsed | OffDeactivated | OffDeleted

datatype friend_how = FriendChose | FriendAdministrator | FriendLapsed

datatype member_how = MemberPaid | MemberGranted

text \<open>The notification events of \<open>caldart/events.py\<close> the modelled services raise, with their payloads.\<close>

datatype event =
    BecameFriend pk friend_how
  | BecameMember pk member_how
  | MembershipPaid pk pk bool
  | MembershipGranted pk pk pk
  | MembershipExpired pk pk
  | AutoRenewalOn pk
  | AutoRenewalOff pk off_how
  | AutoRenewalDeclined pk string "date option"
  | RenewalNeedsChecking pk pk string
  | DonationReceived pk
  | PaymentRefunded pk int "pk option" bool

text \<open>Mail: what is sent, to which account, and whether the mail server took it.\<close>

datatype mail =
    MandateMail string pk "date option"
  | ReceiptMail pk
  | RefundMail pk bool
  | ReminderMail reminder_kind pk pk

text \<open>Calls to a payment provider's network API that could move money, for stating what is asked.\<close>

datatype provider_call = ChargeCall pk | FindCall pk | RefundCall pk | AbandonCall pk

subsection \<open>The database\<close>

record db =
  users :: "user list"
  profiles :: "profile list"
  plans :: "plan list"
  terms :: "membership list"
  payments :: "payment list"
  refunds :: "refund list"
  mandates :: "mandate list"
  attempts :: "attempt list"
  reminder_logs :: "reminder_log list"
  schedule_row :: "reminder_schedule option"
  next_pk :: pk
  clock :: moment
  audit_log :: "audit_line list"
  events :: "event list"
  outbox :: "(mail \<times> bool) list"
  on_commit :: "mail list"
  provider_calls :: "provider_call list"

text \<open>
  What a service reads from outside the database.  \<open>localdate\<close> is \<open>timezone.localdate\<close>, the day a
  moment falls on in the organization's time zone; \<open>mail_accepted n m\<close> says whether the mail server
  takes the message \<open>m\<close> when \<open>n\<close> were handed to it before; \<open>stale_seconds\<close> is the setting
  \<open>RENEWAL_STALE_MINUTES\<close>, in seconds; \<open>mock_enabled\<close> is \<open>PAYMENTS_MOCK_ENABLED\<close>.
\<close>

record config =
  localdate :: "moment \<Rightarrow> date"
  mail_accepted :: "nat \<Rightarrow> mail \<Rightarrow> bool"
  stale_seconds :: int
  mock_enabled :: bool

definition local_today :: "config \<Rightarrow> db \<Rightarrow> date" where
  "local_today cfg d = localdate cfg (clock d)"

subsection \<open>Reading and writing rows\<close>

definition get_user :: "db \<Rightarrow> pk \<Rightarrow> user option" where
  "get_user d k = row_get u_id (users d) k"

definition put_user :: "user \<Rightarrow> db \<Rightarrow> db" where
  "put_user r d = d\<lparr>users := row_put u_id r (users d)\<rparr>"

definition get_plan :: "db \<Rightarrow> pk \<Rightarrow> plan option" where
  "get_plan d k = row_get pl_id (plans d) k"

definition get_term :: "db \<Rightarrow> pk \<Rightarrow> membership option" where
  "get_term d k = row_get m_id (terms d) k"

definition put_term :: "membership \<Rightarrow> db \<Rightarrow> db" where
  "put_term r d = d\<lparr>terms := row_put m_id r (terms d)\<rparr>"

definition get_payment :: "db \<Rightarrow> pk \<Rightarrow> payment option" where
  "get_payment d k = row_get p_id (payments d) k"

definition put_payment :: "payment \<Rightarrow> db \<Rightarrow> db" where
  "put_payment r d = d\<lparr>payments := row_put p_id r (payments d)\<rparr>"

definition get_refund :: "db \<Rightarrow> pk \<Rightarrow> refund option" where
  "get_refund d k = row_get rf_id (refunds d) k"

definition put_refund :: "refund \<Rightarrow> db \<Rightarrow> db" where
  "put_refund r d = d\<lparr>refunds := row_put rf_id r (refunds d)\<rparr>"

definition get_mandate :: "db \<Rightarrow> pk \<Rightarrow> mandate option" where
  "get_mandate d k = row_get rm_id (mandates d) k"

definition put_mandate :: "mandate \<Rightarrow> db \<Rightarrow> db" where
  "put_mandate r d = d\<lparr>mandates := row_put rm_id r (mandates d)\<rparr>"

definition get_attempt :: "db \<Rightarrow> pk \<Rightarrow> attempt option" where
  "get_attempt d k = row_get ra_id (attempts d) k"

definition put_attempt :: "attempt \<Rightarrow> db \<Rightarrow> db" where
  "put_attempt r d = d\<lparr>attempts := row_put ra_id r (attempts d)\<rparr>"

lemmas store_defs [model_defs] =
  get_user_def put_user_def get_plan_def get_term_def put_term_def get_payment_def
  put_payment_def get_refund_def put_refund_def get_mandate_def put_mandate_def
  get_attempt_def put_attempt_def

text \<open>
  The interface every table offers its clients: saving a row makes later reads of that key answer
  the saved row, leaves every other key alone, and never makes a row that was not there.
\<close>

locale store_table =
  fixes get :: "'s \<Rightarrow> pk \<Rightarrow> 'r option"
    and put :: "'r \<Rightarrow> 's \<Rightarrow> 's"
    and key :: "'r \<Rightarrow> pk"
  assumes get_put: "get (put r s) k = (if k = key r \<and> get s k \<noteq> None then Some r else get s k)"
    and get_key: "get s k = Some r \<Longrightarrow> key r = k"
    and put_twice: "key r = key r' \<Longrightarrow> put r' (put r s) = put r' s"
begin

lemma get_put_same: "get s (key r) = Some r0 \<Longrightarrow> get (put r s) (key r) = Some r"
  by (simp add: get_put)

lemma get_put_other: "k \<noteq> key r \<Longrightarrow> get (put r s) k = get s k"
  by (simp add: get_put)

lemma get_put_None_iff: "get (put r s) k = None \<longleftrightarrow> get s k = None"
  by (auto simp: get_put)

lemma get_put_commute:
  "key r \<noteq> key r' \<Longrightarrow> get (put r (put r' s)) k = get (put r' (put r s)) k"
  by (auto simp: get_put)

lemma get_put_put: "key r = key r' \<Longrightarrow> get (put r' (put r s)) k = get (put r' s) k"
  by (simp add: put_twice)

lemma get_put_Some:
  "get (put r s) k = Some x \<Longrightarrow> x = r \<and> k = key r \<or> get s k = Some x \<and> k \<noteq> key r"
  by (auto simp: get_put split: if_splits)

end

lemma row_put_twice: "key r = key r' \<Longrightarrow> row_put key r' (row_put key r t) = row_put key r' t"
  by (simp add: row_put_def rows_update_def)

interpretation user_table: store_table get_user put_user u_id
  by unfold_locales (auto simp: store_defs row_put_twice dest: row_get_SomeD)

interpretation term_table: store_table get_term put_term m_id
  by unfold_locales (auto simp: store_defs row_put_twice dest: row_get_SomeD)

interpretation payment_table: store_table get_payment put_payment p_id
  by unfold_locales (auto simp: store_defs row_put_twice dest: row_get_SomeD)

interpretation refund_table: store_table get_refund put_refund rf_id
  by unfold_locales (auto simp: store_defs row_put_twice dest: row_get_SomeD)

interpretation mandate_table: store_table get_mandate put_mandate rm_id
  by unfold_locales (auto simp: store_defs row_put_twice dest: row_get_SomeD)

interpretation attempt_table: store_table get_attempt put_attempt ra_id
  by unfold_locales (auto simp: store_defs row_put_twice dest: row_get_SomeD)

lemmas table_get_put [table_simps] =
  user_table.get_put term_table.get_put payment_table.get_put refund_table.get_put
  mandate_table.get_put attempt_table.get_put

text \<open>
  \<open>row.save(update_fields=[...])\<close> of a row held in memory writes the columns it names into the
  stored row and leaves the others as the table has them: the columns are written by \<open>f\<close>.
\<close>

definition edit_user :: "pk \<Rightarrow> (user \<Rightarrow> user) \<Rightarrow> db \<Rightarrow> db" where
  "edit_user k f d = d\<lparr>users := rows_update (\<lambda>r. u_id r = k) f (users d)\<rparr>"

definition edit_term :: "pk \<Rightarrow> (membership \<Rightarrow> membership) \<Rightarrow> db \<Rightarrow> db" where
  "edit_term k f d = d\<lparr>terms := rows_update (\<lambda>r. m_id r = k) f (terms d)\<rparr>"

definition edit_payment :: "pk \<Rightarrow> (payment \<Rightarrow> payment) \<Rightarrow> db \<Rightarrow> db" where
  "edit_payment k f d = d\<lparr>payments := rows_update (\<lambda>r. p_id r = k) f (payments d)\<rparr>"

definition edit_refund :: "pk \<Rightarrow> (refund \<Rightarrow> refund) \<Rightarrow> db \<Rightarrow> db" where
  "edit_refund k f d = d\<lparr>refunds := rows_update (\<lambda>r. rf_id r = k) f (refunds d)\<rparr>"

definition edit_mandate :: "pk \<Rightarrow> (mandate \<Rightarrow> mandate) \<Rightarrow> db \<Rightarrow> db" where
  "edit_mandate k f d = d\<lparr>mandates := rows_update (\<lambda>r. rm_id r = k) f (mandates d)\<rparr>"

definition edit_attempt :: "pk \<Rightarrow> (attempt \<Rightarrow> attempt) \<Rightarrow> db \<Rightarrow> db" where
  "edit_attempt k f d = d\<lparr>attempts := rows_update (\<lambda>r. ra_id r = k) f (attempts d)\<rparr>"

lemmas edit_defs = edit_user_def edit_term_def edit_payment_def edit_refund_def edit_mandate_def
  edit_attempt_def

text \<open>What a write of some columns promises: the row it names changes by \<open>f\<close>, the rest stay.\<close>

locale editable_table =
  fixes get :: "'s \<Rightarrow> pk \<Rightarrow> 'r option"
    and edit :: "pk \<Rightarrow> ('r \<Rightarrow> 'r) \<Rightarrow> 's \<Rightarrow> 's"
    and key :: "'r \<Rightarrow> pk"
  assumes get_edit: "(\<And>r. key (f r) = key r) \<Longrightarrow>
      get (edit k f s) j = (if j = k then map_option f (get s j) else get s j)"
    and edit_missing: "get s k = None \<Longrightarrow> edit k f s = s"
begin

lemma get_edit_same: "(\<And>r. key (f r) = key r) \<Longrightarrow> get s k = Some r \<Longrightarrow> get (edit k f s) k = Some (f r)"
  by (simp add: get_edit)

lemma get_edit_other: "(\<And>r. key (f r) = key r) \<Longrightarrow> j \<noteq> k \<Longrightarrow> get (edit k f s) j = get s j"
  by (simp add: get_edit)

lemma get_edit_None_iff:
  "(\<And>r. key (f r) = key r) \<Longrightarrow> get (edit k f s) j = None \<longleftrightarrow> get s j = None"
  by (simp add: get_edit)

end

lemma row_get_rows_edit:
  assumes "\<And>r. key (f r) = key r"
  shows "row_get key (rows_update (\<lambda>r. key r = k) f t) j
    = (if j = k then map_option f (row_get key t j) else row_get key t j)"
  using assms by (induction t) auto

lemma rows_edit_missing: "row_get key t k = None \<Longrightarrow> rows_update (\<lambda>r. key r = k) f t = t"
  by (intro rows_update_none) (auto dest: row_get_NoneD)

interpretation user_edit: editable_table get_user edit_user u_id
  by unfold_locales (simp_all add: store_defs edit_defs row_get_rows_edit rows_edit_missing)

interpretation term_edit: editable_table get_term edit_term m_id
  by unfold_locales (simp_all add: store_defs edit_defs row_get_rows_edit rows_edit_missing)

interpretation payment_edit: editable_table get_payment edit_payment p_id
  by unfold_locales (simp_all add: store_defs edit_defs row_get_rows_edit rows_edit_missing)

interpretation refund_edit: editable_table get_refund edit_refund rf_id
  by unfold_locales (simp_all add: store_defs edit_defs row_get_rows_edit rows_edit_missing)

interpretation mandate_edit: editable_table get_mandate edit_mandate rm_id
  by unfold_locales (simp_all add: store_defs edit_defs row_get_rows_edit rows_edit_missing)

interpretation attempt_edit: editable_table get_attempt edit_attempt ra_id
  by unfold_locales (simp_all add: store_defs edit_defs row_get_rows_edit rows_edit_missing)

subsection \<open>Audit lines, events and mail\<close>

definition audit_record :: "string \<Rightarrow> actor \<Rightarrow> pk option \<Rightarrow> (string \<times> audit_value) list \<Rightarrow> db \<Rightarrow> db" where
  "audit_record action who target fs d = d\<lparr>audit_log := audit_log d @
     [\<lparr>al_action = action, al_actor = who, al_target = target, al_refused = False, al_fields = fs\<rparr>]\<rparr>"

definition audit_refuse :: "string \<Rightarrow> actor \<Rightarrow> pk option \<Rightarrow> string \<Rightarrow> db \<Rightarrow> db" where
  "audit_refuse action who target reason d = d\<lparr>audit_log := audit_log d @
     [\<lparr>al_action = action, al_actor = who, al_target = target, al_refused = True,
       al_fields = [(''reason'', ASlug reason)]\<rparr>]\<rparr>"

definition emit :: "event \<Rightarrow> db \<Rightarrow> db" where
  "emit e d = d\<lparr>events := events d @ [e]\<rparr>"

definition send_mail :: "config \<Rightarrow> mail \<Rightarrow> db \<Rightarrow> bool \<times> db" where
  "send_mail cfg m d =
     (let ok = mail_accepted cfg (length (outbox d)) m
      in (ok, d\<lparr>outbox := outbox d @ [(m, ok)]\<rparr>))"

definition queue_mail :: "mail \<Rightarrow> db \<Rightarrow> db" where
  \<comment> \<open>\<open>transaction.on_commit\<close>: the message goes once the transaction has committed\<close>
  "queue_mail m d = d\<lparr>on_commit := on_commit d @ [m]\<rparr>"

definition call_provider :: "provider_call \<Rightarrow> db \<Rightarrow> db" where
  "call_provider c d = d\<lparr>provider_calls := provider_calls d @ [c]\<rparr>"

definition fresh_pk :: "db \<Rightarrow> pk \<times> db" where
  "fresh_pk d = (next_pk d, d\<lparr>next_pk := Suc (next_pk d)\<rparr>)"

subsection \<open>Errors and transactions\<close>

datatype error =
    DomainError string
  | DomainValidationError string string
  | DomainPermissionError string
  | RenewalContributionError int
  | DoesNotExist
  | IntegrityError
  | ProviderFailure string
  | ProviderUnavailable string
  | ImproperlyConfigured

text \<open>
  \<open>@transaction.atomic\<close>: an exception undoes every write to the tables, the events raised and the
  mail queued inside the block; log lines, mail already handed over and calls to a provider are
  not part of the database and stay.
\<close>

definition rollback :: "db \<Rightarrow> db \<Rightarrow> db" where
  "rollback before after = before\<lparr>audit_log := audit_log after, outbox := outbox after,
     provider_calls := provider_calls after\<rparr>"

definition atomic :: "(db \<Rightarrow> (error + 'a) \<times> db) \<Rightarrow> db \<Rightarrow> (error + 'a) \<times> db" where
  "atomic f d = (case f d of (Inl e, d') \<Rightarrow> (Inl e, rollback d d') | (Inr x, d') \<Rightarrow> (Inr x, d'))"

subsection \<open>Rows to run the operations on\<close>

text \<open>Concrete rows and settings on which the witnesses evaluate the operations.\<close>

definition sample_config :: config where
  "sample_config = \<lparr>localdate = (\<lambda>m. m div 86400), mail_accepted = (\<lambda>_ _. True),
     stale_seconds = 3600, mock_enabled = True\<rparr>"

definition empty_db :: db where
  "empty_db = \<lparr>users = [], profiles = [], plans = [], terms = [], payments = [], refunds = [],
     mandates = [], attempts = [], reminder_logs = [], schedule_row = None, next_pk = 100,
     clock = 0, audit_log = [], events = [], outbox = [], on_commit = [], provider_calls = []\<rparr>"

definition sample_user :: "pk \<Rightarrow> person_kind \<Rightarrow> user" where
  "sample_user k kind = \<lparr>u_id = k, u_email = ''pilot@example.org'', u_first_name = ''Ada'',
     u_last_name = ''Byron'', u_is_active = True, u_kind = kind, u_friend_on = None\<rparr>"

definition sample_plan :: "pk \<Rightarrow> string \<Rightarrow> int option \<Rightarrow> plan" where
  "sample_plan k name days = \<lparr>pl_id = k, pl_name = name, pl_slug = ''annual'',
     pl_price_cents = 4500, pl_duration_days = days, pl_is_active = True\<rparr>"

definition sample_term :: "pk \<Rightarrow> pk \<Rightarrow> pk \<Rightarrow> date \<Rightarrow> date option \<Rightarrow> membership" where
  "sample_term k user_pk plan_pk starts ends = \<lparr>m_id = k, m_user = user_pk, m_plan = plan_pk,
     m_starts_on = starts, m_ends_on = ends, m_status = TermActive, m_source = SourcePayment,
     m_payment = None, m_granted_by = None, m_note = []\<rparr>"

definition sample_mandate :: "pk \<Rightarrow> pk \<Rightarrow> pk option \<Rightarrow> int \<Rightarrow> date \<Rightarrow> mandate" where
  "sample_mandate k user_pk plan_pk cents charge_on = \<lparr>rm_id = k, rm_user = user_pk, rm_plan = plan_pk,
     rm_contribution_cents = cents, rm_cadence = Yearly, rm_next_charge_on = charge_on, rm_provider = Mock,
     rm_customer_ref = [], rm_method_ref = ''mock'', rm_method_brand = ''visa'',
     rm_method_last4 = ''4242'', rm_method_exp_month = Some 12, rm_method_exp_year = Some 2030,
     rm_method_label = ''Test card ending 4242'', rm_status = MandateActive, rm_failure_count = 0,
     rm_canceled_at = None, rm_canceled_by = None, rm_last_charged_at = None, rm_raw = []\<rparr>"

definition sample_payment :: "pk \<Rightarrow> pk \<Rightarrow> pk option \<Rightarrow> int \<Rightarrow> payment" where
  "sample_payment k user_pk plan_pk cents = \<lparr>p_id = k, p_user = user_pk, p_plan = plan_pk,
     p_amount_cents = cents, p_plan_amount_cents = (if plan_pk = None then 0 else cents),
     p_contribution_cents = (if plan_pk = None then cents else 0), p_provider = Mock,
     p_wallet = UnknownWallet, p_provider_ref = [], p_charge_customer_ref = [],
     p_charge_method_ref = [], p_charge_sent_at = None, p_status = Pending, p_completed_at = None,
     p_fee_cents = 0, p_net_cents = 0, p_receipt_sent_at = None, p_received_on = None, p_raw = [],
     p_donor_fields = []\<rparr>"

lemmas sample_defs = sample_mandate_def sample_payment_def sample_config_def empty_db_def sample_user_def sample_plan_def sample_term_def

end
