(* ===== verification/Membership.thy ===== *)
theory Membership
  imports Store
begin

text \<open>
  Who is a current member (\<open>members/services.py\<close>): the effective kind of an account, the walk
  along back-to-back terms that gives the end of a member's unbroken coverage, the membership
  status the whole program reads, and the second statement of the same rules as SQL annotations.

  The lemmas show that the walk ends, that what it answers is the specification (coverage without
  a gap up to the date reported, and none on the day after), and that the two statements agree on
  everything but the name of the plan.
\<close>

subsection \<open>Terms and plans of an account\<close>

definition memberships :: "db \<Rightarrow> user \<Rightarrow> membership list" where
  \<comment> \<open>\<open>user.memberships.all()\<close>, in the order of \<open>Membership.Meta.ordering\<close>\<close>
  "memberships d u = sort_key (\<lambda>m. (- m_starts_on m, - int (m_id m)))
     (filter (\<lambda>m. m_user m = u_id u) (terms d))"

definition plan_name :: "db \<Rightarrow> membership \<Rightarrow> string option" where
  "plan_name d m = map_option pl_name (get_plan d (m_plan m))"

definition is_lifetime_term :: "membership \<Rightarrow> bool" where
  "is_lifetime_term m \<longleftrightarrow> m_ends_on m = None"

definition is_lifetime_plan :: "plan \<Rightarrow> bool" where
  "is_lifetime_plan p \<longleftrightarrow> pl_duration_days p = None"

definition covers :: "membership \<Rightarrow> date \<Rightarrow> bool" where
  "covers m on_date \<longleftrightarrow> m_status m = TermActive \<and> \<not> m_starts_on m > on_date
     \<and> (case m_ends_on m of None \<Rightarrow> True | Some e \<Rightarrow> e \<ge> on_date)"

lemma set_memberships: "set (memberships d u) = {m \<in> set (terms d). m_user m = u_id u}"
  by (auto simp: memberships_def)

subsection \<open>The kind of account\<close>

definition member_making_statuses :: "term_status list" where
  "member_making_statuses = [TermActive, TermExpired, TermSuspended]"

definition is_donor :: "user \<Rightarrow> bool" where
  "is_donor u \<longleftrightarrow> u_kind u = Donor"

definition friend_day_has_come :: "user \<Rightarrow> date \<Rightarrow> bool" where
  "friend_day_has_come u today = (case u_friend_on u of None \<Rightarrow> False | Some f \<Rightarrow> f \<le> today)"

definition account_kind :: "db \<Rightarrow> user \<Rightarrow> date \<Rightarrow> person_kind" where
  "account_kind d u today =
     (if u_kind u \<noteq> Member then u_kind u
      else if friend_day_has_come u today then Friend
      else if list_ex (\<lambda>m. m_status m \<in> set member_making_statuses \<and> m_starts_on m \<le> today)
                (memberships d u)
      then Member else Friend)"

definition awaits_first_term :: "db \<Rightarrow> user \<Rightarrow> date \<Rightarrow> bool" where
  "awaits_first_term d u today =
     (if u_kind u \<noteq> Member then False
      else account_kind d u today = Friend \<and> \<not> friend_day_has_come u today)"

definition sql_member_making :: "db \<Rightarrow> user \<Rightarrow> date \<Rightarrow> membership list" where
  \<comment> \<open>the subquery both annotations test with \<open>Exists\<close>\<close>
  "sql_member_making d u today = filter (\<lambda>m. m_user m = u_id u
     \<and> m_status m \<in> set member_making_statuses \<and> m_starts_on m \<le> today) (terms d)"

definition awaits_first_term_annotation :: "db \<Rightarrow> user \<Rightarrow> date \<Rightarrow> bool" where
  "awaits_first_term_annotation d u today =
     (u_kind u = Member
      \<and> (case u_friend_on u of None \<Rightarrow> True | Some f \<Rightarrow> f > today)
      \<and> sql_member_making d u today = [])"

definition kind_annotation :: "db \<Rightarrow> user \<Rightarrow> date \<Rightarrow> person_kind" where
  "kind_annotation d u today =
     (if \<not> u_kind u = Member then u_kind u
      else if (case u_friend_on u of None \<Rightarrow> False | Some f \<Rightarrow> f \<le> today) then Friend
      else if sql_member_making d u today = [] then Friend
      else Member)"

lemma kind_annotation_eq: "kind_annotation d u today = account_kind d u today"
  by (auto simp: kind_annotation_def account_kind_def friend_day_has_come_def list_ex_iff
      sql_member_making_def set_memberships filter_empty_conv)

lemma awaits_first_term_annotation_eq:
  "awaits_first_term_annotation d u today = awaits_first_term d u today"
  by (auto simp: awaits_first_term_annotation_def awaits_first_term_def account_kind_def
      friend_day_has_come_def list_ex_iff sql_member_making_def set_memberships filter_empty_conv
      split: option.splits)

lemma awaits_first_term_kind: "awaits_first_term d u today \<Longrightarrow> account_kind d u today = Friend"
  by (auto simp: awaits_first_term_def split: if_splits)

subsection \<open>The status a membership reads\<close>

record status_dict =
  st_status :: membership_state
  st_expires_on :: "date option"
  st_plan :: "string option"
  st_is_lifetime :: bool

definition friend_membership :: status_dict where
  "friend_membership = \<lparr>st_status = StateFriend, st_expires_on = None, st_plan = None,
     st_is_lifetime = False\<rparr>"

definition not_yet_paid :: status_dict where
  "not_yet_paid = \<lparr>st_status = StateNone, st_expires_on = None, st_plan = None,
     st_is_lifetime = False\<rparr>"

definition donor_membership :: status_dict where
  "donor_membership = \<lparr>st_status = StateDonor, st_expires_on = None, st_plan = None,
     st_is_lifetime = False\<rparr>"

definition reach_key :: "membership \<Rightarrow> bool \<times> date" where
  \<comment> \<open>\<open>(m.ends_on is None, m.ends_on or date.min)\<close>\<close>
  "reach_key m = (m_ends_on m = None, case m_ends_on m of None \<Rightarrow> date_min | Some e \<Rightarrow> e)"

definition current_term :: "db \<Rightarrow> user \<Rightarrow> date \<Rightarrow> membership option" where
  "current_term d u on_date =
     (let ts = filter (\<lambda>m. m_status m = TermActive \<and> m_starts_on m \<le> on_date
             \<and> (case m_ends_on m of None \<Rightarrow> True | Some e \<Rightarrow> e \<ge> on_date)) (memberships d u)
      in max_by reach_key ts)"

definition covering_statuses :: "term_status list" where
  "covering_statuses = [TermActive, TermSuspended]"

fun latest_end :: "membership list \<Rightarrow> date list \<Rightarrow> date option" where
  \<comment> \<open>the loop of \<open>_latest_expiry\<close>, with \<open>ends\<close> as its accumulator\<close>
  "latest_end [] ends = (if ends = [] then None else Some (Max (set ends)))"
| "latest_end (m # ms) ends =
     (if m_status m \<notin> set covering_statuses then latest_end ms ends
      else case m_ends_on m of None \<Rightarrow> None | Some e \<Rightarrow> latest_end ms (ends @ [e]))"

definition latest_expiry :: "db \<Rightarrow> user \<Rightarrow> date option" where
  "latest_expiry d u = latest_end (memberships d u) []"

definition continues :: "date \<Rightarrow> membership \<Rightarrow> bool" where
  \<comment> \<open>the term carries on from coverage that ends on \<open>e\<close>\<close>
  "continues e m \<longleftrightarrow> m_starts_on m \<le> e + 1
     \<and> (case m_ends_on m of None \<Rightarrow> True | Some e' \<Rightarrow> e' > e)"

definition reaches_past :: "membership \<Rightarrow> membership \<Rightarrow> bool" where
  "reaches_past l m = (case m_ends_on l of None \<Rightarrow> False
     | Some e \<Rightarrow> (case m_ends_on m of None \<Rightarrow> True | Some e' \<Rightarrow> e' > e))"

lemma filter_length_less:
  assumes "\<And>x. P x \<Longrightarrow> Q x" and "y \<in> set xs" and "Q y" and "\<not> P y"
  shows "length (filter P xs) < length (filter Q xs)"
proof -
  have "filter P xs = filter P (filter Q xs)"
    using assms(1) by (induction xs) auto
  moreover have "length (filter P (filter Q xs)) < length (filter Q xs)"
    by (rule length_filter_less [of y]) (use assms in auto)
  ultimately show ?thesis by simp
qed

function coverage_walk :: "membership list \<Rightarrow> membership \<Rightarrow> membership" where
  "coverage_walk active l =
     (case m_ends_on l of
        None \<Rightarrow> l
      | Some e \<Rightarrow> (case max_by reach_key (filter (continues e) active) of
            None \<Rightarrow> l
          | Some m \<Rightarrow> coverage_walk active m))"
  by pat_completeness auto
termination
proof (relation "measure (\<lambda>(active, l). length (filter (reaches_past l) active))", goal_cases)
  case 1
  show ?case by simp
next
  case (2 active l e m)
  then have m: "m \<in> set active" "continues e m" by (auto dest: max_by_in_set)
  then have "length (filter (reaches_past m) active) < length (filter (reaches_past l) active)"
    using 2(1) by (intro filter_length_less [of _ _ m])
      (auto simp: reaches_past_def continues_def split: option.splits)
  then show ?case by simp
qed

declare coverage_walk.simps [simp del]

definition coverage :: "db \<Rightarrow> user \<Rightarrow> date \<Rightarrow> membership option" where
  "coverage d u on_date =
     (case current_term d u on_date of
        None \<Rightarrow> None
      | Some current \<Rightarrow>
          Some (coverage_walk (filter (\<lambda>m. m_status m = TermActive) (memberships d u)) current))"

definition not_past_statuses :: "term_status list" where
  "not_past_statuses = [TermCanceled, TermSuspended]"

definition past_key :: "membership \<Rightarrow> bool \<times> date \<times> date" where
  \<comment> \<open>\<open>order_by("-ends_on", "-starts_on")\<close>: PostgreSQL puts a NULL first when descending\<close>
  "past_key m = (m_ends_on m \<noteq> None, case m_ends_on m of None \<Rightarrow> 0 | Some e \<Rightarrow> - e, - m_starts_on m)"

definition started_terms :: "db \<Rightarrow> user \<Rightarrow> date \<Rightarrow> membership list" where
  "started_terms d u on_date = filter (\<lambda>m. m_user m = u_id u
     \<and> m_status m \<notin> set not_past_statuses \<and> m_starts_on m \<le> on_date) (terms d)"

definition membership_status :: "db \<Rightarrow> user option \<Rightarrow> date \<Rightarrow> status_dict" where
  "membership_status d user on_date =
     (case user of
        None \<Rightarrow> friend_membership
      | Some u \<Rightarrow>
          (case account_kind d u on_date of
             Donor \<Rightarrow> donor_membership
           | Friend \<Rightarrow> if awaits_first_term d u on_date then not_yet_paid else friend_membership
           | Member \<Rightarrow>
               (case coverage d u on_date of
                  Some covering \<Rightarrow> \<lparr>st_status = StateCurrent, st_expires_on = m_ends_on covering,
                    st_plan = plan_name d covering, st_is_lifetime = (m_ends_on covering = None)\<rparr>
                | None \<Rightarrow>
                    (case first_of (sort_key past_key (started_terms d u on_date)) of
                       Some past \<Rightarrow> \<lparr>st_status = StateExpired, st_expires_on = m_ends_on past,
                         st_plan = plan_name d past, st_is_lifetime = False\<rparr>
                     | None \<Rightarrow> friend_membership))))"

subsection \<open>The same rules as SQL annotations\<close>

record annotations =
  covers_today :: bool
  has_started_term :: bool
  coverage_end :: "date option"
  coverage_plan :: "string option"
  lifetime_plan :: "string option"
  past_end :: "date option"
  past_plan :: "string option"
  joined_on :: "date option"
  effective_kind :: person_kind
  awaits_first :: bool

definition sql_active :: "db \<Rightarrow> user \<Rightarrow> membership list" where
  "sql_active d u = filter (\<lambda>m. m_status m = TermActive \<and> m_user m = u_id u) (terms d)"

definition boundary_key :: "membership \<Rightarrow> date" where
  "boundary_key m = (case m_ends_on m of None \<Rightarrow> 0 | Some e \<Rightarrow> e)"

definition sql_boundaries :: "db \<Rightarrow> user \<Rightarrow> date \<Rightarrow> membership list" where
  \<comment> \<open>active terms ending today or later that no other active term carries on from\<close>
  "sql_boundaries d u today = sort_key boundary_key (filter (\<lambda>m. case m_ends_on m of
       None \<Rightarrow> False
     | Some e \<Rightarrow> e \<ge> today \<and> \<not> list_ex (continues e) (sql_active d u)) (sql_active d u))"

definition sql_lifetime :: "db \<Rightarrow> user \<Rightarrow> membership list" where
  "sql_lifetime d u = sort_key m_starts_on (filter is_lifetime_term (sql_active d u))"

definition sql_past :: "db \<Rightarrow> user \<Rightarrow> date \<Rightarrow> membership list" where
  "sql_past d u today = sort_key past_key (started_terms d u today)"

definition membership_annotations :: "db \<Rightarrow> date \<Rightarrow> user \<Rightarrow> annotations" where
  "membership_annotations d today u =
     (let boundaries = sql_boundaries d u today; lifetime = sql_lifetime d u;
          past = sql_past d u today
      in \<lparr>covers_today = list_ex (\<lambda>m. m_starts_on m \<le> today
             \<and> (case m_ends_on m of None \<Rightarrow> True | Some e \<Rightarrow> e \<ge> today)) (sql_active d u),
          has_started_term = (started_terms d u today \<noteq> []),
          coverage_end = Option.bind (first_of boundaries) m_ends_on,
          coverage_plan = Option.bind (first_of boundaries) (plan_name d),
          lifetime_plan = Option.bind (first_of lifetime) (plan_name d),
          past_end = Option.bind (first_of past) m_ends_on,
          past_plan = Option.bind (first_of past) (plan_name d),
          joined_on = map_option m_starts_on (first_of (sort_key m_starts_on
             (filter (\<lambda>m. m_user m = u_id u) (terms d)))),
          effective_kind = kind_annotation d u today,
          awaits_first = awaits_first_term_annotation d u today\<rparr>)"

lemma annotations_sel:
  "covers_today (membership_annotations d x u) \<longleftrightarrow> list_ex (\<lambda>m. m_starts_on m \<le> x
     \<and> (case m_ends_on m of None \<Rightarrow> True | Some e \<Rightarrow> e \<ge> x)) (sql_active d u)"
  "has_started_term (membership_annotations d x u) \<longleftrightarrow> started_terms d u x \<noteq> []"
  "coverage_end (membership_annotations d x u) = Option.bind (first_of (sql_boundaries d u x)) m_ends_on"
  "coverage_plan (membership_annotations d x u)
     = Option.bind (first_of (sql_boundaries d u x)) (plan_name d)"
  "lifetime_plan (membership_annotations d x u) = Option.bind (first_of (sql_lifetime d u)) (plan_name d)"
  "past_end (membership_annotations d x u) = Option.bind (first_of (sql_past d u x)) m_ends_on"
  "past_plan (membership_annotations d x u) = Option.bind (first_of (sql_past d u x)) (plan_name d)"
  "effective_kind (membership_annotations d x u) = account_kind d u x"
  "awaits_first (membership_annotations d x u) = awaits_first_term d u x"
  by (simp_all add: membership_annotations_def Let_def kind_annotation_eq
      awaits_first_term_annotation_eq)

definition membership_payload :: "annotations \<Rightarrow> status_dict" where
  "membership_payload a =
     (if effective_kind a = Donor then donor_membership
      else if effective_kind a = Friend
      then (if awaits_first a then not_yet_paid else friend_membership)
      else if covers_today a
      then (let lifetime = (coverage_end a = None)
            in \<lparr>st_status = StateCurrent, st_expires_on = coverage_end a,
                st_plan = (if lifetime then lifetime_plan a else coverage_plan a),
                st_is_lifetime = lifetime\<rparr>)
      else if has_started_term a
      then \<lparr>st_status = StateExpired, st_expires_on = past_end a, st_plan = past_plan a,
             st_is_lifetime = False\<rparr>
      else friend_membership)"

definition membership_of :: "db \<Rightarrow> date \<Rightarrow> user \<Rightarrow> annotations option \<Rightarrow> status_dict" where
  \<comment> \<open>an annotated row answers from its annotations, any other from the database\<close>
  "membership_of d today u row =
     (case row of Some a \<Rightarrow> membership_payload a | None \<Rightarrow> membership_status d (Some u) today)"

definition listed_kind :: "annotations \<Rightarrow> person_kind" where
  "listed_kind a = (if awaits_first a then Member else effective_kind a)"

definition listed_kind_q :: "person_kind \<Rightarrow> annotations \<Rightarrow> bool" where
  "listed_kind_q v a =
     (if v = Member then effective_kind a = Member \<or> awaits_first a
      else effective_kind a = v \<and> \<not> awaits_first a)"

subsection \<open>What unbroken coverage means\<close>

definition covered :: "db \<Rightarrow> user \<Rightarrow> date \<Rightarrow> bool" where
  "covered d u x \<longleftrightarrow> (\<exists>m \<in> set (memberships d u). covers m x)"

definition unbroken_until :: "(date \<Rightarrow> bool) \<Rightarrow> date \<Rightarrow> date option \<Rightarrow> bool" where
  "unbroken_until P from until = (case until of
       None \<Rightarrow> \<forall>x \<ge> from. P x
     | Some e \<Rightarrow> from \<le> e \<and> (\<forall>x. from \<le> x \<and> x \<le> e \<longrightarrow> P x) \<and> \<not> P (e + 1))"

lemma unbroken_until_unique:
  assumes "unbroken_until P from e" and "unbroken_until P from e'"
  shows "e = e'"
proof (cases e)
  case None
  with assms show ?thesis
    by (cases e') (auto simp: unbroken_until_def)
next
  case (Some a)
  show ?thesis
  proof (cases e')
    case None
    with assms Some show ?thesis by (auto simp: unbroken_until_def)
  next
    case (Some b)
    with \<open>e = Some a\<close> assms show ?thesis
      by (cases a b rule: linorder_cases) (auto simp: unbroken_until_def)
  qed
qed

lemma set_sql_active: "set (sql_active d u) = {m \<in> set (memberships d u). m_status m = TermActive}"
  by (auto simp: sql_active_def set_memberships)

lemma covered_sql_active: "covered d u x \<longleftrightarrow> (\<exists>m \<in> set (sql_active d u). covers m x)"
  by (auto simp: covered_def set_sql_active covers_def)

lemma covers_today_iff: "covers_today (membership_annotations d today u) \<longleftrightarrow> covered d u today"
  by (auto simp: annotations_sel list_ex_iff covered_sql_active covers_def
      set_sql_active not_less)

text \<open>A day that is covered just after an active term ends is covered by a term that continues it.\<close>

lemma covers_next_continues: "covers m (e + 1) \<Longrightarrow> continues e m"
  by (auto simp: covers_def continues_def split: option.splits)

lemma covered_next_day_continues:
  "covered d u (e + 1) \<Longrightarrow> \<exists>m \<in> set (sql_active d u). continues e m"
  by (auto simp: covered_sql_active intro: covers_next_continues)

lemma continues_covers:
  assumes "continues e m" and "m_status m = TermActive" and "e < x"
    and "case m_ends_on m of None \<Rightarrow> True | Some e' \<Rightarrow> x \<le> e'"
  shows "covers m x"
  using assms by (auto simp: continues_def covers_def split: option.splits)

lemma current_term_None_iff: "current_term d u x = None \<longleftrightarrow> \<not> covered d u x"
  by (auto simp: current_term_def Let_def filter_empty_conv covered_def covers_def not_less)

lemma current_term_SomeD:
  assumes "current_term d u x = Some m"
  shows "m \<in> set (memberships d u)" and "covers m x"
  using max_by_in_set [OF assms [unfolded current_term_def Let_def]]
  by (auto simp: covers_def)

lemma coverage_walk_stop:
  "m_ends_on (coverage_walk ms l) = Some e \<Longrightarrow> \<not> (\<exists>m \<in> set ms. continues e m)"
proof (induction ms l rule: coverage_walk.induct)
  case (1 ms l)
  from "1.prems" show ?case
    by (subst (asm) coverage_walk.simps)
      (auto split: option.splits dest: "1.IH" simp: filter_empty_conv)
qed

lemma coverage_walk_step:
  "m_ends_on l = Some e \<Longrightarrow> max_by reach_key (filter (continues e) ms) = Some m
    \<Longrightarrow> coverage_walk ms l = coverage_walk ms m"
  by (simp add: coverage_walk.simps [of ms l])

lemma coverage_walk_end:
  "m_ends_on l = Some e \<Longrightarrow> max_by reach_key (filter (continues e) ms) = None
    \<Longrightarrow> coverage_walk ms l = l"
  by (simp add: coverage_walk.simps [of ms l])

lemma coverage_walk_lifetime: "m_ends_on l = None \<Longrightarrow> coverage_walk ms l = l"
  by (simp add: coverage_walk.simps [of ms l])

lemma coverage_walk_in: "coverage_walk ms l \<in> insert l (set ms)"
proof (induction ms l rule: coverage_walk.induct)
  case (1 ms l)
  show ?case
  proof (cases "m_ends_on l")
    case None
    then show ?thesis by (simp add: coverage_walk_lifetime)
  next
    case (Some e)
    show ?thesis
    proof (cases "max_by reach_key (filter (continues e) ms)")
      case None
      with Some show ?thesis by (simp only: coverage_walk_end) simp
    next
      case (Some m)
      then have "m \<in> set ms" by (auto dest: max_by_in_set)
      with "1.IH" [OF \<open>m_ends_on l = Some e\<close> Some] have "coverage_walk ms m \<in> set ms" by auto
      with \<open>m_ends_on l = Some e\<close> Some show ?thesis by (simp only: coverage_walk_step) simp
    qed
  qed
qed

lemma coverage_walk_covered:
  assumes "\<And>m. m \<in> set ms \<Longrightarrow> m_status m = TermActive" and "m_ends_on l = Some e" and "e < x"
    and "case m_ends_on (coverage_walk ms l) of None \<Rightarrow> True | Some e' \<Rightarrow> x \<le> e'"
  shows "\<exists>m \<in> set ms. covers m x"
  using assms
proof (induction ms l arbitrary: e rule: coverage_walk.induct)
  case (1 ms l)
  show ?case
  proof (cases "max_by reach_key (filter (continues e) ms)")
    case None
    then have "coverage_walk ms l = l"
      using "1.prems"(2) by (simp add: coverage_walk.simps [of ms l])
    with "1.prems" show ?thesis by simp
  next
    case (Some m)
    then have m: "m \<in> set ms" "continues e m" by (auto dest: max_by_in_set)
    have walk: "coverage_walk ms l = coverage_walk ms m"
      using "1.prems"(2) Some by (simp add: coverage_walk.simps [of ms l])
    show ?thesis
    proof (cases "case m_ends_on m of None \<Rightarrow> True | Some e' \<Rightarrow> x \<le> e'")
      case True
      with m "1.prems"(1,3) continues_covers [of e m x] show ?thesis by blast
    next
      case False
      then obtain e' where "m_ends_on m = Some e'" "e' < x" by (auto split: option.splits)
      with "1.IH" [OF "1.prems"(2) Some "1.prems"(1)] "1.prems"(4) walk show ?thesis by simp
    qed
  qed
qed

lemma coverage_None_iff: "coverage d u x = None \<longleftrightarrow> \<not> covered d u x"
  using current_term_None_iff [of d u x]
  by (cases "current_term d u x") (auto simp: coverage_def)

lemma coverage_walk_mono:
  "m_ends_on l = Some e \<Longrightarrow> m_ends_on (coverage_walk ms l) = Some e' \<Longrightarrow> e \<le> e'"
proof (induction ms l arbitrary: e rule: coverage_walk.induct)
  case (1 ms l)
  show ?case
  proof (cases "max_by reach_key (filter (continues e) ms)")
    case None
    with 1 show ?thesis by (simp add: coverage_walk_end)
  next
    case (Some m)
    then have m: "continues e m" by (auto dest: max_by_in_set)
    have walk: "coverage_walk ms l = coverage_walk ms m"
      using "1.prems"(1) Some by (rule coverage_walk_step)
    show ?thesis
    proof (cases "m_ends_on m")
      case None
      with walk "1.prems"(2) show ?thesis by (simp add: coverage_walk_lifetime)
    next
      case (Some e'')
      with "1.IH" [OF "1.prems"(1) \<open>max_by reach_key (filter (continues e) ms) = Some m\<close>]
        "1.prems"(2) walk m
      show ?thesis by (force simp: continues_def)
    qed
  qed
qed

lemma coverage_in:
  assumes "coverage d u x = Some r"
  shows "r \<in> set (sql_active d u)"
proof -
  obtain c where c: "current_term d u x = Some c"
    and r: "r = coverage_walk (filter (\<lambda>m. m_status m = TermActive) (memberships d u)) c"
    using assms by (auto simp: coverage_def split: option.splits)
  have "c \<in> set (memberships d u)" "m_status c = TermActive"
    using current_term_SomeD [OF c] by (simp_all add: covers_def)
  then show ?thesis
    using coverage_walk_in [of "filter (\<lambda>m. m_status m = TermActive) (memberships d u)" c] r
    by (auto simp: set_sql_active)
qed

text \<open>The walk answers the specification: coverage without a gap up to the end it reports.\<close>

lemma coverage_unbroken:
  assumes "coverage d u x = Some r"
  shows "unbroken_until (covered d u) x (m_ends_on r)"
proof -
  define ms where "ms = filter (\<lambda>m. m_status m = TermActive) (memberships d u)"
  obtain c where c: "current_term d u x = Some c" and r: "r = coverage_walk ms c"
    using assms by (auto simp: coverage_def ms_def split: option.splits)
  have active: "m \<in> set ms \<Longrightarrow> m_status m = TermActive" for m by (simp add: ms_def)
  have cov: "c \<in> set (memberships d u)" "covers c x" using current_term_SomeD [OF c] by simp_all
  have all: "covered d u y" if y: "x \<le> y" "case m_ends_on r of None \<Rightarrow> True | Some e \<Rightarrow> y \<le> e" for y
  proof (cases "case m_ends_on c of None \<Rightarrow> True | Some e \<Rightarrow> y \<le> e")
    case True
    with cov y(1) have "covers c y" by (auto simp: covers_def split: option.splits)
    with cov show ?thesis by (auto simp: covered_def)
  next
    case False
    then obtain e where e: "m_ends_on c = Some e" "e < y" by (auto split: option.splits)
    have "\<exists>m \<in> set ms. covers m y"
      using coverage_walk_covered [of ms c e y] active e y(2) r by simp
    then show ?thesis by (auto simp: covered_def ms_def)
  qed
  show ?thesis
  proof (cases "m_ends_on r")
    case None
    with all show ?thesis by (simp add: unbroken_until_def)
  next
    case (Some e)
    have "\<not> covered d u (e + 1)"
      using coverage_walk_stop [of ms c e] Some r covered_next_day_continues [of d u e]
      by (auto simp: ms_def set_sql_active)
    moreover have "x \<le> e"
    proof (cases "m_ends_on c")
      case None
      then show ?thesis using r Some by (simp add: coverage_walk_lifetime)
    next
      case (Some e0)
      then show ?thesis
        using coverage_walk_mono [of c e0 ms e] \<open>m_ends_on r = Some e\<close> r cov(2)
        by (simp add: covers_def)
    qed
    ultimately show ?thesis using all Some by (simp add: unbroken_until_def)
  qed
qed

subsection \<open>What the status promises\<close>

lemma membership_status_cases:
  assumes "account_kind d u x = Member"
  shows "membership_status d (Some u) x = (case coverage d u x of
     Some covering \<Rightarrow> \<lparr>st_status = StateCurrent, st_expires_on = m_ends_on covering,
       st_plan = plan_name d covering, st_is_lifetime = (m_ends_on covering = None)\<rparr>
   | None \<Rightarrow> (case first_of (sort_key past_key (started_terms d u x)) of
       Some past \<Rightarrow> \<lparr>st_status = StateExpired, st_expires_on = m_ends_on past,
         st_plan = plan_name d past, st_is_lifetime = False\<rparr>
     | None \<Rightarrow> friend_membership))"
  using assms by (simp add: membership_status_def split: option.splits)

lemma member_covered_status:
  assumes "account_kind d u x = Member" and "covered d u x"
  obtains r where "coverage d u x = Some r" and "unbroken_until (covered d u) x (m_ends_on r)"
    and "membership_status d (Some u) x = \<lparr>st_status = StateCurrent, st_expires_on = m_ends_on r,
       st_plan = plan_name d r, st_is_lifetime = (m_ends_on r = None)\<rparr>"
proof -
  obtain r where r: "coverage d u x = Some r"
    using assms(2) coverage_None_iff [of d u x] by auto
  with that coverage_unbroken [OF r] assms(1) show thesis
    by (simp add: membership_status_cases)
qed

lemma member_uncovered_status:
  assumes "account_kind d u x = Member" and "\<not> covered d u x"
  shows "st_status (membership_status d (Some u) x) \<noteq> StateCurrent"
proof -
  have "coverage d u x = None" using assms(2) by (simp add: coverage_None_iff)
  with assms(1) show ?thesis
    by (auto simp: membership_status_cases friend_membership_def split: option.splits)
qed

text \<open>C34: a member reads \<open>current\<close> exactly on the days an active term covers, the date shown is
  the last day of the coverage without a gap that starts today (none when it never ends), and a
  lifetime is reported exactly when that coverage never ends.\<close>

theorem membership_status_spec:
  assumes "account_kind d u x = Member"
  shows "(st_status (membership_status d (Some u) x) = StateCurrent \<longleftrightarrow> covered d u x)
    \<and> (covered d u x \<longrightarrow>
        unbroken_until (covered d u) x (st_expires_on (membership_status d (Some u) x))
        \<and> (st_is_lifetime (membership_status d (Some u) x) \<longleftrightarrow> (\<forall>y \<ge> x. covered d u y)))"
proof (cases "covered d u x")
  case True
  obtain r where r: "unbroken_until (covered d u) x (m_ends_on r)"
    "membership_status d (Some u) x = \<lparr>st_status = StateCurrent, st_expires_on = m_ends_on r,
       st_plan = plan_name d r, st_is_lifetime = (m_ends_on r = None)\<rparr>"
    using member_covered_status [OF assms True] by metis
  have "m_ends_on r = None \<longleftrightarrow> (\<forall>y \<ge> x. covered d u y)"
    using r(1) by (cases "m_ends_on r") (auto simp: unbroken_until_def)
  with r True show ?thesis by simp
next
  case False
  with member_uncovered_status [OF assms False] show ?thesis by simp
qed

definition renewed_early :: db where
  "renewed_early = empty_db\<lparr>users := [sample_user 1 Member],
     plans := [sample_plan 1 ''Annual'' (Some 365)],
     terms := [sample_term 1 1 1 1000 (Some 1364), sample_term 2 1 1 1365 (Some 1729)]\<rparr>"

theorem membership_status_spec_witness:
  "account_kind renewed_early (sample_user 1 Member) 1300 = Member
   \<and> (st_status (membership_status renewed_early (Some (sample_user 1 Member)) 1300) = StateCurrent
      \<longleftrightarrow> covered renewed_early (sample_user 1 Member) 1300)"
proof -
  have "account_kind renewed_early (sample_user 1 Member) 1300 = Member"
    by code_simp
  with membership_status_spec [OF this] show ?thesis by simp
qed

subsection \<open>The two statements of the rules agree\<close>

lemma sql_boundaries_set: "m \<in> set (sql_boundaries d u x) \<longleftrightarrow> m \<in> set (sql_active d u)
   \<and> (\<exists>e. m_ends_on m = Some e \<and> e \<ge> x \<and> \<not> (\<exists>m' \<in> set (sql_active d u). continues e m'))"
  by (auto simp: sql_boundaries_def list_ex_iff split: option.splits)

lemma boundary_not_covered:
  assumes "m \<in> set (sql_boundaries d u x)" and "m_ends_on m = Some e"
  shows "\<not> covered d u (e + 1)" and "x \<le> e"
  using assms covered_next_day_continues [of d u e] by (auto simp: sql_boundaries_set)

lemma coverage_is_boundary:
  assumes "coverage d u x = Some r" and "m_ends_on r = Some e"
  shows "r \<in> set (sql_boundaries d u x)"
proof -
  have ub: "unbroken_until (covered d u) x (Some e)"
    using coverage_unbroken [OF assms(1)] assms(2) by simp
  obtain c where c: "coverage_walk (filter (\<lambda>m. m_status m = TermActive) (memberships d u)) c = r"
    using assms(1) by (auto simp: coverage_def split: option.splits)
  have "\<not> (\<exists>m' \<in> set (sql_active d u). continues e m')"
    using coverage_walk_stop [of "filter (\<lambda>m. m_status m = TermActive) (memberships d u)" c e]
      c assms(2) by (auto simp: set_sql_active)
  with coverage_in [OF assms(1)] assms(2) ub show ?thesis
    by (auto simp: sql_boundaries_set unbroken_until_def)
qed

lemma coverage_end_covered:
  assumes "coverage d u x = Some r"
  shows "coverage_end (membership_annotations d x u) = m_ends_on r"
proof -
  have ub: "unbroken_until (covered d u) x (m_ends_on r)" by (rule coverage_unbroken [OF assms])
  show ?thesis
  proof (cases "first_of (sql_boundaries d u x)")
    case None
    then have "sql_boundaries d u x = []" by simp
    with coverage_is_boundary [OF assms] show ?thesis
      by (cases "m_ends_on r") (auto simp: annotations_sel)
  next
    case (Some b)
    then have b: "b \<in> set (sql_boundaries d u x)" by (rule first_of_in_set)
    then obtain eb where eb: "m_ends_on b = Some eb" by (auto simp: sql_boundaries_set)
    note nc = boundary_not_covered [OF b eb]
    obtain e where e: "m_ends_on r = Some e" "e \<le> eb"
    proof (cases "m_ends_on r")
      case None
      with ub nc show thesis by (simp add: unbroken_until_def)
    next
      case (Some e)
      with ub nc that show thesis by (force simp: unbroken_until_def)
    qed
    have "r \<in> set (sql_boundaries d u x)" by (rule coverage_is_boundary [OF assms e(1)])
    then have "eb \<le> e"
      using first_of_sort_key_least [OF Some [unfolded sql_boundaries_def], of r] eb e(1)
      by (simp add: boundary_key_def sql_boundaries_def)
    with e eb Some show ?thesis by (simp add: annotations_sel)
  qed
qed

lemma sql_past_eq: "sql_past d u x = sort_key past_key (started_terms d u x)"
  by (simp add: sql_past_def)

lemma sort_key_Nil_iff: "sort_key f xs = [] \<longleftrightarrow> xs = []"
  by (metis set_empty set_sort)

lemma payload_not_member:
  "account_kind d u x \<noteq> Member
    \<Longrightarrow> membership_payload (membership_annotations d x u) = membership_status d (Some u) x"
  by (cases "account_kind d u x")
    (simp_all add: membership_payload_def annotations_sel membership_status_def)

lemma payload_uncovered:
  assumes "account_kind d u x = Member" and "\<not> covered d u x"
  shows "membership_payload (membership_annotations d x u) = membership_status d (Some u) x"
proof -
  have "coverage d u x = None" using assms(2) by (simp add: coverage_None_iff)
  moreover have "\<not> covers_today (membership_annotations d x u)"
    using assms(2) by (simp add: covers_today_iff)
  ultimately show ?thesis
    using assms(1) by (cases "first_of (sort_key past_key (started_terms d u x))")
      (auto simp: membership_status_cases membership_payload_def annotations_sel
        sql_past_eq sort_key_Nil_iff)
qed

lemma payload_covered:
  assumes "account_kind d u x = Member" and "coverage d u x = Some r"
  shows "membership_payload (membership_annotations d x u) = \<lparr>st_status = StateCurrent,
     st_expires_on = m_ends_on r,
     st_plan = (if m_ends_on r = None then lifetime_plan (membership_annotations d x u)
                else coverage_plan (membership_annotations d x u)),
     st_is_lifetime = (m_ends_on r = None)\<rparr>"
proof -
  have "covered d u x" using assms(2) coverage_None_iff [of d u x] by simp
  then have "covers_today (membership_annotations d x u)" by (simp add: covers_today_iff)
  moreover have "effective_kind (membership_annotations d x u) = Member"
    using assms(1) by (simp add: annotations_sel)
  ultimately show ?thesis
    using coverage_end_covered [OF assms(2)] by (simp add: membership_payload_def Let_def)
qed

text \<open>C35: the status, the date and the lifetime flag an annotated row answers are the ones
  \<open>membership_status\<close> answers from the terms, on every database.\<close>

theorem payload_agrees:
  "st_status (membership_payload (membership_annotations d x u))
     = st_status (membership_status d (Some u) x)
   \<and> st_expires_on (membership_payload (membership_annotations d x u))
     = st_expires_on (membership_status d (Some u) x)
   \<and> st_is_lifetime (membership_payload (membership_annotations d x u))
     = st_is_lifetime (membership_status d (Some u) x)"
proof (cases "account_kind d u x = Member \<and> covered d u x")
  case True
  then obtain r where "coverage d u x = Some r" using coverage_None_iff [of d u x] by auto
  with True show ?thesis by (simp add: payload_covered membership_status_cases)
next
  case False
  then have "membership_payload (membership_annotations d x u) = membership_status d (Some u) x"
    using payload_not_member payload_uncovered by blast
  then show ?thesis by simp
qed

text \<open>The plan's name agrees too, once terms that end together are on plans of one name.\<close>

definition ends_name_plans :: "db \<Rightarrow> user \<Rightarrow> bool" where
  "ends_name_plans d u \<longleftrightarrow> (\<forall>m \<in> set (sql_active d u). \<forall>m' \<in> set (sql_active d u).
     m_ends_on m = m_ends_on m' \<longrightarrow> plan_name d m = plan_name d m')"

lemma payload_plan_covered:
  assumes "ends_name_plans d u" and "account_kind d u x = Member" and "coverage d u x = Some r"
  shows "membership_payload (membership_annotations d x u) = membership_status d (Some u) x"
proof -
  have r: "r \<in> set (sql_active d u)" by (rule coverage_in [OF assms(3)])
  have one: "plan_name d m = plan_name d r" if "m \<in> set (sql_active d u)" "m_ends_on m = m_ends_on r" for m
    using assms(1) [unfolded ends_name_plans_def] r that by blast
  have "(if m_ends_on r = None then lifetime_plan (membership_annotations d x u)
         else coverage_plan (membership_annotations d x u)) = plan_name d r"
  proof (cases "m_ends_on r")
    case None
    then have "r \<in> set (sql_lifetime d u)"
      using r by (simp add: sql_lifetime_def is_lifetime_term_def)
    then obtain l where l: "first_of (sql_lifetime d u) = Some l"
      by (cases "sql_lifetime d u") auto
    then have "l \<in> set (sql_active d u)" "m_ends_on l = None"
      by (auto dest!: first_of_in_set simp: sql_lifetime_def is_lifetime_term_def)
    then have "plan_name d l = plan_name d r" using None by (intro one) simp_all
    with l None show ?thesis by (simp add: annotations_sel)
  next
    case (Some e)
    then obtain b where b: "first_of (sql_boundaries d u x) = Some b" "m_ends_on b = Some e"
      using coverage_end_covered [OF assms(3)]
      by (auto simp: annotations_sel bind_eq_Some_conv)
    then have "b \<in> set (sql_active d u)" by (auto dest!: first_of_in_set simp: sql_boundaries_set)
    then have "plan_name d b = plan_name d r" using b Some by (intro one) simp_all
    with b Some show ?thesis by (simp add: annotations_sel)
  qed
  with assms(2,3) show ?thesis by (simp add: payload_covered membership_status_cases)
qed

text \<open>When the active terms that end on one day are on plans of one name, an annotated row
  answers exactly what \<open>membership_status\<close> answers, the plan included.\<close>

theorem membership_of_exact:
  assumes "ends_name_plans d u"
  shows "membership_of d x u (Some (membership_annotations d x u)) = membership_of d x u None"
proof (cases "account_kind d u x = Member \<and> covered d u x")
  case True
  then obtain r where "coverage d u x = Some r" using coverage_None_iff [of d u x] by auto
  with True payload_plan_covered [OF assms] show ?thesis by (simp add: membership_of_def)
next
  case False
  then have "membership_payload (membership_annotations d x u) = membership_status d (Some u) x"
    using payload_not_member payload_uncovered by blast
  then show ?thesis by (simp add: membership_of_def)
qed

theorem membership_of_exact_witness:
  "ends_name_plans renewed_early (sample_user 1 Member)
   \<and> membership_of renewed_early 1300 (sample_user 1 Member)
        (Some (membership_annotations renewed_early 1300 (sample_user 1 Member)))
      = membership_of renewed_early 1300 (sample_user 1 Member) None"
proof -
  have "ends_name_plans renewed_early (sample_user 1 Member)"
    by (simp add: ends_name_plans_def sql_active_def renewed_early_def sample_defs)
  with membership_of_exact [OF this] show ?thesis by blast
qed

definition two_lifetimes :: db where
  "two_lifetimes = empty_db\<lparr>users := [sample_user 1 Member],
     plans := [sample_plan 1 ''Life'' None, sample_plan 2 ''Honorary'' None],
     terms := [sample_term 1 1 1 1000 None, sample_term 2 1 2 1200 None]\<rparr>"

text \<open>Without that hypothesis they differ: an account with two lifetime terms on plans of
  different names reads the plan of the later term from \<open>membership_status\<close> and the plan of the
  earlier one from its annotations.\<close>

theorem payload_plan_differs:
  "st_plan (membership_status two_lifetimes (Some (sample_user 1 Member)) 1300) = Some ''Honorary''
   \<and> st_plan (membership_payload (membership_annotations two_lifetimes 1300 (sample_user 1 Member)))
       = Some ''Life''"
  by code_simp

text \<open>The filter of the lists selects exactly the rows that show the kind it was asked for.\<close>

theorem listed_kind_q_iff:
  "listed_kind_q v (membership_annotations d x u)
     \<longleftrightarrow> listed_kind (membership_annotations d x u) = v"
proof -
  have "awaits_first (membership_annotations d x u)
     \<Longrightarrow> effective_kind (membership_annotations d x u) = Friend"
    by (simp add: annotations_sel awaits_first_term_kind)
  then show ?thesis by (auto simp: listed_kind_q_def listed_kind_def)
qed

end
