(* ===== verification/Strings.thy ===== *)
theory Strings
  imports Main
begin

text \<open>
  The string methods of Python the services use, on HOL strings (lists of characters of one
  byte).  White space is what \<open>str.strip()\<close> removes among these characters.
\<close>

definition space_char :: "char \<Rightarrow> bool" where
  "space_char c \<longleftrightarrow> (of_char c :: nat) \<in> {9, 10, 11, 12, 13, 28, 29, 30, 31, 32, 133, 160}"

definition lstrip_where :: "(char \<Rightarrow> bool) \<Rightarrow> string \<Rightarrow> string" where
  "lstrip_where P s = dropWhile P s"

definition rstrip_where :: "(char \<Rightarrow> bool) \<Rightarrow> string \<Rightarrow> string" where
  "rstrip_where P s = rev (dropWhile P (rev s))"

definition strip :: "string \<Rightarrow> string" where
  \<comment> \<open>\<open>s.strip()\<close>\<close>
  "strip s = rstrip_where space_char (lstrip_where space_char s)"

definition ends_with :: "string \<Rightarrow> string \<Rightarrow> bool" where
  \<comment> \<open>\<open>s.endswith(t)\<close>\<close>
  "ends_with s t \<longleftrightarrow> drop (length s - length t) s = t"

lemma length_rstrip_where: "length (rstrip_where P s) \<le> length s"
  unfolding rstrip_where_def by (metis length_rev length_dropWhile_le)

lemma length_strip: "length (strip s) \<le> length s"
  unfolding strip_def lstrip_where_def
  by (rule le_trans [OF length_rstrip_where length_dropWhile_le])

lemma rstrip_where_prefix: "\<exists>t. s = rstrip_where P s @ t \<and> (\<forall>c \<in> set t. P c)"
proof -
  have "rev s = takeWhile P (rev s) @ dropWhile P (rev s)" by simp
  then have "s = rev (dropWhile P (rev s)) @ rev (takeWhile P (rev s))"
    by (metis rev_append rev_rev_ident)
  then show ?thesis
    unfolding rstrip_where_def by (intro exI [of _ "rev (takeWhile P (rev s))"]) (auto dest: set_takeWhileD)
qed

lemma ends_with_append [simp]: "ends_with (s @ t) t"
  by (simp add: ends_with_def)

lemma ends_with_refl [simp]: "ends_with t t"
  by (simp add: ends_with_def)

subsection \<open>Numbers as text\<close>

function digits :: "int \<Rightarrow> string" where
  \<comment> \<open>\<open>str(n)\<close> of a number that is not negative\<close>
  "digits n = (if n < 10 then [char_of (48 + n)] else digits (n div 10) @ [char_of (48 + n mod 10)])"
  by pat_completeness auto
termination by (relation "measure nat") auto

declare digits.simps [simp del]

definition two_digits :: "int \<Rightarrow> string" where
  "two_digits n = (if n < 10 then CHR ''0'' # digits n else digits n)"

fun grouped :: "string \<Rightarrow> string" where
  \<comment> \<open>a comma after every third character, reading from the right\<close>
  "grouped (a # b # c # d # s) = a # b # c # CHR '','' # grouped (d # s)"
| "grouped s = s"

definition money_label :: "int \<Rightarrow> string" where
  \<comment> \<open>\<open>f"${cents / 100:,.2f}"\<close>, exact for every amount a float holds to the cent\<close>
  "money_label cents = (let n = abs cents in
     CHR ''$'' # (if cents < 0 then ''-'' else []) @ rev (grouped (rev (digits (n div 100))))
       @ CHR ''.'' # [char_of (48 + n mod 100 div 10), char_of (48 + n mod 10)])"

lemma money_label_example: "money_label 123456789 = ''$1,234,567.89''" "money_label (- 50) = ''$-0.50''"
  by code_simp+

end
