(* ===== verification/Terms.thy ===== *)
theory Terms
  imports Membership Strings
begin

text \<open>
  The writes of \<open>members/services.py\<close> and \<open>accounts/services.py\<close> that move a membership: buying or
  granting a term, canceling one, setting terms aside when an account is deactivated and bringing
  them back, and the change of an account's kind that goes with a term.

  An operation takes the rows its caller holds in memory and the database, and returns its result
  with the new database; an operation that raises returns the error in the left of a sum.
\<close>

subsection \<open>The kind of an account\<close>

definition kind_slug :: "person_kind \<Rightarrow> string" where
  "kind_slug k = (case k of Member \<Rightarrow> ''member'' | Friend \<Rightarrow> ''friend'' | Donor \<Rightarrow> ''donor'')"

definition set_kind :: "user \<Rightarrow> person_kind \<Rightarrow> actor \<Rightarrow> db \<Rightarrow> bool \<times> db" where
  "set_kind u kind actor d =
     (if u_kind u = kind \<and> u_friend_on u = None then (False, d)
      else let is_new_kind = u_kind u \<noteq> kind;
               d = edit_user (u_id u) (\<lambda>r. r\<lparr>u_kind := kind, u_friend_on := None\<rparr>) d;
               d = (if is_new_kind
                    then audit_record ''account.kind'' actor (Some (u_id u))
                           [(''to'', ASlug (kind_slug kind))] d
                    else d)
           in (is_new_kind, d))"

definition tombstone_first_name :: string where
  "tombstone_first_name = ''Deleted member''"

definition is_tombstone :: "user \<Rightarrow> bool" where
  "is_tombstone u \<longleftrightarrow> u_kind u = Donor \<and> \<not> u_is_active u
     \<and> u_first_name u = tombstone_first_name \<and> ends_with (u_email u) ''@deleted.invalid''"

definition tombstone_change_refused :: string where
  "tombstone_change_refused = ''This record keeps a deleted member's payments in the books and cannot be changed.''"

definition refuse_tombstone_change :: "pk \<Rightarrow> user \<Rightarrow> string \<Rightarrow> db \<Rightarrow> (error + unit) \<times> db" where
  "refuse_tombstone_change actor target action d =
     (if is_tombstone target
      then (Inl (DomainError tombstone_change_refused),
            audit_refuse action (Account actor) (Some (u_id target)) ''tombstone'' d)
      else (Inr (), d))"

subsection \<open>Buying and granting a term\<close>

definition stamp_member_since :: "user \<Rightarrow> date \<Rightarrow> db \<Rightarrow> db" where
  \<comment> \<open>the profile is one per account, so the first match is the account's own\<close>
  "stamp_member_since u joined d =
     d\<lparr>profiles := map (\<lambda>r. if pf_user r = u_id u \<and> pf_member_since r = None
        then r\<lparr>pf_member_since := Some joined\<rparr> else r) (profiles d)\<rparr>"

definition term_start :: "date \<Rightarrow> db \<Rightarrow> user \<Rightarrow> date option \<Rightarrow> date" where
  \<comment> \<open>where a new term starts: \<open>starts_on\<close> when the caller gives one\<close>
  "term_start today d u starts_on =
     (case starts_on of
        Some s \<Rightarrow> s
      | None \<Rightarrow>
          (let expiry = latest_expiry d u;
               has_covering_term = list_ex (\<lambda>m. m_status m \<in> set covering_statuses) (memberships d u)
           in if has_covering_term \<and> expiry = None then today
              else case expiry of
                     Some e \<Rightarrow> if e \<ge> today then e + 1 else today
                   | None \<Rightarrow> today))"

definition term_end :: "plan \<Rightarrow> date \<Rightarrow> date option" where
  "term_end p starts = (case pl_duration_days p of None \<Rightarrow> None | Some n \<Rightarrow> Some (starts + (n - 1)))"

definition bought_term :: "db \<Rightarrow> pk \<Rightarrow> membership option" where
  \<comment> \<open>\<open>Membership.objects.filter(payment=payment).first()\<close>; the column is one-to-one\<close>
  "bought_term d pay = first_of (sort_key (\<lambda>m. (- m_starts_on m, - int (m_id m)))
     (filter (\<lambda>m. m_payment m = Some pay) (terms d)))"

definition create_term :: "membership \<Rightarrow> db \<Rightarrow> membership \<times> db" where
  \<comment> \<open>\<open>Membership.objects.create\<close>, which gives the row its key\<close>
  "create_term m d = (case fresh_pk d of (k, d) \<Rightarrow>
     (m\<lparr>m_id := k\<rparr>, d\<lparr>terms := terms d @ [m\<lparr>m_id := k\<rparr>]\<rparr>))"

definition activate_term :: "config \<Rightarrow> user \<Rightarrow> plan \<Rightarrow> term_source \<Rightarrow> pk option \<Rightarrow> pk option
    \<Rightarrow> date option \<Rightarrow> string \<Rightarrow> db \<Rightarrow> membership \<times> db" where
  "activate_term cfg u p source pay granted_by starts_on note d =
     (case Option.bind pay (bought_term d) of
        Some existing \<Rightarrow> (existing, d)
      | None \<Rightarrow>
          (let today = local_today cfg d;
               starts = term_start today d u starts_on;
               ends = term_end p starts;
               status = (if u_is_active u then TermActive else TermSuspended);
               (t, d) = create_term \<lparr>m_id = 0, m_user = u_id u, m_plan = pl_id p,
                  m_starts_on = starts, m_ends_on = ends, m_status = status, m_source = source,
                  m_payment = pay, m_granted_by = granted_by, m_note = note\<rparr> d;
               d = stamp_member_since u starts d;
               (became_member, d) = (if is_donor u then (False, d)
                  else set_kind u Member
                         (case granted_by of Some g \<Rightarrow> Account g | None \<Rightarrow> Command) d);
               d = (if became_member
                    then emit (BecameMember (u_id u)
                           (if source = SourcePayment then MemberPaid else MemberGranted)) d
                    else d)
           in (t, d)))"

definition donor_grant_refused :: string where
  "donor_grant_refused =
     ''A donor doesn't hold a membership, and becomes a member only by registering.''"

definition grant_term_body :: "config \<Rightarrow> pk \<Rightarrow> user \<Rightarrow> plan \<Rightarrow> date option \<Rightarrow> string \<Rightarrow> db
    \<Rightarrow> (error + membership) \<times> db" where
  "grant_term_body cfg actor u p starts_on note d =
     (case refuse_tombstone_change actor u ''membership.grant'' d of
        (Inl e, d) \<Rightarrow> (Inl e, d)
      | (Inr _, d) \<Rightarrow>
          if is_donor u
          then (Inl (DomainError donor_grant_refused),
                audit_refuse ''membership.grant'' (Account actor) (Some (u_id u)) ''donor_account'' d)
          else (let (t, d) = activate_term cfg u p SourceManual None (Some actor) starts_on note d;
                    d = audit_record ''membership.grant'' (Account actor) (Some (u_id u))
                          [(''plan'', ASlug (pl_slug p)), (''term'', AInt (int (m_id t)))] d;
                    d = emit (MembershipGranted (u_id u) (m_id t) actor) d
                in (Inr t, d)))"

definition grant_term :: "config \<Rightarrow> pk \<Rightarrow> user \<Rightarrow> plan \<Rightarrow> date option \<Rightarrow> string \<Rightarrow> db
    \<Rightarrow> (error + membership) \<times> db" where
  "grant_term cfg actor u p starts_on note = atomic (grant_term_body cfg actor u p starts_on note)"

subsection \<open>Canceling a term\<close>

definition max_term_note :: nat where
  "max_term_note = 255"

definition joined_note :: "string \<Rightarrow> string \<Rightarrow> string" where
  "joined_note existing addition =
     (let addition = strip addition;
          prefix = rstrip_where (\<lambda>c. c = CHR ''.'' \<or> c = CHR '' '') existing
      in if prefix = [] then take max_term_note addition
         else let room = int max_term_note - int (length addition) - 2
              in if room \<le> 0 then take max_term_note addition
                 else let kept = (if int (length prefix) > room
                                  then drop (length prefix - nat room) prefix else prefix)
                      in kept @ ''. '' @ addition)"

definition status_slug :: "term_status \<Rightarrow> string" where
  "status_slug s = (case s of TermActive \<Rightarrow> ''active'' | TermExpired \<Rightarrow> ''expired''
     | TermCanceled \<Rightarrow> ''canceled'' | TermSuspended \<Rightarrow> ''suspended'')"

definition cancel_term :: "membership \<Rightarrow> pk option \<Rightarrow> string \<Rightarrow> db \<Rightarrow> membership \<times> db" where
  "cancel_term t actor note d =
     (let t = t\<lparr>m_status := TermCanceled\<rparr>;
          t = (if note \<noteq> [] then t\<lparr>m_note := joined_note (m_note t) note\<rparr> else t);
          d = edit_term (m_id t) (\<lambda>r. r\<lparr>m_status := m_status t, m_note := m_note t\<rparr>) d;
          d = audit_record ''membership.correct''
                (case actor of Some a \<Rightarrow> Account a | None \<Rightarrow> Command) (Some (m_id t))
                [(''status'', ASlug (status_slug TermCanceled))] d
      in (t, d))"

subsection \<open>Deactivating and reactivating an account\<close>

definition set_term_status :: "membership \<Rightarrow> term_status \<Rightarrow> pk \<Rightarrow> db \<Rightarrow> db" where
  "set_term_status t status actor d =
     audit_record ''membership.correct'' (Account actor) (Some (m_id t))
       [(''status'', ASlug (status_slug status))]
       (edit_term (m_id t) (\<lambda>r. r\<lparr>m_status := status\<rparr>) d)"

definition runs_on :: "date \<Rightarrow> membership \<Rightarrow> bool" where
  "runs_on today m = (case m_ends_on m of None \<Rightarrow> True | Some e \<Rightarrow> e \<ge> today)"

definition start_order :: "membership \<Rightarrow> date \<times> pk" where
  "start_order m = (m_starts_on m, m_id m)"

definition suspend_terms :: "config \<Rightarrow> user \<Rightarrow> pk option \<Rightarrow> date option \<Rightarrow> db
    \<Rightarrow> membership list \<times> db" where
  "suspend_terms cfg u actor today d =
     (let today = (case today of Some t \<Rightarrow> t | None \<Rightarrow> local_today cfg d);
          held = sort_key start_order (filter (\<lambda>m. m_user m = u_id u \<and> m_status m = TermActive
                   \<and> runs_on today m) (terms d));
          actor = (case actor of Some a \<Rightarrow> a | None \<Rightarrow> u_id u)
      in (map (\<lambda>m. m\<lparr>m_status := TermSuspended\<rparr>) held,
          fold (\<lambda>m. set_term_status m TermSuspended actor) held d))"

definition resumed_status :: "date \<Rightarrow> membership \<Rightarrow> term_status" where
  "resumed_status today m = (if runs_on today m then TermActive else TermExpired)"

definition restore_terms :: "config \<Rightarrow> user \<Rightarrow> pk option \<Rightarrow> date option \<Rightarrow> db
    \<Rightarrow> membership list \<times> db" where
  "restore_terms cfg u actor today d =
     (let actor = (case actor of Some a \<Rightarrow> a | None \<Rightarrow> u_id u);
          today = (case today of Some t \<Rightarrow> t | None \<Rightarrow> local_today cfg d);
          held = sort_key start_order (filter (\<lambda>m. m_user m = u_id u \<and> m_status m = TermSuspended)
                   (terms d))
      in (map (\<lambda>m. m\<lparr>m_status := resumed_status today m\<rparr>) held,
          fold (\<lambda>m. set_term_status m (resumed_status today m) actor) held d))"

subsection \<open>What the small writes leave alone\<close>

lemma emit_frame [table_simps]:
  "terms (emit e d) = terms d" "users (emit e d) = users d" "profiles (emit e d) = profiles d"
  "events (emit e d) = events d @ [e]" "clock (emit e d) = clock d" "plans (emit e d) = plans d"
  "payments (emit e d) = payments d" "mandates (emit e d) = mandates d"
  by (simp_all add: emit_def)

lemma audit_record_frame [table_simps]:
  "terms (audit_record a w k fs d) = terms d" "users (audit_record a w k fs d) = users d"
  "profiles (audit_record a w k fs d) = profiles d" "events (audit_record a w k fs d) = events d"
  "clock (audit_record a w k fs d) = clock d" "plans (audit_record a w k fs d) = plans d"
  "payments (audit_record a w k fs d) = payments d" "mandates (audit_record a w k fs d) = mandates d"
  by (simp_all add: audit_record_def)

lemma stamp_member_since_frame [table_simps]:
  "terms (stamp_member_since u x d) = terms d" "users (stamp_member_since u x d) = users d"
  "events (stamp_member_since u x d) = events d"
  by (simp_all add: stamp_member_since_def)

lemma set_kind_frame [table_simps]:
  "terms (snd (set_kind u k a d)) = terms d" "profiles (snd (set_kind u k a d)) = profiles d"
  "events (snd (set_kind u k a d)) = events d" "plans (snd (set_kind u k a d)) = plans d"
  by (simp_all add: set_kind_def Let_def table_simps edit_user_def)

lemma fst_set_kind: "fst (set_kind u k a d) \<longleftrightarrow> u_kind u \<noteq> k"
  by (auto simp: set_kind_def Let_def)

lemma users_set_kind:
  "users (snd (set_kind u k a d)) = (if u_kind u = k \<and> u_friend_on u = None then users d
     else rows_update (\<lambda>r. u_id r = u_id u) (\<lambda>r. r\<lparr>u_kind := k, u_friend_on := None\<rparr>) (users d))"
  by (auto simp: set_kind_def Let_def table_simps edit_user_def)

text \<open>A term bought anew: where it lies and what becomes of the other tables.\<close>

lemma activate_existing:
  "Option.bind pay (bought_term d) = Some m \<Longrightarrow> activate_term cfg u p src pay g so note d = (m, d)"
  by (simp add: activate_term_def)

lemma activate_new:
  assumes "Option.bind pay (bought_term d) = None"
    and "activate_term cfg u p src pay g so note d = (t, d')"
  shows "t = \<lparr>m_id = next_pk d, m_user = u_id u, m_plan = pl_id p,
        m_starts_on = term_start (local_today cfg d) d u so,
        m_ends_on = term_end p (term_start (local_today cfg d) d u so),
        m_status = (if u_is_active u then TermActive else TermSuspended), m_source = src,
        m_payment = pay, m_granted_by = g, m_note = note\<rparr>"
    and "terms d' = terms d @ [t]"
    and "users d' = (if is_donor u \<or> u_kind u = Member \<and> u_friend_on u = None then users d
       else rows_update (\<lambda>r. u_id r = u_id u) (\<lambda>r. r\<lparr>u_kind := Member, u_friend_on := None\<rparr>) (users d))"
    and "events d' = events d @ (if u_kind u = Friend
       then [BecameMember (u_id u) (if src = SourcePayment then MemberPaid else MemberGranted)] else [])"
  using assms
  by (cases "u_kind u"; auto simp: activate_term_def Let_def create_term_def fresh_pk_def
      split_beta table_simps fst_set_kind users_set_kind is_donor_def)+

lemma set_memberships_append:
  "terms d' = terms d @ [t] \<Longrightarrow> m_user t = u_id u
    \<Longrightarrow> set (memberships d' u) = insert t (set (memberships d u))"
  by (auto simp: set_memberships)

lemma covered_append:
  "terms d' = terms d @ [t] \<Longrightarrow> m_user t = u_id u
    \<Longrightarrow> covered d' u x \<longleftrightarrow> covered d u x \<or> covers t x"
  by (auto simp: covered_def set_memberships_append)

lemma latest_end_Some:
  "latest_end ms ends = Some e \<Longrightarrow>
    (\<forall>x \<in> set ends. x \<le> e)
    \<and> (\<forall>m \<in> set ms. m_status m \<in> set covering_statuses \<longrightarrow> (\<exists>x \<le> e. m_ends_on m = Some x))"
  by (induction ms ends rule: latest_end.induct) (force split: if_splits option.splits)+

lemma latest_expiry_Some:
  assumes "latest_expiry d u = Some e" and "m \<in> set (memberships d u)"
    and "m_status m \<in> set covering_statuses"
  obtains x where "m_ends_on m = Some x" and "x \<le> e"
  using latest_end_Some [OF assms(1) [unfolded latest_expiry_def]] assms(2,3) by blast

lemma latest_end_None:
  "latest_end ms ends = None \<Longrightarrow> ends = [] \<and> (\<forall>m \<in> set ms. m_status m \<notin> set covering_statuses)
    \<or> (\<exists>m \<in> set ms. m_status m \<in> set covering_statuses \<and> m_ends_on m = None)"
  by (induction ms ends rule: latest_end.induct) (auto split: if_splits option.splits)

lemma bought_term_appended:
  assumes "bought_term d pay = None" and "terms d' = terms d @ [t]" and "m_payment t = Some pay"
  shows "bought_term d' pay = Some t"
proof -
  have "filter (\<lambda>m. m_payment m = Some pay) (terms d) = []"
    using assms(1) by (simp add: bought_term_def sort_key_Nil_iff)
  with assms(2,3) show ?thesis by (simp add: bought_term_def)
qed

subsection \<open>Properties of a purchase\<close>

text \<open>A payment buys one term: activating again with the same payment, whatever the other
  arguments, answers the term the first activation made and changes nothing.\<close>

theorem activate_term_idempotent:
  assumes "activate_term cfg u p src (Some pay) g so note d = (t, d')"
  shows "activate_term cfg' u' p' src' (Some pay) g' so' note' d' = (t, d')"
proof (cases "bought_term d pay")
  case None
  have "bought_term d' pay = Some t"
    using None activate_new [OF _ assms] by (intro bought_term_appended) simp_all
  then show ?thesis by (simp add: activate_existing)
next
  case (Some m)
  with assms show ?thesis by (simp add: activate_existing)
qed

definition renewing_member :: db where
  \<comment> \<open>an account covered until day 1364, on day 1300\<close>
  "renewing_member = empty_db\<lparr>users := [sample_user 1 Member],
     plans := [sample_plan 1 ''Annual'' (Some 365)],
     terms := [sample_term 1 1 1 1000 (Some 1364)], clock := 1300 * 86400\<rparr>"

lemma renewing_member_facts:
  "local_today sample_config renewing_member = 1300"
  "memberships renewing_member (sample_user 1 Member) = [sample_term 1 1 1 1000 (Some 1364)]"
  "Option.bind (Some 7) (bought_term renewing_member) = None"
  "account_kind renewing_member (sample_user 1 Member) 1300 = Member"
  "latest_expiry renewing_member (sample_user 1 Member) = Some 1364"
  "get_user renewing_member (u_id (sample_user 1 Member)) = Some (sample_user 1 Member)"
proof -
  show "local_today sample_config renewing_member = 1300"
    by (simp add: local_today_def renewing_member_def sample_defs)
qed (code_simp)+

lemma renewing_member_renews:
  obtains t d' where "activate_term sample_config (sample_user 1 Member)
      (sample_plan 1 ''Annual'' (Some 365)) SourcePayment (Some 7) None None [] renewing_member
      = (t, d')"
  by (metis surj_pair)

theorem activate_term_idempotent_witness:
  "\<exists>t d'. activate_term sample_config (sample_user 1 Member) (sample_plan 1 ''Annual'' (Some 365))
       SourcePayment (Some 7) None None [] renewing_member = (t, d')
     \<and> activate_term sample_config (sample_user 1 Friend) (sample_plan 1 ''Annual'' (Some 365))
       SourcePayment (Some 7) None None [] d' = (t, d')"
  using activate_term_idempotent by (metis surj_pair)

text \<open>C37: a renewal bought while the member is covered extends that coverage: the account reads
  \<open>current\<close> through the old end plus the length of the plan at once, and the new term overlaps
  none that still covers.\<close>

theorem renewal_extends_coverage:
  assumes "Option.bind pay (bought_term d) = None"
    and "activate_term cfg u p src pay g None note d = (t, d')"
    and "u_is_active u" and "account_kind d u (local_today cfg d) = Member"
    and "unbroken_until (covered d u) (local_today cfg d) (Some e)"
    and "latest_expiry d u = Some e"
    and "pl_duration_days p = Some n" and "1 \<le> n"
  shows "membership_status d' (Some u) (local_today cfg d)
      = \<lparr>st_status = StateCurrent, st_expires_on = Some (e + n), st_plan = plan_name d' t,
         st_is_lifetime = False\<rparr>
    \<and> (\<forall>x. covers t x \<longrightarrow> \<not> covered d u x)"
proof -
  note new = activate_new [OF assms(1,2)]
  have today: "local_today cfg d \<le> e" using assms(5) by (simp add: unbroken_until_def)
  have t: "m_user t = u_id u" "m_starts_on t = e + 1" "m_ends_on t = Some (e + n)"
    "m_status t = TermActive"
    using assms(3,6,7) today by (simp_all add: new(1) term_start_def term_end_def)
  have cov: "covers t x \<longleftrightarrow> e < x \<and> x \<le> e + n" for x
    using t by (auto simp: covers_def)
  have late: "\<not> covered d u x" if "e < x" for x
  proof
    assume "covered d u x"
    then obtain m where m: "m \<in> set (memberships d u)" "covers m x" by (auto simp: covered_def)
    then have "m_status m \<in> set covering_statuses" by (simp add: covers_def covering_statuses_def)
    with latest_expiry_Some [OF assms(6) m(1)] obtain y where "m_ends_on m = Some y" "y \<le> e" .
    with m(2) that show False by (simp add: covers_def)
  qed
  have covd: "covered d' u x \<longleftrightarrow> covered d u x \<or> covers t x" for x
    by (rule covered_append [OF new(2) t(1)])
  have ub: "unbroken_until (covered d' u) (local_today cfg d) (Some (e + n))"
    using assms(5,8) late cov today by (auto simp: unbroken_until_def covd)
  have kind: "account_kind d' u (local_today cfg d) = Member"
    using assms(4) set_memberships_append [OF new(2) t(1)]
    by (auto simp: account_kind_def list_ex_iff split: if_splits)
  have "covered d' u (local_today cfg d)" using ub by (auto simp: unbroken_until_def)
  then obtain r where r: "coverage d' u (local_today cfg d) = Some r"
    using coverage_None_iff [of d' u "local_today cfg d"] by auto
  have end_r: "m_ends_on r = Some (e + n)"
    using coverage_unbroken [OF r] ub by (rule unbroken_until_unique)
  have "r \<in> set (memberships d' u)" "m_status r = TermActive"
    using coverage_in [OF r] by (simp_all add: set_sql_active)
  moreover have "r \<noteq> t \<Longrightarrow> r \<in> set (memberships d u) \<Longrightarrow> False"
    using latest_expiry_Some [OF assms(6), of r] end_r assms(8) \<open>m_status r = TermActive\<close>
    by (force simp: covering_statuses_def)
  ultimately have "r = t" using set_memberships_append [OF new(2) t(1)] by blast
  with r end_r kind late cov show ?thesis by (auto simp: membership_status_cases)
qed

theorem renewal_extends_coverage_witness:
  "\<exists>d' t. membership_status d' (Some (sample_user 1 Member)) 1300
     = \<lparr>st_status = StateCurrent, st_expires_on = Some (1364 + 365), st_plan = plan_name d' t,
        st_is_lifetime = False\<rparr>"
proof -
  obtain t d' where a: "activate_term sample_config (sample_user 1 Member)
      (sample_plan 1 ''Annual'' (Some 365)) SourcePayment (Some 7) None None [] renewing_member
      = (t, d')" by (rule renewing_member_renews)
  note f = renewing_member_facts
  have active: "u_is_active (sample_user 1 Member)" by (simp add: sample_defs)
  have days: "pl_duration_days (sample_plan 1 ''Annual'' (Some 365)) = Some 365"
    by (simp add: sample_defs)
  have "unbroken_until (covered renewing_member (sample_user 1 Member)) 1300 (Some 1364)"
    by (auto simp: unbroken_until_def covered_def f(2) [unfolded One_nat_def] covers_def
        sample_term_def)
  with renewal_extends_coverage [OF f(3) a active _ _ f(5) days] f(1,4)
  show ?thesis by auto
qed

text \<open>A term that is not chained by hand starts today or on the day after the latest expiry,
  whichever is later, counting the coverage a deactivation set aside; so it overlaps no term that
  covers or is suspended, unless one of them is for life.\<close>

theorem new_term_follows:
  assumes "Option.bind pay (bought_term d) = None"
    and "activate_term cfg u p src pay g None note d = (t, d')"
    and "m \<in> set (memberships d u)" and "m_status m \<in> set covering_statuses"
    and "\<And>l. l \<in> set (memberships d u) \<Longrightarrow> m_status l \<in> set covering_statuses \<Longrightarrow> m_ends_on l \<noteq> None"
  shows "\<exists>e. m_ends_on m = Some e \<and> e < max (m_starts_on t) (local_today cfg d)
    \<and> local_today cfg d \<le> m_starts_on t"
proof -
  note new = activate_new [OF assms(1,2)]
  have "latest_expiry d u \<noteq> None"
  proof
    assume "latest_expiry d u = None"
    from latest_end_None [OF this [unfolded latest_expiry_def]] assms(3,4,5) show False by blast
  qed
  then obtain e where e: "latest_expiry d u = Some e" by blast
  obtain x where x: "m_ends_on m = Some x" "x \<le> e" by (rule latest_expiry_Some [OF e assms(3,4)])
  have "m_starts_on t = (if e \<ge> local_today cfg d then e + 1 else local_today cfg d)"
    by (simp add: new(1) term_start_def e)
  with x show ?thesis by auto
qed

theorem new_term_follows_witness:
  "\<exists>t d' e. activate_term sample_config (sample_user 1 Member)
      (sample_plan 1 ''Annual'' (Some 365)) SourcePayment (Some 7) None None [] renewing_member
      = (t, d') \<and> m_ends_on (sample_term 1 1 1 1000 (Some 1364)) = Some e
      \<and> e < max (m_starts_on t) 1300"
proof -
  obtain t d' where a: "activate_term sample_config (sample_user 1 Member)
      (sample_plan 1 ''Annual'' (Some 365)) SourcePayment (Some 7) None None [] renewing_member
      = (t, d')" by (rule renewing_member_renews)
  note f = renewing_member_facts
  from new_term_follows [OF f(3) a, of "sample_term 1 1 1 1000 (Some 1364)"] f(1,2) a
  show ?thesis by (auto simp: sample_term_def covering_statuses_def)
qed

text \<open>A term makes an account that is not a donor a member with no change pending and
  leaves a donor's kind alone; the event is raised for a friend only, saying how.\<close>

theorem activate_term_kind:
  assumes "Option.bind pay (bought_term d) = None"
    and "activate_term cfg u p src pay g so note d = (t, d')" and "get_user d (u_id u) = Some u"
  shows "get_user d' (u_id u)
      = Some (if u_kind u = Donor then u else u\<lparr>u_kind := Member, u_friend_on := None\<rparr>)
    \<and> events d' = events d @ (if u_kind u = Friend
        then [BecameMember (u_id u) (if src = SourcePayment then MemberPaid else MemberGranted)]
        else [])"
proof -
  note new = activate_new [OF assms(1,2)]
  have "get_user d' (u_id u) = map_option (\<lambda>r. if u_kind u = Donor then r
      else r\<lparr>u_kind := Member, u_friend_on := None\<rparr>) (get_user d (u_id u))"
    using assms(3) by (auto simp: get_user_def new(3) is_donor_def row_get_rows_edit)
  with assms(3) new(4) show ?thesis by simp
qed

theorem activate_term_kind_witness:
  "\<exists>t d'. activate_term sample_config (sample_user 1 Member)
      (sample_plan 1 ''Annual'' (Some 365)) SourcePayment (Some 7) None None [] renewing_member
      = (t, d') \<and> get_user d' 1 = Some (sample_user 1 Member)"
proof -
  obtain t d' where a: "activate_term sample_config (sample_user 1 Member)
      (sample_plan 1 ''Annual'' (Some 365)) SourcePayment (Some 7) None None [] renewing_member
      = (t, d')" by (rule renewing_member_renews)
  note f = renewing_member_facts
  from activate_term_kind [OF f(3) a f(6)] a show ?thesis by (auto simp: sample_user_def)
qed

text \<open>An administrator's grant to a donor is refused: an error, one refusal in the audit log
  with the reason, and no row, event or mail.\<close>

theorem grant_term_refuses_donor:
  assumes "is_donor u"
  shows "\<exists>message reason. grant_term cfg actor u p so note d
      = (Inl (DomainError message),
         audit_refuse ''membership.grant'' (Account actor) (Some (u_id u)) reason d)
    \<and> (reason = ''tombstone'' \<longleftrightarrow> is_tombstone u)"
  using assms by (cases "is_tombstone u")
    (auto simp: grant_term_def grant_term_body_def refuse_tombstone_change_def atomic_def
      rollback_def audit_refuse_def)

theorem grant_term_refuses_donor_witness:
  "\<exists>message reason. grant_term sample_config 2 (sample_user 1 Donor)
       (sample_plan 1 ''Annual'' (Some 365)) None [] empty_db
     = (Inl (DomainError message),
        audit_refuse ''membership.grant'' (Account 2) (Some 1) reason empty_db)"
  using grant_term_refuses_donor [of "sample_user 1 Donor" sample_config 2
      "sample_plan 1 ''Annual'' (Some 365)" None "[]" empty_db]
  by (auto simp: is_donor_def sample_user_def)

text \<open>A note never outgrows its column, and the reason of the latest change is kept whole
  wherever it fits, at the end of the note.\<close>

theorem joined_note_bounded:
  "length (joined_note existing addition) \<le> max_term_note
   \<and> ends_with (joined_note existing addition) (take max_term_note (strip addition))"
proof -
  define a where "a = strip addition"
  define prefix where "prefix = rstrip_where (\<lambda>c. c = CHR ''.'' \<or> c = CHR '' '') existing"
  define room where "room = int max_term_note - int (length a) - 2"
  define kept where "kept = (if int (length prefix) > room
      then drop (length prefix - nat room) prefix else prefix)"
  have eq: "joined_note existing addition = (if prefix = [] \<or> room \<le> 0 then take max_term_note a
      else kept @ ''. '' @ a)"
    by (simp add: joined_note_def Let_def a_def prefix_def room_def kept_def)
  show ?thesis
  proof (cases "prefix = [] \<or> room \<le> 0")
    case True
    with eq show ?thesis by (simp add: a_def)
  next
    case False
    then have short: "length a + 2 < max_term_note" by (simp add: room_def)
    have "length kept \<le> nat room" using False by (auto simp: kept_def)
    with short have "length kept + 2 + length a \<le> max_term_note" by (simp add: room_def)
    moreover have "ends_with (kept @ ''. '' @ a) (take max_term_note a)"
      using ends_with_append [of "kept @ ''. ''" a] short by simp
    ultimately show ?thesis using eq False by (simp add: a_def)
  qed
qed

subsection \<open>Setting terms aside and bringing them back\<close>

lemma set_term_status_terms:
  "terms (set_term_status h st a d)
     = rows_update (\<lambda>r. m_id r = m_id h) (\<lambda>r. r\<lparr>m_status := st\<rparr>) (terms d)"
  by (simp add: set_term_status_def table_simps edit_term_def)

lemma terms_fold_set_status:
  assumes "distinct (map m_id hs)"
  shows "terms (fold (\<lambda>h. set_term_status h (g h) a) hs d)
    = map (\<lambda>r. case row_get m_id hs (m_id r) of Some h \<Rightarrow> r\<lparr>m_status := g h\<rparr> | None \<Rightarrow> r) (terms d)"
  using assms
proof (induction hs arbitrary: d)
  case Nil
  then show ?case by simp
next
  case (Cons h hs)
  have "row_get m_id hs (m_id h) = None"
    using Cons.prems by (simp add: row_get_None_iff)
  with Cons show ?case
    by (auto simp: set_term_status_terms rows_update_def)
qed

lemma distinct_map_sort_filter:
  assumes "distinct (map key t)"
  shows "distinct (map key (sort_key f (filter P t)))"
proof -
  have "distinct t" "inj_on key (set t)" using assms by (simp_all add: distinct_map)
  then show ?thesis by (auto simp: distinct_map intro: inj_on_subset)
qed

lemma terms_fold_selected:
  assumes "distinct (map m_id (terms d))"
  shows "terms (fold (\<lambda>h. set_term_status h (g h) a) (sort_key f (filter P (terms d))) d)
    = map (\<lambda>r. if P r then r\<lparr>m_status := g r\<rparr> else r) (terms d)"
proof -
  let ?hs = "sort_key f (filter P (terms d))"
  have d: "distinct (map m_id ?hs)" using assms by (rule distinct_map_sort_filter)
  have "(case row_get m_id ?hs (m_id r) of Some h \<Rightarrow> r\<lparr>m_status := g h\<rparr> | None \<Rightarrow> r)
      = (if P r then r\<lparr>m_status := g r\<rparr> else r)" if r: "r \<in> set (terms d)" for r
  proof (cases "P r")
    case True
    then have "row_get m_id ?hs (m_id r) = Some r"
      using row_get_distinct [OF d, of r] r by simp
    with True show ?thesis by simp
  next
    case False
    have "row_get m_id ?hs (m_id r) = None"
    proof (rule ccontr)
      assume "row_get m_id ?hs (m_id r) \<noteq> None"
      then obtain h where h: "row_get m_id ?hs (m_id r) = Some h" by blast
      have "h \<in> set (terms d)" "P h" "m_id h = m_id r" using row_get_SomeD [OF h] by auto
      with assms r False show False by (auto simp: distinct_map inj_on_def)
    qed
    with False show ?thesis by simp
  qed
  then show ?thesis by (simp add: terms_fold_set_status [OF d])
qed

lemma terms_suspend:
  assumes "distinct (map m_id (terms d))"
  shows "terms (snd (suspend_terms cfg u a (Some t) d))
    = map (\<lambda>r. if m_user r = u_id u \<and> m_status r = TermActive \<and> runs_on t r
        then r\<lparr>m_status := TermSuspended\<rparr> else r) (terms d)"
  by (simp add: suspend_terms_def Let_def terms_fold_selected [OF assms])

lemma terms_restore:
  assumes "distinct (map m_id (terms d))"
  shows "terms (snd (restore_terms cfg u a (Some t) d))
    = map (\<lambda>r. if m_user r = u_id u \<and> m_status r = TermSuspended
        then r\<lparr>m_status := resumed_status t r\<rparr> else r) (terms d)"
  by (simp add: restore_terms_def Let_def terms_fold_selected [OF assms])

text \<open>Deactivating an account and reactivating it loses nothing: every term it had is back
  as it was, except that one which ran out in between is \<open>expired\<close>; nobody else's term moves.\<close>

theorem restore_after_suspend:
  assumes "distinct (map m_id (terms d))"
    and "\<And>m. m \<in> set (terms d) \<Longrightarrow> m_user m = u_id u \<Longrightarrow> m_status m \<noteq> TermSuspended"
    and "t \<le> t'"
  shows "terms (snd (restore_terms cfg u b (Some t') (snd (suspend_terms cfg u a (Some t) d))))
    = map (\<lambda>r. if m_user r = u_id u \<and> m_status r = TermActive \<and> runs_on t r \<and> \<not> runs_on t' r
        then r\<lparr>m_status := TermExpired\<rparr> else r) (terms d)"
proof -
  have ids: "distinct (map m_id (terms (snd (suspend_terms cfg u a (Some t) d))))"
  proof -
    have "map m_id (terms (snd (suspend_terms cfg u a (Some t) d))) = map m_id (terms d)"
      by (simp add: terms_suspend [OF assms(1)])
    with assms(1) show ?thesis by simp
  qed
  show ?thesis
    using assms(2,3)
    by (auto simp: terms_restore [OF ids] terms_suspend [OF assms(1)] resumed_status_def runs_on_def
        split: option.splits)
qed

theorem restore_after_suspend_witness:
  "terms (snd (restore_terms sample_config (sample_user 1 Member) None (Some 1350)
      (snd (suspend_terms sample_config (sample_user 1 Member) None (Some 1300) renewing_member))))
    = terms renewing_member"
proof -
  have "distinct (map m_id (terms renewing_member))" by code_simp
  moreover have "m_status m \<noteq> TermSuspended" if "m \<in> set (terms renewing_member)" for m
    using that by (simp add: renewing_member_def sample_defs)
  ultimately show ?thesis
    using restore_after_suspend [of renewing_member "sample_user 1 Member" 1300 1350 sample_config
        None None]
    by (simp add: renewing_member_def sample_term_def runs_on_def)
qed

text \<open>While the account is deactivated none of its terms covers a day on which it did, so it
  never reads \<open>current\<close>.\<close>

theorem suspended_not_covered:
  assumes "distinct (map m_id (terms d))" and "t \<le> x"
  shows "\<not> covered (snd (suspend_terms cfg u a (Some t) d)) u x"
proof
  assume "covered (snd (suspend_terms cfg u a (Some t) d)) u x"
  then obtain m where m: "m \<in> set (terms (snd (suspend_terms cfg u a (Some t) d)))"
    "m_user m = u_id u" "covers m x"
    by (auto simp: covered_def set_memberships)
  from m(1) obtain r where "m = (if m_user r = u_id u \<and> m_status r = TermActive \<and> runs_on t r
      then r\<lparr>m_status := TermSuspended\<rparr> else r)"
    unfolding terms_suspend [OF assms(1)] set_map by (rule imageE)
  with m(2,3) assms(2) show False
    by (auto simp: covers_def runs_on_def split: if_splits option.splits)
qed

theorem suspended_not_covered_witness:
  "\<not> covered (snd (suspend_terms sample_config (sample_user 1 Member) None (Some 1300)
      renewing_member)) (sample_user 1 Member) 1310"
proof -
  have "distinct (map m_id (terms renewing_member))" by code_simp
  from suspended_not_covered [OF this, of 1300 1310] show ?thesis by simp
qed

end
