(* ===== verification/Lifecycle.thy ===== *)
theory Lifecycle
  imports Terms
begin

text \<open>
  The passage between member and friend (\<open>members/lifecycle.py\<close>): the switch a member asks for and
  may take back, and the two daily scans that write down what the rules of \<open>Membership\<close> already
  answer.  The lemmas show just that: neither scan changes what anybody reads.
\<close>

subsection \<open>Conversions whose day has come\<close>

definition due_conversion :: "date \<Rightarrow> user \<Rightarrow> bool" where
  "due_conversion today u \<longleftrightarrow> (case u_friend_on u of None \<Rightarrow> False | Some f \<Rightarrow> f \<le> today)
     \<and> u_kind u \<noteq> Friend"

definition due_conversions :: "date \<Rightarrow> db \<Rightarrow> user list" where
  "due_conversions today d = filter (due_conversion today) (users d)"

definition convert_one :: "date \<Rightarrow> user \<Rightarrow> nat \<times> db \<Rightarrow> nat \<times> db" where
  "convert_one today u acc =
     (case acc of (converted, d) \<Rightarrow>
        let qualifies = (\<lambda>r. due_conversion today r \<and> u_id r = u_id u);
            written = rows_matched qualifies (users d);
            d = d\<lparr>users := rows_update qualifies (\<lambda>r. r\<lparr>u_kind := Friend, u_friend_on := None\<rparr>) (users d)\<rparr>
        in if written = 0 then (converted, d)
           else (converted + 1,
             emit (BecameFriend (u_id u) FriendLapsed)
               (audit_record ''account.kind'' Command (Some (u_id u))
                 [(''to'', ASlug (kind_slug Friend)),
                  (''on'', case u_friend_on u of Some f \<Rightarrow> ADate f | None \<Rightarrow> ASlug ''None'')] d)))"

definition convert_listed :: "date \<Rightarrow> user list \<Rightarrow> db \<Rightarrow> nat \<times> db" where
  \<comment> \<open>the loop, over a list read earlier\<close>
  "convert_listed today us d = fold (convert_one today) us (0, d)"

definition convert_due_friends :: "config \<Rightarrow> date option \<Rightarrow> db \<Rightarrow> nat \<times> db" where
  "convert_due_friends cfg today d =
     (let today = (case today of Some t \<Rightarrow> t | None \<Rightarrow> local_today cfg d)
      in convert_listed today (due_conversions today d) d)"

subsection \<open>Choosing to become a friend\<close>

definition donor_kind_refused :: string where
  "donor_kind_refused = ''A donor becomes a member or a friend only by registering.''"

definition lifetime_stays_member :: string where
  "lifetime_stays_member = ''A lifetime member stays a member.''"

definition already_friend :: string where
  "already_friend = ''You are already a friend of CalDART.''"

definition no_pending_change :: string where
  "no_pending_change = ''You don't have a pending change.''"

definition check_can_become_friend :: "db \<Rightarrow> user \<Rightarrow> date \<Rightarrow> error option" where
  "check_can_become_friend d u today =
     (if is_donor u then Some (DomainError donor_kind_refused)
      else if u_kind u = Friend \<or> friend_day_has_come u today then Some (DomainError already_friend)
      else if st_is_lifetime (membership_status d (Some u) today)
      then Some (DomainError lifetime_stays_member)
      else None)"

definition save_kind :: "user \<Rightarrow> db \<Rightarrow> db" where
  \<comment> \<open>\<open>user.save(update_fields=["kind", "friend_on", "updated_at"])\<close>\<close>
  "save_kind u = edit_user (u_id u) (\<lambda>r. r\<lparr>u_kind := u_kind u, u_friend_on := u_friend_on u\<rparr>)"

definition become_friend :: "config \<Rightarrow> user \<Rightarrow> date option \<Rightarrow> pk option \<Rightarrow> db
    \<Rightarrow> (error + user) \<times> db" where
  "become_friend cfg u today actor d =
     (let today = (case today of Some t \<Rightarrow> t | None \<Rightarrow> local_today cfg d)
      in case check_can_become_friend d u today of
           Some e \<Rightarrow> (Inl e, d)
         | None \<Rightarrow>
             (let status = membership_status d (Some u) today;
                  (u, effective_on) =
                    (case (st_status status, st_expires_on status) of
                       (StateCurrent, Some e) \<Rightarrow> (u\<lparr>u_friend_on := Some (e + 1)\<rparr>, e + 1)
                     | _ \<Rightarrow> (u\<lparr>u_kind := Friend, u_friend_on := None\<rparr>, today));
                  d = save_kind u d;
                  actor = (case actor of Some a \<Rightarrow> a | None \<Rightarrow> u_id u);
                  d = audit_record ''account.kind'' (Account actor) (Some (u_id u))
                        [(''to'', ASlug (kind_slug Friend)), (''on'', ADate effective_on)] d;
                  d = (if u_kind u = Friend
                       then emit (BecameFriend (u_id u)
                              (if actor = u_id u then FriendChose else FriendAdministrator)) d
                       else d)
              in (Inr u, d)))"

definition undo_become_friend :: "config \<Rightarrow> user \<Rightarrow> date option \<Rightarrow> db \<Rightarrow> (error + user) \<times> db" where
  "undo_become_friend cfg u today d =
     (let today = (case today of Some t \<Rightarrow> t | None \<Rightarrow> local_today cfg d)
      in if u_friend_on u = None \<or> account_kind d u today = Friend
         then (Inl (DomainError no_pending_change), d)
         else (let u = u\<lparr>u_friend_on := None\<rparr>;
                   d = edit_user (u_id u) (\<lambda>r. r\<lparr>u_friend_on := None\<rparr>) d;
                   d = audit_record ''account.kind'' (Account (u_id u)) (Some (u_id u))
                         [(''to'', ASlug (kind_slug Member)), (''undo'', ABool True)] d
               in (Inr u, d)))"

subsection \<open>Terms that have run out\<close>

definition lapsed_term :: "date \<Rightarrow> membership \<Rightarrow> bool" where
  "lapsed_term on_date m \<longleftrightarrow> m_status m = TermActive
     \<and> (case m_ends_on m of None \<Rightarrow> False | Some e \<Rightarrow> e < on_date)"

definition lapsed_terms :: "date \<Rightarrow> db \<Rightarrow> membership list" where
  "lapsed_terms on_date d = sort_key
     (\<lambda>m. (m_user m, case m_ends_on m of None \<Rightarrow> 0 | Some e \<Rightarrow> e, m_id m))
     (filter (lapsed_term on_date) (terms d))"

definition last_terms :: "membership list \<Rightarrow> membership list" where
  \<comment> \<open>the values of \<open>{term.user_id: term for term in lapsed}\<close>\<close>
  "last_terms lapsed = map (\<lambda>k. last (filter (\<lambda>m. m_user m = k) lapsed)) (remdups (map m_user lapsed))"

definition expired :: "membership \<Rightarrow> membership" where
  "expired m = m\<lparr>m_status := TermExpired\<rparr>"

definition announce_expiry :: "date \<Rightarrow> membership \<Rightarrow> db \<Rightarrow> db" where
  "announce_expiry on_date t d =
     (if st_status (membership_status d (get_user d (m_user t)) on_date) \<noteq> StateCurrent
      then emit (MembershipExpired (m_user t) (m_id t)) d else d)"

definition expire_lapsed_memberships :: "config \<Rightarrow> date option \<Rightarrow> db \<Rightarrow> nat \<times> db" where
  "expire_lapsed_memberships cfg on_date d =
     (let on_date = (case on_date of Some t \<Rightarrow> t | None \<Rightarrow> local_today cfg d);
          lapsed = lapsed_terms on_date d;
          chosen = (\<lambda>m. m_id m \<in> set (map m_id lapsed));
          flipped = rows_matched chosen (terms d);
          d = d\<lparr>terms := rows_update chosen expired (terms d)\<rparr>
      in (flipped, fold (announce_expiry on_date) (last_terms lapsed) d))"

subsection \<open>Neither scan changes what anybody reads\<close>

definition as_friend :: "user \<Rightarrow> user" where
  "as_friend r = r\<lparr>u_kind := Friend, u_friend_on := None\<rparr>"

lemma not_due_as_friend [simp]: "\<not> due_conversion today (as_friend r)"
  by (simp add: due_conversion_def as_friend_def)

lemma u_id_as_friend [simp]: "u_id (as_friend r) = u_id r"
  by (simp add: as_friend_def)

lemma users_convert_one:
  "users (snd (convert_one today u acc))
    = map (\<lambda>r. if due_conversion today r \<and> u_id r = u_id u then as_friend r else r) (users (snd acc))"
  by (cases acc) (auto simp: convert_one_def Let_def table_simps rows_update_def as_friend_def)

lemma terms_convert_one: "terms (snd (convert_one today u acc)) = terms (snd acc)"
  by (cases acc) (auto simp: convert_one_def Let_def table_simps)

lemma users_convert_fold:
  "users (snd (fold (convert_one today) us acc)) = map (\<lambda>r. if due_conversion today r
     \<and> u_id r \<in> set (map u_id us) then as_friend r else r) (users (snd acc))"
  by (induction us arbitrary: acc) (auto simp: users_convert_one)

lemma terms_convert_fold: "terms (snd (fold (convert_one today) us acc)) = terms (snd acc)"
  by (induction us arbitrary: acc) (simp_all add: terms_convert_one)

lemma users_convert_listed:
  "users (snd (convert_listed today us d)) = map (\<lambda>r. if due_conversion today r
     \<and> u_id r \<in> set (map u_id us) then as_friend r else r) (users d)"
  by (simp add: convert_listed_def users_convert_fold)

lemma users_convert_due:
  "users (snd (convert_due_friends cfg (Some today) d))
    = map (\<lambda>r. if due_conversion today r then as_friend r else r) (users d)"
  by (auto simp: convert_due_friends_def users_convert_listed due_conversions_def)

lemma memberships_cong:
  "terms d' = terms d \<Longrightarrow> u_id u' = u_id u \<Longrightarrow> memberships d' u' = memberships d u"
  by (simp add: memberships_def)

text \<open>A conversion is written only for a row that is still due: an account on the list that
  has meanwhile become a member again, or whose date has moved ahead, is left as it is, and every
  other listed account is a friend with nothing pending.\<close>

theorem convert_listed_rows:
  "users (snd (convert_listed today us d)) = map (\<lambda>r. if due_conversion today r
     \<and> u_id r \<in> set (map u_id us) then r\<lparr>u_kind := Friend, u_friend_on := None\<rparr> else r) (users d)
   \<and> (\<forall>r. due_conversion today r \<longleftrightarrow> u_kind r \<noteq> Friend \<and> friend_day_has_come r today)"
  by (auto simp: users_convert_listed as_friend_def due_conversion_def friend_day_has_come_def)

text \<open>Writing the conversions down changes no account's effective kind, on that day or later.\<close>

theorem convert_due_friends_keeps_kind:
  assumes "r \<in> set (users d)" and "distinct (map u_id (users d))"
    and "u_kind r = Donor \<Longrightarrow> u_friend_on r = None" and "today \<le> x"
  shows "\<exists>r'. get_user (snd (convert_due_friends cfg (Some today) d)) (u_id r) = Some r'
    \<and> account_kind (snd (convert_due_friends cfg (Some today) d)) r' x = account_kind d r x
    \<and> \<not> due_conversion today r'"
proof -
  let ?d = "snd (convert_due_friends cfg (Some today) d)"
  let ?f = "\<lambda>r. if due_conversion today r then as_friend r else r"
  have "distinct (map u_id (map ?f (users d)))"
    using assms(2) by (simp add: comp_def if_distrib [of u_id] cong: if_cong)
  moreover have "?f r \<in> set (map ?f (users d))" using assms(1) by simp
  ultimately have "row_get u_id (map ?f (users d)) (u_id (?f r)) = Some (?f r)"
    by (rule row_get_distinct)
  then have row: "get_user ?d (u_id r) = Some (?f r)"
    by (simp add: get_user_def users_convert_due split: if_splits)
  have "terms ?d = terms d"
    by (simp add: convert_due_friends_def convert_listed_def terms_convert_fold)
  then have ms: "memberships ?d (?f r) = memberships d r" by (auto intro: memberships_cong)
  have "account_kind ?d (?f r) x = account_kind d r x"
  proof (cases "due_conversion today r")
    case True
    with assms(3) have "u_kind r = Member" "friend_day_has_come r x"
      using assms(4) by (cases "u_kind r"; auto simp: due_conversion_def friend_day_has_come_def
          split: option.splits)+
    with True show ?thesis by (simp add: account_kind_def as_friend_def)
  next
    case False
    with ms show ?thesis by (simp add: account_kind_def)
  qed
  with row show ?thesis by simp
qed

definition leaving_member :: db where
  \<comment> \<open>a member covered until day 1364, on day 1300, who asked to become a friend\<close>
  "leaving_member = renewing_member\<lparr>users := [(sample_user 1 Member)\<lparr>u_friend_on := Some 1365\<rparr>]\<rparr>"

theorem convert_due_friends_keeps_kind_witness:
  "\<exists>r'. get_user (snd (convert_due_friends sample_config (Some 1400) leaving_member)) 1 = Some r'
    \<and> account_kind (snd (convert_due_friends sample_config (Some 1400) leaving_member)) r' 1400
        = account_kind leaving_member ((sample_user 1 Member)\<lparr>u_friend_on := Some 1365\<rparr>) 1400"
  using convert_due_friends_keeps_kind [of "(sample_user 1 Member)\<lparr>u_friend_on := Some 1365\<rparr>"
      leaving_member 1400 1400 sample_config]
  by (auto simp: leaving_member_def sample_user_def)

subsection \<open>Expiring what has run out\<close>

lemma sort_key_map_same:
  "(\<And>x. k (f x) = k x) \<Longrightarrow> sort_key k (map f xs) = map f (sort_key k xs)"
proof (induction xs)
  case (Cons x xs)
  have "insort_key k (f x) (map f ys) = map f (insort_key k x ys)" for ys
    by (induction ys) (simp_all add: Cons.prems)
  with Cons show ?case by simp
qed simp

definition expire_row :: "date \<Rightarrow> membership \<Rightarrow> membership" where
  "expire_row on_date m = (if lapsed_term on_date m then expired m else m)"

lemma expire_row_same [simp]:
  "m_id (expire_row x m) = m_id m" "m_user (expire_row x m) = m_user m"
  "m_plan (expire_row x m) = m_plan m" "m_starts_on (expire_row x m) = m_starts_on m"
  "m_ends_on (expire_row x m) = m_ends_on m"
  by (simp_all add: expire_row_def expired_def)

lemma announce_frame [table_simps]:
  "terms (fold (announce_expiry x) ts d) = terms d" "plans (fold (announce_expiry x) ts d) = plans d"
  "users (fold (announce_expiry x) ts d) = users d"
  by (induction ts arbitrary: d) (simp_all add: announce_expiry_def table_simps)

lemma terms_expire:
  assumes "distinct (map m_id (terms d))"
  shows "terms (snd (expire_lapsed_memberships cfg (Some x) d)) = map (expire_row x) (terms d)"
proof -
  have "m_id m \<in> set (map m_id (lapsed_terms x d)) \<longleftrightarrow> lapsed_term x m"
    if "m \<in> set (terms d)" for m
    using assms that by (auto simp: lapsed_terms_def distinct_map inj_on_def)
  then show ?thesis
    by (auto simp: expire_lapsed_memberships_def Let_def table_simps rows_update_def expire_row_def)
qed

lemma plans_expire: "plans (snd (expire_lapsed_memberships cfg (Some x) d)) = plans d"
  by (simp add: expire_lapsed_memberships_def Let_def table_simps)

lemma memberships_expired:
  assumes "terms d' = map (expire_row x) (terms d)"
  shows "memberships d' u = map (expire_row x) (memberships d u)"
  by (simp add: memberships_def assms filter_map comp_def sort_key_map_same)

lemma filter_map_same:
  "(\<And>m. P (f m) \<longleftrightarrow> P m) \<Longrightarrow> (\<And>m. P m \<Longrightarrow> f m = m) \<Longrightarrow> filter P (map f xs) = filter P xs"
  by (induction xs) auto

lemma current_term_expired:
  assumes "terms d' = map (expire_row x) (terms d)" and "x \<le> y"
  shows "current_term d' u y = current_term d u y"
proof -
  have "filter (\<lambda>m. m_status m = TermActive \<and> m_starts_on m \<le> y
        \<and> (case m_ends_on m of None \<Rightarrow> True | Some e \<Rightarrow> e \<ge> y)) (map (expire_row x) (memberships d u))
      = filter (\<lambda>m. m_status m = TermActive \<and> m_starts_on m \<le> y
        \<and> (case m_ends_on m of None \<Rightarrow> True | Some e \<Rightarrow> e \<ge> y)) (memberships d u)"
    using assms(2) by (intro filter_map_same)
      (auto simp: expire_row_def expired_def lapsed_term_def split: option.splits)
  then show ?thesis by (simp add: current_term_def Let_def memberships_expired [OF assms(1)])
qed

lemma coverage_walk_cong:
  assumes "\<And>e. y \<le> e \<Longrightarrow> filter (continues e) ms' = filter (continues e) ms"
    and "\<And>e. m_ends_on l = Some e \<Longrightarrow> y \<le> e"
  shows "coverage_walk ms' l = coverage_walk ms l"
  using assms
proof (induction ms l rule: coverage_walk.induct)
  case (1 ms l)
  show ?case
  proof (cases "m_ends_on l")
    case None
    then show ?thesis by (simp add: coverage_walk_lifetime)
  next
    case (Some e)
    then have same: "filter (continues e) ms' = filter (continues e) ms"
      using "1.prems" by blast
    show ?thesis
    proof (cases "max_by reach_key (filter (continues e) ms)")
      case None
      then have "max_by reach_key (filter (continues e) ms') = None" by (simp only: same)
      with Some None show ?thesis by (simp only: coverage_walk_end)
    next
      case (Some m)
      then have m: "continues e m" by (auto dest: max_by_in_set)
      have m': "max_by reach_key (filter (continues e) ms') = Some m" using Some by (simp only: same)
      have "coverage_walk ms' m = coverage_walk ms m"
      proof (rule "1.IH" [OF \<open>m_ends_on l = Some e\<close> Some "1.prems"(1)])
        fix e' assume "m_ends_on m = Some e'"
        with m "1.prems"(2) \<open>m_ends_on l = Some e\<close> show "y \<le> e'"
          by (force simp: continues_def)
      qed
      with coverage_walk_step [OF \<open>m_ends_on l = Some e\<close> Some]
        coverage_walk_step [OF \<open>m_ends_on l = Some e\<close> m'] show ?thesis by simp
    qed
  qed
qed

lemma coverage_expired:
  assumes "terms d' = map (expire_row x) (terms d)" and "x \<le> y"
  shows "coverage d' u y = coverage d u y"
proof (cases "current_term d u y")
  case None
  with current_term_expired [OF assms] show ?thesis by (simp add: coverage_def)
next
  case (Some c)
  let ?active = "\<lambda>d. filter (\<lambda>m. m_status m = TermActive) (memberships d u)"
  have "coverage_walk (?active d') c = coverage_walk (?active d) c"
  proof (rule coverage_walk_cong)
    fix e assume e: "y \<le> e"
    have "filter (\<lambda>m. continues e m \<and> m_status m = TermActive) (map (expire_row x) (memberships d u))
        = filter (\<lambda>m. continues e m \<and> m_status m = TermActive) (memberships d u)"
      using assms(2) e by (intro filter_map_same)
        (auto simp: expire_row_def expired_def lapsed_term_def continues_def split: option.splits)
    then show "filter (continues e) (?active d') = filter (continues e) (?active d)"
      by (simp add: memberships_expired [OF assms(1)] conj_commute)
  next
    fix e assume "m_ends_on c = Some e"
    with current_term_SomeD [OF Some] show "y \<le> e" by (simp add: covers_def)
  qed
  with Some current_term_expired [OF assms] show ?thesis by (simp add: coverage_def)
qed

lemma account_kind_expired:
  assumes "terms d' = map (expire_row x) (terms d)"
  shows "account_kind d' u y = account_kind d u y"
proof -
  have "m_status (expire_row x m) \<in> set member_making_statuses
      \<longleftrightarrow> m_status m \<in> set member_making_statuses" for m
    by (simp add: expire_row_def expired_def lapsed_term_def member_making_statuses_def)
  then show ?thesis
    by (simp add: account_kind_def memberships_expired [OF assms] list_ex_iff)
qed

lemma started_terms_expired:
  assumes "terms d' = map (expire_row x) (terms d)"
  shows "started_terms d' u y = map (expire_row x) (started_terms d u y)"
  unfolding started_terms_def assms filter_map
  by (intro arg_cong [where f = "map _"] filter_cong)
    (auto simp: expire_row_def expired_def lapsed_term_def not_past_statuses_def)

lemma membership_status_expired:
  assumes t: "terms d' = map (expire_row x) (terms d)" and "plans d' = plans d" and "x \<le> y"
  shows "membership_status d' u y = membership_status d u y"
proof (cases u)
  case None
  then show ?thesis by (simp add: membership_status_def)
next
  case (Some v)
  have name: "plan_name d' m = plan_name d m" for m
    by (simp add: plan_name_def get_plan_def assms(2))
  have name_row: "plan_name d (expire_row x m) = plan_name d m" for m by (simp add: plan_name_def)
  have past: "first_of (sort_key past_key (started_terms d' v y))
      = map_option (expire_row x) (first_of (sort_key past_key (started_terms d v y)))"
    unfolding started_terms_expired [OF t]
    by (subst sort_key_map_same) (auto simp: past_key_def first_of_def split: list.splits)
  show ?thesis
    using Some coverage_expired [OF t assms(3)] account_kind_expired [OF t]
    by (auto simp: membership_status_def awaits_first_term_def past name name_row
        split: option.splits person_kind.splits)
qed

text \<open>Expiring the terms that ran out before a day changes nobody's membership status on that
  day or later: the flip only writes down what the rules already answer.\<close>

theorem expire_keeps_status:
  assumes "distinct (map m_id (terms d))" and "x \<le> y"
  shows "membership_status (snd (expire_lapsed_memberships cfg (Some x) d)) u y
    = membership_status d u y"
  by (rule membership_status_expired [OF terms_expire [OF assms(1)] plans_expire assms(2)])

theorem expire_keeps_status_witness:
  "membership_status (snd (expire_lapsed_memberships sample_config (Some 1400) renewing_member))
      (Some (sample_user 1 Member)) 1400
    = membership_status renewing_member (Some (sample_user 1 Member)) 1400"
proof -
  have "distinct (map m_id (terms renewing_member))" by code_simp
  from expire_keeps_status [OF this, of 1400 1400] show ?thesis by simp
qed

text \<open>After the scan no term that ran out is still active, and the count is the number of
  terms that were.\<close>

theorem expire_leaves_none:
  assumes "distinct (map m_id (terms d))"
  shows "lapsed_terms x (snd (expire_lapsed_memberships cfg (Some x) d)) = []
    \<and> fst (expire_lapsed_memberships cfg (Some x) d) = length (filter (lapsed_term x) (terms d))"
proof -
  have "m_id m \<in> set (map m_id (lapsed_terms x d)) \<longleftrightarrow> lapsed_term x m"
    if "m \<in> set (terms d)" for m
    using assms that by (auto simp: lapsed_terms_def distinct_map inj_on_def)
  then have "filter (\<lambda>m. m_id m \<in> set (map m_id (lapsed_terms x d))) (terms d)
      = filter (lapsed_term x) (terms d)"
    by (intro filter_cong) simp_all
  then have "fst (expire_lapsed_memberships cfg (Some x) d) = length (filter (lapsed_term x) (terms d))"
    by (simp add: expire_lapsed_memberships_def Let_def rows_matched_def)
  moreover have "filter (lapsed_term x) (map (expire_row x) (terms d)) = []"
    by (auto simp: filter_empty_conv expire_row_def expired_def lapsed_term_def)
  then have "lapsed_terms x (snd (expire_lapsed_memberships cfg (Some x) d)) = []"
    unfolding lapsed_terms_def terms_expire [OF assms] by simp
  ultimately show ?thesis by simp
qed

theorem expire_leaves_none_witness:
  "fst (expire_lapsed_memberships sample_config (Some 1400) renewing_member) = 1"
proof -
  have "distinct (map m_id (terms renewing_member))" by code_simp
  from expire_leaves_none [OF this, of 1400 sample_config] show ?thesis
    by (simp add: renewing_member_def sample_defs lapsed_term_def)
qed

subsection \<open>Choosing and undoing\<close>

lemma become_friend_current:
  assumes "check_can_become_friend d u x = None"
    and "st_status (membership_status d (Some u) x) = StateCurrent"
    and "st_expires_on (membership_status d (Some u) x) = Some e"
  shows "\<exists>d'. become_friend cfg u (Some x) a d = (Inr (u\<lparr>u_friend_on := Some (e + 1)\<rparr>), d')
    \<and> users d' = rows_update (\<lambda>r. u_id r = u_id u)
        (\<lambda>r. r\<lparr>u_kind := u_kind u, u_friend_on := Some (e + 1)\<rparr>) (users d)
    \<and> terms d' = terms d"
proof -
  have "u_kind u \<noteq> Friend" using assms(1) by (auto simp: check_can_become_friend_def split: if_splits)
  with assms show ?thesis
    by (simp add: become_friend_def save_kind_def edit_user_def table_simps)
qed

text \<open>C38: a current member who chooses to be a friend stays a member through the last day of the
  coverage they were shown, and is a friend from the day after; changing their mind before then
  puts the account's kind and date back as they were.\<close>

theorem become_friend_waits:
  assumes "check_can_become_friend d u x = None" and "get_user d (u_id u) = Some u"
    and "st_status (membership_status d (Some u) x) = StateCurrent"
    and "st_expires_on (membership_status d (Some u) x) = Some e"
  shows "\<exists>u' d'. become_friend cfg u (Some x) a d = (Inr u', d')
    \<and> get_user d' (u_id u) = Some u'
    \<and> (\<forall>y \<ge> x. account_kind d' u' y = (if y \<le> e then Member else Friend))
    \<and> (\<forall>y. x \<le> y \<and> y \<le> e \<longrightarrow> (\<exists>d''. undo_become_friend cfg u' (Some y) d'
          = (Inr (u\<lparr>u_friend_on := None\<rparr>), d'') \<and> get_user d'' (u_id u) = Some (u\<lparr>u_friend_on := None\<rparr>)))"
proof -
  let ?u = "u\<lparr>u_friend_on := Some (e + 1)\<rparr>"
  obtain d' where b: "become_friend cfg u (Some x) a d = (Inr ?u, d')"
    and us: "users d' = rows_update (\<lambda>r. u_id r = u_id u)
        (\<lambda>r. r\<lparr>u_kind := u_kind u, u_friend_on := Some (e + 1)\<rparr>) (users d)"
    and ts: "terms d' = terms d"
    using become_friend_current [OF assms(1,3,4)] by blast
  have "account_kind d u x = Member"
    using assms(3) by (auto simp: membership_status_def donor_membership_def not_yet_paid_def
        friend_membership_def split: person_kind.splits if_splits)
  then have m: "u_kind u = Member" "list_ex (\<lambda>m. m_status m \<in> set member_making_statuses
      \<and> m_starts_on m \<le> x) (memberships d u)"
    by (auto simp: account_kind_def split: if_splits)
  have ms: "memberships d' ?u = memberships d u" by (rule memberships_cong [OF ts]) simp
  have kind: "account_kind d' ?u y = (if y \<le> e then Member else Friend)" if "x \<le> y" for y
    using m ms that by (fastforce simp: account_kind_def friend_day_has_come_def list_ex_iff)
  have row: "get_user d' (u_id u) = Some ?u"
    using assms(2) by (simp add: get_user_def us row_get_rows_edit)
  have undo: "\<exists>d''. undo_become_friend cfg ?u (Some y) d' = (Inr (u\<lparr>u_friend_on := None\<rparr>), d'')
      \<and> get_user d'' (u_id u) = Some (u\<lparr>u_friend_on := None\<rparr>)" if "x \<le> y" "y \<le> e" for y
  proof -
    have "get_user (audit_record ''account.kind'' (Account (u_id u)) (Some (u_id u))
        [(''to'', ASlug (kind_slug Member)), (''undo'', ABool True)]
        (edit_user (u_id u) (\<lambda>r. r\<lparr>u_friend_on := None\<rparr>) d')) (u_id u)
      = Some (u\<lparr>u_friend_on := None\<rparr>)"
      using row by (simp add: get_user_def table_simps edit_user_def row_get_rows_edit)
    then show ?thesis using kind [OF that(1)] that by (simp add: undo_become_friend_def)
  qed
  from b row kind undo show ?thesis by blast
qed

theorem become_friend_waits_witness:
  "\<exists>u' d'. become_friend sample_config (sample_user 1 Member) (Some 1300) None renewing_member
      = (Inr u', d') \<and> account_kind d' u' 1364 = Member \<and> account_kind d' u' 1365 = Friend"
proof -
  have c: "check_can_become_friend renewing_member (sample_user 1 Member) 1300 = None" by code_simp
  have s: "st_status (membership_status renewing_member (Some (sample_user 1 Member)) 1300)
      = StateCurrent" by code_simp
  have e: "st_expires_on (membership_status renewing_member (Some (sample_user 1 Member)) 1300)
      = Some 1364" by code_simp
  from become_friend_waits [OF c renewing_member_facts(6) s e, of sample_config None]
  show ?thesis by auto
qed

end
