(* ===== verification/Schedule.thy ===== *)
theory Schedule
  imports Lifecycle
begin

text \<open>
  What a standing authority to charge (a mandate) is and when it charges
  (\<open>payments/renewals/schedule.py\<close>): its kind, the membership term it renews, its amount and its
  dates.  The months of a cadence and \<open>advance_by_cadence\<close> are in \<open>Calendar\<close>.
\<close>

datatype mandate_kind = RenewalMandate | BothMandate | ContributionMandate

definition card_expires_on :: "mandate \<Rightarrow> date option" where
  "card_expires_on m = (case (rm_method_exp_year m, rm_method_exp_month m) of
     (Some y, Some mo) \<Rightarrow> Some (mk_date y mo (days_in_month y mo)) | _ \<Rightarrow> None)"

definition reach_and_id :: "membership \<Rightarrow> date \<times> pk" where
  "reach_and_id m = (case m_ends_on m of None \<Rightarrow> 0 | Some e \<Rightarrow> e, m_id m)"

definition term_to_renew :: "db \<Rightarrow> user \<Rightarrow> date \<Rightarrow> membership option" where
  "term_to_renew d u today =
     (let active = filter (\<lambda>m. m_status m = TermActive) (memberships d u)
      in if list_ex (\<lambda>m. m_ends_on m = None) active then None
         else let dated = filter (\<lambda>m. case m_ends_on m of None \<Rightarrow> False | Some e \<Rightarrow> e \<ge> today) active
              in if dated = [] then None else max_by reach_and_id dated)"

definition lapsed_term_to_renew :: "db \<Rightarrow> user \<Rightarrow> date \<Rightarrow> membership option" where
  "lapsed_term_to_renew d u today =
     (let ts = filter (\<lambda>m. m_status m \<in> {TermActive, TermExpired}) (memberships d u)
      in if list_ex (\<lambda>m. m_ends_on m = None) ts then None
         else let dated = filter (\<lambda>m. case m_ends_on m of None \<Rightarrow> False | Some e \<Rightarrow> e < today) ts
              in if dated = [] then None else max_by reach_and_id dated)"

definition lifetime_term :: "db \<Rightarrow> user \<Rightarrow> membership option" where
  "lifetime_term d u =
     find (\<lambda>m. m_status m = TermActive \<and> m_ends_on m = None) (memberships d u)"

definition mandate_kind_of :: "mandate \<Rightarrow> mandate_kind" where
  "mandate_kind_of m = (if rm_plan m = None then ContributionMandate
     else if rm_contribution_cents m > 0 then BothMandate else RenewalMandate)"

definition default_charge_date :: "db \<Rightarrow> user \<Rightarrow> date \<Rightarrow> date" where
  "default_charge_date d u today =
     (case Option.bind (term_to_renew d u today) m_ends_on of Some e \<Rightarrow> e | None \<Rightarrow> today)"

definition charge_date :: "db \<Rightarrow> mandate \<Rightarrow> date \<Rightarrow> date option" where
  "charge_date d m today =
     (if rm_status m \<noteq> MandateActive then None
      else let scheduled = map ra_scheduled_on
                 (filter (\<lambda>a. ra_mandate a = rm_id m \<and> ra_outcome a = Scheduled) (attempts d))
           in if scheduled \<noteq> [] then Some (Min (set scheduled))
              else Some (max (rm_next_charge_on m) today))"

definition mandate_plan :: "db \<Rightarrow> mandate \<Rightarrow> plan option" where
  \<comment> \<open>\<open>mandate.plan\<close>\<close>
  "mandate_plan d m = Option.bind (rm_plan m) (get_plan d)"

definition renewal_amount_cents :: "db \<Rightarrow> mandate \<Rightarrow> int" where
  "renewal_amount_cents d m =
     (case mandate_plan d m of Some p \<Rightarrow> pl_price_cents p | None \<Rightarrow> 0) + rm_contribution_cents m"

subsection \<open>The term a mandate renews\<close>

lemma term_to_renew_Some:
  assumes "term_to_renew d u x = Some m"
  shows "m \<in> set (memberships d u)" and "m_status m = TermActive"
    and "\<exists>e. m_ends_on m = Some e \<and> x \<le> e"
    and "\<And>t. t \<in> set (memberships d u) \<Longrightarrow> m_status t = TermActive
       \<Longrightarrow> \<exists>y e. m_ends_on t = Some y \<and> m_ends_on m = Some e \<and> y \<le> e"
proof -
  let ?active = "filter (\<lambda>m. m_status m = TermActive) (memberships d u)"
  let ?dated = "filter (\<lambda>m. case m_ends_on m of None \<Rightarrow> False | Some e \<Rightarrow> e \<ge> x) ?active"
  have dated: "\<forall>t \<in> set ?active. m_ends_on t \<noteq> None" and m: "max_by reach_and_id ?dated = Some m"
    using assms by (auto simp: term_to_renew_def Let_def list_ex_iff split: if_splits)
  have "m \<in> set ?dated" using m by (rule max_by_in_set)
  then show in_m: "m \<in> set (memberships d u)" "m_status m = TermActive"
    and end_m: "\<exists>e. m_ends_on m = Some e \<and> x \<le> e" by (auto split: option.splits)
  fix t assume t: "t \<in> set (memberships d u)" "m_status t = TermActive"
  obtain e where e: "m_ends_on m = Some e" "x \<le> e" using end_m by blast
  obtain y where y: "m_ends_on t = Some y" using dated t by auto
  have "y \<le> e"
  proof (cases "x \<le> y")
    case True
    then have "reach_and_id t \<le> reach_and_id m"
      using max_by_greatest [OF m, of t] t y by simp
    with y e show ?thesis by (auto simp: reach_and_id_def less_eq_prod_def)
  next
    case False
    with e show ?thesis by simp
  qed
  with y e show "\<exists>y e. m_ends_on t = Some y \<and> m_ends_on m = Some e \<and> y \<le> e" by blast
qed

lemma default_charge_date_ge: "today \<le> default_charge_date d u today"
  using term_to_renew_Some(3) [of d u today]
  by (cases "term_to_renew d u today") (force simp: default_charge_date_def)+

lemma charge_date_not_past:
  assumes "charge_date d m today = Some x" and "x < today"
  shows "\<exists>a \<in> set (attempts d). ra_mandate a = rm_id m \<and> ra_outcome a = Scheduled
     \<and> ra_scheduled_on a = x"
proof -
  let ?s = "map ra_scheduled_on
     (filter (\<lambda>a. ra_mandate a = rm_id m \<and> ra_outcome a = Scheduled) (attempts d))"
  have "?s \<noteq> []" "x = Min (set ?s)"
    using assms by (auto simp: charge_date_def Let_def split: if_splits)
  then have "x \<in> set ?s" using Min_in [of "set ?s"] by (metis List.finite_set set_empty)
  then show ?thesis by auto
qed

text \<open>The term a renewal follows is the member's active term that runs furthest; there is none
  exactly when an active term is for life or when every active term has run out; and the charge
  falls on the last day of that term, never in the past.\<close>

theorem term_to_renew_spec:
  "(case term_to_renew d u today of
      Some m \<Rightarrow> m \<in> set (memberships d u) \<and> m_status m = TermActive
        \<and> m_ends_on m = Some (default_charge_date d u today)
        \<and> list_all (\<lambda>t. m_status t = TermActive
            \<longrightarrow> (\<exists>y. m_ends_on t = Some y \<and> y \<le> default_charge_date d u today)) (memberships d u)
    | None \<Rightarrow> default_charge_date d u today = today
        \<and> (lifetime_term d u \<noteq> None
           \<or> list_all (\<lambda>t. m_status t = TermActive \<longrightarrow> \<not> runs_on today t) (memberships d u)))
   \<and> today \<le> default_charge_date d u today"
proof (cases "term_to_renew d u today")
  case None
  then have "(\<exists>t \<in> set (memberships d u). m_status t = TermActive \<and> m_ends_on t = None)
      \<or> (\<forall>t \<in> set (memberships d u). m_status t = TermActive \<longrightarrow> \<not> runs_on today t)"
    by (auto simp: term_to_renew_def Let_def list_ex_iff filter_empty_conv runs_on_def
        split: if_splits option.splits)
  with None default_charge_date_ge [of today d u] show ?thesis
    by (auto simp: default_charge_date_def lifetime_term_def list_all_iff find_None_iff)
next
  case (Some m)
  obtain e where e: "m_ends_on m = Some e" using term_to_renew_Some(3) [OF Some] by blast
  have "default_charge_date d u today = e" using Some e by (simp add: default_charge_date_def)
  with Some e term_to_renew_Some [OF Some] default_charge_date_ge [of today d u] show ?thesis
    by (auto simp: list_all_iff)
qed

theorem term_to_renew_spec_witness:
  "term_to_renew renewing_member (sample_user 1 Member) 1300 \<noteq> None
   \<and> m_ends_on (the (term_to_renew renewing_member (sample_user 1 Member) 1300))
       = Some (default_charge_date renewing_member (sample_user 1 Member) 1300)"
proof -
  have "term_to_renew renewing_member (sample_user 1 Member) 1300
      = Some (sample_term 1 1 1 1000 (Some 1364))" by code_simp
  with term_to_renew_spec [of renewing_member "sample_user 1 Member" 1300] show ?thesis by simp
qed

end
