(* ===== verification/Mandates.thy ===== *)
theory Mandates
  imports Schedule
begin

text \<open>
  The life cycle of a mandate (\<open>payments/renewals/mandates.py\<close>): beginning one, saving the method
  that activates it, canceling it, throwing a pending one away, switching a member to friend, and
  moving the charge day past coverage bought elsewhere.

  What the provider's own record says about a payment's saved method is an argument
  (\<open>method_of\<close>), and closing a setup left open at a provider is a call in \<open>provider_calls\<close>.
\<close>

subsection \<open>Refusals\<close>

definition auto_renew_field :: string where
  "auto_renew_field = ''auto_renew''"

definition chosen_date_key :: string where
  "chosen_date_key = ''next_charge_on_chosen''"

definition life_member_plan_message :: string where
  "life_member_plan_message =
     ''A life member's membership does not renew; choose a contribution instead.''"

definition donation_amount_message :: string where
  "donation_amount_message = ''A recurring donation needs an amount to give.''"

definition has_donation_message :: string where
  "has_donation_message =
     ''You already have a recurring donation. Change it on the \"Donate\" screen.''"

definition lifetime_plan_message :: string where
  "lifetime_plan_message = ''A lifetime membership never expires, so it cannot renew itself.''"

definition contribution_field :: string where
  "contribution_field = ''contribution_cents''"

definition keep_contribution_field :: string where
  "keep_contribution_field = ''keep_contribution''"

definition keep_contribution_required :: string where
  "keep_contribution_required = ''This field is required.''"

definition keep_contribution_donation_held_admin :: string where
  "keep_contribution_donation_held_admin =
     ''They already have a recurring donation, so the contribution cannot be kept as one.''"

definition provider_slug :: "provider \<Rightarrow> string" where
  "provider_slug p = (case p of Stripe \<Rightarrow> ''stripe'' | PayPal \<Rightarrow> ''paypal'' | Mock \<Rightarrow> ''mock''
     | Manual \<Rightarrow> ''manual'')"

definition mandate_providers :: "provider list" where
  "mandate_providers = [Stripe, PayPal, Mock]"

definition check_renewable :: "db \<Rightarrow> plan option \<Rightarrow> provider \<Rightarrow> user \<Rightarrow> int
    \<Rightarrow> error + plan option" where
  "check_renewable d p pr u cents =
     (if pr \<notin> set mandate_providers
      then Inl (DomainValidationError auto_renew_field
             (CHR 0x27 # provider_slug pr @ CHR 0x27 # '' cannot charge a saved payment method.''))
      else case p of
        None \<Rightarrow> if cents \<le> 0
                then Inl (DomainValidationError auto_renew_field donation_amount_message)
                else Inr None
      | Some pl \<Rightarrow>
          if lifetime_term d u \<noteq> None
          then Inl (DomainValidationError auto_renew_field life_member_plan_message)
          else if pl_duration_days pl = None
          then Inl (DomainValidationError auto_renew_field lifetime_plan_message)
          else Inr (Some pl))"

subsection \<open>The two mandates a person may hold\<close>

definition mandate_held :: "db \<Rightarrow> pk \<Rightarrow> bool \<Rightarrow> mandate option" where
  \<comment> \<open>\<open>RenewalMandate.objects.filter(user=user, plan__isnull=donation).first()\<close>; at most one row
    matches, by the model's two unique constraints\<close>
  "mandate_held d k donation =
     find (\<lambda>m. rm_user m = k \<and> (rm_plan m = None) = donation) (mandates d)"

definition renewal_of :: "db \<Rightarrow> pk \<Rightarrow> mandate option" where
  "renewal_of d k = mandate_held d k False"

definition donation_of :: "db \<Rightarrow> pk \<Rightarrow> mandate option" where
  "donation_of d k = mandate_held d k True"

definition refuse_renewal_contribution :: "db \<Rightarrow> pk \<Rightarrow> int \<Rightarrow> error option" where
  "refuse_renewal_contribution d k cents =
     (if cents \<le> 0 then None
      else case donation_of d k of
        None \<Rightarrow> None
      | Some held \<Rightarrow> if rm_status held \<noteq> MandateCanceled
          then Some (DomainValidationError contribution_field has_donation_message) else None)"

definition take_contribution_off_renewal :: "pk \<Rightarrow> bool \<Rightarrow> actor \<Rightarrow> db \<Rightarrow> (error + unit) \<times> db" where
  "take_contribution_off_renewal k remove actor d =
     (case renewal_of d k of
        None \<Rightarrow> (Inr (), d)
      | Some renewal \<Rightarrow>
          if rm_status renewal = MandateCanceled then (Inr (), d)
          else if rm_contribution_cents renewal \<le> 0 then (Inr (), d)
          else if \<not> remove
          then (Inl (RenewalContributionError (rm_contribution_cents renewal)), d)
          else (Inr (), audit_record ''renewal.change'' actor (Some k)
                 [(''contribution_cents'', AInt 0),
                  (''removed_cents'', AInt (rm_contribution_cents renewal))]
                 (edit_mandate (rm_id renewal) (\<lambda>r. r\<lparr>rm_contribution_cents := 0\<rparr>) d)))"

definition reset_mandate :: "plan option \<Rightarrow> int \<Rightarrow> cadence \<Rightarrow> date \<Rightarrow> provider \<Rightarrow> bool
    \<Rightarrow> mandate \<Rightarrow> mandate" where
  \<comment> \<open>the \<open>defaults\<close> of \<open>update_or_create\<close>\<close>
  "reset_mandate p cents cad charge_on pr chosen m = m\<lparr>rm_plan := map_option pl_id p,
     rm_contribution_cents := cents, rm_cadence := cad, rm_next_charge_on := charge_on,
     rm_provider := pr, rm_status := MandatePending, rm_customer_ref := [], rm_method_ref := [],
     rm_method_brand := [], rm_method_last4 := [], rm_method_exp_month := None,
     rm_method_exp_year := None, rm_method_label := [], rm_failure_count := 0,
     rm_canceled_at := None, rm_canceled_by := None,
     rm_raw := (if chosen then [(chosen_date_key, JBool True)] else [])\<rparr>"

definition new_mandate :: "pk \<Rightarrow> pk \<Rightarrow> mandate" where
  \<comment> \<open>a row with the model's own defaults, before \<open>defaults\<close> are written on it\<close>
  "new_mandate k user_pk = \<lparr>rm_id = k, rm_user = user_pk, rm_plan = None, rm_contribution_cents = 0,
     rm_cadence = Yearly, rm_next_charge_on = date_min, rm_provider = Mock, rm_customer_ref = [],
     rm_method_ref = [], rm_method_brand = [], rm_method_last4 = [], rm_method_exp_month = None,
     rm_method_exp_year = None, rm_method_label = [], rm_status = MandatePending,
     rm_failure_count = 0, rm_canceled_at = None, rm_canceled_by = None, rm_last_charged_at = None,
     rm_raw = []\<rparr>"

definition begin_mandate_body :: "config \<Rightarrow> user \<Rightarrow> plan option \<Rightarrow> int \<Rightarrow> provider \<Rightarrow> date option
    \<Rightarrow> cadence \<Rightarrow> bool \<Rightarrow> db \<Rightarrow> (error + mandate) \<times> db" where
  "begin_mandate_body cfg u p cents pr next_on cad remove d =
     (case check_renewable d p pr u cents of
        Inl e \<Rightarrow> (Inl e, d)
      | Inr renewable \<Rightarrow>
          (case (if renewable = None
                 then take_contribution_off_renewal (u_id u) remove (Account (u_id u)) d
                 else case refuse_renewal_contribution d (u_id u) cents of
                        Some e \<Rightarrow> (Inl e, d) | None \<Rightarrow> (Inr (), d)) of
             (Inl e, d) \<Rightarrow> (Inl e, d)
           | (Inr _, d) \<Rightarrow>
               (let today = local_today cfg d;
                    charge_on = (case next_on of
                        Some x \<Rightarrow> x
                      | None \<Rightarrow> if renewable = None then today else default_charge_date d u today);
                    reset = reset_mandate renewable cents cad charge_on pr (next_on \<noteq> None)
                in case mandate_held d (u_id u) (renewable = None) of
                     Some replaced \<Rightarrow>
                       (let d = call_provider (AbandonCall (rm_id replaced)) d;
                            m = reset replaced
                        in (Inr m, put_mandate m d))
                   | None \<Rightarrow>
                       (let (k, d) = fresh_pk d; m = reset (new_mandate k (u_id u))
                        in (Inr m, d\<lparr>mandates := mandates d @ [m]\<rparr>)))))"

definition begin_mandate :: "config \<Rightarrow> user \<Rightarrow> plan option \<Rightarrow> int \<Rightarrow> provider \<Rightarrow> date option
    \<Rightarrow> cadence \<Rightarrow> bool \<Rightarrow> db \<Rightarrow> (error + mandate) \<times> db" where
  "begin_mandate cfg u p cents pr next_on cad remove =
     atomic (begin_mandate_body cfg u p cents pr next_on cad remove)"

subsection \<open>Saving the method\<close>

record saved_method =
  sm_method_ref :: string
  sm_label :: string
  sm_customer_ref :: string
  sm_brand :: string
  sm_last4 :: string
  sm_exp_month :: "nat option"
  sm_exp_year :: "int option"
  sm_raw :: json_object

definition with_method :: "saved_method \<Rightarrow> mandate \<Rightarrow> mandate" where
  "with_method s m = m\<lparr>
     rm_customer_ref := (if sm_customer_ref s \<noteq> [] then sm_customer_ref s else rm_customer_ref m),
     rm_method_ref := sm_method_ref s, rm_method_brand := sm_brand s, rm_method_last4 := sm_last4 s,
     rm_method_exp_month := sm_exp_month s, rm_method_exp_year := sm_exp_year s,
     rm_method_label := sm_label s, rm_status := MandateActive, rm_failure_count := 0,
     rm_canceled_at := None, rm_canceled_by := None, rm_raw := sm_raw s\<rparr>"

definition save_method :: "config \<Rightarrow> mandate \<Rightarrow> saved_method \<Rightarrow> actor \<Rightarrow> db \<Rightarrow> mandate \<times> db" where
  "save_method cfg m0 s actor d =
     (let was_active = (rm_status m0 = MandateActive);
          m = with_method s m0;
          d = put_mandate m d;
          d = audit_record ''renewal.enable'' actor (Some (rm_user m))
                [(''provider'', ASlug (provider_slug (rm_provider m))),
                 (''plan'', ASlugs (case mandate_plan d m of None \<Rightarrow> [] | Some p \<Rightarrow> [pl_slug p]))] d;
          charge_on = charge_date d m (local_today cfg d);
          d = queue_mail (MandateMail ''renewal_enabled'' (rm_id m) charge_on) d;
          d = (if \<not> was_active then emit (AutoRenewalOn (rm_id m)) d else d)
      in (m, d))"

subsection \<open>Canceling\<close>

definition skip_unsent :: "pk \<Rightarrow> db \<Rightarrow> db" where
  \<comment> \<open>every scheduled attempt of the mandate that was never sent becomes \<open>skipped\<close>\<close>
  "skip_unsent k d = d\<lparr>attempts := rows_update
     (\<lambda>a. ra_mandate a = k \<and> ra_outcome a = Scheduled \<and> ra_payment a = None)
     (\<lambda>a. a\<lparr>ra_outcome := AttemptSkipped\<rparr>) (attempts d)\<rparr>"

definition cancel_mandate :: "mandate \<Rightarrow> pk option \<Rightarrow> off_how option \<Rightarrow> string option \<Rightarrow> db
    \<Rightarrow> mandate \<times> db" where
  "cancel_mandate m0 actor how reason d =
     (if rm_status m0 = MandateCanceled then (m0, d)
      else let was_active = (rm_status m0 = MandateActive);
               m = m0\<lparr>rm_status := MandateCanceled, rm_canceled_at := Some (clock d),
                      rm_canceled_by := actor\<rparr>;
               d = edit_mandate (rm_id m) (\<lambda>r. r\<lparr>rm_status := MandateCanceled,
                     rm_canceled_at := rm_canceled_at m, rm_canceled_by := actor\<rparr>) d;
               d = skip_unsent (rm_id m) d;
               self_service = (actor = Some (rm_user m));
               d = audit_record ''renewal.cancel''
                     (case actor of Some a \<Rightarrow> Account a | None \<Rightarrow> Command) (Some (rm_user m))
                     ([(''provider'', ASlug (provider_slug (rm_provider m))),
                       (''self_service'', ABool self_service)]
                      @ (case reason of None \<Rightarrow> [] | Some r \<Rightarrow> [(''reason'', ASlug r)])) d;
               d = queue_mail (MandateMail ''renewal_canceled'' (rm_id m) None) d;
               d = (if was_active
                    then emit (AutoRenewalOff (rm_id m) (case how of
                           Some h \<Rightarrow> h
                         | None \<Rightarrow> if self_service then OffMember else OffAdministrator)) d
                    else d)
           in (m, d))"

definition is_public_gift :: "payment \<Rightarrow> bool" where
  "is_public_gift p \<longleftrightarrow> length (p_donor_fields p) > 0"

definition pending_mandate_for :: "db \<Rightarrow> payment \<Rightarrow> mandate option" where
  "pending_mandate_for d p =
     (if is_public_gift p then None
      else case find (\<lambda>m. rm_user m = p_user p \<and> rm_status m = MandatePending
               \<and> (rm_plan m = None) = (p_plan p = None)) (mandates d) of
        None \<Rightarrow> None
      | Some m \<Rightarrow> if rm_provider m \<noteq> p_provider p then None
                  else if rm_plan m \<noteq> p_plan p then None
                  else if rm_contribution_cents m \<noteq> p_contribution_cents p then None
                  else Some m)"

definition delete_mandates :: "(mandate \<Rightarrow> bool) \<Rightarrow> db \<Rightarrow> db" where
  \<comment> \<open>\<open>delete()\<close>: a mandate's attempts go with it, and no attempt left retries one that went\<close>
  "delete_mandates P d =
     (let gone = map rm_id (filter P (mandates d));
          lost = map ra_id (filter (\<lambda>a. ra_mandate a \<in> set gone) (attempts d))
      in d\<lparr>mandates := rows_delete P (mandates d),
           attempts := map (\<lambda>a. if (case ra_retry_of a of None \<Rightarrow> False | Some k \<Rightarrow> k \<in> set lost)
                                 then a\<lparr>ra_retry_of := None\<rparr> else a)
             (rows_delete (\<lambda>a. ra_mandate a \<in> set gone) (attempts d))\<rparr>)"

definition unsettled_mandate :: "db \<Rightarrow> mandate \<Rightarrow> bool" where
  "unsettled_mandate d m = list_ex (\<lambda>a. ra_mandate a = rm_id m \<and> ra_outcome a = Scheduled
     \<and> ra_payment a \<noteq> None) (attempts d)"

definition discard_pending_mandate :: "pk \<Rightarrow> db \<Rightarrow> db" where
  "discard_pending_mandate k d =
     (let is_pending = (\<lambda>m. rm_user m = k \<and> rm_status m = MandatePending);
          pending = filter is_pending (mandates d);
          d = fold (\<lambda>m. call_provider (AbandonCall (rm_id m))) pending d;
          unsettled = map rm_id (filter (unsettled_mandate d) pending);
          listed = map rm_id pending;
          d = d\<lparr>mandates := rows_update (\<lambda>m. rm_id m \<in> set unsettled)
                (\<lambda>m. m\<lparr>rm_status := MandateCanceled, rm_canceled_at := Some (clock d)\<rparr>) (mandates d)\<rparr>
      in delete_mandates (\<lambda>m. rm_id m \<in> set listed \<and> rm_id m \<notin> set unsettled) d)"

definition cancel_all_mandates :: "pk \<Rightarrow> pk option \<Rightarrow> db \<Rightarrow> db" where
  "cancel_all_mandates k actor d =
     (let standing = filter (\<lambda>m. rm_user m = k
             \<and> rm_status m \<notin> {MandateCanceled, MandatePending}) (mandates d);
          who = (case actor of Some a \<Rightarrow> a | None \<Rightarrow> k)
      in discard_pending_mandate k
           (fold (\<lambda>m d. snd (cancel_mandate m (Some who) (Some OffDeactivated) None d)) standing d))"

subsection \<open>Becoming a friend\<close>

definition keeps_contribution :: "db \<Rightarrow> mandate \<Rightarrow> bool option \<Rightarrow> bool \<Rightarrow> error + bool" where
  "keeps_contribution d renewal keep is_own =
     (if rm_status renewal \<noteq> MandateActive \<or> rm_contribution_cents renewal = 0 then Inr False
      else case keep of
        None \<Rightarrow> Inl (DomainValidationError keep_contribution_field keep_contribution_required)
      | Some False \<Rightarrow> Inr False
      | Some True \<Rightarrow>
          (case donation_of d (rm_user renewal) of
             Some held \<Rightarrow> if rm_status held \<in> {MandateActive, MandatePaused}
               then Inl (DomainValidationError keep_contribution_field
                      (if is_own then has_donation_message else keep_contribution_donation_held_admin))
               else Inr True
           | None \<Rightarrow> Inr True))"

definition method_of_mandate :: "mandate \<Rightarrow> saved_method" where
  "method_of_mandate m = \<lparr>sm_method_ref = rm_method_ref m, sm_label = rm_method_label m,
     sm_customer_ref = rm_customer_ref m, sm_brand = rm_method_brand m, sm_last4 = rm_method_last4 m,
     sm_exp_month = rm_method_exp_month m, sm_exp_year = rm_method_exp_year m, sm_raw = rm_raw m\<rparr>"

definition keep_renewal_contribution :: "config \<Rightarrow> user \<Rightarrow> mandate \<Rightarrow> db \<Rightarrow> (error + mandate) \<times> db" where
  "keep_renewal_contribution cfg u renewal d =
     (case begin_mandate cfg u None (rm_contribution_cents renewal) (rm_provider renewal)
             (Some (max (rm_next_charge_on renewal) (local_today cfg d))) Yearly False d of
        (Inl e, d) \<Rightarrow> (Inl e, d)
      | (Inr donation, d) \<Rightarrow>
          (let (m, d) = save_method cfg donation (method_of_mandate renewal)
                          (Account (rm_user renewal)) d in (Inr m, d)))"

definition end_renewal :: "config \<Rightarrow> user \<Rightarrow> bool option \<Rightarrow> pk \<Rightarrow> db \<Rightarrow> (error + unit) \<times> db" where
  \<comment> \<open>what \<open>switch_to_friend\<close> does with the automatic renewal\<close>
  "end_renewal cfg u keep actor d =
     (case renewal_of d (u_id u) of
        None \<Rightarrow> (Inr (), d)
      | Some renewal \<Rightarrow>
          if rm_status renewal = MandatePending
          then (Inr (), delete_mandates (\<lambda>m. rm_id m = rm_id renewal) d)
          else if rm_status renewal \<noteq> MandateCanceled
          then (case keeps_contribution d renewal keep (actor = u_id u) of
                  Inl e \<Rightarrow> (Inl e, d)
                | Inr is_kept \<Rightarrow>
                    (let (renewal, d) = cancel_mandate renewal (Some actor) None None d
                     in if is_kept
                        then (case keep_renewal_contribution cfg u renewal d of
                                (Inl e, d) \<Rightarrow> (Inl e, d) | (Inr _, d) \<Rightarrow> (Inr (), d))
                        else (Inr (), d)))
          else (Inr (), d))"

definition switch_to_friend_body :: "config \<Rightarrow> pk \<Rightarrow> bool option \<Rightarrow> pk option \<Rightarrow> db
    \<Rightarrow> (error + user) \<times> db" where
  "switch_to_friend_body cfg k keep actor d =
     (case get_user d k of
        None \<Rightarrow> (Inl DoesNotExist, d)
      | Some u \<Rightarrow>
          let who = (case actor of Some a \<Rightarrow> a | None \<Rightarrow> u_id u)
          in case check_can_become_friend d u (local_today cfg d) of
               Some e \<Rightarrow> (Inl e, d)
             | None \<Rightarrow> (case end_renewal cfg u keep who d of
                  (Inl e, d) \<Rightarrow> (Inl e, d)
                | (Inr _, d) \<Rightarrow> become_friend cfg u None (Some who) d))"

definition switch_to_friend :: "config \<Rightarrow> pk \<Rightarrow> bool option \<Rightarrow> pk option \<Rightarrow> db
    \<Rightarrow> (error + user) \<times> db" where
  "switch_to_friend cfg k keep actor = atomic (switch_to_friend_body cfg k keep actor)"

subsection \<open>When coverage arrives\<close>

definition activate_pending_mandate :: "config \<Rightarrow> (payment \<Rightarrow> saved_method option) \<Rightarrow> user
    \<Rightarrow> payment \<Rightarrow> db \<Rightarrow> mandate option \<times> db" where
  "activate_pending_mandate cfg method_of u p d =
     (case pending_mandate_for d p of
        None \<Rightarrow> (None, d)
      | Some m \<Rightarrow> (case method_of p of
            None \<Rightarrow> (None, d)
          | Some s \<Rightarrow>
              (let today = local_today cfg d;
                   chosen = (map_of (rm_raw m) chosen_date_key = Some (JBool True));
                   m = (if rm_plan m = None
                        then (if \<not> chosen \<or> rm_next_charge_on m \<le> today
                              then m\<lparr>rm_next_charge_on := advance_by_cadence today (rm_cadence m)\<rparr> else m)
                        else if \<not> chosen
                        then m\<lparr>rm_next_charge_on := default_charge_date d u today\<rparr> else m);
                   (m, d) = save_method cfg m s (Account (u_id u)) d
               in (Some m, d))))"

definition rolled_day :: "date \<Rightarrow> date \<Rightarrow> date option \<Rightarrow> date \<Rightarrow> date option" where
  \<comment> \<open>where the stored day moves, for coverage that now ends on \<open>ends\<close>\<close>
  "rolled_day today ends covered_until stored =
     (if stored \<ge> ends then None
      else let previous = (case covered_until of Some c \<Rightarrow> c | None \<Rightarrow> stored)
           in if ends \<le> previous then None
              else let rolled = ends - (previous - stored)
                   in Some (if rolled \<ge> today then rolled else ends))"

definition roll_charge_date_past :: "config \<Rightarrow> user \<Rightarrow> date option \<Rightarrow> db \<Rightarrow> mandate option \<times> db" where
  "roll_charge_date_past cfg u covered_until d =
     (case find (\<lambda>m. rm_user m = u_id u \<and> rm_status m = MandateActive \<and> rm_plan m \<noteq> None)
             (mandates d) of
        None \<Rightarrow> (None, d)
      | Some m \<Rightarrow>
          (let today = local_today cfg d
           in case Option.bind (term_to_renew d u today) m_ends_on of
                None \<Rightarrow> (None, d)
              | Some ends \<Rightarrow> (case rolled_day today ends covered_until (rm_next_charge_on m) of
                    None \<Rightarrow> (None, d)
                  | Some x \<Rightarrow> (Some (m\<lparr>rm_next_charge_on := x\<rparr>),
                      edit_mandate (rm_id m) (\<lambda>r. r\<lparr>rm_next_charge_on := x\<rparr>) d))))"

subsection \<open>What the member's own screens write\<close>

definition change_mandate :: "pk \<Rightarrow> user \<Rightarrow> bool \<Rightarrow> int \<Rightarrow> plan option \<Rightarrow> date option \<Rightarrow> cadence option
    \<Rightarrow> db \<Rightarrow> (error + mandate) \<times> db" where
  \<comment> \<open>\<open>PATCH /me/renewal\<close> and \<open>/me/donation\<close>, the body already checked by its serializer; \<open>named\<close> is
    the plan whose slug the body names, which a donation's never does\<close>
  "change_mandate k u donation cents named chosen cad d =
     (case mandate_held d k donation of
        None \<Rightarrow> (Inl DoesNotExist, d)
      | Some m \<Rightarrow>
          let named = (if donation then None else named);
              wanted = (case named of Some p \<Rightarrow> Some p | None \<Rightarrow> mandate_plan d m);
              m' = (case chosen of Some x \<Rightarrow> m\<lparr>rm_next_charge_on := x\<rparr> | None \<Rightarrow> m);
              m' = (case cad of Some c \<Rightarrow> m'\<lparr>rm_cadence := c\<rparr> | None \<Rightarrow> m')
          in case check_renewable d wanted (rm_provider m) u cents of
               Inl e \<Rightarrow> (Inl e, d)
             | Inr plan \<Rightarrow>
                 (case (if donation then None else refuse_renewal_contribution d k cents) of
                    Some e \<Rightarrow> (Inl e, d)
                  | None \<Rightarrow>
                      let m' = m'\<lparr>rm_plan := (if named \<noteq> None then map_option pl_id plan else rm_plan m),
                                  rm_contribution_cents := cents\<rparr>
                      in (Inr m', edit_mandate (rm_id m) (\<lambda>r. r\<lparr>rm_plan := rm_plan m',
                           rm_contribution_cents := cents, rm_next_charge_on := rm_next_charge_on m',
                           rm_cadence := rm_cadence m'\<rparr>) d)))"

definition confirm_own_mandate :: "config \<Rightarrow> pk \<Rightarrow> bool \<Rightarrow> (mandate \<Rightarrow> error + saved_method) \<Rightarrow> db
    \<Rightarrow> (error + mandate) \<times> db" where
  \<comment> \<open>\<open>POST /me/renewal/confirm\<close>; \<open>confirm\<close> is the provider's \<open>confirm_mandate\<close>\<close>
  "confirm_own_mandate cfg k donation confirm d =
     (case mandate_held d k donation of
        None \<Rightarrow> (Inl DoesNotExist, d)
      | Some m \<Rightarrow> (case confirm m of
            Inl e \<Rightarrow> (Inl e, d)
          | Inr s \<Rightarrow> (let (m, d) = save_method cfg m s (Account k) d in (Inr m, d))))"

subsection \<open>A contribution lives in one place\<close>

text \<open>
  What every operation keeps of the mandates: the two unique constraints of the model (a person
  holds at most one renewal and one recurring donation), and the rule the services enforce, that no
  one holds a renewal that takes a contribution beside a recurring donation, unless one of them is
  canceled.
\<close>

definition slot :: "mandate \<Rightarrow> pk \<times> bool" where
  "slot m = (rm_user m, rm_plan m = None)"

definition standing :: "mandate \<Rightarrow> bool" where
  "standing m \<longleftrightarrow> rm_status m \<noteq> MandateCanceled"

definition conflict :: "mandate \<Rightarrow> mandate \<Rightarrow> bool" where
  "conflict r g \<longleftrightarrow> rm_user r = rm_user g \<and> rm_plan r \<noteq> None \<and> rm_plan g = None
     \<and> standing r \<and> standing g \<and> rm_contribution_cents r > 0"

definition one_place :: "mandate list \<Rightarrow> bool" where
  "one_place ms \<longleftrightarrow> (\<forall>r \<in> set ms. \<forall>g \<in> set ms. \<not> conflict r g)"

definition held_ok :: "mandate list \<Rightarrow> bool" where
  "held_ok ms \<longleftrightarrow> distinct (map rm_id ms) \<and> distinct (map slot ms) \<and> one_place ms"

definition mandates_ok :: "db \<Rightarrow> bool" where
  "mandates_ok d \<longleftrightarrow> held_ok (mandates d) \<and> (\<forall>m \<in> set (mandates d). rm_id m < next_pk d)"

definition quiet :: "mandate \<Rightarrow> mandate \<Rightarrow> bool" where
  \<comment> \<open>a change of a row that cannot start a conflict\<close>
  "quiet m m' \<longleftrightarrow> rm_id m' = rm_id m \<and> slot m' = slot m \<and> (standing m' \<longrightarrow> standing m
     \<and> (rm_contribution_cents m' > 0 \<longrightarrow> rm_contribution_cents m > 0))"

lemma mandate_held_Some:
  "mandate_held d k b = Some m \<Longrightarrow> m \<in> set (mandates d) \<and> slot m = (k, b)"
  by (auto simp: mandate_held_def find_Some_iff slot_def)

lemma mandate_held_None:
  "mandate_held d k b = None \<Longrightarrow> m \<in> set (mandates d) \<Longrightarrow> slot m \<noteq> (k, b)"
  by (auto simp: mandate_held_def find_None_iff slot_def)

lemma mandate_held_only:
  assumes "held_ok (mandates d)" and "mandate_held d k b = Some m" and "x \<in> set (mandates d)"
    and "slot x = (k, b)"
  shows "x = m"
  using assms mandate_held_Some [OF assms(2)]
  by (auto simp: held_ok_def distinct_map inj_on_def)

lemma same_id_same_row:
  "held_ok ms \<Longrightarrow> x \<in> set ms \<Longrightarrow> y \<in> set ms \<Longrightarrow> rm_id x = rm_id y \<Longrightarrow> x = y"
  by (auto simp: held_ok_def distinct_map inj_on_def)

lemma quiet_conflict:
  "quiet r r' \<Longrightarrow> quiet g g' \<Longrightarrow> conflict r' g' \<Longrightarrow> conflict r g"
  by (auto simp: quiet_def conflict_def slot_def standing_def)

lemma one_place_map:
  "one_place (map h ms) \<longleftrightarrow> (\<forall>r \<in> set ms. \<forall>g \<in> set ms. \<not> conflict (h r) (h g))"
  by (simp add: one_place_def)

lemma held_ok_map:
  assumes "held_ok ms" and "\<And>m. m \<in> set ms \<Longrightarrow> quiet m (h m)"
  shows "held_ok (map h ms)"
proof -
  have "map rm_id (map h ms) = map rm_id ms" "map slot (map h ms) = map slot ms"
    using assms(2) by (simp_all add: quiet_def)
  moreover have "one_place (map h ms)"
    using assms quiet_conflict by (fastforce simp: one_place_def held_ok_def)
  ultimately show ?thesis using assms(1) by (simp only: held_ok_def)
qed

lemma held_ok_update:
  assumes "held_ok ms" and "\<And>m. m \<in> set ms \<Longrightarrow> P m \<Longrightarrow> quiet m (f m)"
  shows "held_ok (rows_update P f ms)"
  unfolding rows_update_def using assms(1)
  by (rule held_ok_map) (use assms(2) in \<open>auto simp: quiet_def\<close>)

lemma held_ok_put:
  assumes "held_ok ms" and "m \<in> set ms" and "rm_id m' = rm_id m" and "slot m' = slot m"
    and "\<And>x. x \<in> set ms \<Longrightarrow> rm_id x \<noteq> rm_id m \<Longrightarrow> \<not> conflict m' x \<and> \<not> conflict x m'"
  shows "held_ok (row_put rm_id m' ms)"
proof -
  let ?h = "\<lambda>x. if rm_id x = rm_id m then m' else x"
  have put: "row_put rm_id m' ms = map ?h ms"
    using assms(3) by (simp add: row_put_def rows_update_def)
  have "rm_id (?h x) = rm_id x" for x using assms(3) by simp
  then have ids: "map rm_id (map ?h ms) = map rm_id ms" by simp
  have "slot (?h x) = slot x" if "x \<in> set ms" for x
    using same_id_same_row [OF assms(1) that assms(2)] assms(4) by auto
  then have slots: "map slot (map ?h ms) = map slot ms" by simp
  have "\<not> conflict (?h r) (?h g)" if "r \<in> set ms" "g \<in> set ms" for r g
    using assms(1,5) that by (auto simp: held_ok_def one_place_def conflict_def)
  then have "one_place (map ?h ms)" by (simp only: one_place_map) blast
  with ids slots assms(1) show ?thesis unfolding put by (simp only: held_ok_def)
qed

lemma held_ok_append:
  assumes "held_ok ms" and "rm_id m' \<notin> rm_id ` set ms" and "slot m' \<notin> slot ` set ms"
    and "\<And>x. x \<in> set ms \<Longrightarrow> \<not> conflict m' x \<and> \<not> conflict x m'"
  shows "held_ok (ms @ [m'])"
  using assms by (auto simp: held_ok_def one_place_def conflict_def)

lemma held_ok_filter: "held_ok ms \<Longrightarrow> held_ok (filter P ms)"
  by (auto simp: held_ok_def one_place_def distinct_map_filter)

lemma mandates_ok_frame:
  "mandates_ok d \<Longrightarrow> mandates d' = mandates d \<Longrightarrow> next_pk d' = next_pk d \<Longrightarrow> mandates_ok d'"
  by (simp add: mandates_ok_def)

lemma mandates_ok_update:
  assumes "mandates_ok d" and "mandates d' = rows_update P f (mandates d)"
    and "next_pk d' = next_pk d" and "\<And>m. m \<in> set (mandates d) \<Longrightarrow> P m \<Longrightarrow> quiet m (f m)"
  shows "mandates_ok d'"
proof -
  have "held_ok (mandates d')"
    unfolding assms(2) using assms(1,4) by (intro held_ok_update) (auto simp: mandates_ok_def)
  moreover have "rm_id m < next_pk d'" if "m \<in> set (mandates d')" for m
    using that assms by (auto simp: mandates_ok_def set_rows_update quiet_def split: if_splits)
  ultimately show ?thesis by (simp add: mandates_ok_def)
qed

lemma mandates_ok_put:
  assumes "mandates_ok d" and "mandates d' = row_put rm_id m' (mandates d)"
    and "next_pk d' = next_pk d" and "m \<in> set (mandates d)" and "quiet m m'"
  shows "mandates_ok d'"
proof (rule mandates_ok_update [OF assms(1) assms(2) [unfolded row_put_def] assms(3)])
  fix x assume "x \<in> set (mandates d)" "rm_id x = rm_id m'"
  then have "x = m"
    using assms(1,4,5) same_id_same_row [of "mandates d" x m] by (auto simp: mandates_ok_def quiet_def)
  with assms(5) show "quiet x m'" by simp
qed

lemmas side_effect_defs = audit_record_def emit_def queue_mail_def call_provider_def skip_unsent_def

lemma put_mandate_tables: "mandates (put_mandate m d) = row_put rm_id m (mandates d)"
  "next_pk (put_mandate m d) = next_pk d"
  by (simp_all add: put_mandate_def)

lemma edit_mandate_tables:
  "mandates (edit_mandate k f d) = rows_update (\<lambda>r. rm_id r = k) f (mandates d)"
  "next_pk (edit_mandate k f d) = next_pk d"
  by (simp_all add: edit_mandate_def)

lemma save_method_tables:
  "fst (save_method cfg m s a d) = with_method s m"
  "mandates (snd (save_method cfg m s a d)) = row_put rm_id (with_method s m) (mandates d)"
  "next_pk (snd (save_method cfg m s a d)) = next_pk d"
  by (simp_all add: save_method_def Let_def side_effect_defs put_mandate_tables)

lemma cancel_mandate_tables:
  "mandates (snd (cancel_mandate m who how reason d)) = (if rm_status m = MandateCanceled
     then mandates d else rows_update (\<lambda>r. rm_id r = rm_id m) (\<lambda>r. r\<lparr>rm_status := MandateCanceled,
       rm_canceled_at := Some (clock d), rm_canceled_by := who\<rparr>) (mandates d))"
  "next_pk (snd (cancel_mandate m who how reason d)) = next_pk d"
  by (simp_all add: cancel_mandate_def Let_def side_effect_defs edit_mandate_tables)

lemma delete_mandates_tables:
  "mandates (delete_mandates P d) = filter (\<lambda>m. \<not> P m) (mandates d)"
  "next_pk (delete_mandates P d) = next_pk d"
  by (simp_all add: delete_mandates_def Let_def rows_delete_def)

lemma quiet_canceled: "quiet m (m\<lparr>rm_status := MandateCanceled, rm_canceled_at := x, rm_canceled_by := y\<rparr>)"
  by (simp add: quiet_def slot_def standing_def)

lemma quiet_with_method: "standing m \<Longrightarrow> quiet m (with_method s m)"
  by (simp add: quiet_def slot_def standing_def with_method_def)

lemma mandates_ok_cancel: "mandates_ok d \<Longrightarrow> mandates_ok (snd (cancel_mandate m who how reason d))"
proof (cases "rm_status m = MandateCanceled")
  case True
  assume "mandates_ok d"
  then show ?thesis by (rule mandates_ok_frame) (simp_all add: cancel_mandate_tables True)
next
  case False
  assume "mandates_ok d"
  then show ?thesis
    by (rule mandates_ok_update [where f = "\<lambda>r. r\<lparr>rm_status := MandateCanceled,
          rm_canceled_at := Some (clock d), rm_canceled_by := who\<rparr>"])
      (simp_all add: cancel_mandate_tables False quiet_canceled)
qed

lemma mandates_ok_save_method:
  assumes "mandates_ok d" and "m \<in> set (mandates d)" and "standing m" and "quiet m m'"
    and "standing m'"
  shows "mandates_ok (snd (save_method cfg m' s a d))"
proof (rule mandates_ok_put [OF assms(1) _ _ assms(2)])
  show "quiet m (with_method s m')"
    using assms(3,4,5) by (auto simp: quiet_def slot_def standing_def with_method_def)
qed (simp_all add: save_method_tables)

lemma mandates_ok_delete: "mandates_ok d \<Longrightarrow> mandates_ok (delete_mandates P d)"
  by (auto simp: mandates_ok_def delete_mandates_tables held_ok_filter)

lemma fold_call_provider:
  "mandates (fold (\<lambda>m. call_provider (f m)) ms d) = mandates d"
  "next_pk (fold (\<lambda>m. call_provider (f m)) ms d) = next_pk d"
  by (induction ms arbitrary: d) (simp_all add: call_provider_def)

lemma mandates_ok_set:
  "mandates_ok d \<Longrightarrow> (\<And>m. m \<in> set (mandates d) \<Longrightarrow> P m \<Longrightarrow> quiet m (f m))
    \<Longrightarrow> mandates_ok (d\<lparr>mandates := rows_update P f (mandates d)\<rparr>)"
  by (rule mandates_ok_update [of d _ P f]) simp_all

lemma mandates_ok_discard: "mandates_ok d \<Longrightarrow> mandates_ok (discard_pending_mandate k d)"
  unfolding discard_pending_mandate_def Let_def
  by (intro mandates_ok_delete mandates_ok_set mandates_ok_frame [OF _ fold_call_provider])
    (simp_all add: quiet_def slot_def standing_def)

lemma mandates_ok_cancel_all: "mandates_ok d \<Longrightarrow> mandates_ok (cancel_all_mandates k who d)"
proof -
  assume "mandates_ok d"
  then have "mandates_ok (fold (\<lambda>m d. snd (cancel_mandate m w h r d)) ms d)" for ms w h r
    by (induction ms arbitrary: d) (simp_all add: mandates_ok_cancel)
  then show ?thesis by (simp add: cancel_all_mandates_def Let_def mandates_ok_discard)
qed

lemma mandates_ok_atomic:
  assumes "atomic f d = (r, d')" and "mandates_ok d"
    and "\<And>x d''. f d = (Inr x, d'') \<Longrightarrow> mandates_ok d''"
  shows "mandates_ok d'"
proof (cases "f d")
  case (Pair r0 d0)
  show ?thesis
  proof (cases r0)
    case (Inl e)
    with Pair assms(1) have "d' = rollback d d0" by (simp add: atomic_def)
    with assms(2) show ?thesis by (simp add: mandates_ok_def rollback_def)
  next
    case (Inr x)
    with Pair assms(1) have "d' = d0" by (simp add: atomic_def)
    with Pair Inr assms(3) show ?thesis by simp
  qed
qed

lemma reset_mandate_same:
  "rm_id (reset_mandate p c cad x pr b m) = rm_id m"
  "slot (reset_mandate p c cad x pr b m) = (rm_user m, p = None)"
  "rm_contribution_cents (reset_mandate p c cad x pr b m) = c"
  "rm_status (reset_mandate p c cad x pr b m) = MandatePending"
  "rm_user (reset_mandate p c cad x pr b m) = rm_user m"
  by (simp_all add: reset_mandate_def slot_def)

lemma taken_off:
  assumes "take_contribution_off_renewal k remove who d = (Inr (), d')" and "mandates_ok d"
  shows "mandates_ok d'" and "next_pk d' = next_pk d"
    and "\<And>r. r \<in> set (mandates d') \<Longrightarrow> slot r = (k, False) \<Longrightarrow> standing r \<Longrightarrow> rm_contribution_cents r \<le> 0"
proof -
  have "mandates_ok d' \<and> next_pk d' = next_pk d \<and> (\<forall>r \<in> set (mandates d').
      slot r = (k, False) \<longrightarrow> standing r \<longrightarrow> rm_contribution_cents r \<le> 0)"
  proof (cases "renewal_of d k")
    case None
    with assms mandate_held_None [of d k False] show ?thesis
      by (auto simp: take_contribution_off_renewal_def renewal_of_def)
  next
    case (Some m)
    then have held: "mandate_held d k False = Some m" by (simp add: renewal_of_def)
    have only: "x = m" if "x \<in> set (mandates d)" "slot x = (k, False)" for x
      using mandate_held_only [OF _ held that] assms(2) by (simp add: mandates_ok_def)
    show ?thesis
    proof (cases "rm_status m = MandateCanceled \<or> rm_contribution_cents m \<le> 0")
      case True
      with Some assms have "d' = d"
        by (auto simp: take_contribution_off_renewal_def split: if_splits)
      with True only assms(2) show ?thesis by (auto simp: standing_def)
    next
      case False
      with Some assms(1) have d': "mandates d' = rows_update (\<lambda>r. rm_id r = rm_id m)
          (\<lambda>r. r\<lparr>rm_contribution_cents := 0\<rparr>) (mandates d)" "next_pk d' = next_pk d"
        by (auto simp: take_contribution_off_renewal_def side_effect_defs edit_mandate_tables
            split: if_splits)
      have ok: "mandates_ok d'" by (rule mandates_ok_update [OF assms(2) d'])
          (simp add: quiet_def slot_def standing_def)
      have "rm_contribution_cents r \<le> 0" if r: "r \<in> set (mandates d')" "slot r = (k, False)" for r
      proof -
        obtain x where x: "x \<in> set (mandates d)"
          "r = (if rm_id x = rm_id m then x\<lparr>rm_contribution_cents := 0\<rparr> else x)"
          using r(1) by (auto simp: d'(1) set_rows_update)
        then have "slot x = (k, False)" using r(2) by (simp add: slot_def split: if_splits)
        with x only [of x] show ?thesis by simp
      qed
      with ok d'(2) show ?thesis by blast
    qed
  qed
  then show "mandates_ok d'" "next_pk d' = next_pk d"
    "\<And>r. r \<in> set (mandates d') \<Longrightarrow> slot r = (k, False) \<Longrightarrow> standing r \<Longrightarrow> rm_contribution_cents r \<le> 0"
    by blast+
qed

lemma check_renewable_Inr: "check_renewable d p pr u cents = Inr r \<Longrightarrow> r = p"
  by (auto simp: check_renewable_def split: if_splits option.splits)

lemma begin_write_ok:
  assumes "mandates_ok d" and "rm_user m0 = k"
    and m: "m = reset_mandate p cents cad x pr b m0"
    and donation: "p = None \<Longrightarrow> \<forall>r \<in> set (mandates d). slot r = (k, False) \<longrightarrow> standing r
       \<longrightarrow> rm_contribution_cents r \<le> 0"
    and renewal: "p \<noteq> None \<Longrightarrow> cents > 0 \<Longrightarrow> \<forall>g \<in> set (mandates d). slot g = (k, True) \<longrightarrow> \<not> standing g"
    and held: "case mandate_held d k (p = None) of
        Some r \<Rightarrow> m0 = r \<and> mandates d' = row_put rm_id m (mandates d) \<and> next_pk d' = next_pk d
      | None \<Rightarrow> rm_id m0 = next_pk d \<and> mandates d' = mandates d @ [m] \<and> next_pk d' = Suc (next_pk d)"
  shows "mandates_ok d'" and "get_mandate d' (rm_id m) = Some m"
proof -
  have m_fields: "rm_user m = k" "slot m = (k, p = None)" "rm_contribution_cents m = cents"
    "rm_id m = rm_id m0"
    using assms(2) by (simp_all add: m reset_mandate_same)
  have clear: "\<not> conflict m y \<and> \<not> conflict y m" if "y \<in> set (mandates d)" for y
    using donation renewal that m_fields
    by (cases "p = None") (fastforce simp: conflict_def slot_def)+
  have "mandates_ok d' \<and> get_mandate d' (rm_id m) = Some m"
  proof (cases "mandate_held d k (p = None)")
    case (Some r)
    with held have d': "m0 = r" "mandates d' = row_put rm_id m (mandates d)" "next_pk d' = next_pk d"
      by simp_all
    have r: "r \<in> set (mandates d)" "slot r = (k, p = None)" using mandate_held_Some [OF Some] by simp_all
    have "held_ok (mandates d')"
      unfolding d'(2) using assms(1) r m_fields d'(1) clear
      by (intro held_ok_put [of _ r]) (simp_all add: mandates_ok_def)
    moreover have "rm_id y < next_pk d'" if "y \<in> set (mandates d')" for y
      using in_set_row_put [OF that [unfolded d'(2)]] assms(1) r(1) m_fields d' by (auto simp: mandates_ok_def)
    moreover have "get_mandate d' (rm_id m) = Some m"
      using r(1) d' m_fields row_get_None_iff [of rm_id "mandates d" "rm_id r"]
      by (simp add: get_mandate_def)
    ultimately show ?thesis by (simp add: mandates_ok_def)
  next
    case None
    with held have d': "rm_id m0 = next_pk d" "mandates d' = mandates d @ [m]"
      "next_pk d' = Suc (next_pk d)"
      by simp_all
    have fresh: "rm_id m \<notin> rm_id ` set (mandates d)"
      using assms(1) m_fields d'(1) by (auto simp: mandates_ok_def)
    moreover have "slot m \<notin> slot ` set (mandates d)"
      using mandate_held_None [OF None] m_fields(2) by (metis imageE)
    ultimately have "held_ok (mandates d')"
      unfolding d'(2) using assms(1) clear by (intro held_ok_append) (simp_all add: mandates_ok_def)
    moreover have "get_mandate d' (rm_id m) = Some m"
      using fresh by (simp add: get_mandate_def d'(2) row_get_append row_get_None_iff [THEN iffD2])
    ultimately show ?thesis using assms(1) d' m_fields by (auto simp: mandates_ok_def)
  qed
  then show "mandates_ok d'" "get_mandate d' (rm_id m) = Some m" by simp_all
qed

lemma begin_mandate_body_ok:
  assumes "begin_mandate_body cfg u p cents pr next_on cad remove d = (Inr m, d')" and "mandates_ok d"
  shows "mandates_ok d' \<and> get_mandate d' (rm_id m) = Some m \<and> rm_status m = MandatePending
    \<and> slot m = (u_id u, p = None)"
proof -
  have "check_renewable d p pr u cents = Inr p"
    using assms(1) check_renewable_Inr [of d p pr u cents]
    by (auto simp: begin_mandate_body_def split: sum.splits)
  then obtain d1 where gate: "(if p = None
        then take_contribution_off_renewal (u_id u) remove (Account (u_id u)) d
        else case refuse_renewal_contribution d (u_id u) cents of
               Some e \<Rightarrow> (Inl e, d) | None \<Rightarrow> (Inr (), d)) = (Inr (), d1)"
    using assms(1)
    by (auto simp: begin_mandate_body_def split: sum.splits prod.splits)
  have d1: "mandates_ok d1" "p = None \<Longrightarrow> \<forall>r \<in> set (mandates d1). slot r = (u_id u, False)
      \<longrightarrow> standing r \<longrightarrow> rm_contribution_cents r \<le> 0"
    using gate assms(2) taken_off [of "u_id u" remove "Account (u_id u)" d d1]
    by (auto split: if_splits option.splits)
  have d1': "\<forall>g \<in> set (mandates d1). slot g = (u_id u, True) \<longrightarrow> \<not> standing g"
    if "p \<noteq> None" "cents > 0"
  proof -
    have r: "refuse_renewal_contribution d (u_id u) cents = None" "d1 = d"
      using gate that(1) by (auto split: option.splits)
    show ?thesis
    proof (cases "donation_of d (u_id u)")
      case None
      with mandate_held_None [of d "u_id u" True] r(2) show ?thesis by (auto simp: donation_of_def)
    next
      case (Some g)
      then have "\<not> standing g" using r(1) that(2)
        by (auto simp: refuse_renewal_contribution_def standing_def split: if_splits)
      with mandate_held_only [of d "u_id u" True g] Some assms(2) r(2) show ?thesis
        by (auto simp: donation_of_def mandates_ok_def)
    qed
  qed
  let ?x = "case next_on of Some x \<Rightarrow> x
      | None \<Rightarrow> if p = None then local_today cfg d1 else default_charge_date d1 u (local_today cfg d1)"
  define reset where "reset = reset_mandate p cents cad ?x pr (next_on \<noteq> None)"
  have body: "(case mandate_held d1 (u_id u) (p = None) of
      Some r \<Rightarrow> (Inr (reset r) :: error + mandate, put_mandate (reset r) (call_provider (AbandonCall (rm_id r)) d1))
    | None \<Rightarrow> (Inr (reset (new_mandate (next_pk d1) (u_id u))),
        d1\<lparr>next_pk := Suc (next_pk d1),
           mandates := mandates d1 @ [reset (new_mandate (next_pk d1) (u_id u))]\<rparr>)) = (Inr m, d')"
    using assms(1) \<open>check_renewable d p pr u cents = Inr p\<close> gate
    by (auto simp: begin_mandate_body_def Let_def fresh_pk_def reset_def split: option.splits)
  define m0 where "m0 = (case mandate_held d1 (u_id u) (p = None) of
      Some r \<Rightarrow> r | None \<Rightarrow> new_mandate (next_pk d1) (u_id u))"
  have m: "m = reset m0" using body by (auto simp: m0_def split: option.splits)
  have user: "rm_user m0 = u_id u"
    using mandate_held_Some [of d1 "u_id u" "p = None"]
    by (auto simp: m0_def new_mandate_def slot_def split: option.splits)
  note w = begin_write_ok [OF d1(1) user m [unfolded reset_def] d1(2) d1', of d']
  have "case mandate_held d1 (u_id u) (p = None) of
        Some r \<Rightarrow> m0 = r \<and> mandates d' = row_put rm_id m (mandates d1) \<and> next_pk d' = next_pk d1
      | None \<Rightarrow> rm_id m0 = next_pk d1 \<and> mandates d' = mandates d1 @ [m]
          \<and> next_pk d' = Suc (next_pk d1)"
    using body by (auto simp: m0_def put_mandate_tables call_provider_def new_mandate_def
        split: option.splits)
  with w m user show ?thesis by (auto simp: reset_def reset_mandate_same)
qed

lemma begin_mandate_ok:
  assumes "begin_mandate cfg u p cents pr next_on cad remove d = (r, d')" and "mandates_ok d"
  shows "mandates_ok d'"
    and "r = Inr m \<Longrightarrow> get_mandate d' (rm_id m) = Some m \<and> rm_status m = MandatePending
      \<and> slot m = (u_id u, p = None)"
proof -
  let ?body = "begin_mandate_body cfg u p cents pr next_on cad remove"
  show "mandates_ok d'"
    using assms by (rule mandates_ok_atomic [of ?body, folded begin_mandate_def])
      (use begin_mandate_body_ok assms(2) in blast)
  assume "r = Inr m"
  then have "?body d = (Inr m, d')"
    using assms(1) by (auto simp: begin_mandate_def atomic_def split: prod.splits sum.splits)
  from begin_mandate_body_ok [OF this assms(2)] show "get_mandate d' (rm_id m) = Some m
      \<and> rm_status m = MandatePending \<and> slot m = (u_id u, p = None)" by simp
qed

lemma get_mandate_in: "get_mandate d k = Some m \<Longrightarrow> m \<in> set (mandates d) \<and> rm_id m = k"
  by (auto simp: get_mandate_def dest: row_get_SomeD)

lemma keep_renewal_contribution_ok:
  assumes "keep_renewal_contribution cfg u renewal d = (r, d')" and "mandates_ok d"
  shows "mandates_ok d'"
proof -
  obtain r1 d1 where b: "begin_mandate cfg u None (rm_contribution_cents renewal) (rm_provider renewal)
      (Some (max (rm_next_charge_on renewal) (local_today cfg d))) Yearly False d = (r1, d1)"
    by (metis surj_pair)
  note ok = begin_mandate_ok [OF b assms(2)]
  show ?thesis
  proof (cases r1)
    case (Inl e)
    with b assms(1) ok(1) show ?thesis by (simp add: keep_renewal_contribution_def)
  next
    case (Inr m)
    with ok(2) have "m \<in> set (mandates d1)" "standing m"
      by (auto dest: get_mandate_in simp: standing_def)
    then have "mandates_ok (snd (save_method cfg m (method_of_mandate renewal)
        (Account (rm_user renewal)) d1))"
      using ok(1) by (intro mandates_ok_save_method [of _ m]) (auto simp: quiet_def)
    with b assms(1) Inr show ?thesis
      by (simp add: keep_renewal_contribution_def split_beta Let_def)
  qed
qed

lemma end_renewal_ok:
  assumes "end_renewal cfg u keep who d = (r, d')" and "mandates_ok d"
  shows "mandates_ok d'"
proof (cases "renewal_of d (u_id u)")
  case None
  with assms show ?thesis by (simp add: end_renewal_def)
next
  case (Some m)
  note ok = mandates_ok_cancel [OF assms(2), of m "Some who" None None]
  note step = assms(1) [unfolded end_renewal_def Some option.case split_beta Let_def]
  show ?thesis
  proof (cases "rm_status m \<in> {MandatePending, MandateCanceled}")
    case True
    with step assms(2) mandates_ok_delete [OF assms(2), of "\<lambda>x. rm_id x = rm_id m"] show ?thesis
      by (cases "rm_status m = MandatePending") simp_all
  next
    case live: False
    show ?thesis
    proof (cases "keeps_contribution d m keep (who = u_id u)")
      case (Inl e)
      with step live assms(2) show ?thesis by simp
    next
      case (Inr kept)
      obtain r1 d1 where k: "keep_renewal_contribution cfg u
          (fst (cancel_mandate m (Some who) None None d))
          (snd (cancel_mandate m (Some who) None None d)) = (r1, d1)"
        by (metis surj_pair)
      have "mandates_ok d1" by (rule keep_renewal_contribution_ok [OF k ok])
      with step live Inr ok k show ?thesis by (cases kept; cases r1) simp_all
    qed
  qed
qed

lemma become_friend_tables:
  assumes "become_friend cfg u x a d = (r, d')"
  shows "mandates d' = mandates d" and "next_pk d' = next_pk d"
  using assms by (auto simp: become_friend_def Let_def side_effect_defs save_kind_def edit_user_def
      split: option.splits if_splits prod.splits)

lemma switch_to_friend_ok:
  assumes "switch_to_friend cfg k keep who d = (r, d')" and "mandates_ok d"
  shows "mandates_ok d'"
proof -
  have "mandates_ok d''" if b: "switch_to_friend_body cfg k keep who d = (Inr x, d'')" for x d''
  proof -
    obtain u where u: "get_user d k = Some u" "check_can_become_friend d u (local_today cfg d) = None"
      using b by (auto simp: switch_to_friend_body_def Let_def split: option.splits)
    define w where "w = (case who of Some a \<Rightarrow> a | None \<Rightarrow> u_id u)"
    obtain r1 d1 where e: "end_renewal cfg u keep w d = (r1, d1)" by (metis surj_pair)
    have "become_friend cfg u None (Some w) d1 = (Inr x, d'')"
      using b u e by (cases r1) (simp_all add: switch_to_friend_body_def Let_def w_def)
    from end_renewal_ok [OF e assms(2)] become_friend_tables [OF this] show ?thesis
      by (rule mandates_ok_frame)
  qed
  with assms show ?thesis
    unfolding switch_to_friend_def by (blast intro: mandates_ok_atomic)
qed

lemma edit_as_put:
  assumes "held_ok ms" and "m \<in> set ms" and "rm_id (f m) = rm_id m"
  shows "rows_update (\<lambda>r. rm_id r = rm_id m) f ms = row_put rm_id (f m) ms"
  using assms same_id_same_row [OF assms(1) _ assms(2)]
  by (auto simp: row_put_def rows_update_def)

lemma change_mandate_ok:
  assumes "change_mandate k u donation cents named chosen cad d = (r, d')" and "mandates_ok d"
  shows "mandates_ok d'"
proof (cases r)
  case (Inl e)
  with assms show ?thesis
    by (auto simp: change_mandate_def Let_def split: option.splits sum.splits if_splits)
next
  case (Inr m')
  then obtain m where m: "mandate_held d k donation = Some m"
    using assms(1) by (auto simp: change_mandate_def split: option.splits)
  have held: "held_ok (mandates d)" using assms(2) by (simp add: mandates_ok_def)
  have in_m: "m \<in> set (mandates d)" "slot m = (k, donation)" using mandate_held_Some [OF m] by simp_all
  define f where "f = (\<lambda>r :: mandate. r\<lparr>rm_plan := rm_plan m', rm_contribution_cents := cents,
      rm_next_charge_on := rm_next_charge_on m', rm_cadence := rm_cadence m'\<rparr>)"
  have refuse: "donation \<or> refuse_renewal_contribution d k cents = None"
    and d': "d' = edit_mandate (rm_id m) f d" and slot: "slot (f m) = slot m"
    using assms(1) Inr m in_m(2)
    by (auto simp: change_mandate_def Let_def f_def slot_def dest!: check_renewable_Inr
        split: option.splits sum.splits if_splits)
  have put: "mandates d' = row_put rm_id (f m) (mandates d)" "next_pk d' = next_pk d"
    unfolding d' edit_mandate_tables using edit_as_put [OF held in_m(1), of f] by (simp_all add: f_def)
  have id: "rm_id (f m) = rm_id m" by (simp add: f_def)
  have "held_ok (mandates d')"
    unfolding put(1)
  proof (rule held_ok_put [OF held in_m(1) id slot])
    fix x assume x: "x \<in> set (mandates d)" "rm_id x \<noteq> rm_id m"
    have "\<not> conflict (f m) x"
    proof
      assume c: "conflict (f m) x"
      then have "slot x = (k, True)" "standing x" "cents > 0" "\<not> donation"
        using slot in_m(2) by (auto simp: conflict_def slot_def f_def)
      with refuse mandate_held_only [OF held _ x(1)] mandate_held_None [OF _ x(1)] show False
        by (auto simp: refuse_renewal_contribution_def donation_of_def standing_def
            split: option.splits if_splits)
    qed
    moreover have "\<not> conflict x (f m)"
    proof
      assume "conflict x (f m)"
      then have "conflict x m" using slot by (auto simp: conflict_def slot_def standing_def f_def)
      with held x(1) in_m(1) show False by (auto simp: held_ok_def one_place_def)
    qed
    ultimately show "\<not> conflict (f m) x \<and> \<not> conflict x (f m)" ..
  qed
  moreover have "rm_id y < next_pk d'" if "y \<in> set (mandates d')" for y
    using in_set_row_put [OF that [unfolded put(1)]] assms(2) in_m(1) id put(2)
    by (auto simp: mandates_ok_def)
  ultimately show ?thesis by (simp add: mandates_ok_def)
qed

lemma activate_pending_ok:
  assumes "mandates_ok d"
  shows "mandates_ok (snd (activate_pending_mandate cfg method_of u p d))"
proof (cases "pending_mandate_for d p")
  case None
  with assms show ?thesis by (simp add: activate_pending_mandate_def)
next
  case (Some m)
  then have m: "m \<in> set (mandates d)" "standing m"
    by (auto simp: pending_mandate_for_def find_Some_iff standing_def
        split: if_splits option.splits)
  have q: "mandates_ok (snd (save_method cfg (m\<lparr>rm_next_charge_on := x\<rparr>) s a d))" for x s a
    using assms m
    by (rule mandates_ok_save_method) (use m(2) in \<open>simp_all add: quiet_def slot_def standing_def\<close>)
  have q': "mandates_ok (snd (save_method cfg m s a d))" for s a
    using assms m by (rule mandates_ok_save_method) (use m(2) in \<open>simp_all add: quiet_def\<close>)
  show ?thesis
    using Some assms q q'
    by (auto simp: activate_pending_mandate_def split_beta Let_def split: option.splits)
qed

lemma roll_ok: "mandates_ok d \<Longrightarrow> mandates_ok (snd (roll_charge_date_past cfg u c d))"
proof -
  assume ok: "mandates_ok d"
  have "mandates_ok (edit_mandate k (\<lambda>r. r\<lparr>rm_next_charge_on := x\<rparr>) d)" for k x
    by (rule mandates_ok_update [OF ok edit_mandate_tables]) (simp add: quiet_def slot_def standing_def)
  with ok show ?thesis
    by (auto simp: roll_charge_date_past_def Let_def split: option.splits)
qed

text \<open>
  The machine the mandates make: each operation that writes one is a step, and so is anything that
  leaves the mandates alone.  A confirmation is a step here only for a mandate that was not
  canceled; \<open>confirm_canceled_breaks\<close> below shows why.
\<close>

inductive mandate_step :: "config \<Rightarrow> db \<Rightarrow> db \<Rightarrow> bool" for cfg where
  Begin: "begin_mandate cfg u p cents pr next_on cad remove d = (r, d') \<Longrightarrow> mandate_step cfg d d'"
| Change: "change_mandate k u donation cents named chosen cad d = (r, d') \<Longrightarrow> mandate_step cfg d d'"
| Confirm: "mandate_held d k donation = Some m \<Longrightarrow> standing m
    \<Longrightarrow> confirm_own_mandate cfg k donation confirm d = (r, d') \<Longrightarrow> mandate_step cfg d d'"
| Cancel: "get_mandate d k = Some m \<Longrightarrow> cancel_mandate m who how reason d = (m', d')
    \<Longrightarrow> mandate_step cfg d d'"
| Discard: "mandate_step cfg d (discard_pending_mandate k d)"
| CancelAll: "mandate_step cfg d (cancel_all_mandates k who d)"
| Switch: "switch_to_friend cfg k keep who d = (r, d') \<Longrightarrow> mandate_step cfg d d'"
| Activate: "activate_pending_mandate cfg method_of u pay d = (r, d') \<Longrightarrow> mandate_step cfg d d'"
| Roll: "roll_charge_date_past cfg u c d = (r, d') \<Longrightarrow> mandate_step cfg d d'"
| Elsewhere: "mandates d' = mandates d \<Longrightarrow> next_pk d \<le> next_pk d' \<Longrightarrow> mandate_step cfg d d'"

inductive mandate_steps :: "config \<Rightarrow> db \<Rightarrow> db \<Rightarrow> bool" for cfg where
  Stay: "mandate_steps cfg d d"
| Go: "mandate_step cfg d d' \<Longrightarrow> mandate_steps cfg d' d'' \<Longrightarrow> mandate_steps cfg d d''"

lemma mandates_ok_step:
  assumes "mandate_step cfg d d'" and "mandates_ok d"
  shows "mandates_ok d'"
  using assms
proof (cases rule: mandate_step.cases)
  case (Begin u p cents pr next_on cad remove r)
  with assms(2) begin_mandate_ok(1) show ?thesis by blast
next
  case (Change k u donation cents named chosen cad r)
  with assms(2) change_mandate_ok show ?thesis by blast
next
  case (Confirm k donation m confirm r)
  have m: "m \<in> set (mandates d)" using mandate_held_Some [OF Confirm(1)] by simp
  have "mandates_ok (snd (save_method cfg m s (Account k) d))" for s
    using assms(2) m Confirm(2) by (rule mandates_ok_save_method)
      (use Confirm(2) in \<open>simp_all add: quiet_def\<close>)
  with Confirm assms(2) show ?thesis
    by (auto simp: confirm_own_mandate_def split_beta Let_def split: sum.splits)
next
  case (Cancel k m who how reason m')
  with mandates_ok_cancel [OF assms(2), of m who how reason] show ?thesis by simp
next
  case (Activate method_of u pay r)
  with activate_pending_ok [OF assms(2), of cfg method_of u pay] show ?thesis by simp
next
  case (Switch k keep who r)
  with assms(2) switch_to_friend_ok show ?thesis by blast
next
  case (Roll u c r)
  with roll_ok [OF assms(2), of cfg u c] show ?thesis by simp
next
  case Elsewhere
  with assms(2) show ?thesis by (auto simp: mandates_ok_def)
qed (simp_all add: mandates_ok_discard mandates_ok_cancel_all)



definition canceled_beside_donation :: db where
  \<comment> \<open>a canceled renewal that took a contribution, and a recurring donation\<close>
  "canceled_beside_donation = renewing_member\<lparr>mandates :=
     [(sample_mandate 5 1 (Some 1) 1000 1364)\<lparr>rm_status := MandateCanceled\<rparr>,
      sample_mandate 6 1 None 500 1400]\<rparr>"

text \<open>Confirming a method on a renewal that was canceled, which \<open>confirm_own_mandate\<close> does not
  refuse, puts a contribution in two places.\<close>

theorem confirm_canceled_breaks:
  "mandates_ok canceled_beside_donation
   \<and> \<not> mandates_ok (snd (confirm_own_mandate sample_config 1 False
        (\<lambda>m. Inr (method_of_mandate m)) canceled_beside_donation))"
proof
  show "mandates_ok canceled_beside_donation"
    by (simp add: mandates_ok_def held_ok_def one_place_def conflict_def standing_def slot_def
        canceled_beside_donation_def renewing_member_def sample_defs)
  have "mandates (snd (confirm_own_mandate sample_config 1 False
        (\<lambda>m. Inr (method_of_mandate m)) canceled_beside_donation))
      = [sample_mandate 5 1 (Some 1) 1000 1364, sample_mandate 6 1 None 500 1400]"
    by code_simp
  then show "\<not> mandates_ok (snd (confirm_own_mandate sample_config 1 False
        (\<lambda>m. Inr (method_of_mandate m)) canceled_beside_donation))"
    by (simp add: mandates_ok_def held_ok_def one_place_def conflict_def standing_def
        sample_mandate_def)
qed

subsection \<open>Withdrawing authority never loses a charge already sent\<close>

definition sent :: "attempt \<Rightarrow> bool" where
  \<comment> \<open>a scheduled attempt whose charge was handed to the provider\<close>
  "sent a \<longleftrightarrow> ra_outcome a = Scheduled \<and> ra_payment a \<noteq> None"

definition same_charge :: "attempt \<Rightarrow> attempt \<Rightarrow> bool" where
  "same_charge a b \<longleftrightarrow> ra_id b = ra_id a \<and> ra_mandate b = ra_mandate a \<and> ra_outcome b = ra_outcome a
     \<and> ra_payment b = ra_payment a \<and> ra_attempted_at b = ra_attempted_at a"

lemma same_charge_refl [simp]: "same_charge a a"
  by (simp add: same_charge_def)

lemma same_charge_sent: "same_charge a b \<Longrightarrow> sent a \<Longrightarrow> sent b"
  by (simp add: same_charge_def sent_def)

lemma same_charge_trans: "same_charge a b \<Longrightarrow> same_charge b c \<Longrightarrow> same_charge a c"
  by (simp add: same_charge_def)

lemma attempts_cancel:
  "attempts (snd (cancel_mandate m who how reason d)) = (if rm_status m = MandateCanceled
     then attempts d else rows_update (\<lambda>a. ra_mandate a = rm_id m \<and> ra_outcome a = Scheduled
       \<and> ra_payment a = None) (\<lambda>a. a\<lparr>ra_outcome := AttemptSkipped\<rparr>) (attempts d))"
  by (simp add: cancel_mandate_def Let_def side_effect_defs edit_mandate_def)

lemma cancel_keeps_sent:
  "a \<in> set (attempts d) \<Longrightarrow> sent a \<Longrightarrow> a \<in> set (attempts (snd (cancel_mandate m who how reason d)))"
  by (force simp: attempts_cancel set_rows_update sent_def)

lemma fold_cancel_keeps_sent:
  "a \<in> set (attempts d) \<Longrightarrow> sent a
    \<Longrightarrow> a \<in> set (attempts (fold (\<lambda>m d. snd (cancel_mandate m who how reason d)) ms d))"
  by (induction ms arbitrary: d) (simp_all add: cancel_keeps_sent)

lemma fold_call_provider_attempts:
  "attempts (fold (\<lambda>m. call_provider (f m)) ms d) = attempts d"
  by (induction ms arbitrary: d) (simp_all add: call_provider_def)

lemma map_keeps:
  "a \<in> set xs \<Longrightarrow> (\<And>x. same_charge x (h x)) \<Longrightarrow> \<exists>b \<in> set (map h xs). same_charge a b"
  by auto

lemma delete_keeps:
  assumes "a \<in> set (attempts d)" and "\<And>m. m \<in> set (mandates d) \<Longrightarrow> P m \<Longrightarrow> rm_id m \<noteq> ra_mandate a"
  shows "\<exists>b \<in> set (attempts (delete_mandates P d)). same_charge a b"
proof -
  let ?gone = "map rm_id (filter P (mandates d))"
  define lost where "lost = map ra_id (filter (\<lambda>a. ra_mandate a \<in> set ?gone) (attempts d))"
  define h where "h = (\<lambda>a :: attempt. if (case ra_retry_of a of None \<Rightarrow> False
      | Some k \<Rightarrow> k \<in> set lost) then a\<lparr>ra_retry_of := None\<rparr> else a)"
  have eq: "attempts (delete_mandates P d)
      = map h (rows_delete (\<lambda>a. ra_mandate a \<in> set ?gone) (attempts d))"
    unfolding delete_mandates_def Let_def h_def lost_def by simp
  have "ra_mandate a \<notin> set ?gone" using assms(2) by force
  then have "a \<in> set (rows_delete (\<lambda>a. ra_mandate a \<in> set ?gone) (attempts d))"
    using assms(1) by (simp add: rows_delete_def)
  then show ?thesis unfolding eq by (rule map_keeps) (simp add: h_def same_charge_def)
qed

definition pending_ids :: "pk \<Rightarrow> db \<Rightarrow> pk set" where
  "pending_ids k d = rm_id ` {m \<in> set (mandates d). rm_user m = k \<and> rm_status m = MandatePending}"

definition unsettled_ids :: "pk \<Rightarrow> db \<Rightarrow> pk set" where
  "unsettled_ids k d = rm_id ` {m \<in> set (mandates d). rm_user m = k \<and> rm_status m = MandatePending
     \<and> unsettled_mandate d m}"

lemma discard_eq:
  "discard_pending_mandate k d = (let d1 = fold (\<lambda>m. call_provider (AbandonCall (rm_id m)))
       (filter (\<lambda>m. rm_user m = k \<and> rm_status m = MandatePending) (mandates d)) d
     in delete_mandates (\<lambda>m. rm_id m \<in> pending_ids k d \<and> rm_id m \<notin> unsettled_ids k d)
       (d1\<lparr>mandates := rows_update (\<lambda>m. rm_id m \<in> unsettled_ids k d)
          (\<lambda>m. m\<lparr>rm_status := MandateCanceled, rm_canceled_at := Some (clock d1)\<rparr>) (mandates d)\<rparr>))"
  by (simp add: discard_pending_mandate_def Let_def pending_ids_def unsettled_ids_def
      fold_call_provider fold_call_provider_attempts unsettled_mandate_def conj_assoc)

lemma discard_keeps_sent:
  assumes "a \<in> set (attempts d)" and "sent a"
  shows "\<exists>b \<in> set (attempts (discard_pending_mandate k d)). same_charge a b"
  unfolding discard_eq Let_def
proof (rule delete_keeps)
  fix m
  assume p: "rm_id m \<in> pending_ids k d \<and> rm_id m \<notin> unsettled_ids k d"
  then obtain y where y: "y \<in> set (mandates d)" "rm_user y = k" "rm_status y = MandatePending"
    "rm_id y = rm_id m"
    by (auto simp: pending_ids_def)
  then have "\<not> unsettled_mandate d y" using p by (force simp: unsettled_ids_def)
  with assms y(4) show "rm_id m \<noteq> ra_mandate a"
    by (auto simp: unsettled_mandate_def list_ex_iff sent_def)
qed (use assms in \<open>simp add: fold_call_provider_attempts\<close>)

lemma discard_from:
  assumes "x \<in> set (mandates (discard_pending_mandate k d))"
  shows "\<exists>y \<in> set (mandates d). rm_id x = rm_id y \<and> rm_user x = rm_user y
    \<and> (rm_id y \<in> pending_ids k d \<longrightarrow> rm_id y \<in> unsettled_ids k d)
    \<and> rm_status x = (if rm_id y \<in> unsettled_ids k d then MandateCanceled else rm_status y)"
  using assms unfolding discard_eq Let_def delete_mandates_tables
  by (auto simp: set_rows_update split: if_splits)

lemma mandates_fold_cancel:
  assumes "\<And>m. m \<in> set ms \<Longrightarrow> rm_status m \<noteq> MandateCanceled"
  shows "x \<in> set (mandates (fold (\<lambda>m d. snd (cancel_mandate m who how reason d)) ms d))
    \<Longrightarrow> \<exists>y \<in> set (mandates d). rm_id x = rm_id y \<and> rm_user x = rm_user y
       \<and> rm_status x = (if rm_id y \<in> rm_id ` set ms then MandateCanceled else rm_status y)"
  using assms
proof (induction ms arbitrary: d)
  case (Cons m ms)
  from Cons.IH [of "snd (cancel_mandate m who how reason d)"] Cons.prems
  obtain y where y: "y \<in> set (mandates (snd (cancel_mandate m who how reason d)))"
    "rm_id x = rm_id y" "rm_user x = rm_user y"
    "rm_status x = (if rm_id y \<in> rm_id ` set ms then MandateCanceled else rm_status y)"
    by auto
  have "rm_status m \<noteq> MandateCanceled" using Cons.prems(2) by simp
  with y show ?case by (auto simp: cancel_mandate_tables set_rows_update)
qed auto

lemma mandates_discard:
  assumes "x \<in> set (mandates (discard_pending_mandate k d))" and "rm_user x = k"
  shows "rm_status x \<noteq> MandatePending"
proof
  assume pending: "rm_status x = MandatePending"
  from discard_from [OF assms(1)] obtain y where y: "y \<in> set (mandates d)" "rm_user x = rm_user y"
    "rm_id y \<in> pending_ids k d \<longrightarrow> rm_id y \<in> unsettled_ids k d"
    "rm_status x = (if rm_id y \<in> unsettled_ids k d then MandateCanceled else rm_status y)"
    by blast
  with pending have "rm_id y \<notin> unsettled_ids k d" "rm_status y = MandatePending"
    by (auto split: if_splits)
  moreover from this y(1,2) assms(2) have "rm_id y \<in> pending_ids k d"
    by (auto simp: pending_ids_def)
  ultimately show False using y(3) by blast
qed

lemma mandates_discard_from:
  assumes "x \<in> set (mandates (discard_pending_mandate k d))"
  shows "\<exists>y \<in> set (mandates d). rm_id x = rm_id y \<and> rm_user x = rm_user y
    \<and> (rm_status x = rm_status y \<or> rm_status x = MandateCanceled)"
  using discard_from [OF assms] by (auto split: if_splits)

text \<open>Withdrawing every authority of an account leaves none of its mandates standing, and
  every charge already sent to a provider is still there, scheduled and with its payment, for the
  scan to settle.\<close>

theorem cancel_all_keeps_sent:
  "(\<forall>m. m \<in> set (mandates (cancel_all_mandates k who d)) \<and> rm_user m = k
      \<longrightarrow> rm_status m = MandateCanceled)
   \<and> (\<forall>a. a \<in> set (attempts d) \<and> sent a
      \<longrightarrow> (\<exists>b. b \<in> set (attempts (cancel_all_mandates k who d)) \<and> same_charge a b))"
proof (intro conjI allI impI; elim conjE)
  let ?w = "case who of Some a \<Rightarrow> a | None \<Rightarrow> k"
  let ?ms = "filter (\<lambda>m. rm_user m = k \<and> rm_status m \<notin> {MandateCanceled, MandatePending}) (mandates d)"
  let ?d1 = "fold (\<lambda>m d. snd (cancel_mandate m (Some ?w) (Some OffDeactivated) None d)) ?ms d"
  have all: "cancel_all_mandates k who d = discard_pending_mandate k ?d1"
    by (simp add: cancel_all_mandates_def Let_def)
  {
    fix m assume m: "m \<in> set (mandates (cancel_all_mandates k who d))" "rm_user m = k"
    from mandates_discard_from [OF m(1) [unfolded all]] obtain y where
      y: "y \<in> set (mandates ?d1)" "rm_user m = rm_user y"
        "rm_status m = rm_status y \<or> rm_status m = MandateCanceled"
      by blast
    from mandates_fold_cancel [OF _ y(1)] obtain z where
      z: "z \<in> set (mandates d)" "rm_user y = rm_user z"
        "rm_status y = (if rm_id z \<in> rm_id ` set ?ms then MandateCanceled else rm_status z)"
      by auto
    have "rm_status y \<in> {MandateCanceled, MandatePending}"
      using z m(2) y(2) by (cases "rm_status z \<in> {MandateCanceled, MandatePending}") auto
    with y(3) mandates_discard [OF m(1) [unfolded all] m(2)] show "rm_status m = MandateCanceled"
      by auto
  next
    fix a assume "a \<in> set (attempts d)" "sent a"
    then have "a \<in> set (attempts ?d1)" by (rule fold_cancel_keeps_sent)
    from discard_keeps_sent [OF this \<open>sent a\<close>, of k]
    show "\<exists>b. b \<in> set (attempts (cancel_all_mandates k who d)) \<and> same_charge a b"
      unfolding all by blast
  }
qed

theorem cancel_all_keeps_sent_witness:
  "\<exists>m. m \<in> set (mandates (cancel_all_mandates 1 None canceled_beside_donation))
     \<and> rm_status m = MandateCanceled"
proof -
  have "mandates (cancel_all_mandates 1 None canceled_beside_donation) \<noteq> []
      \<and> list_all (\<lambda>m. rm_user m = 1) (mandates (cancel_all_mandates 1 None canceled_beside_donation))"
    by code_simp
  then obtain m where "m \<in> set (mandates (cancel_all_mandates 1 None canceled_beside_donation))"
    "rm_user m = 1"
    by (cases "mandates (cancel_all_mandates 1 None canceled_beside_donation)") auto
  with cancel_all_keeps_sent [of 1 None canceled_beside_donation] show ?thesis by blast
qed

subsection \<open>Rolling the charge day\<close>

text \<open>The charge day moves by the span the coverage moved, or to the new expiry when that place
  has gone by, never backwards and never into the past; and for a day stored on or after the old
  expiry a second call for the same term moves nothing.\<close>

theorem rolled_day_spec:
  assumes "rolled_day today ends (Some until) stored = Some x" and "today \<le> ends"
  shows "stored < x \<and> today \<le> x
    \<and> (x = stored + (ends - until) \<or> stored + (ends - until) < today \<and> x = ends)
    \<and> (until \<le> stored \<longrightarrow> rolled_day today ends (Some until) x = None)"
  using assms by (auto simp: rolled_day_def Let_def split: if_splits)

theorem rolled_day_spec_witness:
  "rolled_day 1000 1365 (Some 1000) 1000 = Some 1365 \<and> rolled_day 1000 1365 (Some 1000) 1365 = None"
  using rolled_day_spec [of 1000 1365 1000 1000 1365] by (simp add: rolled_day_def)

definition early_charge_day :: db where
  \<comment> \<open>a renewal stored two weeks before the old expiry of day 1364, after a second term to 1729\<close>
  "early_charge_day = renewing_member\<lparr>
     terms := [sample_term 1 1 1 1000 (Some 1364), sample_term 2 1 1 1365 (Some 1729)],
     mandates := [sample_mandate 5 1 (Some 1) 0 1350]\<rparr>"

text \<open>For a day stored before the old expiry a second call for the same term moves it again,
  a whole term further on.\<close>

theorem roll_twice_moves_again:
  "map rm_next_charge_on (mandates (snd (roll_charge_date_past sample_config (sample_user 1 Member)
      (Some 1364) early_charge_day))) = [1715]
   \<and> map rm_next_charge_on (mandates (snd (roll_charge_date_past sample_config (sample_user 1 Member)
      (Some 1364) (snd (roll_charge_date_past sample_config (sample_user 1 Member) (Some 1364)
        early_charge_day))))) = [2080]"
  by code_simp

end
