(* ===== verification/Payments.thy ===== *)
theory Payments
  imports Mandates
begin

text \<open>
  The life of a payment (\<open>payments/services.py\<close>): the checkout that prices it, the success that buys
  the term, rolls the standing authority and saves the method, the failure, and what a provider
  says about its fee.  \<open>donations.py\<close> gives the details a public gift carries.

  A success is one transaction (\<open>complete_payment\<close>) followed by a receipt queued for after the
  commit; \<open>method_of\<close> is what the provider's record of the charge says about a saved method.
\<close>

subsection \<open>Reading a payment\<close>

definition settled_statuses :: "payment_status list" where
  "settled_statuses = [Succeeded, PartiallyRefunded, Refunded]"

definition payment_plan :: "db \<Rightarrow> payment \<Rightarrow> plan option" where
  \<comment> \<open>\<open>payment.plan\<close>\<close>
  "payment_plan d p = Option.bind (p_plan p) (get_plan d)"

definition payment_attempts :: "db \<Rightarrow> pk \<Rightarrow> attempt list" where
  \<comment> \<open>\<open>payment.renewal_attempts.all()\<close>\<close>
  "payment_attempts d k = filter (\<lambda>a. ra_payment a = Some k) (attempts d)"

datatype payment_kind = MembershipKind | ContributionKind | BothKind

definition payment_kind_of :: "payment \<Rightarrow> payment_kind" where
  "payment_kind_of p = (if p_plan p = None then ContributionKind
     else if p_contribution_cents p > 0 then BothKind else MembershipKind)"

definition paid_on :: "config \<Rightarrow> payment \<Rightarrow> date option" where
  "paid_on cfg p = (if p_provider p = Manual then p_received_on p
     else map_option (localdate cfg) (p_completed_at p))"

definition refunded_cents :: "db \<Rightarrow> pk \<Rightarrow> int" where
  "refunded_cents d k = sum_list (map rf_amount_cents
     (filter (\<lambda>r. rf_payment r = k \<and> rf_status r = RefundSucceeded) (refunds d)))"

subsection \<open>Checkout\<close>

definition holds_lifetime_term :: "db \<Rightarrow> user \<Rightarrow> bool" where
  "holds_lifetime_term d u =
     list_ex (\<lambda>m. m_user m = u_id u \<and> m_status m = TermActive \<and> m_ends_on m = None) (terms d)"

definition life_member_checkout_message :: string where
  "life_member_checkout_message =
     ''You are a life member, so you don't have anything to renew. Make a donation instead.''"

definition new_payment :: "pk \<Rightarrow> pk \<Rightarrow> pk option \<Rightarrow> int \<Rightarrow> int \<Rightarrow> int \<Rightarrow> provider \<Rightarrow> payment" where
  \<comment> \<open>a row with the model's defaults\<close>
  "new_payment k user_pk plan_pk amount plan_amount contribution pr = \<lparr>p_id = k, p_user = user_pk,
     p_plan = plan_pk, p_amount_cents = amount, p_plan_amount_cents = plan_amount,
     p_contribution_cents = contribution, p_provider = pr, p_wallet = UnknownWallet,
     p_provider_ref = [], p_charge_customer_ref = [], p_charge_method_ref = [],
     p_charge_sent_at = None, p_status = Pending, p_completed_at = None, p_fee_cents = 0,
     p_net_cents = 0, p_receipt_sent_at = None, p_received_on = None, p_raw = [],
     p_donor_fields = []\<rparr>"

definition plan_on_offer :: "db \<Rightarrow> string \<Rightarrow> plan option" where
  "plan_on_offer d slug = find (\<lambda>p. pl_slug p = slug \<and> pl_is_active p) (plans d)"

definition priced_plan :: "db \<Rightarrow> user \<Rightarrow> string option \<Rightarrow> error + plan option" where
  \<comment> \<open>the plan a checkout names: none for a missing or an empty slug\<close>
  "priced_plan d u slug =
     (case slug of
        None \<Rightarrow> Inr None
      | Some s \<Rightarrow>
          if s = [] then Inr None
          else case plan_on_offer d s of
                 None \<Rightarrow> Inl (DomainValidationError ''plan'' (''Unknown membership plan '' @ CHR 0x27 # s @ CHR 0x27 # ''.''))
               | Some p \<Rightarrow>
                   if holds_lifetime_term d u
                   then Inl (DomainValidationError ''plan'' life_member_checkout_message)
                   else Inr (Some p))"

definition create_checkout :: "user \<Rightarrow> string option \<Rightarrow> int \<Rightarrow> provider \<Rightarrow> db
    \<Rightarrow> (error + payment) \<times> db" where
  "create_checkout u slug contribution pr d =
     (if contribution < 0
      then (Inl (DomainValidationError ''contribution_cents'' ''Contribution cannot be negative.''), d)
      else case priced_plan d u slug of
        Inl e \<Rightarrow> (Inl e, d)
      | Inr p \<Rightarrow>
          let plan_amount = (case p of None \<Rightarrow> 0 | Some pl \<Rightarrow> pl_price_cents pl);
              amount = plan_amount + contribution
          in if amount \<le> 0
             then (Inl (DomainValidationError ''amount_cents'' ''Nothing to charge.''), d)
             else (let (k, d) = fresh_pk d;
                       pay = new_payment k (u_id u) (map_option pl_id p) amount plan_amount
                               contribution pr
                   in (Inr pay, d\<lparr>payments := payments d @ [pay]\<rparr>)))"

subsection \<open>What a payment costs\<close>

definition unknown_net_cents :: int where
  "unknown_net_cents = 0"

definition fees_are_known :: "payment \<Rightarrow> bool" where
  "fees_are_known p \<longleftrightarrow> p_amount_cents p = 0 \<or> p_net_cents p \<noteq> unknown_net_cents"

definition settled_fees :: "payment \<Rightarrow> int option \<Rightarrow> int option \<Rightarrow> int \<times> int" where
  "settled_fees p fee net =
     (case fee of
        Some f \<Rightarrow> (f, case net of Some n \<Rightarrow> n | None \<Rightarrow> p_amount_cents p - f)
      | None \<Rightarrow> (case net of
            Some n \<Rightarrow> (p_amount_cents p - n, n)
          | None \<Rightarrow> if fees_are_known p then (p_fee_cents p, p_net_cents p)
                    else if p_provider p = Manual then (0, p_amount_cents p)
                    else (0, unknown_net_cents)))"

subsection \<open>A public gift's details\<close>

definition donor_profile_fields :: "string list" where
  "donor_profile_fields = [''address_line1'', ''address_line2'', ''city'', ''state'', ''postal_code'',
     ''county'', ''home_airport_identifier'', ''dart'', ''air_care_alliance_number'',
     ''pilot_certificate_type'', ''vol_mission_pilot'', ''vol_ground_team'',
     ''vol_exercise_training'', ''vol_member_support'']"

definition blank_value :: "json option \<Rightarrow> bool" where
  \<comment> \<open>\<open>value in (None, "", False)\<close>, where \<open>0 == False\<close>\<close>
  "blank_value v \<longleftrightarrow> v \<in> {None, Some JNull, Some (JStr []), Some (JBool False), Some (JInt 0)}"

definition text_of :: "json option \<Rightarrow> string" where
  "text_of v = (case v of Some (JStr s) \<Rightarrow> s | _ \<Rightarrow> [])"

definition filled_in :: "json_object \<Rightarrow> json_object \<Rightarrow> json_object" where
  \<comment> \<open>the profile columns with each one the giver filled in written over\<close>
  "filled_in fs details = fold (\<lambda>name details. if blank_value (map_of fs name) then details
       else AList.update name (the (map_of fs name)) details) (''phone'' # donor_profile_fields) details"

definition own_profile :: "pk \<Rightarrow> profile list \<Rightarrow> profile list" where
  \<comment> \<open>\<open>MemberProfile.objects.get_or_create(user=user)\<close>\<close>
  "own_profile k ps = (if list_ex (\<lambda>r. pf_user r = k) ps then ps
     else ps @ [\<lparr>pf_user = k, pf_member_since = None, pf_details = []\<rparr>])"

definition apply_donor_fields :: "user \<Rightarrow> payment \<Rightarrow> db \<Rightarrow> db" where
  "apply_donor_fields u p d =
     (if p_donor_fields p = [] \<or> u_kind u \<noteq> Donor then d
      else let fs = p_donor_fields p;
               d = edit_user (u_id u) (\<lambda>r. r\<lparr>u_first_name := strip (text_of (map_of fs ''first_name'')),
                     u_last_name := strip (text_of (map_of fs ''last_name''))\<rparr>) d
           in d\<lparr>profiles := map (\<lambda>r. if pf_user r = u_id u
                   then r\<lparr>pf_details := filled_in fs (pf_details r)\<rparr> else r)
                (own_profile (u_id u) (profiles d))\<rparr>)"

subsection \<open>Success\<close>

record settlement =
  \<comment> \<open>what the provider's answer carries besides the success\<close>
  sl_wallet :: "wallet option"
  sl_raw :: "json_object option"
  sl_provider_ref :: "string option"
  sl_fee_cents :: "int option"
  sl_net_cents :: "int option"

definition succeeded_payment :: "settlement \<Rightarrow> moment \<Rightarrow> payment \<Rightarrow> payment" where
  "succeeded_payment s now p =
     (let p = p\<lparr>p_status := Succeeded, p_completed_at := Some now\<rparr>;
          p = (case sl_wallet s of Some w \<Rightarrow> p\<lparr>p_wallet := w\<rparr> | None \<Rightarrow> p);
          p = (case sl_provider_ref s of
                 Some r \<Rightarrow> if r \<noteq> [] then p\<lparr>p_provider_ref := r\<rparr> else p | None \<Rightarrow> p);
          p = (case sl_raw s of Some r \<Rightarrow> p\<lparr>p_raw := r\<rparr> | None \<Rightarrow> p);
          (fee, net) = settled_fees p (sl_fee_cents s) (sl_net_cents s)
      in p\<lparr>p_fee_cents := fee, p_net_cents := net\<rparr>)"

definition save_settled :: "payment \<Rightarrow> db \<Rightarrow> db" where
  \<comment> \<open>the columns \<open>_complete\<close> saves\<close>
  "save_settled p = edit_payment (p_id p) (\<lambda>r. r\<lparr>p_status := p_status p,
     p_completed_at := p_completed_at p, p_wallet := p_wallet p, p_provider_ref := p_provider_ref p,
     p_raw := p_raw p, p_fee_cents := p_fee_cents p, p_net_cents := p_net_cents p\<rparr>)"

definition fulfill_payment :: "config \<Rightarrow> (payment \<Rightarrow> saved_method option) \<Rightarrow> user \<Rightarrow> payment \<Rightarrow> db
    \<Rightarrow> db" where
  \<comment> \<open>what a settled payment buys: a term and a later charge day, or a gift, and the saved method\<close>
  "fulfill_payment cfg method_of u p d =
     (let d = (case payment_plan d p of
            Some pl \<Rightarrow>
              (let covered = term_to_renew d u (local_today cfg d);
                   (t, d) = activate_term cfg u pl SourcePayment (Some (p_id p)) None None [] d;
                   (_, d) = roll_charge_date_past cfg u (Option.bind covered m_ends_on) d
               in emit (MembershipPaid (p_id p) (m_id t) (payment_attempts d (p_id p) \<noteq> [])) d)
          | None \<Rightarrow> emit (DonationReceived (p_id p)) d);
          (_, d) = activate_pending_mandate cfg method_of u p d
      in d)"

definition complete_body :: "config \<Rightarrow> (payment \<Rightarrow> saved_method option) \<Rightarrow> pk \<Rightarrow> settlement \<Rightarrow> db
    \<Rightarrow> (error + payment \<times> bool) \<times> db" where
  "complete_body cfg method_of k s d =
     (case get_payment d k of
        None \<Rightarrow> (Inl DoesNotExist, d)
      | Some p \<Rightarrow>
          if p_status p \<in> set settled_statuses then (Inr (p, False), d)
          else case get_user d (p_user p) of
            None \<Rightarrow> (Inl DoesNotExist, d)
          | Some u \<Rightarrow>
              let fulfill = \<not> is_tombstone u;
                  d = (if fulfill then apply_donor_fields u p d else d);
                  p = succeeded_payment s (clock d) p;
                  d = save_settled p d
              in if \<not> fulfill then (Inr (p, True), d)
                 else (Inr (p, True), fulfill_payment cfg method_of u p d))"

definition complete_payment :: "config \<Rightarrow> (payment \<Rightarrow> saved_method option) \<Rightarrow> pk \<Rightarrow> settlement \<Rightarrow> db
    \<Rightarrow> (error + payment \<times> bool) \<times> db" where
  "complete_payment cfg method_of k s = atomic (complete_body cfg method_of k s)"

definition mark_succeeded :: "config \<Rightarrow> (payment \<Rightarrow> saved_method option) \<Rightarrow> pk \<Rightarrow> settlement \<Rightarrow> db
    \<Rightarrow> (error + payment) \<times> db" where
  "mark_succeeded cfg method_of k s d =
     (case complete_payment cfg method_of k s d of
        (Inl e, d) \<Rightarrow> (Inl e, d)
      | (Inr (p, transitioned), d) \<Rightarrow>
          (Inr p,
           if transitioned \<and> payment_attempts d (p_id p) = []
              \<and> (case get_user d (p_user p) of None \<Rightarrow> False | Some u \<Rightarrow> \<not> is_tombstone u)
           then queue_mail (ReceiptMail (p_id p)) d else d))"

subsection \<open>Fees, failures and notifications\<close>

definition record_fees :: "pk \<Rightarrow> int \<Rightarrow> int \<Rightarrow> db \<Rightarrow> (error + payment) \<times> db" where
  "record_fees k fee net d =
     (case get_payment d k of
        None \<Rightarrow> (Inl DoesNotExist, d)
      | Some p \<Rightarrow> (Inr (p\<lparr>p_fee_cents := fee, p_net_cents := net\<rparr>),
          edit_payment k (\<lambda>r. r\<lparr>p_fee_cents := fee, p_net_cents := net\<rparr>) d))"

definition backfill_fees :: "(payment \<Rightarrow> error + (int \<times> int) option) \<Rightarrow> pk \<Rightarrow> db
    \<Rightarrow> (error + payment) \<times> db" where
  \<comment> \<open>\<open>fetch\<close> is the provider's \<open>fetch_fees\<close>, which may raise\<close>
  "backfill_fees fetch k d =
     (case get_payment d k of
        None \<Rightarrow> (Inl DoesNotExist, d)
      | Some p \<Rightarrow>
          if p_provider p = Manual \<or> p_status p \<noteq> Succeeded then (Inr p, d)
          else case fetch p of
            Inl e \<Rightarrow> (Inl e, d)
          | Inr None \<Rightarrow> (Inr p, d)
          | Inr (Some (fee, net)) \<Rightarrow> record_fees k fee net d)"

definition mark_failed :: "pk \<Rightarrow> json_object option \<Rightarrow> db \<Rightarrow> (error + payment) \<times> db" where
  "mark_failed k raw d =
     (case get_payment d k of
        None \<Rightarrow> (Inl DoesNotExist, d)
      | Some p \<Rightarrow>
          if p_status p \<in> set settled_statuses then (Inr p, d)
          else let p = p\<lparr>p_status := Failed\<rparr>;
                   p = (case raw of Some r \<Rightarrow> p\<lparr>p_raw := r\<rparr> | None \<Rightarrow> p)
               in (Inr p, edit_payment k (\<lambda>r. r\<lparr>p_status := Failed, p_raw := p_raw p\<rparr>) d))"

definition record_provider_event :: "pk \<Rightarrow> json \<Rightarrow> db \<Rightarrow> (error + payment) \<times> db" where
  "record_provider_event k payload d =
     (case get_payment d k of
        None \<Rightarrow> (Inl DoesNotExist, d)
      | Some p \<Rightarrow>
          let raw = AList.update ''last_webhook'' payload (p_raw p)
          in (Inr (p\<lparr>p_raw := raw\<rparr>), edit_payment k (\<lambda>r. r\<lparr>p_raw := raw\<rparr>) d))"

subsection \<open>The receipt\<close>

definition send_receipt :: "config \<Rightarrow> pk \<Rightarrow> db \<Rightarrow> bool \<times> db" where
  "send_receipt cfg k d =
     (case get_payment d k of
        None \<Rightarrow> (False, d)
      | Some p \<Rightarrow> (case get_user d (p_user p) of
            None \<Rightarrow> (False, d)
          | Some u \<Rightarrow>
              if u_email u = [] then (False, d)
              else (case send_mail cfg (ReceiptMail k) d of
                  (False, d) \<Rightarrow> (False, d)
                | (True, d) \<Rightarrow> (True, edit_payment k (\<lambda>r. r\<lparr>p_receipt_sent_at := Some (clock d)\<rparr>) d))))"

subsection \<open>A payment settles once\<close>

lemma activate_term_payments: "payments (snd (activate_term cfg u p src pay g so note d)) = payments d"
  by (auto simp: activate_term_def Let_def split_beta create_term_def fresh_pk_def set_kind_def
      stamp_member_since_def table_simps edit_user_def split: option.splits)

lemma roll_payments: "payments (snd (roll_charge_date_past cfg u c d)) = payments d"
  by (auto simp: roll_charge_date_past_def Let_def edit_mandate_def split: option.splits)

lemma save_method_payments: "payments (snd (save_method cfg m s a d)) = payments d"
  by (simp add: save_method_def Let_def side_effect_defs put_mandate_def)

lemma activate_pending_payments:
  "payments (snd (activate_pending_mandate cfg method_of u p d)) = payments d"
  by (auto simp: activate_pending_mandate_def Let_def split_beta save_method_payments
      split: option.splits)

lemma fulfill_payments: "payments (fulfill_payment cfg method_of u p d) = payments d"
  by (auto simp: fulfill_payment_def Let_def split_beta activate_pending_payments roll_payments
      activate_term_payments table_simps split: option.splits)

lemma apply_donor_fields_payments: "payments (apply_donor_fields u p d) = payments d"
  by (simp add: apply_donor_fields_def Let_def edit_user_def)

lemma succeeded_payment_same:
  "p_id (succeeded_payment s now p) = p_id p" "p_user (succeeded_payment s now p) = p_user p"
  "p_status (succeeded_payment s now p) = Succeeded" "p_plan (succeeded_payment s now p) = p_plan p"
  "p_amount_cents (succeeded_payment s now p) = p_amount_cents p"
  by (simp_all add: succeeded_payment_def Let_def split_beta split: option.splits)

lemma get_payment_id: "get_payment d k = Some p \<Longrightarrow> p_id p = k"
  by (auto simp: get_payment_def dest: row_get_SomeD)

lemma complete_body_settles:
  assumes "complete_body cfg method_of k s d = (Inr (p, b), d')"
  shows "p_id p = k" and "\<exists>q. get_payment d' k = Some q \<and> p_status q \<in> set settled_statuses"
    and "\<not> b \<Longrightarrow> d' = d"
proof -
  obtain p0 where p0: "get_payment d k = Some p0"
    using assms by (auto simp: complete_body_def split: option.splits)
  show "p_id p = k"
    using assms p0 get_payment_id [OF p0]
    by (auto simp: complete_body_def Let_def succeeded_payment_same split: option.splits if_splits)
  show "\<not> b \<Longrightarrow> d' = d"
    using assms by (auto simp: complete_body_def Let_def split: option.splits if_splits)
  show "\<exists>q. get_payment d' k = Some q \<and> p_status q \<in> set settled_statuses"
  proof (cases "p_status p0 \<in> set settled_statuses")
    case True
    with assms p0 show ?thesis by (auto simp: complete_body_def)
  next
    case False
    obtain u where u: "get_user d (p_user p0) = Some u"
      using assms p0 False by (auto simp: complete_body_def split: option.splits)
    define d1 where "d1 = (if \<not> is_tombstone u then apply_donor_fields u p0 d else d)"
    define p1 where "p1 = succeeded_payment s (clock d1) p0"
    have "payments d' = payments (save_settled p1 d1)"
      using assms p0 False u
      by (auto simp: complete_body_def Let_def d1_def p1_def fulfill_payments split: if_splits)
    moreover have "payments d1 = payments d" by (simp add: d1_def apply_donor_fields_payments)
    ultimately show ?thesis
      using p0 get_payment_id [OF p0]
      by (simp add: get_payment_def save_settled_def edit_payment_def row_get_rows_edit p1_def
          succeeded_payment_same settled_statuses_def)
  qed
qed

lemma complete_settled:
  "get_payment d k = Some q \<Longrightarrow> p_status q \<in> set settled_statuses
    \<Longrightarrow> complete_payment cfg method_of k s d = (Inr (q, False), d)"
  by (simp add: complete_payment_def atomic_def complete_body_def)

lemma mark_succeeded_settles:
  assumes "mark_succeeded cfg method_of k s d = (Inr p, d')"
  shows "\<exists>q. get_payment d' k = Some q \<and> p_status q \<in> set settled_statuses"
proof -
  obtain b d1 where c: "complete_payment cfg method_of k s d = (Inr (p, b), d1)"
    and d': "payments d' = payments d1"
    using assms by (auto simp: mark_succeeded_def queue_mail_def split: prod.splits sum.splits if_splits)
  have "complete_body cfg method_of k s d = (Inr (p, b), d1)"
    using c by (auto simp: complete_payment_def atomic_def split: prod.splits sum.splits)
  from complete_body_settles(2) [OF this] d' show ?thesis by (simp add: get_payment_def)
qed

text \<open>C5: a payment settles once: when the success has been recorded, any later report of it -- a
  second confirmation, a webhook, a failure that arrives late -- answers the payment as it stands
  and changes nothing: no second term, receipt, event or mandate, and no downgrade.\<close>

theorem success_is_final:
  assumes "mark_succeeded cfg method_of k s d = (Inr p, d')"
  shows "\<exists>q. get_payment d' k = Some q
    \<and> mark_succeeded cfg' method_of' k s' d' = (Inr q, d') \<and> mark_failed k raw d' = (Inr q, d')"
proof -
  obtain q where q: "get_payment d' k = Some q" "p_status q \<in> set settled_statuses"
    using mark_succeeded_settles [OF assms] by blast
  then show ?thesis by (simp add: mark_succeeded_def complete_settled mark_failed_def)
qed

definition no_news :: settlement where
  \<comment> \<open>a success reported without any detail\<close>
  "no_news = \<lparr>sl_wallet = Some UnknownWallet, sl_raw = None, sl_provider_ref = None,
     sl_fee_cents = None, sl_net_cents = None\<rparr>"

definition paying_member :: db where
  \<comment> \<open>the renewing member with a pending payment for a year\<close>
  "paying_member = renewing_member\<lparr>payments := [sample_payment 7 1 (Some 1) 4500]\<rparr>"

lemma paying_member_pays:
  obtains p d' where "mark_succeeded sample_config (\<lambda>_. None) 7 no_news paying_member = (Inr p, d')"
proof -
  have "case fst (mark_succeeded sample_config (\<lambda>_. None) 7 no_news paying_member) of
      Inr p \<Rightarrow> True | Inl e \<Rightarrow> False" by code_simp
  then show thesis
    using that by (cases "mark_succeeded sample_config (\<lambda>_. None) 7 no_news paying_member")
      (auto split: sum.splits)
qed

theorem success_is_final_witness:
  "\<exists>p d' q. mark_succeeded sample_config (\<lambda>_. None) 7 no_news paying_member = (Inr p, d')
     \<and> mark_succeeded sample_config (\<lambda>_. None) 7 no_news d' = (Inr q, d')"
proof -
  obtain p d' where m: "mark_succeeded sample_config (\<lambda>_. None) 7 no_news paying_member = (Inr p, d')"
    by (rule paying_member_pays)
  from success_is_final [OF m, of sample_config "\<lambda>_. None" no_news] m show ?thesis by blast
qed

subsection \<open>What a payment buys\<close>

lemma roll_terms: "terms (snd (roll_charge_date_past cfg u c d)) = terms d"
  by (auto simp: roll_charge_date_past_def Let_def edit_mandate_def split: option.splits)

lemma save_method_terms: "terms (snd (save_method cfg m s a d)) = terms d"
  by (simp add: save_method_def Let_def side_effect_defs put_mandate_def)

lemma activate_pending_terms:
  "terms (snd (activate_pending_mandate cfg method_of u p d)) = terms d"
  by (auto simp: activate_pending_mandate_def Let_def split_beta save_method_terms
      split: option.splits)

lemma apply_donor_fields_frame:
  "terms (apply_donor_fields u p d) = terms d" "plans (apply_donor_fields u p d) = plans d"
  "clock (apply_donor_fields u p d) = clock d" "mandates (apply_donor_fields u p d) = mandates d"
  by (simp_all add: apply_donor_fields_def Let_def edit_user_def)

lemma term_start_cong: "terms d' = terms d \<Longrightarrow> term_start x d' u so = term_start x d u so"
  by (cases so) (simp_all add: term_start_def latest_expiry_def memberships_def Let_def)

lemma fulfill_terms:
  assumes "payment_plan d p = Some pl"
  shows "terms (fulfill_payment cfg method_of u p d)
    = terms (snd (activate_term cfg u pl SourcePayment (Some (p_id p)) None None [] d))"
  using assms by (simp add: fulfill_payment_def Let_def split_beta activate_pending_terms roll_terms
      table_simps)

lemma mark_succeeded_pending:
  assumes "get_payment d k = Some p0" and "p_status p0 \<notin> set settled_statuses"
    and "get_user d (p_user p0) = Some u" and "\<not> is_tombstone u"
    and "mark_succeeded cfg method_of k s d = (Inr p, d')"
  defines "d1 \<equiv> save_settled p (apply_donor_fields u p0 d)"
  shows "p = succeeded_payment s (clock d) p0"
    and "\<exists>m. d' = (fulfill_payment cfg method_of u p d1)\<lparr>on_commit := m\<rparr>"
proof -
  have c: "complete_payment cfg method_of k s d = (Inr (succeeded_payment s (clock d) p0, True),
      fulfill_payment cfg method_of u (succeeded_payment s (clock d) p0)
        (save_settled (succeeded_payment s (clock d) p0) (apply_donor_fields u p0 d)))"
    using assms(1-4)
    by (simp add: complete_payment_def atomic_def complete_body_def Let_def apply_donor_fields_frame)
  then show p: "p = succeeded_payment s (clock d) p0"
    using assms(5) by (simp add: mark_succeeded_def)
  show "\<exists>m. d' = (fulfill_payment cfg method_of u p d1)\<lparr>on_commit := m\<rparr>"
  proof -
    have "d' = fulfill_payment cfg method_of u p d1
        \<or> d' = queue_mail (ReceiptMail (p_id p)) (fulfill_payment cfg method_of u p d1)"
      using assms(5) c p by (auto simp: mark_succeeded_def d1_def split: if_splits)
    moreover have "f = f\<lparr>on_commit := on_commit f\<rparr>" for f :: db by simp
    ultimately show ?thesis unfolding queue_mail_def by metis
  qed
qed

text \<open>C6: a success of a payment for a plan leaves exactly the term it bought: the term of this
  payment, on the account that paid, and nothing else in the table changed; when the payment had
  bought none, it is new, on the plan paid for, and placed where \<open>activate_term\<close> places a renewal.\<close>

theorem success_buys_term:
  assumes "get_payment d k = Some p0" and "p_status p0 \<notin> set settled_statuses"
    and "get_user d (p_user p0) = Some u" and "\<not> is_tombstone u"
    and "payment_plan d p0 = Some pl" and "bought_term d k = None"
    and "mark_succeeded cfg method_of k s d = (Inr p, d')"
  shows "p_status p = Succeeded \<and> p_completed_at p = Some (clock d)
    \<and> (\<exists>t. terms d' = terms d @ [t] \<and> bought_term d' k = Some t \<and> m_user t = p_user p0
         \<and> m_plan t = pl_id pl \<and> m_starts_on t = term_start (local_today cfg d) d u None
         \<and> m_ends_on t = term_end pl (m_starts_on t))"
proof -
  note ms = mark_succeeded_pending [OF assms(1-4,7)]
  define d1 where "d1 = save_settled p (apply_donor_fields u p0 d)"
  obtain m where d': "d' = (fulfill_payment cfg method_of u p d1)\<lparr>on_commit := m\<rparr>"
    using ms(2) by (auto simp: d1_def)
  have k: "p_id p = k" "p_plan p = p_plan p0"
    using get_payment_id [OF assms(1)] ms(1) by (simp_all add: succeeded_payment_same)
  have same: "terms d1 = terms d" "plans d1 = plans d" "clock d1 = clock d"
    by (simp_all add: d1_def save_settled_def edit_payment_def apply_donor_fields_frame)
  have plan: "payment_plan d1 p = Some pl"
    using assms(5) k by (cases "p_plan p0") (simp_all add: payment_plan_def get_plan_def same)
  obtain t d2 where a: "activate_term cfg u pl SourcePayment (Some (p_id p)) None None [] d1 = (t, d2)"
    by (metis surj_pair)
  have none: "Option.bind (Some (p_id p)) (bought_term d1) = None"
    using assms(6) k by (simp add: bought_term_def same)
  note new = activate_new [OF none a]
  have terms': "terms d' = terms d @ [t]"
    using fulfill_terms [OF plan, of cfg method_of u] a new(2) by (simp add: d' same)
  have bought: "bought_term d' k = Some t"
    by (rule bought_term_appended [OF assms(6) terms']) (simp add: new(1) k)
  have user: "u_id u = p_user p0"
    using assms(3) by (auto simp: get_user_def dest: row_get_SomeD)
  have start: "m_starts_on t = term_start (local_today cfg d) d u None"
    using term_start_cong [OF same(1)] by (simp add: new(1) local_today_def same)
  have ends: "m_ends_on t = term_end pl (m_starts_on t)" "m_plan t = pl_id pl" "m_user t = u_id u"
    by (simp_all add: new(1))
  have "p_status p = Succeeded" "p_completed_at p = Some (clock d)"
    unfolding ms(1) by (simp_all add: succeeded_payment_def Let_def split_beta split: option.splits)
  with terms' bought user start ends show ?thesis by auto
qed

theorem success_buys_term_witness:
  "\<exists>p d' t. mark_succeeded sample_config (\<lambda>_. None) 7 no_news paying_member = (Inr p, d')
     \<and> bought_term d' 7 = Some t \<and> m_starts_on t = 1365"
proof -
  obtain p d' where m: "mark_succeeded sample_config (\<lambda>_. None) 7 no_news paying_member = (Inr p, d')"
    by (rule paying_member_pays)
  have facts: "get_payment paying_member 7 = Some (sample_payment 7 1 (Some 1) 4500)"
    "p_status (sample_payment 7 1 (Some 1) 4500) \<notin> set settled_statuses"
    "get_user paying_member (p_user (sample_payment 7 1 (Some 1) 4500)) = Some (sample_user 1 Member)"
    "\<not> is_tombstone (sample_user 1 Member)"
    "payment_plan paying_member (sample_payment 7 1 (Some 1) 4500)
       = Some (sample_plan 1 ''Annual'' (Some 365))"
    "bought_term paying_member 7 = None"
    "term_start (local_today sample_config paying_member) paying_member (sample_user 1 Member) None
       = 1365"
    by code_simp+
  from success_buys_term [OF facts(1-6) m] facts(7) m show ?thesis by auto
qed

text \<open>A payment a deleted member left behind settles into the books and stops there: nothing but
  the payment's own row changes.\<close>

theorem tombstone_buys_nothing:
  assumes "get_payment d k = Some p0" and "p_status p0 \<notin> set settled_statuses"
    and "get_user d (p_user p0) = Some u" and "is_tombstone u"
  shows "\<exists>p ps. mark_succeeded cfg method_of k s d = (Inr p, d\<lparr>payments := ps\<rparr>)
    \<and> p_status p = Succeeded"
proof -
  let ?p = "succeeded_payment s (clock d) p0"
  have c: "complete_payment cfg method_of k s d = (Inr (?p, True), save_settled ?p d)"
    using assms by (simp add: complete_payment_def atomic_def complete_body_def Let_def)
  have "get_user (save_settled ?p d) (p_user ?p) = Some u"
    using assms(3) by (simp add: get_user_def save_settled_def edit_payment_def succeeded_payment_same)
  with c assms(4) have "mark_succeeded cfg method_of k s d = (Inr ?p, save_settled ?p d)"
    by (simp add: mark_succeeded_def)
  moreover have "\<exists>ps. save_settled ?p d = d\<lparr>payments := ps\<rparr>"
    unfolding save_settled_def edit_payment_def by blast
  ultimately show ?thesis by (auto simp: succeeded_payment_same)
qed

definition tombstone_db :: db where
  "tombstone_db = empty_db\<lparr>users := [(sample_user 1 Donor)\<lparr>u_is_active := False,
       u_first_name := tombstone_first_name, u_email := ''deleted-1@deleted.invalid''\<rparr>],
     plans := [sample_plan 1 ''Annual'' (Some 365)],
     payments := [sample_payment 7 1 (Some 1) 4500]\<rparr>"

theorem tombstone_buys_nothing_witness:
  "\<exists>p ps. mark_succeeded sample_config (\<lambda>_. None) 7 no_news tombstone_db
     = (Inr p, tombstone_db\<lparr>payments := ps\<rparr>) \<and> p_status p = Succeeded"
proof -
  have facts: "get_payment tombstone_db 7 = Some (sample_payment 7 1 (Some 1) 4500)"
    "p_status (sample_payment 7 1 (Some 1) 4500) \<notin> set settled_statuses"
    by code_simp+
  obtain u where u: "get_user tombstone_db (p_user (sample_payment 7 1 (Some 1) 4500)) = Some u"
    "is_tombstone u"
  proof -
    have "case get_user tombstone_db (p_user (sample_payment 7 1 (Some 1) 4500)) of
        Some u \<Rightarrow> is_tombstone u | None \<Rightarrow> False" by code_simp
    then show thesis using that by (auto split: option.splits)
  qed
  show ?thesis by (rule tombstone_buys_nothing [OF facts u])
qed

text \<open>A checkout charges what the server computes -- the price of a plan on offer plus a
  contribution that is not negative, more than nothing -- sells no term to a life member, and
  writes nothing when it refuses.\<close>

theorem create_checkout_priced:
  "case create_checkout u slug contribution pr d of
     (Inl e, d') \<Rightarrow> d' = d
   | (Inr p, d') \<Rightarrow> payments d' = payments d @ [p] \<and> p_status p = Pending \<and> 0 < p_amount_cents p
       \<and> p_contribution_cents p = contribution \<and> \<not> contribution < 0
       \<and> (case p_plan p of
            None \<Rightarrow> p_amount_cents p = contribution
          | Some k \<Rightarrow> \<not> holds_lifetime_term d u \<and> (\<exists>pl. pl \<in> set (plans d) \<and> pl_id pl = k
              \<and> pl_is_active pl \<and> p_amount_cents p = pl_price_cents pl + contribution))"
proof -
  have "priced_plan d u slug = Inr (Some pl) \<Longrightarrow>
      \<not> holds_lifetime_term d u \<and> pl \<in> set (plans d) \<and> pl_is_active pl" for pl
    by (auto simp: priced_plan_def plan_on_offer_def find_Some_iff split: option.splits if_splits)
  then show ?thesis
    by (auto simp: create_checkout_def Let_def fresh_pk_def new_payment_def split: sum.splits option.splits)
qed

subsection \<open>A payment moves the standing charge day\<close>

lemma activate_term_mandates:
  "mandates (snd (activate_term cfg u p src pay g so note d)) = mandates d"
  "clock (snd (activate_term cfg u p src pay g so note d)) = clock d"
  by (auto simp: activate_term_def Let_def split_beta create_term_def fresh_pk_def set_kind_def
      stamp_member_since_def table_simps edit_user_def split: option.splits)

lemma term_to_renew_extended:
  assumes "term_to_renew d u x = Some c" and "m_ends_on c = Some e" and "terms d' = terms d @ [t]"
    and "m_user t = u_id u" and "m_status t = TermActive" and "m_ends_on t = Some e'" and "e < e'"
  shows "Option.bind (term_to_renew d' u x) m_ends_on = Some e'"
proof -
  note old = term_to_renew_Some [OF assms(1)]
  have ms: "set (memberships d' u) = insert t (set (memberships d u))"
    by (rule set_memberships_append [OF assms(3,4)])
  have x: "x \<le> e'" using old(3) assms(2,7) by auto
  have dated: "\<not> list_ex (\<lambda>m. m_ends_on m = None) (filter (\<lambda>m. m_status m = TermActive) (memberships d' u))"
    using old(4) assms(6) by (force simp: list_ex_iff ms)
  define dl where "dl = filter (\<lambda>m. case m_ends_on m of None \<Rightarrow> False | Some e \<Rightarrow> e \<ge> x)
      (filter (\<lambda>m. m_status m = TermActive) (memberships d' u))"
  have "t \<in> set dl" using assms(5,6) x by (simp add: ms dl_def)
  then have some: "dl \<noteq> []" by auto
  then have "term_to_renew d' u x = max_by reach_and_id dl"
    using dated by (simp add: term_to_renew_def Let_def dl_def)
  with some have "term_to_renew d' u x \<noteq> None" by (simp only: max_by_None_iff) simp
  then obtain c' where c': "term_to_renew d' u x = Some c'" by blast
  note new = term_to_renew_Some [OF c']
  obtain y where y: "m_ends_on c' = Some y" "e' \<le> y" using new(4) [of t] ms assms(5,6) by auto
  have "c' = t"
  proof (rule ccontr)
    assume "c' \<noteq> t"
    then have "c' \<in> set (memberships d u)" using new(1) ms by simp
    with old(4) [of c'] new(2) assms(2,7) y show False by auto
  qed
  with c' assms(6) show ?thesis by simp
qed

lemma edit_held_next:
  assumes "held_ok ms" and "m \<in> set ms"
  shows "rows_update (\<lambda>r. rm_id r = rm_id m) (\<lambda>r. r\<lparr>rm_next_charge_on := x\<rparr>) ms
    = row_put rm_id (m\<lparr>rm_next_charge_on := x\<rparr>) ms"
  using edit_as_put [OF assms, of "\<lambda>r. r\<lparr>rm_next_charge_on := x\<rparr>"] by simp

lemma pending_none_beside_active:
  assumes "held_ok (mandates d)" and "m \<in> set (mandates d)" and "slot m = (k, False)"
    and "rm_status m = MandateActive" and "p_user p = k" and "p_plan p \<noteq> None"
  shows "pending_mandate_for d p = None"
proof -
  have "find (\<lambda>m. rm_user m = p_user p \<and> rm_status m = MandatePending
      \<and> (rm_plan m = None) = (p_plan p = None)) (mandates d) = None"
  proof (unfold find_None_iff, rule notI, elim exE conjE)
    fix x assume x: "x \<in> set (mandates d)" "rm_user x = p_user p" "rm_status x = MandatePending"
      "(rm_plan x = None) = (p_plan p = None)"
    then have "slot x = slot m" using assms(3,5,6) by (auto simp: slot_def)
    then have "x = m" using x(1) assms(1,2) by (auto simp: held_ok_def distinct_map inj_on_def)
    with x(3) assms(4) show False by simp
  qed
  then show ?thesis by (simp add: pending_mandate_for_def)
qed

lemma find_active_renewal:
  assumes "held_ok (mandates d)" and "m \<in> set (mandates d)" and "slot m = (u_id u, False)"
    and "rm_status m = MandateActive"
  shows "find (\<lambda>m. rm_user m = u_id u \<and> rm_status m = MandateActive \<and> rm_plan m \<noteq> None) (mandates d)
    = Some m"
proof -
  let ?P = "\<lambda>m. rm_user m = u_id u \<and> rm_status m = MandateActive \<and> rm_plan m \<noteq> None"
  have only: "x = m" if "x \<in> set (mandates d)" "?P x" for x
    using that assms by (auto simp: held_ok_def distinct_map inj_on_def slot_def)
  have "?P m" using assms(3,4) by (auto simp: slot_def)
  then obtain y where y: "find ?P (mandates d) = Some y"
    using assms(2) by (cases "find ?P (mandates d)") (auto simp: find_None_iff)
  then have "y \<in> set (mandates d)" "?P y" by (auto simp: find_Some_iff)
  with only y show ?thesis by blast
qed

text \<open>Dues paid by hand move the charge day of a standing renewal on by the length of the plan, so
  the term just bought is not charged for again: the day keeps its place before or after the
  expiry, becomes the new expiry when that place has gone by, and stays when it is later already.\<close>

theorem payment_moves_charge_day:
  assumes "mandates_ok d" and "mandate_held d (u_id u) False = Some m" and "rm_status m = MandateActive"
    and "p_user p = u_id u" and "payment_plan d p = Some pl" and "pl_duration_days pl = Some n"
    and "1 \<le> n" and "u_is_active u" and "bought_term d (p_id p) = None"
    and "term_to_renew d u (local_today cfg d) = Some c" and "m_ends_on c = Some e"
    and "latest_expiry d u = Some e"
  shows "get_mandate (fulfill_payment cfg method_of u p d) (rm_id m)
    = Some (m\<lparr>rm_next_charge_on := (if rm_next_charge_on m \<ge> e + n then rm_next_charge_on m
        else if rm_next_charge_on m + n \<ge> local_today cfg d then rm_next_charge_on m + n
        else e + n)\<rparr>)"
proof -
  define x where "x = rm_next_charge_on m"
  define today where "today = local_today cfg d"
  have today: "today \<le> e" using term_to_renew_Some(3) [OF assms(10)] assms(11) by (simp add: today_def)
  obtain t d1 where a: "activate_term cfg u pl SourcePayment (Some (p_id p)) None None [] d = (t, d1)"
    by (metis surj_pair)
  have none: "Option.bind (Some (p_id p)) (bought_term d) = None" using assms(9) by simp
  note new = activate_new [OF none a]
  have t: "m_user t = u_id u" "m_status t = TermActive" "m_ends_on t = Some (e + n)"
    using today assms(6,8,12) by (simp_all add: new(1) term_start_def term_end_def today_def)
  have d1: "mandates d1 = mandates d" "clock d1 = clock d"
    using activate_term_mandates [of cfg u pl SourcePayment "Some (p_id p)" None None "[]" d] a by simp_all
  have renew: "Option.bind (term_to_renew d1 u (local_today cfg d1)) m_ends_on = Some (e + n)"
    using term_to_renew_extended [OF assms(10,11) new(2) t] assms(7) d1(2) by (simp add: local_today_def)
  have held: "held_ok (mandates d)" using assms(1) by (simp add: mandates_ok_def)
  have in_m: "m \<in> set (mandates d)" "slot m = (u_id u, False)" using mandate_held_Some [OF assms(2)] by simp_all
  have find: "find (\<lambda>m. rm_user m = u_id u \<and> rm_status m = MandateActive \<and> rm_plan m \<noteq> None)
      (mandates d1) = Some m"
    using find_active_renewal [OF held in_m assms(3)] d1(1) by simp
  define d2 where "d2 = snd (roll_charge_date_past cfg u (Some e) d1)"
  define y where "y = (if x \<ge> e + n then x else if x + n \<ge> today then x + n else e + n)"
  have rolled: "rolled_day today (e + n) (Some e) x = (if x \<ge> e + n then None else Some y)"
    using assms(7) by (auto simp: rolled_day_def y_def)
  have d2_m: "mandates d2 = row_put rm_id (m\<lparr>rm_next_charge_on := y\<rparr>) (mandates d)"
  proof (cases "x \<ge> e + n")
    case True
    then have "m\<lparr>rm_next_charge_on := y\<rparr> = m" by (simp add: y_def x_def)
    moreover have "row_put rm_id m (mandates d) = mandates d"
      unfolding row_put_def rows_update_def
      by (intro map_idI) (use same_id_same_row [OF held _ in_m(1)] in auto)
    moreover have "mandates d2 = mandates d"
      using True rolled renew find d1 by (simp add: d2_def roll_charge_date_past_def Let_def x_def
          local_today_def today_def)
    ultimately show ?thesis by simp
  next
    case False
    then have "d2 = edit_mandate (rm_id m) (\<lambda>r. r\<lparr>rm_next_charge_on := y\<rparr>) d1"
      using rolled renew find d1 by (simp add: d2_def roll_charge_date_past_def Let_def x_def
          local_today_def today_def)
    then show ?thesis using edit_held_next [OF held in_m(1)] d1(1) by (simp add: edit_mandate_tables)
  qed
  have q: "quiet m (m\<lparr>rm_next_charge_on := y\<rparr>)" by (simp add: quiet_def slot_def standing_def)
  have held2: "held_ok (mandates d2)"
    unfolding d2_m row_put_def
    by (rule held_ok_update [OF held]) (use q same_id_same_row [OF held _ in_m(1)] in auto)
  have in2: "m\<lparr>rm_next_charge_on := y\<rparr> \<in> set (mandates d2)"
    unfolding d2_m using in_m(1) by (force simp: row_put_def set_rows_update)
  define d3 where "d3 = emit (MembershipPaid (p_id p) (m_id t) (payment_attempts d2 (p_id p) \<noteq> [])) d2"
  have pend: "pending_mandate_for d3 p = None"
  proof (rule pending_none_beside_active)
    show "held_ok (mandates d3)" using held2 by (simp add: d3_def table_simps)
    show "m\<lparr>rm_next_charge_on := y\<rparr> \<in> set (mandates d3)" using in2 by (simp add: d3_def table_simps)
    show "slot (m\<lparr>rm_next_charge_on := y\<rparr>) = (u_id u, False)" using in_m(2) by (simp add: slot_def)
    show "p_plan p \<noteq> None" using assms(5) by (cases "p_plan p") (simp_all add: payment_plan_def)
  qed (use assms(3,4) in simp_all)
  have f: "fulfill_payment cfg method_of u p d = d3"
    using assms(5,10,11) a pend
    by (simp add: fulfill_payment_def Let_def split_beta d3_def d2_def activate_pending_mandate_def)
  have "get_mandate d (rm_id m) = Some m"
    unfolding get_mandate_def using held in_m(1) by (intro row_get_distinct) (simp_all add: held_ok_def)
  then have "get_mandate d3 (rm_id m) = Some (m\<lparr>rm_next_charge_on := y\<rparr>)"
    by (simp add: get_mandate_def d3_def table_simps d2_m)
  with f show ?thesis by (simp add: y_def x_def today_def)
qed

definition standing_renewal :: db where
  \<comment> \<open>the renewing member, charged automatically on the day the term ends\<close>
  "standing_renewal = paying_member\<lparr>mandates := [sample_mandate 5 1 (Some 1) 0 1364]\<rparr>"

theorem payment_moves_charge_day_witness:
  "\<exists>m. get_mandate (fulfill_payment sample_config (\<lambda>_. None) (sample_user 1 Member)
       (sample_payment 7 1 (Some 1) 4500) standing_renewal) 5 = Some m \<and> rm_next_charge_on m = 1729"
proof -
  have ok: "mandates_ok standing_renewal"
    by (simp add: mandates_ok_def held_ok_def one_place_def conflict_def standing_renewal_def
        paying_member_def renewing_member_def sample_defs)
  have facts: "mandate_held standing_renewal (u_id (sample_user 1 Member)) False
      = Some (sample_mandate 5 1 (Some 1) 0 1364)"
    "rm_status (sample_mandate 5 1 (Some 1) 0 1364) = MandateActive"
    "p_user (sample_payment 7 1 (Some 1) 4500) = u_id (sample_user 1 Member)"
    "payment_plan standing_renewal (sample_payment 7 1 (Some 1) 4500)
       = Some (sample_plan 1 ''Annual'' (Some 365))"
    "pl_duration_days (sample_plan 1 ''Annual'' (Some 365)) = Some 365"
    "(1::int) \<le> 365" "u_is_active (sample_user 1 Member)"
    "bought_term standing_renewal (p_id (sample_payment 7 1 (Some 1) 4500)) = None"
    "term_to_renew standing_renewal (sample_user 1 Member)
       (local_today sample_config standing_renewal) = Some (sample_term 1 1 1 1000 (Some 1364))"
    "m_ends_on (sample_term 1 1 1 1000 (Some 1364)) = Some 1364"
    "latest_expiry standing_renewal (sample_user 1 Member) = Some 1364"
    by code_simp+
  from payment_moves_charge_day [OF ok facts, of "\<lambda>_. None"] show ?thesis
    by (simp add: sample_mandate_def local_today_def standing_renewal_def paying_member_def
        renewing_member_def sample_config_def)
qed

end
