(* ===== verification/Refunds.thy ===== *)
theory Refunds
  imports Payments
begin

text \<open>
  Giving money back (\<open>payments/refunds.py\<close>).  \<open>issue_refund\<close> runs two transactions with a call to the
  provider between them, so it is modelled as \<open>begin_refund\<close>, the provider's answer (an argument),
  and \<open>finish_refund\<close> or \<open>fail_refund\<close>; another request or a provider's notification may run between
  the two, which the step relation below allows.
\<close>

subsection \<open>What is left to give back\<close>

definition remaining_cents :: "db \<Rightarrow> payment \<Rightarrow> int" where
  "remaining_cents d p = p_amount_cents p - refunded_cents d (p_id p)"

definition claimed_cents :: "db \<Rightarrow> pk \<Rightarrow> int" where
  "claimed_cents d k = sum_list (map rf_amount_cents
     (filter (\<lambda>r. rf_payment r = k \<and> rf_status r \<noteq> RefundFailed) (refunds d)))"

definition apply_refund_totals :: "payment \<Rightarrow> db \<Rightarrow> payment \<times> db" where
  "apply_refund_totals p d =
     (if p_status p \<in> {Pending, Failed} then (p, d)
      else let refunded = refunded_cents d (p_id p);
               status = (if refunded \<ge> p_amount_cents p then Refunded
                         else if refunded > 0 then PartiallyRefunded else Succeeded)
           in (p\<lparr>p_status := status\<rparr>, edit_payment (p_id p) (\<lambda>r. r\<lparr>p_status := status\<rparr>) d))"

subsection \<open>A refund CalDART issues\<close>

definition begin_refund :: "pk \<Rightarrow> int \<Rightarrow> refund_reason \<Rightarrow> string \<Rightarrow> pk option \<Rightarrow> db
    \<Rightarrow> (error + payment \<times> refund) \<times> db" where
  "begin_refund k amount reason note actor d =
     (case get_payment d k of
        None \<Rightarrow> (Inl DoesNotExist, d)
      | Some locked \<Rightarrow>
          if p_status locked \<notin> set settled_statuses
          then (Inl (DomainValidationError ''amount_cents''
                  ''That payment was never paid, so there isn't anything to refund.''), d)
          else if amount \<le> 0
          then (Inl (DomainValidationError ''amount_cents'' ''A refund must be for more than zero.''), d)
          else if amount > p_amount_cents locked - claimed_cents d k
          then (Inl (DomainValidationError ''amount_cents'' 
                  (''Only '' @ money_label (p_amount_cents locked - claimed_cents d k)
                   @ '' of this payment is left to refund.'')), d)
          else (case fresh_pk d of (rk, d) \<Rightarrow>
            (let r = \<lparr>rf_id = rk, rf_payment = k, rf_amount_cents = amount, rf_reason = reason,
                   rf_note = note, rf_status = RefundPending, rf_provider_ref = [],
                   rf_requested_by = actor, rf_refunded_at = None, rf_raw = []\<rparr>
             in (Inr (locked, r), d\<lparr>refunds := refunds d @ [r]\<rparr>))))"

definition fail_refund :: "refund \<Rightarrow> json_object \<Rightarrow> db \<Rightarrow> db" where
  "fail_refund r raw = edit_refund (rf_id r) (\<lambda>x. x\<lparr>rf_status := RefundFailed, rf_raw := raw\<rparr>)"

definition check_dashboard_message :: string where
  "check_dashboard_message = ''Check the provider's dashboard before trying again: if the refund went through, the provider's notification records it.''"

definition error_text :: "error \<Rightarrow> string" where
  "error_text e = (case e of ProviderFailure s \<Rightarrow> s | ProviderUnavailable s \<Rightarrow> s | _ \<Rightarrow> [])"

type_synonym refund_answer = "error + string \<times> json_object"

definition ask_the_provider :: "(payment \<Rightarrow> refund \<Rightarrow> refund_answer) \<Rightarrow> payment \<Rightarrow> refund \<Rightarrow> db
    \<Rightarrow> refund_answer \<times> db" where
  "ask_the_provider ask p r d =
     (if p_provider p = Manual
      then (Inr ([], [(''provider'', JStr (provider_slug Manual))]), d)
      else let d = call_provider (RefundCall (rf_id r)) d
           in case ask p r of
                Inr answer \<Rightarrow> (Inr answer, d)
              | Inl e \<Rightarrow>
                  let d = fail_refund r [(''error'', JStr (error_text e))] d
                  in (Inl (case e of
                        ProviderUnavailable s \<Rightarrow> ProviderUnavailable (s @ '' '' @ check_dashboard_message)
                      | _ \<Rightarrow> e), d))"

definition canceled_term :: "refund \<Rightarrow> pk option \<Rightarrow> db \<Rightarrow> membership option \<times> db" where
  "canceled_term r actor d =
     (case bought_term d (rf_payment r) of
        None \<Rightarrow> (None, d)
      | Some t \<Rightarrow> (let (t, d) = cancel_term t actor (''Canceled by refund '' @ digits (int (rf_id r))) d in (Some t, d)))"

definition refund_reason_slug :: "refund_reason \<Rightarrow> string" where
  "refund_reason_slug r = (case r of RequestedByMember \<Rightarrow> ''requested_by_member''
     | Duplicate \<Rightarrow> ''duplicate'' | ChargedInError \<Rightarrow> ''error'' | Fraudulent \<Rightarrow> ''fraudulent''
     | OtherReason \<Rightarrow> ''other'')"

definition audit_refund :: "actor \<Rightarrow> payment \<Rightarrow> refund \<Rightarrow> bool \<Rightarrow> db \<Rightarrow> db" where
  "audit_refund who p r term_canceled = audit_record ''payment.refund'' who (Some (p_id p))
     [(''refund'', AInt (int (rf_id r))), (''amount_cents'', AInt (rf_amount_cents r)),
      (''reason'', ASlug (refund_reason_slug (rf_reason r))), (''term_canceled'', ABool term_canceled)]"

definition send_refund_email :: "config \<Rightarrow> refund \<Rightarrow> payment \<Rightarrow> bool \<Rightarrow> db \<Rightarrow> db" where
  "send_refund_email cfg r p term_canceled d =
     (case get_user d (p_user p) of
        None \<Rightarrow> d
      | Some u \<Rightarrow> if u_email u = [] then d else snd (send_mail cfg (RefundMail (rf_id r) term_canceled) d))"

definition settle_refund :: "payment \<Rightarrow> refund \<Rightarrow> string \<times> json_object \<Rightarrow> pk option \<Rightarrow> bool
    \<Rightarrow> db \<Rightarrow> (refund \<times> bool) \<times> db" where
  \<comment> \<open>the second transaction\<close>
  "settle_refund locked r answer actor cancel d =
     (let r = r\<lparr>rf_provider_ref := fst answer, rf_raw := snd answer, rf_status := RefundSucceeded,
                rf_refunded_at := Some (clock d)\<rparr>;
          d = edit_refund (rf_id r) (\<lambda>x. x\<lparr>rf_provider_ref := rf_provider_ref r, rf_raw := rf_raw r,
                rf_status := RefundSucceeded, rf_refunded_at := rf_refunded_at r\<rparr>) d;
          (locked, d) = apply_refund_totals locked d;
          (t, d) = (if cancel then canceled_term r actor d else (None, d));
          d = emit (PaymentRefunded (p_id locked) (rf_amount_cents r) actor (t \<noteq> None)) d
      in ((r, t \<noteq> None), d))"

definition finish_refund :: "config \<Rightarrow> payment \<Rightarrow> refund \<Rightarrow> string \<times> json_object \<Rightarrow> pk option \<Rightarrow> bool
    \<Rightarrow> db \<Rightarrow> refund \<times> db" where
  "finish_refund cfg locked r answer actor cancel d =
     (let ((r, term_canceled), d) = settle_refund locked r answer actor cancel d;
          d = audit_refund (case actor of Some a \<Rightarrow> Account a | None \<Rightarrow> Command) locked r term_canceled d;
          d = send_refund_email cfg r locked term_canceled d
      in (r, d))"

definition issue_refund :: "config \<Rightarrow> (payment \<Rightarrow> refund \<Rightarrow> refund_answer) \<Rightarrow> pk \<Rightarrow> int \<Rightarrow> refund_reason
    \<Rightarrow> string \<Rightarrow> pk option \<Rightarrow> bool \<Rightarrow> db \<Rightarrow> (error + refund) \<times> db" where
  "issue_refund cfg ask k amount reason note actor cancel d =
     (case begin_refund k amount reason note actor d of
        (Inl e, d) \<Rightarrow> (Inl e, d)
      | (Inr (locked, r), d) \<Rightarrow>
          (case ask_the_provider ask locked r d of
             (Inl e, d) \<Rightarrow> (Inl e, d)
           | (Inr answer, d) \<Rightarrow>
               (let (r, d) = finish_refund cfg locked r answer actor cancel d
                in (Inr r, d))))"

subsection \<open>A refund taken in the provider's dashboard\<close>

definition dashboard_note :: string where
  "dashboard_note = ''Issued in the provider's dashboard''"

definition record_dashboard_refund :: "config \<Rightarrow> pk \<Rightarrow> int \<Rightarrow> string \<Rightarrow> json_object \<Rightarrow> db
    \<Rightarrow> (error + refund option) \<times> db" where
  "record_dashboard_refund cfg k amount ref raw d =
     (if ref = [] then (Inr None, d)
      else if amount \<le> 0 then (Inr None, d)
      else case get_payment d k of
        None \<Rightarrow> (Inl DoesNotExist, d)
      | Some locked \<Rightarrow>
          if p_status locked \<notin> set settled_statuses then (Inr None, d)
          else if list_ex (\<lambda>r. rf_payment r = k \<and> rf_provider_ref r = ref) (refunds d)
          then (Inr None, d)
          else (let (rk, d) = fresh_pk d;
                    r = \<lparr>rf_id = rk, rf_payment = k, rf_amount_cents = amount, rf_reason = OtherReason,
                      rf_note = dashboard_note, rf_status = RefundSucceeded, rf_provider_ref = ref,
                      rf_requested_by = None, rf_refunded_at = Some (clock d), rf_raw = raw\<rparr>;
                    d = d\<lparr>refunds := refunds d @ [r]\<rparr>;
                    (locked, d) = apply_refund_totals locked d;
                    d = emit (PaymentRefunded k amount None False) d;
                    d = audit_refund Command locked r False d;
                    d = send_refund_email cfg r locked False d
                in (Inr (Some r), d)))"

subsection \<open>Refunds CalDART issues never exceed the payment\<close>

definition pending_row :: "db \<Rightarrow> refund \<Rightarrow> bool" where
  \<comment> \<open>the row of a refund in flight is still pending\<close>
  "pending_row d r \<longleftrightarrow> list_all (\<lambda>x. rf_id x = rf_id r \<longrightarrow> rf_status x = RefundPending) (refunds d)"

text \<open>
  The steps requests may take in any order: any number of refunds begun, each settled or failed
  later on whatever copy of the payment it locked then, and anything that leaves refunds alone.
\<close>

inductive refund_step :: "config \<Rightarrow> db \<Rightarrow> db \<Rightarrow> bool" for cfg where
  Begin: "begin_refund k amount reason note actor d = (r, d') \<Longrightarrow> refund_step cfg d d'"
| Finish: "pending_row d r \<Longrightarrow> finish_refund cfg locked r answer actor cancel d = (r', d')
    \<Longrightarrow> refund_step cfg d d'"
| Fail: "pending_row d r \<Longrightarrow> refund_step cfg d (fail_refund r raw d)"
| Elsewhere: "refunds d' = refunds d
    \<Longrightarrow> (\<And>k p. get_payment d' k = Some p
         \<Longrightarrow> (\<exists>q. get_payment d k = Some q \<and> p_amount_cents q = p_amount_cents p) \<or> (\<forall>r \<in> set (refunds d). rf_payment r \<noteq> k) \<and> 0 \<le> p_amount_cents p)
    \<Longrightarrow> refund_step cfg d d'"

inductive refund_steps :: "config \<Rightarrow> db \<Rightarrow> db \<Rightarrow> bool" for cfg where
  Stay: "refund_steps cfg d d"
| Go: "refund_step cfg d d' \<Longrightarrow> refund_steps cfg d' d'' \<Longrightarrow> refund_steps cfg d d''"

definition claims_ok :: "db \<Rightarrow> bool" where
  "claims_ok d \<longleftrightarrow> (\<forall>r \<in> set (refunds d). 0 \<le> rf_amount_cents r)
     \<and> (\<forall>k p. get_payment d k = Some p \<longrightarrow> claimed_cents d k \<le> p_amount_cents p)"

lemma refunded_le_claimed: "\<forall>r \<in> set (refunds d). 0 \<le> rf_amount_cents r \<Longrightarrow> refunded_cents d k \<le> claimed_cents d k"
proof -
  have "sum_list (map rf_amount_cents (filter (\<lambda>r. rf_payment r = k \<and> rf_status r = RefundSucceeded) rs))
      \<le> sum_list (map rf_amount_cents (filter (\<lambda>r. rf_payment r = k \<and> rf_status r \<noteq> RefundFailed) rs))"
    if "\<forall>r \<in> set rs. 0 \<le> rf_amount_cents r" for rs :: "refund list"
    using that by (induction rs) auto
  then show "\<forall>r \<in> set (refunds d). 0 \<le> rf_amount_cents r \<Longrightarrow> refunded_cents d k \<le> claimed_cents d k"
    by (simp add: refunded_cents_def claimed_cents_def)
qed

lemma claimed_cong: "refunds d' = refunds d \<Longrightarrow> claimed_cents d' k = claimed_cents d k"
  by (simp add: claimed_cents_def)

lemma claimed_append:
  "refunds d' = refunds d @ [r] \<Longrightarrow> claimed_cents d' k
    = claimed_cents d k + (if rf_payment r = k \<and> rf_status r \<noteq> RefundFailed then rf_amount_cents r else 0)"
  by (simp add: claimed_cents_def)

lemma claimed_edit:
  assumes "pending_row d r" and "\<And>x. rf_id (f x) = rf_id x \<and> rf_payment (f x) = rf_payment x
     \<and> rf_amount_cents (f x) = rf_amount_cents x"
    and "\<forall>x \<in> set (refunds d). 0 \<le> rf_amount_cents x"
  shows "claimed_cents (edit_refund (rf_id r) f d) k \<le> claimed_cents d k"
proof -
  have "sum_list (map rf_amount_cents (filter (\<lambda>r. rf_payment r = k \<and> rf_status r \<noteq> RefundFailed)
        (rows_update (\<lambda>x. rf_id x = rf_id r) f rs)))
      \<le> sum_list (map rf_amount_cents (filter (\<lambda>r. rf_payment r = k \<and> rf_status r \<noteq> RefundFailed) rs))"
    if "list_all (\<lambda>x. rf_id x = rf_id r \<longrightarrow> rf_status x = RefundPending) rs"
      "\<forall>x \<in> set rs. 0 \<le> rf_amount_cents x" for rs
    using that by (induction rs) (use assms(2) in \<open>auto\<close>)
  with assms(1,3) show ?thesis by (simp add: claimed_cents_def edit_refund_def pending_row_def)
qed

lemma apply_refund_totals_tables:
  "refunds (snd (apply_refund_totals p d)) = refunds d"
  "terms (snd (apply_refund_totals p d)) = terms d"
  "events (snd (apply_refund_totals p d)) = events d"
  by (simp_all add: apply_refund_totals_def Let_def edit_payment_def)

lemma apply_refund_totals_amount:
  "get_payment (snd (apply_refund_totals q d)) k = Some p
    \<Longrightarrow> \<exists>p0. get_payment d k = Some p0 \<and> p_amount_cents p0 = p_amount_cents p"
  by (auto simp: apply_refund_totals_def Let_def payment_edit.get_edit split: if_splits)

lemma cancel_term_tables:
  "refunds (snd (cancel_term t a n d)) = refunds d" "payments (snd (cancel_term t a n d)) = payments d"
  "events (snd (cancel_term t a n d)) = events d"
  by (simp_all add: cancel_term_def Let_def edit_term_def audit_record_def)

lemma canceled_term_tables:
  "refunds (snd (canceled_term r a d)) = refunds d" "payments (snd (canceled_term r a d)) = payments d"
  "events (snd (canceled_term r a d)) = events d"
  by (auto simp: canceled_term_def split_beta Let_def cancel_term_tables split: option.splits)

lemma send_refund_email_tables:
  "refunds (send_refund_email cfg r p b d) = refunds d"
  "payments (send_refund_email cfg r p b d) = payments d"
  "terms (send_refund_email cfg r p b d) = terms d"
  by (auto simp: send_refund_email_def send_mail_def Let_def split: option.splits)

lemma finish_refund_tables:
  fixes r answer cfg locked actor cancel d
  defines "d1 \<equiv> edit_refund (rf_id r) (\<lambda>x. x\<lparr>rf_provider_ref := fst answer, rf_raw := snd answer,
      rf_status := RefundSucceeded, rf_refunded_at := Some (clock d)\<rparr>) d"
  shows "refunds (snd (finish_refund cfg locked r answer actor cancel d)) = refunds d1"
    and "payments (snd (finish_refund cfg locked r answer actor cancel d))
      = payments (snd (apply_refund_totals locked d1))"
  by (auto simp: finish_refund_def settle_refund_def d1_def split_beta Let_def audit_refund_def
      audit_record_def emit_def send_refund_email_tables canceled_term_tables
      apply_refund_totals_tables)

lemma claims_ok_le:
  assumes "claims_ok d" and "\<And>k. claimed_cents d' k \<le> claimed_cents d k"
    and "\<And>k p. get_payment d' k = Some p
      \<Longrightarrow> \<exists>q. get_payment d k = Some q \<and> p_amount_cents q = p_amount_cents p"
    and "\<forall>r \<in> set (refunds d'). 0 \<le> rf_amount_cents r"
  shows "claims_ok d'"
proof -
  have "claimed_cents d' k \<le> p_amount_cents p" if p: "get_payment d' k = Some p" for k p
  proof -
    obtain q where "get_payment d k = Some q" "p_amount_cents q = p_amount_cents p"
      using assms(3) [OF p] by blast
    with assms(1) assms(2) [of k] show ?thesis by (simp add: claims_ok_def) (metis order_trans)
  qed
  with assms(4) show ?thesis by (simp add: claims_ok_def)
qed

lemma claims_ok_step:
  assumes "refund_step cfg d d'" and "claims_ok d"
  shows "claims_ok d'"
  using assms
proof (cases rule: refund_step.cases)
  case (Begin k amount reason memo actor r)
  show ?thesis
  proof (cases r)
    case (Inl e)
    with Begin assms(2) show ?thesis
      by (auto simp: begin_refund_def Let_def fresh_pk_def split: option.splits if_splits)
  next
    case (Inr lr)
    obtain p row where p: "get_payment d k = Some p" "0 < amount" "amount \<le> p_amount_cents p - claimed_cents d k"
      and d': "refunds d' = refunds d @ [row]" "rf_payment row = k" "rf_amount_cents row = amount"
        "payments d' = payments d"
      using Begin Inr
      by (auto simp: begin_refund_def Let_def fresh_pk_def split: option.splits if_splits)
    have "get_payment d' j = get_payment d j" for j using d'(4) by (simp add: get_payment_def)
    with assms(2) p d' show ?thesis by (auto simp: claims_ok_def claimed_append)
  qed
next
  case (Finish r locked answer actor cancel r')
  define f where "f = (\<lambda>x :: refund. x\<lparr>rf_provider_ref := fst answer, rf_raw := snd answer,
      rf_status := RefundSucceeded, rf_refunded_at := Some (clock d)\<rparr>)"
  let ?d1 = "edit_refund (rf_id r) f d"
  have t: "refunds d' = refunds ?d1" "payments d' = payments (snd (apply_refund_totals locked ?d1))"
    using finish_refund_tables [of cfg locked r answer actor cancel d] Finish(2) by (simp_all add: f_def)
  have nonneg: "\<forall>x \<in> set (refunds d). 0 \<le> rf_amount_cents x" using assms(2) by (simp add: claims_ok_def)
  have "claimed_cents d' k \<le> claimed_cents d k" for k
    using claimed_edit [OF Finish(1) _ nonneg, of f k] claimed_cong [OF t(1)] by (simp add: f_def)
  moreover have "\<exists>q. get_payment d k = Some q \<and> p_amount_cents q = p_amount_cents p"
    if "get_payment d' k = Some p" for k p
    using apply_refund_totals_amount [of locked ?d1 k p] that t(2)
    by (simp add: get_payment_def edit_refund_def)
  moreover have "\<forall>x \<in> set (refunds d'). 0 \<le> rf_amount_cents x"
    using nonneg by (auto simp: t(1) edit_refund_def set_rows_update f_def)
  ultimately show ?thesis by (rule claims_ok_le [OF assms(2)])
next
  case (Fail r raw)
  have nonneg: "\<forall>x \<in> set (refunds d). 0 \<le> rf_amount_cents x" using assms(2) by (simp add: claims_ok_def)
  have "claimed_cents d' k \<le> claimed_cents d k" for k
    using claimed_edit [OF Fail(2) _ nonneg, of "\<lambda>x. x\<lparr>rf_status := RefundFailed, rf_raw := raw\<rparr>" k]
    by (simp add: Fail(1) fail_refund_def)
  moreover have "get_payment d' k = get_payment d k" for k
    by (simp add: Fail(1) fail_refund_def get_payment_def edit_refund_def)
  moreover have "\<forall>x \<in> set (refunds d'). 0 \<le> rf_amount_cents x"
    using nonneg by (auto simp: Fail(1) fail_refund_def edit_refund_def set_rows_update)
  ultimately show ?thesis by (intro claims_ok_le [OF assms(2)]) auto
next
  case Elsewhere
  have "claimed_cents d' k \<le> p_amount_cents p" if p: "get_payment d' k = Some p" for k p
  proof -
    have "claimed_cents d k = 0" if "\<forall>r \<in> set (refunds d). rf_payment r \<noteq> k"
      using that by (simp add: claimed_cents_def filter_empty_conv [THEN iffD2])
    moreover have "claimed_cents d k \<le> p_amount_cents p"
      if "get_payment d k = Some q" "p_amount_cents q = p_amount_cents p" for q
      using assms(2) that by (metis claims_ok_def)
    ultimately show ?thesis using Elsewhere(2) [OF p] claimed_cong [OF Elsewhere(1), of k] by metis
  qed
  with assms(2) Elsewhere(1) show ?thesis by (simp add: claims_ok_def)
qed


subsection \<open>What a refund leaves behind\<close>

definition fresh_refunds :: "db \<Rightarrow> bool" where
  \<comment> \<open>the table hands out keys that are not in use, and no refund is negative\<close>
  "fresh_refunds d \<longleftrightarrow> list_all (\<lambda>r. rf_id r < next_pk d \<and> 0 \<le> rf_amount_cents r) (refunds d)"

lemma rows_update_new:
  "list_all (\<lambda>r. rf_id r < n \<and> 0 \<le> rf_amount_cents r) rs
    \<Longrightarrow> rows_update (\<lambda>x. rf_id x = n) f rs = rs"
  by (rule rows_update_none) (auto simp: list_all_iff)

lemma begin_refund_InrD:
  assumes "begin_refund k amount reason note actor d = (Inr (p, r), d1)"
  shows "get_payment d k = Some p" and "p_status p \<in> set settled_statuses" and "0 < amount"
    and "amount \<le> p_amount_cents p - claimed_cents d k"
    and "rf_id r = next_pk d" and "rf_payment r = k" and "rf_amount_cents r = amount"
    and "rf_status r = RefundPending"
    and "d1 = d\<lparr>next_pk := Suc (next_pk d), refunds := refunds d @ [r]\<rparr>"
  using assms by (auto simp: begin_refund_def Let_def fresh_pk_def split: option.splits if_splits)

lemma begin_refund_InlD: "begin_refund k amount reason note actor d = (Inl e, d1) \<Longrightarrow> d1 = d"
  by (auto simp: begin_refund_def Let_def fresh_pk_def split: option.splits if_splits)

lemma failed_refund_frees:
  assumes "fresh_refunds d" and "rf_id r = next_pk d"
    and "refunds d1 = refunds d @ [r]"
  shows "claimed_cents (fail_refund r raw d1) j = claimed_cents d j"
    and "refunded_cents (fail_refund r raw d1) j = refunded_cents d j"
proof -
  have "refunds (fail_refund r raw d1) = refunds d @ [r\<lparr>rf_status := RefundFailed, rf_raw := raw\<rparr>]"
    using assms rows_update_new [of "next_pk d" "refunds d"]
    by (simp add: fail_refund_def edit_refund_def fresh_refunds_def)
  then show "claimed_cents (fail_refund r raw d1) j = claimed_cents d j"
    and "refunded_cents (fail_refund r raw d1) j = refunded_cents d j"
    by (simp_all add: claimed_cents_def refunded_cents_def)
qed

text \<open>A refund that is refused, or that the provider does not grant, leaves the payment, its term,
  the events and the mail as they were, and claims nothing of the payment for good.\<close>

theorem failed_refund_leaves_payment:
  assumes "issue_refund cfg ask k amount reason note actor cancel d = (Inl e, d')"
    and "fresh_refunds d"
  shows "payments d' = payments d \<and> terms d' = terms d \<and> events d' = events d \<and> outbox d' = outbox d
    \<and> claimed_cents d' j = claimed_cents d j \<and> refunded_cents d' j = refunded_cents d j"
proof (cases "fst (begin_refund k amount reason note actor d)")
  case (Inl e0)
  then have "d' = d" using assms(1)
    by (auto simp: issue_refund_def dest: begin_refund_InlD split: prod.splits sum.splits)
  then show ?thesis by simp
next
  case (Inr pr)
  obtain p r d1 where b: "begin_refund k amount reason note actor d = (Inr (p, r), d1)"
    using Inr by (cases pr, cases "begin_refund k amount reason note actor d") auto
  note facts = begin_refund_InrD [OF b]
  obtain raw where d': "d' = fail_refund r raw (call_provider (RefundCall (rf_id r)) d1)"
    using assms(1) b
    by (auto simp: issue_refund_def ask_the_provider_def Let_def split: prod.splits sum.splits if_splits)
  have "refunds (call_provider (RefundCall (rf_id r)) d1) = refunds d @ [r]"
    by (simp add: facts(9) call_provider_def)
  from failed_refund_frees [OF assms(2) facts(5) this] show ?thesis
    by (simp add: d' facts(9) fail_refund_def edit_refund_def call_provider_def)
qed

lemma refunded_append:
  "refunds d' = refunds d @ [r] \<Longrightarrow> rf_status r = RefundSucceeded
    \<Longrightarrow> refunded_cents d' k = refunded_cents d k + (if rf_payment r = k then rf_amount_cents r else 0)"
  by (simp add: refunded_cents_def)

lemma refunded_nonneg: "fresh_refunds d \<Longrightarrow> 0 \<le> refunded_cents d k"
  unfolding refunded_cents_def fresh_refunds_def by (rule sum_list_nonneg) (auto simp: list_all_iff)

lemma apply_refund_totals_status:
  assumes "get_payment d (p_id p) = Some q" and "p_status p \<in> set settled_statuses"
    and "0 < refunded_cents d (p_id p)"
  shows "get_payment (snd (apply_refund_totals p d)) (p_id p) = Some (q\<lparr>p_status :=
    (if refunded_cents d (p_id p) \<ge> p_amount_cents p then Refunded else PartiallyRefunded)\<rparr>)"
  using assms by (auto simp: apply_refund_totals_def Let_def payment_edit.get_edit settled_statuses_def)

lemma canceled_term_terms:
  "terms (snd (canceled_term r actor d)) = (case bought_term d (rf_payment r) of
        Some t \<Rightarrow> terms (snd (cancel_term t actor (''Canceled by refund '' @ digits (int (rf_id r))) d))
      | None \<Rightarrow> terms d)"
  by (simp add: canceled_term_def split_beta Let_def split: option.splits)

lemma cancel_term_cong:
  "terms d' = terms d \<Longrightarrow> terms (snd (cancel_term t actor n d')) = terms (snd (cancel_term t actor n d))"
  by (simp add: cancel_term_def Let_def edit_term_def audit_record_def)

lemma bought_term_cong: "terms d' = terms d \<Longrightarrow> bought_term d' k = bought_term d k"
  by (simp add: bought_term_def)

lemma settle_refund_terms:
  "terms (snd (settle_refund p r answer actor True d)) = (case bought_term d (rf_payment r) of
        Some t \<Rightarrow> terms (snd (cancel_term t actor (''Canceled by refund '' @ digits (int (rf_id r))) d))
      | None \<Rightarrow> terms d)"
  "terms (snd (settle_refund p r answer actor False d)) = terms d"
proof -
  define r1 where "r1 = r\<lparr>rf_provider_ref := fst answer, rf_raw := snd answer,
      rf_status := RefundSucceeded, rf_refunded_at := Some (clock d)\<rparr>"
  define d1 where "d1 = snd (apply_refund_totals p (edit_refund (rf_id r1) (\<lambda>x. x\<lparr>rf_provider_ref := rf_provider_ref r1,
      rf_raw := rf_raw r1, rf_status := RefundSucceeded, rf_refunded_at := rf_refunded_at r1\<rparr>) d))"
  have t: "terms d1 = terms d" by (simp add: d1_def apply_refund_totals_tables edit_refund_def)
  have r: "rf_payment r1 = rf_payment r" "rf_id r1 = rf_id r" by (simp_all add: r1_def)
  have "terms (snd (settle_refund p r answer actor True d)) = terms (snd (canceled_term r1 actor d1))"
    by (simp add: settle_refund_def split_beta Let_def emit_def r1_def d1_def)
  also have "\<dots> = (case bought_term d (rf_payment r) of
        Some t \<Rightarrow> terms (snd (cancel_term t actor (''Canceled by refund '' @ digits (int (rf_id r))) d))
      | None \<Rightarrow> terms d)"
    unfolding canceled_term_terms r bought_term_cong [OF t]
    by (simp add: t cancel_term_cong [OF t] split: option.splits)
  finally show "terms (snd (settle_refund p r answer actor True d)) = (case bought_term d (rf_payment r) of
        Some t \<Rightarrow> terms (snd (cancel_term t actor (''Canceled by refund '' @ digits (int (rf_id r))) d))
      | None \<Rightarrow> terms d)" .
  show "terms (snd (settle_refund p r answer actor False d)) = terms d"
    using t by (simp add: settle_refund_def split_beta Let_def emit_def r1_def d1_def)
qed

lemma finish_refund_terms:
  "terms (snd (finish_refund cfg p r answer actor cancel d)) = terms (snd (settle_refund p r answer actor cancel d))"
  by (simp add: finish_refund_def split_beta Let_def audit_refund_def audit_record_def send_refund_email_tables)

text \<open>C40: a refund that goes through is paid for by the payment: what was given back grows by exactly
  the amount asked for and never beyond the payment, the payment is refunded or partly refunded as
  the totals say, and the term it bought ends only when that was asked for.\<close>

theorem refund_settles_payment:
  assumes "issue_refund cfg ask k amount reason note actor cancel d = (Inr r, d')"
    and "fresh_refunds d"
  shows "refunded_cents d' k = refunded_cents d k + amount
    \<and> (\<exists>p. get_payment d k = Some p \<and> refunded_cents d' k \<le> p_amount_cents p
        \<and> get_payment d' k = Some (p\<lparr>p_status :=
            (if refunded_cents d' k = p_amount_cents p then Refunded else PartiallyRefunded)\<rparr>))
    \<and> terms d' = (case bought_term d k of
        Some t \<Rightarrow> if cancel then terms (snd (cancel_term t actor (''Canceled by refund '' @ digits (int (rf_id r))) d))
                  else terms d
      | None \<Rightarrow> terms d)"
proof -
  obtain p r1 d1 where b: "begin_refund k amount reason note actor d = (Inr (p, r1), d1)"
    using assms(1) by (auto simp: issue_refund_def split: prod.splits sum.splits)
  note b_facts = begin_refund_InrD [OF b]
  obtain answer d2 where a: "ask_the_provider ask p r1 d1 = (Inr answer, d2)"
    and f: "finish_refund cfg p r1 answer actor cancel d2 = (r, d')"
    using assms(1) b by (auto simp: issue_refund_def Let_def split: prod.splits sum.splits)
  have d2: "refunds d2 = refunds d @ [r1]" "payments d2 = payments d" "terms d2 = terms d"
    using a b_facts(9) by (auto simp: ask_the_provider_def call_provider_def Let_def split: if_splits sum.splits)
  have id: "p_id p = k" using b_facts(1) by (rule get_payment_id)
  define g where "g = (\<lambda>x :: refund. x\<lparr>rf_provider_ref := fst answer, rf_raw := snd answer,
      rf_status := RefundSucceeded, rf_refunded_at := Some (clock d2)\<rparr>)"
  let ?d3 = "edit_refund (rf_id r1) g d2"
  have d3: "refunds ?d3 = refunds d @ [g r1]"
    using assms(2) rows_update_new [of "next_pk d" "refunds d"] b_facts(5) d2(1)
    by (simp add: edit_refund_def fresh_refunds_def)
  have tables: "refunds d' = refunds ?d3" "payments d' = payments (snd (apply_refund_totals p ?d3))"
    using finish_refund_tables [of cfg p r1 answer actor cancel d2] f by (simp_all add: g_def)
  have given: "refunded_cents e k = refunded_cents d k + amount" if "refunds e = refunds d @ [g r1]" for e
    using refunded_append [OF that, of k] b_facts(6,7) by (simp add: g_def)
  have now: "refunded_cents d' k = refunded_cents d k + amount" using given tables(1) d3 by simp
  have p: "get_payment ?d3 (p_id p) = Some p"
    using b_facts(1) d2(2) id by (simp add: get_payment_def edit_refund_def)
  have "get_payment (snd (apply_refund_totals p ?d3)) k = Some (p\<lparr>p_status :=
      (if refunded_cents ?d3 k \<ge> p_amount_cents p then Refunded else PartiallyRefunded)\<rparr>)"
    using apply_refund_totals_status [OF p b_facts(2)] given [OF d3] b_facts(3)
      refunded_nonneg [OF assms(2), of k] id by simp
  then have status: "get_payment d' k = Some (p\<lparr>p_status :=
      (if refunded_cents d' k \<ge> p_amount_cents p then Refunded else PartiallyRefunded)\<rparr>)"
    using tables(2) given [OF d3] now by (simp add: get_payment_def)
  have bound: "refunded_cents d' k \<le> p_amount_cents p"
    using now b_facts(4) refunded_le_claimed [of d k] assms(2) by (auto simp: fresh_refunds_def list_all_iff)
  have rid: "rf_id r = rf_id r1"
    using f by (auto simp: finish_refund_def settle_refund_def Let_def split_beta)
  have "terms d' = terms (snd (settle_refund p r1 answer actor cancel d2))"
    using finish_refund_terms [of cfg p r1 answer actor cancel d2] f by simp
  then have "terms d' = (case bought_term d k of
        Some t \<Rightarrow> if cancel then terms (snd (cancel_term t actor (''Canceled by refund '' @ digits (int (rf_id r))) d))
                  else terms d
      | None \<Rightarrow> terms d)"
    unfolding rid using d2(3) b_facts(6) bought_term_cong [OF d2(3)] cancel_term_cong [OF d2(3)]
    by (cases cancel) (simp_all add: settle_refund_terms split: option.splits)
  with now status bound b_facts(1) show ?thesis by auto
qed

definition refundable :: "provider \<Rightarrow> db" where
  \<comment> \<open>the renewing member, whose payment of 45 dollars has settled\<close>
  "refundable pr = renewing_member\<lparr>payments :=
     [(sample_payment 7 1 (Some 1) 4500)\<lparr>p_provider := pr, p_status := Succeeded\<rparr>]\<rparr>"

definition first_refund :: refund where
  \<comment> \<open>the row of a refund of the whole payment, as \<open>begin_refund\<close> writes it\<close>
  "first_refund = \<lparr>rf_id = 100, rf_payment = 7, rf_amount_cents = 4500, rf_reason = Duplicate,
     rf_note = [], rf_status = RefundPending, rf_provider_ref = [], rf_requested_by = None,
     rf_refunded_at = None, rf_raw = []\<rparr>"

definition paid_payment :: "provider \<Rightarrow> payment" where
  "paid_payment pr = (sample_payment 7 1 (Some 1) 4500)\<lparr>p_provider := pr, p_status := Succeeded\<rparr>"

definition refund_in_flight :: "provider \<Rightarrow> db" where
  "refund_in_flight pr = (refundable pr)\<lparr>refunds := [first_refund], next_pk := 101\<rparr>"

lemma begin_refundable:
  "begin_refund 7 4500 Duplicate [] None (refundable pr)
    = (Inr (paid_payment pr, first_refund), refund_in_flight pr)"
  by (simp add: begin_refund_def refundable_def renewing_member_def sample_defs store_defs
      claimed_cents_def settled_statuses_def fresh_pk_def Let_def first_refund_def paid_payment_def
      refund_in_flight_def)

lemma get_refundable: "get_payment (refundable pr) 7 = Some (paid_payment pr)"
  by (simp add: refundable_def paid_payment_def store_defs sample_payment_def)


text \<open>A provider's own notification may be delivered before the answer to the refund that caused
  it: the refund CalDART issued is filed a second time, as a dashboard refund, because its row does
  not carry the provider's reference yet, and the payment of 45 dollars shows 90 given back.\<close>

theorem notification_before_answer_counts_twice:
  assumes "begin_refund 7 4500 Duplicate [] None (refundable Stripe) = (Inr (locked, r), d1)"
    and "record_dashboard_refund sample_config 7 4500 ''re_1'' [] d1 = (Inr filed, d2)"
    and "finish_refund sample_config locked r (''re_1'', []) None False d2 = (r', d3)"
  shows "filed \<noteq> None \<and> refunded_cents d3 7 = 9000 \<and> remaining_cents d3 locked = -4500"
proof -
  have b: "locked = paid_payment Stripe" "r = first_refund" "d1 = refund_in_flight Stripe"
    using assms(1) begin_refundable [of Stripe] by simp_all
  have "case record_dashboard_refund sample_config 7 4500 ''re_1'' [] (refund_in_flight Stripe) of
      (Inr (Some f), d2) \<Rightarrow>
        (case finish_refund sample_config (paid_payment Stripe) first_refund (''re_1'', []) None False d2 of
           (r', d3) \<Rightarrow> refunded_cents d3 7 = 9000 \<and> remaining_cents d3 (paid_payment Stripe) = -4500)
    | _ \<Rightarrow> False" by code_simp
  with assms(2,3) b show ?thesis by (auto split: prod.splits sum.splits option.splits)
qed

theorem notification_before_answer_counts_twice_witness:
  "\<exists>locked r d1 filed d2 r' d3. begin_refund 7 4500 Duplicate [] None (refundable Stripe) = (Inr (locked, r), d1)
     \<and> record_dashboard_refund sample_config 7 4500 ''re_1'' [] d1 = (Inr filed, d2)
     \<and> finish_refund sample_config locked r (''re_1'', []) None False d2 = (r', d3)
     \<and> refunded_cents d3 7 = 9000"
proof -
  have "case fst (record_dashboard_refund sample_config 7 4500 ''re_1'' [] (refund_in_flight Stripe)) of
      Inr x \<Rightarrow> True | Inl e \<Rightarrow> False" by code_simp
  then obtain filed d2 where f: "record_dashboard_refund sample_config 7 4500 ''re_1'' []
      (refund_in_flight Stripe) = (Inr filed, d2)"
    by (cases "record_dashboard_refund sample_config 7 4500 ''re_1'' [] (refund_in_flight Stripe)")
      (auto split: sum.splits)
  obtain r' d3 where g: "finish_refund sample_config (paid_payment Stripe) first_refund (''re_1'', [])
      None False d2 = (r', d3)" by (metis surj_pair)
  from notification_before_answer_counts_twice [OF begin_refundable f g] begin_refundable f g
  show ?thesis by blast
qed

theorem failed_refund_leaves_payment_witness:
  "\<exists>e d'. issue_refund sample_config (\<lambda>_ _. Inl (ProviderUnavailable ''No answer.'')) 7 4500 Duplicate []
      None True (refundable Stripe) = (Inl e, d') \<and> claimed_cents d' 7 = 0"
proof -
  let ?i = "issue_refund sample_config (\<lambda>_ _. Inl (ProviderUnavailable ''No answer.'')) 7 4500 Duplicate []
      None True (refundable Stripe)"
  have "case fst ?i of Inl e \<Rightarrow> True | Inr r \<Rightarrow> False" by code_simp
  then obtain e d' where i: "?i = (Inl e, d')" by (cases ?i) (auto split: sum.splits)
  have "fresh_refunds (refundable Stripe)" "claimed_cents (refundable Stripe) 7 = 0" by code_simp+
  with failed_refund_leaves_payment [OF i, of 7] i show ?thesis by simp
qed

theorem refund_settles_payment_witness:
  "\<exists>r d'. issue_refund sample_config (\<lambda>_ _. Inr (''re_1'', [])) 7 1500 Duplicate [] None False
      (refundable Stripe) = (Inr r, d') \<and> refunded_cents d' 7 = 1500"
proof -
  let ?i = "issue_refund sample_config (\<lambda>_ _. Inr (''re_1'', [])) 7 1500 Duplicate [] None False
      (refundable Stripe)"
  have "case fst ?i of Inl e \<Rightarrow> False | Inr r \<Rightarrow> True" by code_simp
  then obtain r d' where i: "?i = (Inr r, d')" by (cases ?i) (auto split: sum.splits)
  have "fresh_refunds (refundable Stripe)" "refunded_cents (refundable Stripe) 7 = 0" by code_simp+
  with refund_settles_payment [OF i] i show ?thesis by simp
qed

end
