(* ===== verification/AuditText.thy ===== *)
theory AuditText
  imports Strings Store
begin

text \<open>
  What an audit line may carry (\<open>caldart/audit.py\<close>): the slugs, the reduction of an operator's text
  to one, and the rendering of a field.  Characters are those of one byte; \<open>None\<close> is the
  \<open>TypeError\<close> that keeps everything else out of the log.
\<close>

definition max_slug_length :: nat where
  "max_slug_length = 64"

definition slug_start_char :: "char \<Rightarrow> bool" where
  \<comment> \<open>\<open>[A-Za-z0-9]\<close>\<close>
  "slug_start_char c \<longleftrightarrow> (let n = (of_char c :: nat) in
     48 \<le> n \<and> n \<le> 57 \<or> 65 \<le> n \<and> n \<le> 90 \<or> 97 \<le> n \<and> n \<le> 122)"

definition leading_punctuation :: string where
  "leading_punctuation = ''._-''"

definition slug_char :: "char \<Rightarrow> bool" where
  \<comment> \<open>\<open>[A-Za-z0-9._-]\<close>\<close>
  "slug_char c \<longleftrightarrow> slug_start_char c \<or> c \<in> set leading_punctuation"

definition is_slug :: "string \<Rightarrow> bool" where
  "is_slug s \<longleftrightarrow> length s \<le> max_slug_length
     \<and> (case s of [] \<Rightarrow> False | c # cs \<Rightarrow> slug_start_char c \<and> list_all slug_char cs)"

definition unnamed_slug :: string where
  "unnamed_slug = ''unnamed''"

definition safe_slug :: "string \<Rightarrow> string" where
  "safe_slug s =
     (let cleaned = take max_slug_length (lstrip_where (\<lambda>c. c \<in> set leading_punctuation)
            (map (\<lambda>c. if slug_char c then c else CHR ''_'') s))
      in if cleaned = [] then unnamed_slug else cleaned)"

definition empty_mark :: string where
  "empty_mark = ''-''"

fun joined_with :: "string \<Rightarrow> string list \<Rightarrow> string" where
  \<comment> \<open>\<open>sep.join(parts)\<close>\<close>
  "joined_with sep [] = []"
| "joined_with sep [s] = s"
| "joined_with sep (s # t # ss) = s @ sep @ joined_with sep (t # ss)"

definition signed_digits :: "int \<Rightarrow> string" where
  \<comment> \<open>\<open>str(n)\<close>\<close>
  "signed_digits n = (if n < 0 then CHR ''-'' # digits (- n) else digits n)"

fun rendered :: "audit_value \<Rightarrow> string option" where
  "rendered (ABool b) = Some (if b then ''true'' else ''false'')"
| "rendered (AInt n) = Some (signed_digits n)"
| "rendered (ASlug s) = (if is_slug s then Some s else if s = [] then Some empty_mark else None)"
| "rendered (ASlugs ss) = (if list_all is_slug ss
     then Some (if ss = [] then empty_mark else joined_with '','' ss) else None)"
| "rendered (ADate x) = None"

lemma leading_not_start: "c \<in> set leading_punctuation \<Longrightarrow> \<not> slug_start_char c"
  by (auto simp: leading_punctuation_def slug_start_char_def)

lemma is_slug_Cons: "is_slug (c # cs) \<longleftrightarrow>
    length (c # cs) \<le> max_slug_length \<and> slug_start_char c \<and> list_all slug_char cs"
  by (simp add: is_slug_def)

lemma safe_slug_keeps:
  assumes "is_slug s"
  shows "safe_slug s = s"
proof (cases s)
  case Nil
  with assms show ?thesis by (simp add: is_slug_def)
next
  case (Cons c cs)
  with assms have c: "length s \<le> max_slug_length" "slug_start_char c" "list_all slug_char cs"
    by (simp_all add: is_slug_Cons)
  have "slug_char x" if "x \<in> set s" for x
    using that c Cons by (auto simp: list_all_iff slug_char_def)
  then have "map (\<lambda>c. if slug_char c then c else CHR ''_'') s = s" by (intro map_idI) simp
  moreover have "dropWhile (\<lambda>c. c \<in> set leading_punctuation) s = s"
    using c(2) leading_not_start Cons by auto
  ultimately show ?thesis using c(1) Cons by (simp add: safe_slug_def lstrip_where_def)
qed

lemma is_slug_cut:
  assumes "dropWhile (\<lambda>c. c \<in> set leading_punctuation) cs = x # xs" and "\<forall>c \<in> set cs. slug_char c"
  shows "is_slug (take max_slug_length (x # xs))"
proof -
  have "x \<notin> set leading_punctuation"
    using hd_dropWhile [of "\<lambda>c. c \<in> set leading_punctuation" cs] assms(1) by simp
  moreover have "\<forall>c \<in> set (x # xs). slug_char c"
    using assms(2) set_dropWhileD [of _ "\<lambda>c. c \<in> set leading_punctuation" cs] assms(1) by metis
  ultimately have "slug_start_char x" "\<forall>c \<in> set xs. slug_char c" by (simp_all add: slug_char_def)
  then show ?thesis
    by (auto simp: max_slug_length_def is_slug_def list_all_iff dest: in_set_takeD)
qed

text \<open>Whatever an operator typed, the slug made of it is one an audit line takes, and the texts that
  stay as they were typed are exactly the slugs.\<close>

theorem safe_slug_is_slug: "is_slug (safe_slug s) \<and> (safe_slug s = s \<longleftrightarrow> is_slug s)"
proof -
  have "is_slug (safe_slug s)"
  proof (cases "dropWhile (\<lambda>c. c \<in> set leading_punctuation)
      (map (\<lambda>c. if slug_char c then c else CHR ''_'') s)")
    case Nil
    have "is_slug unnamed_slug" by code_simp
    with Nil show ?thesis by (simp add: safe_slug_def lstrip_where_def)
  next
    case (Cons x xs)
    have "slug_char (CHR ''_'')" by code_simp
    then have "is_slug (take max_slug_length (x # xs))" by (intro is_slug_cut [OF Cons]) auto
    with Cons show ?thesis by (simp add: safe_slug_def lstrip_where_def is_slug_def max_slug_length_def)
  qed
  then show ?thesis using safe_slug_keeps by metis
qed

end
