(* ===== verification/Charge.thy ===== *)
theory Charge
  imports Refunds AuditText
begin

text \<open>
  The charge step of the renewal scan (\<open>payments/renewals/charge.py\<close>): every scheduled attempt that
  is due is claimed, charged, and its outcome recorded.  A scan works on the rows as it loaded
  them (\<open>loaded\<close>) and writes single columns back, so what another request wrote in between is in
  the database and not in the copy; both are kept apart here.

  The payment provider is a \<open>gateway\<close>, whose calls may change the database (a charge that was taken
  marks its payment succeeded) and answer one of the ways the provider interface lists.
\<close>

subsection \<open>What a provider answers\<close>

datatype charge_answer =
    Taken                       \<comment> \<open>the money has arrived, the payment is marked succeeded\<close>
  | NotTaken                    \<comment> \<open>no charge is held (only a lookup answers this)\<close>
  | Declined string             \<comment> \<open>\<open>PaymentDeclinedError\<close> and every other \<open>PaymentError\<close>\<close>
  | StillSettling               \<comment> \<open>\<open>PaymentPendingError\<close>\<close>
  | InDoubt string              \<comment> \<open>\<open>PaymentInDoubtError\<close>\<close>
  | Unanswered string           \<comment> \<open>\<open>PaymentUnansweredError\<close>, an \<open>PaymentInDoubtError\<close>\<close>
  | Unreachable string          \<comment> \<open>\<open>ProviderUnavailableError\<close>\<close>
  | NotSent string              \<comment> \<open>\<open>RequestNotSentError\<close>\<close>
  | NotConfigured string        \<comment> \<open>\<open>ProviderNotConfiguredError\<close>\<close>
  | MockDisabled string         \<comment> \<open>\<open>MockPaymentsDisabledError\<close>\<close>
  | Crashed error               \<comment> \<open>any other exception, which the scan does not catch\<close>

record gateway =
  gw_charge :: "mandate \<Rightarrow> payment \<Rightarrow> db \<Rightarrow> charge_answer \<times> db"
  gw_find :: "mandate \<Rightarrow> payment \<Rightarrow> db \<Rightarrow> charge_answer \<times> db"
  gw_reference :: "payment \<Rightarrow> string \<Rightarrow> db \<Rightarrow> (error + unit) \<times> db"

definition ask_charge :: "gateway \<Rightarrow> mandate \<Rightarrow> payment \<Rightarrow> db \<Rightarrow> charge_answer \<times> db" where
  "ask_charge gw m p d = gw_charge gw m p (call_provider (ChargeCall (p_id p)) d)"

definition ask_find :: "gateway \<Rightarrow> mandate \<Rightarrow> payment \<Rightarrow> db \<Rightarrow> charge_answer \<times> db" where
  "ask_find gw m p d = gw_find gw m p (call_provider (FindCall (p_id p)) d)"

subsection \<open>The rows a scan holds, and its summary\<close>

record loaded =
  \<comment> \<open>an attempt with \<open>select_related("mandate", "mandate__user", "mandate__plan", "membership")\<close>\<close>
  ld_attempt :: attempt
  ld_mandate :: mandate
  ld_user :: user
  ld_plan :: "plan option"
  ld_term :: "membership option"

definition display_name :: "user \<Rightarrow> string" where
  "display_name u = (let full = strip (u_first_name u @ '' '' @ u_last_name u)
     in if full = [] then u_email u else full)"

record run_action =
  ac_kind :: string
  ac_member :: string
  ac_email :: string
  ac_on :: "date option"
  ac_amount_cents :: "int option"
  ac_detail :: string

text \<open>A message put off: what \<open>deliver\<close> closes over.\<close>

datatype delivery =
    DeliverCharged pk mandate user "payment option" "date option"
  | DeliverClosed pk mandate user

record run =
  rr_today :: date
  rr_dry_run :: bool
  rr_noticed :: nat
  rr_warned :: nat
  rr_charged :: nat
  rr_failed :: nat
  rr_paused :: nat
  rr_skipped :: nat
  rr_skipped_by_reason :: "(string \<times> nat) list"
  rr_actions :: "run_action list"
  rr_unanswered :: "provider list"
  rr_defer :: "delivery list option"  \<comment> \<open>\<open>None\<close> sends at once, \<open>Some\<close> holds what was put off\<close>

definition new_run :: "date \<Rightarrow> bool \<Rightarrow> bool \<Rightarrow> run" where
  "new_run today dry defer = \<lparr>rr_today = today, rr_dry_run = dry, rr_noticed = 0, rr_warned = 0,
     rr_charged = 0, rr_failed = 0, rr_paused = 0, rr_skipped = 0, rr_skipped_by_reason = [],
     rr_actions = [], rr_unanswered = [], rr_defer = (if defer then Some [] else None)\<rparr>"

definition record_skipped :: "string \<Rightarrow> run \<Rightarrow> run" where
  "record_skipped reason r = r\<lparr>rr_skipped := rr_skipped r + 1,
     rr_skipped_by_reason := AList.update reason
       ((case map_of (rr_skipped_by_reason r) reason of Some n \<Rightarrow> n | None \<Rightarrow> 0) + 1)
       (rr_skipped_by_reason r)\<rparr>"

definition record_action :: "string \<Rightarrow> user \<Rightarrow> date option \<Rightarrow> int option \<Rightarrow> string \<Rightarrow> run \<Rightarrow> run" where
  "record_action kind u on_day cents detail r = r\<lparr>rr_actions := rr_actions r @
     [\<lparr>ac_kind = kind, ac_member = display_name u, ac_email = u_email u, ac_on = on_day,
       ac_amount_cents = cents, ac_detail = detail\<rparr>]\<rparr>"

definition charge_kind :: string where
  "charge_kind = ''charge''"

definition send_mandate_email :: "config \<Rightarrow> user \<Rightarrow> mandate \<Rightarrow> string \<Rightarrow> date option \<Rightarrow> db
    \<Rightarrow> bool \<times> db" where
  \<comment> \<open>\<open>payments/renewals/emails.py\<close>; the message carries the date its subject names\<close>
  "send_mandate_email cfg u m template on_day d =
     (if u_email u = [] then (False, d)
      else send_mail cfg (MandateMail template (rm_id m) on_day) d)"

subsection \<open>Settings and lists\<close>

definition retry_offsets :: "int list" where
  "retry_offsets = [1, 3, 7]"

definition pending_alert_days :: int where
  "pending_alert_days = 3"

definition minimum_stale_minutes :: int where
  "minimum_stale_minutes = 15"

definition stale_after :: "config \<Rightarrow> error + int" where
  \<comment> \<open>in seconds\<close>
  "stale_after cfg = (if stale_seconds cfg < 60 * minimum_stale_minutes then Inl ImproperlyConfigured
     else Inr (stale_seconds cfg))"

definition charges_in_doubt :: "db \<Rightarrow> nat" where
  "charges_in_doubt d = rows_matched (\<lambda>a. ra_outcome a = Scheduled \<and> ra_in_doubt a) (attempts d)"

definition load_attempt :: "db \<Rightarrow> attempt \<Rightarrow> loaded option" where
  \<comment> \<open>the joins, none of which a row with its foreign keys in order misses\<close>
  "load_attempt d a =
     (case get_mandate d (ra_mandate a) of
        None \<Rightarrow> None
      | Some m \<Rightarrow> (case get_user d (rm_user m) of
            None \<Rightarrow> None
          | Some u \<Rightarrow> Some \<lparr>ld_attempt = a, ld_mandate = m, ld_user = u, ld_plan = mandate_plan d m,
              ld_term = Option.bind (ra_membership a) (get_term d)\<rparr>))"

definition due_attempts :: "date \<Rightarrow> db \<Rightarrow> loaded list" where
  "due_attempts today d = List.map_filter (load_attempt d)
     (sort_key (\<lambda>a. (ra_scheduled_on a, ra_id a))
       (filter (\<lambda>a. ra_outcome a = Scheduled \<and> ra_scheduled_on a \<le> today) (attempts d)))"

definition new_attempt :: "pk \<Rightarrow> pk \<Rightarrow> pk option \<Rightarrow> date \<Rightarrow> attempt" where
  "new_attempt k m t on_day = \<lparr>ra_id = k, ra_mandate = m, ra_membership = t, ra_scheduled_on = on_day,
     ra_retry_of = None, ra_outcome = Scheduled, ra_payment = None, ra_error = [],
     ra_noticed_at = None, ra_attempted_at = None, ra_in_doubt = False, ra_flagged_at = None,
     ra_result_emailed_at = None\<rparr>"

definition schedule_attempt :: "pk \<Rightarrow> pk option \<Rightarrow> date \<Rightarrow> attempt option \<Rightarrow> db
    \<Rightarrow> attempt option \<times> db" where
  "schedule_attempt m t on_day retry_of d =
     (if list_ex (\<lambda>a. ra_mandate a = m \<and> ra_outcome a = Scheduled) (attempts d) then (None, d)
      else let (k, d) = fresh_pk d;
               a = (new_attempt k m t on_day)\<lparr>ra_retry_of := map_option ra_id retry_of,
                     ra_noticed_at := Option.bind retry_of ra_noticed_at\<rparr>
           in (Some a, d\<lparr>attempts := attempts d @ [a]\<rparr>))"

subsection \<open>The claim\<close>

definition claimable :: "moment \<Rightarrow> attempt \<Rightarrow> bool" where
  "claimable stale_before a \<longleftrightarrow> ra_outcome a = Scheduled
     \<and> (case ra_attempted_at a of None \<Rightarrow> True | Some t \<Rightarrow> t < stale_before)"

definition claim :: "config \<Rightarrow> loaded \<Rightarrow> db \<Rightarrow> (error + loaded option) \<times> db" where
  "claim cfg l d =
     (case stale_after cfg of
        Inl e \<Rightarrow> (Inl e, d)
      | Inr stale \<Rightarrow>
          (case get_attempt d (ra_id (ld_attempt l)) of
             None \<Rightarrow> (Inr None, d)
           | Some a \<Rightarrow>
               if \<not> claimable (clock d - stale) a then (Inr None, d)
               else (Inr (Some (l\<lparr>ld_attempt := (ld_attempt l)\<lparr>ra_attempted_at := Some (clock d),
                       ra_payment := ra_payment a, ra_in_doubt := ra_in_doubt a\<rparr>\<rparr>)),
                     edit_attempt (ra_id a) (\<lambda>r. r\<lparr>ra_attempted_at := Some (clock d)\<rparr>) d)))"

definition holds_claim :: "attempt \<Rightarrow> db \<Rightarrow> bool" where
  \<comment> \<open>the filter of every conditional update: still scheduled, under the claim's own stamp\<close>
  "holds_claim a d = (case get_attempt d (ra_id a) of
     None \<Rightarrow> False
   | Some r \<Rightarrow> ra_outcome r = Scheduled \<and> ra_attempted_at r = ra_attempted_at a)"

definition release :: "(attempt \<Rightarrow> attempt) \<Rightarrow> loaded \<Rightarrow> db \<Rightarrow> (bool \<times> loaded) \<times> db" where
  \<comment> \<open>\<open>f\<close> writes the fields given with the release\<close>
  "release f l d =
     (if \<not> holds_claim (ld_attempt l) d then ((False, l), d)
      else ((True, l\<lparr>ld_attempt := f ((ld_attempt l)\<lparr>ra_attempted_at := None\<rparr>)\<rparr>),
            edit_attempt (ra_id (ld_attempt l)) (\<lambda>r. f (r\<lparr>ra_attempted_at := None\<rparr>)) d))"

definition close_attempt :: "renewal_outcome \<Rightarrow> string \<Rightarrow> loaded \<Rightarrow> db \<Rightarrow> (bool \<times> loaded) \<times> db" where
  "close_attempt outcome msg l d =
     (if \<not> holds_claim (ld_attempt l) d then ((False, l), d)
      else ((True, l\<lparr>ld_attempt := (ld_attempt l)\<lparr>ra_outcome := outcome, ra_error := msg\<rparr>\<rparr>),
            edit_attempt (ra_id (ld_attempt l)) (\<lambda>r. r\<lparr>ra_outcome := outcome, ra_error := msg\<rparr>) d))"

definition finish_attempt :: "renewal_outcome \<Rightarrow> loaded \<Rightarrow> db \<Rightarrow> db" where
  "finish_attempt outcome l = edit_attempt (ra_id (ld_attempt l)) (\<lambda>r. r\<lparr>ra_outcome := outcome\<rparr>)"

subsection \<open>Putting a charge back\<close>

definition delete_payment :: "pk \<Rightarrow> db \<Rightarrow> db" where
  \<comment> \<open>\<open>payment.delete()\<close>, which leaves the attempts and the terms that named it without a payment\<close>
  "delete_payment k d = d\<lparr>payments := rows_delete (\<lambda>p. p_id p = k) (payments d),
     attempts := rows_update (\<lambda>a. ra_payment a = Some k) (\<lambda>a. a\<lparr>ra_payment := None\<rparr>) (attempts d),
     terms := rows_update (\<lambda>m. m_payment m = Some k) (\<lambda>m. m\<lparr>m_payment := None\<rparr>) (terms d)\<rparr>"

definition flag :: "loaded \<Rightarrow> payment \<Rightarrow> string \<Rightarrow> moment option \<Rightarrow> db \<Rightarrow> loaded \<times> db" where
  "flag l p reason previous d =
     (case get_attempt d (ra_id (ld_attempt l)) of
        None \<Rightarrow> (l, d)
      | Some a \<Rightarrow>
          if ra_flagged_at a \<noteq> previous then (l, d)
          else (l\<lparr>ld_attempt := (ld_attempt l)\<lparr>ra_flagged_at := Some (clock d)\<rparr>\<rparr>,
                emit (RenewalNeedsChecking (ra_id a) (p_id p) reason)
                  (edit_attempt (ra_id a) (\<lambda>r. r\<lparr>ra_flagged_at := Some (clock d)\<rparr>) d)))"

definition postpone :: "loaded \<Rightarrow> payment \<Rightarrow> run \<Rightarrow> bool \<Rightarrow> db \<Rightarrow> run \<times> db" where
  "postpone l p r discard d =
     (record_skipped ''provider_down'' r,
      if discard
      then (case release (\<lambda>a. a\<lparr>ra_payment := None\<rparr>) l d of
              ((True, _), d) \<Rightarrow> delete_payment (p_id p) d | ((False, _), d) \<Rightarrow> d)
      else snd (release id l d))"

definition pending_alert_message :: string where
  "pending_alert_message = ''Pending at the provider for more than 3 days.''"

definition hold :: "loaded \<Rightarrow> payment \<Rightarrow> run \<Rightarrow> db \<Rightarrow> run \<times> db" where
  "hold l p r d =
     (let (l, d) = (case p_charge_sent_at p of
            None \<Rightarrow> (l, d)
          | Some at_time \<Rightarrow> if clock d - at_time > pending_alert_days * 86400
              then flag l p pending_alert_message None d else (l, d));
          (_, d) = release id l d
      in (record_skipped ''pending'' r, d))"

definition doubt :: "loaded \<Rightarrow> payment \<Rightarrow> string \<Rightarrow> run \<Rightarrow> db \<Rightarrow> run \<times> db" where
  "doubt l p reason r d =
     (record_skipped ''in_doubt'' r,
      (case release (\<lambda>a. a\<lparr>ra_in_doubt := True, ra_error := take 255 reason\<rparr>) l d of
         ((True, l), d) \<Rightarrow> snd (flag l p reason None d) | ((False, _), d) \<Rightarrow> d))"

subsection \<open>Recording what the provider said\<close>

definition deliver :: "config \<Rightarrow> delivery \<Rightarrow> db \<Rightarrow> db" where
  \<comment> \<open>the two \<open>deliver\<close> closures; a receipt goes with the first\<close>
  "deliver cfg x d =
     (case x of
        DeliverCharged k m u p on_day \<Rightarrow>
          (case send_mandate_email cfg u m ''renewal_charged'' on_day d of
             (False, d) \<Rightarrow> d
           | (True, d) \<Rightarrow>
               let d = edit_attempt k (\<lambda>a. a\<lparr>ra_result_emailed_at := Some (clock d)\<rparr>) d
               in case p of None \<Rightarrow> d
                  | Some p \<Rightarrow> edit_payment (p_id p) (\<lambda>r. r\<lparr>p_receipt_sent_at := Some (clock d)\<rparr>) d)
      | DeliverClosed k m u \<Rightarrow>
          (case send_mandate_email cfg u m ''renewal_failed'' None d of
             (False, d) \<Rightarrow> d
           | (True, d) \<Rightarrow> edit_attempt k (\<lambda>a. a\<lparr>ra_result_emailed_at := Some (clock d)\<rparr>) d))"

definition hand_over :: "config \<Rightarrow> delivery \<Rightarrow> run \<Rightarrow> db \<Rightarrow> run \<times> db" where
  "hand_over cfg x r d = (case rr_defer r of
     None \<Rightarrow> (r, deliver cfg x d)
   | Some xs \<Rightarrow> (r\<lparr>rr_defer := Some (xs @ [x])\<rparr>, d))"

definition loaded_payment :: "loaded \<Rightarrow> db \<Rightarrow> payment option" where
  \<comment> \<open>\<open>attempt.payment\<close>\<close>
  "loaded_payment l d = Option.bind (ra_payment (ld_attempt l)) (get_payment d)"

definition charged_mandate :: "moment \<Rightarrow> membership option \<Rightarrow> attempt \<Rightarrow> mandate \<Rightarrow> mandate" where
  "charged_mandate now renewed a m =
     (let m = m\<lparr>rm_failure_count := 0, rm_last_charged_at := Some now\<rparr>
      in if rm_plan m = None
         then m\<lparr>rm_next_charge_on := advance_by_cadence (ra_scheduled_on a) (rm_cadence m)\<rparr>
         else case Option.bind renewed m_ends_on of
                Some e \<Rightarrow> m\<lparr>rm_next_charge_on := e\<rparr> | None \<Rightarrow> m)"

definition record_success :: "config \<Rightarrow> loaded \<Rightarrow> run \<Rightarrow> db \<Rightarrow> run \<times> db" where
  "record_success cfg l r d =
     (case close_attempt AttemptSucceeded [] l d of
        ((False, l), d) \<Rightarrow> (r, d)
      | ((True, l), d) \<Rightarrow>
          (let today = local_today cfg d;
               renewed = term_to_renew d (ld_user l) today;
               m = charged_mandate (clock d) renewed (ld_attempt l) (ld_mandate l);
               d = edit_mandate (rm_id m) (\<lambda>x. x\<lparr>rm_failure_count := rm_failure_count m,
                     rm_last_charged_at := rm_last_charged_at m,
                     rm_next_charge_on := rm_next_charge_on m\<rparr>) d;
               charge_on = charge_date d m today;
               (r, d) = hand_over cfg (DeliverCharged (ra_id (ld_attempt l)) m (ld_user l)
                   (loaded_payment l d) charge_on) r d;
               r = record_action ''renewal_charged'' (ld_user l) charge_on None [] r
           in (r\<lparr>rr_charged := rr_charged r + 1\<rparr>, d)))"

definition retry_on :: "date \<Rightarrow> nat \<Rightarrow> date option" where
  \<comment> \<open>the day of the retry after the \<open>n\<close>th failure, while \<open>n <= len(RETRY_OFFSETS)\<close>\<close>
  "retry_on today n = (if n \<le> length retry_offsets then Some (today + retry_offsets ! (n - 1)) else None)"

definition email_decline :: "config \<Rightarrow> loaded \<Rightarrow> mandate \<Rightarrow> date option \<Rightarrow> db \<Rightarrow> db" where
  "email_decline cfg l m next_on d =
     (case send_mandate_email cfg (ld_user l) m ''renewal_failed'' next_on d of
        (False, d) \<Rightarrow> d
      | (True, d) \<Rightarrow> edit_attempt (ra_id (ld_attempt l))
          (\<lambda>a. a\<lparr>ra_result_emailed_at := Some (clock d)\<rparr>) d)"

definition schedule_retry :: "loaded \<Rightarrow> mandate \<Rightarrow> date option \<Rightarrow> db \<Rightarrow> db" where
  "schedule_retry l m next_on d =
     (case next_on of None \<Rightarrow> d
      | Some x \<Rightarrow> snd (schedule_attempt (rm_id m) (map_option m_id (ld_term l)) x
          (Some (ld_attempt l)) d))"

definition declined_mandate :: "date option \<Rightarrow> mandate \<Rightarrow> mandate" where
  \<comment> \<open>one failure more, and paused once the retries are exhausted\<close>
  "declined_mandate next_on m = m\<lparr>rm_failure_count := rm_failure_count m + 1,
     rm_status := (if next_on = None then MandatePaused else rm_status m)\<rparr>"

definition decline_mandate :: "config \<Rightarrow> loaded \<Rightarrow> date \<Rightarrow> run \<Rightarrow> db \<Rightarrow> run \<times> db" where
  \<comment> \<open>the part of \<open>_record_failure\<close> for an active mandate\<close>
  "decline_mandate cfg l today r d =
     (let next_on = retry_on today (rm_failure_count (ld_mandate l) + 1);
          m = declined_mandate next_on (ld_mandate l);
          r = (if next_on = None then r\<lparr>rr_paused := rr_paused r + 1\<rparr> else r);
          d = edit_mandate (rm_id m) (\<lambda>x. x\<lparr>rm_failure_count := rm_failure_count m,
                rm_status := rm_status m\<rparr>) d;
          msg = ra_error (ld_attempt l);
          d = emit (AutoRenewalDeclined (rm_id m) msg next_on) d;
          r = record_action ''renewal_failed'' (ld_user l) next_on None msg r
      in (r, schedule_retry l m next_on (email_decline cfg l m next_on d)))"

definition record_failure :: "config \<Rightarrow> loaded \<Rightarrow> payment \<Rightarrow> string \<Rightarrow> date \<Rightarrow> run \<Rightarrow> db \<Rightarrow> run \<times> db" where
  "record_failure cfg l p reason today r d =
     (case close_attempt AttemptFailed (take 255 reason) l d of
        ((False, l), d) \<Rightarrow> (r, d)
      | ((True, l), d) \<Rightarrow>
          (let d = (if p_status p \<noteq> Succeeded
                    then snd (mark_failed (p_id p) (Some [(''error'', JStr reason)]) d) else d);
               r = r\<lparr>rr_failed := rr_failed r + 1\<rparr>
           in if rm_status (ld_mandate l) \<noteq> MandateActive then (r, d)
              else decline_mandate cfg l today r d))"

subsection \<open>Whether to charge at all\<close>

definition already_renewed :: "db \<Rightarrow> loaded \<Rightarrow> date \<Rightarrow> bool" where
  "already_renewed d l today =
     (if rm_plan (ld_mandate l) = None then False
      else case ld_term l of
        None \<Rightarrow> False
      | Some t \<Rightarrow> (case (Option.bind (term_to_renew d (ld_user l) today) m_ends_on, m_ends_on t) of
            (Some e, Some e0) \<Rightarrow> e > e0 | _ \<Rightarrow> False))"

definition renewal_skip_reason :: "db \<Rightarrow> loaded \<Rightarrow> date \<Rightarrow> error + string option" where
  "renewal_skip_reason d l today =
     (if rm_plan (ld_mandate l) = None
      then (case get_mandate d (rm_id (ld_mandate l)) of
              None \<Rightarrow> Inl DoesNotExist
            | Some m \<Rightarrow> Inr (if rm_next_charge_on m > ra_scheduled_on (ld_attempt l)
                             then Some ''already_charged'' else None))
      else if account_kind d (ld_user l) today = Friend then Inr (Some ''friend'')
      else if lifetime_term d (ld_user l) \<noteq> None then Inr (Some ''lifetime'')
      else if already_renewed d l today then Inr (Some ''already_renewed'')
      else Inr None)"

definition skip_reason :: "db \<Rightarrow> loaded \<Rightarrow> date \<Rightarrow> error + string option" where
  "skip_reason d l today =
     (if rm_status (ld_mandate l) \<noteq> MandateActive then Inr (Some ''not_active'')
      else renewal_skip_reason d l today)"

definition skip_attempt :: "config \<Rightarrow> loaded \<Rightarrow> string \<Rightarrow> run \<Rightarrow> bool \<Rightarrow> db \<Rightarrow> run \<times> db" where
  "skip_attempt cfg l reason r dry d =
     (let r = record_skipped reason r
      in if dry then (r, d)
         else let d = finish_attempt AttemptSkipped l d
              in (r, if reason = ''already_renewed'' \<and> ld_term l \<noteq> None
                     then snd (roll_charge_date_past cfg (ld_user l) (Option.bind (ld_term l) m_ends_on) d)
                     else d))"

subsection \<open>Taking a charge\<close>

definition breaker_message :: string where
  "breaker_message = ''The provider didn't answer earlier in this run.''"

definition stamped_payment :: "mandate \<Rightarrow> moment \<Rightarrow> payment \<Rightarrow> payment" where
  "stamped_payment m now p = p\<lparr>p_charge_sent_at := Some now,
     p_charge_customer_ref := (if p_charge_customer_ref p \<noteq> [] then p_charge_customer_ref p else rm_customer_ref m),
     p_charge_method_ref := (if p_charge_method_ref p \<noteq> [] then p_charge_method_ref p else rm_method_ref m)\<rparr>"

definition stamp_charge :: "mandate \<Rightarrow> payment \<Rightarrow> db \<Rightarrow> payment \<times> db" where
  \<comment> \<open>the first time a payment is sent, what it is sent for is kept on it\<close>
  "stamp_charge m p d =
     (if p_charge_sent_at p \<noteq> None then (p, d)
      else let p = stamped_payment m (clock d) p
           in (p, edit_payment (p_id p) (\<lambda>x. x\<lparr>p_charge_sent_at := p_charge_sent_at p,
                p_charge_customer_ref := p_charge_customer_ref p,
                p_charge_method_ref := p_charge_method_ref p\<rparr>) d))"

definition record_answer :: "config \<Rightarrow> loaded \<Rightarrow> payment \<Rightarrow> bool \<Rightarrow> bool \<Rightarrow> date \<Rightarrow> run
    \<Rightarrow> charge_answer \<Rightarrow> db \<Rightarrow> (error + run) \<times> db" where
  \<comment> \<open>the \<open>except\<close> clauses of \<open>_take\<close> and its success; \<open>stamped\<close> says this call stamped the payment\<close>
  "record_answer cfg l p stamped fresh today r answer d =
     (let not_asked = (let d = (if stamped \<and> \<not> fresh
              then edit_payment (p_id p) (\<lambda>x. x\<lparr>p_charge_sent_at := None\<rparr>) d else d)
            in apfst Inr (postpone l p r fresh d))
      in case answer of
           NotConfigured _ \<Rightarrow> not_asked
         | MockDisabled _ \<Rightarrow> not_asked
         | NotSent _ \<Rightarrow> not_asked
         | Unreachable _ \<Rightarrow> apfst Inr (postpone l p r False d)
         | StillSettling \<Rightarrow> apfst Inr (hold l p r d)
         | Unanswered msg \<Rightarrow>
             apfst Inr (doubt l p msg (r\<lparr>rr_unanswered := List.insert (p_provider p) (rr_unanswered r)\<rparr>) d)
         | InDoubt msg \<Rightarrow> apfst Inr (doubt l p msg r d)
         | Declined msg \<Rightarrow> apfst Inr (record_failure cfg l p msg today r d)
         | Crashed e \<Rightarrow> (Inl e, d)
         | Taken \<Rightarrow> apfst Inr (record_success cfg l r d)
         | NotTaken \<Rightarrow> apfst Inr (record_success cfg l r d))"

definition take_charge :: "config \<Rightarrow> gateway \<Rightarrow> loaded \<Rightarrow> payment \<Rightarrow> date \<Rightarrow> run \<Rightarrow> bool \<Rightarrow> db
    \<Rightarrow> (error + run) \<times> db" where
  "take_charge cfg gw l p today r fresh d =
     (if p_provider p \<in> set (rr_unanswered r) then apfst Inr (postpone l p r fresh d)
      else let stamped = (p_charge_sent_at p = None);
               (p, d) = stamp_charge (ld_mandate l) p d;
               (answer, d) = ask_charge gw (ld_mandate l) p d
           in record_answer cfg l p stamped fresh today r answer d)"

subsection \<open>Settling a charge that was sent before\<close>

definition record_charge :: "loaded \<Rightarrow> payment \<Rightarrow> run \<Rightarrow> run" where
  "record_charge l p = record_action charge_kind (ld_user l) (Some (ra_scheduled_on (ld_attempt l)))
     (Some (p_amount_cents p)) []"

definition not_held :: "config \<Rightarrow> gateway \<Rightarrow> loaded \<Rightarrow> payment \<Rightarrow> date \<Rightarrow> run \<Rightarrow> db
    \<Rightarrow> (error + run) \<times> db" where
  \<comment> \<open>the provider holds no charge for the payment: charge it, or throw it away\<close>
  "not_held cfg gw l p today r d =
     (case skip_reason d l today of
        Inl e \<Rightarrow> (Inl e, d)
      | Inr None \<Rightarrow> take_charge cfg gw l p today (record_charge l p r) False d
      | Inr (Some reason) \<Rightarrow>
          (let l = l\<lparr>ld_attempt := (ld_attempt l)\<lparr>ra_payment := None\<rparr>\<rparr>;
               d = edit_attempt (ra_id (ld_attempt l)) (\<lambda>a. a\<lparr>ra_payment := None\<rparr>) d;
               d = delete_payment (p_id p) d
           in apfst Inr (skip_attempt cfg l reason r False d)))"

definition resume :: "config \<Rightarrow> gateway \<Rightarrow> loaded \<Rightarrow> date \<Rightarrow> run \<Rightarrow> db \<Rightarrow> (error + run) \<times> db" where
  "resume cfg gw l today r d =
     (case Option.bind (get_attempt d (ra_id (ld_attempt l)))
             (\<lambda>a. Option.bind (ra_payment a) (get_payment d)) of
        None \<Rightarrow> (Inl DoesNotExist, d)
      | Some p \<Rightarrow>
          let l = l\<lparr>ld_attempt := (ld_attempt l)\<lparr>ra_payment := Some (p_id p)\<rparr>\<rparr>
          in if p_status p = Succeeded
             then apfst Inr (record_success cfg l (record_charge l p r) d)
             else (case ask_find gw (ld_mandate l) p d of
                  (Unreachable _, d) \<Rightarrow> apfst Inr (postpone l p r False d)
                | (NotSent _, d) \<Rightarrow> apfst Inr (postpone l p r False d)
                | (NotConfigured _, d) \<Rightarrow> apfst Inr (postpone l p r False d)
                | (MockDisabled _, d) \<Rightarrow> apfst Inr (postpone l p r False d)
                | (StillSettling, d) \<Rightarrow> apfst Inr (hold l p r d)
                | (InDoubt msg, d) \<Rightarrow> apfst Inr (doubt l p msg r d)
                | (Unanswered msg, d) \<Rightarrow> apfst Inr (doubt l p msg r d)
                | (Declined msg, d) \<Rightarrow>
                    apfst Inr (record_failure cfg l p msg today (record_charge l p r) d)
                | (Crashed e, d) \<Rightarrow> (Inl e, d)
                | (NotTaken, d) \<Rightarrow> not_held cfg gw l p today r d
                | (Taken, d) \<Rightarrow> (case get_payment d (p_id p) of
                      None \<Rightarrow> (Inl DoesNotExist, d)
                    | Some p \<Rightarrow> apfst Inr (record_success cfg l (record_charge l p r) d))))"

subsection \<open>One scheduled renewal\<close>

definition paid_meanwhile :: "loaded \<Rightarrow> bool \<Rightarrow> db \<Rightarrow> (bool \<times> loaded) \<times> db" where
  "paid_meanwhile l dry d =
     (case ra_payment (ld_attempt l) of
        None \<Rightarrow> ((False, l), d)
      | Some k \<Rightarrow>
          if dry \<or> \<not> list_ex (\<lambda>p. p_id p = k \<and> p_status p = Succeeded) (payments d)
          then ((False, l), d)
          else ((True, l\<lparr>ld_attempt := (ld_attempt l)\<lparr>ra_in_doubt := False\<rparr>\<rparr>),
                edit_attempt (ra_id (ld_attempt l)) (\<lambda>a. a\<lparr>ra_in_doubt := False\<rparr>) d))"

definition lapsed_in_doubt_message :: string where
  "lapsed_in_doubt_message = ''The membership has run out while this charge waits to be checked.''"

definition wait_in_doubt :: "config \<Rightarrow> loaded \<Rightarrow> date \<Rightarrow> run \<Rightarrow> bool \<Rightarrow> db \<Rightarrow> (error + run) \<times> db" where
  "wait_in_doubt cfg l today r dry d =
     (let r = record_skipped ''in_doubt'' r
      in if dry then (Inr r, d)
         else case Option.bind (ld_term l) m_ends_on of
                None \<Rightarrow> (Inr r, d)
              | Some ends \<Rightarrow>
                  let flagged_at = ra_flagged_at (ld_attempt l)
                  in if today \<le> ends then (Inr r, d)
                     else if (case flagged_at of None \<Rightarrow> False | Some t \<Rightarrow> localdate cfg t > ends)
                     then (Inr r, d)
                     else (case Option.bind (get_attempt d (ra_id (ld_attempt l)))
                             (\<lambda>a. Option.bind (ra_payment a) (get_payment d)) of
                          None \<Rightarrow> (Inl DoesNotExist, d)
                        | Some p \<Rightarrow> (Inr r, snd (flag l p lapsed_in_doubt_message flagged_at d))))"

definition loaded_amount_cents :: "loaded \<Rightarrow> int" where
  \<comment> \<open>\<open>renewal_amount_cents(attempt.mandate)\<close> on the rows loaded\<close>
  "loaded_amount_cents l = (case ld_plan l of Some p \<Rightarrow> pl_price_cents p | None \<Rightarrow> 0)
     + rm_contribution_cents (ld_mandate l)"

definition rehearse_charge :: "loaded \<Rightarrow> run \<Rightarrow> run" where
  "rehearse_charge l r =
     record_action ''renewal_charged'' (ld_user l) None None []
       (record_action charge_kind (ld_user l) (Some (ra_scheduled_on (ld_attempt l)))
         (Some (loaded_amount_cents l)) [] (r\<lparr>rr_charged := rr_charged r + 1\<rparr>))"

definition start_charge :: "config \<Rightarrow> gateway \<Rightarrow> loaded \<Rightarrow> date \<Rightarrow> run \<Rightarrow> db \<Rightarrow> (error + run) \<times> db" where
  \<comment> \<open>a claimed attempt without a payment: write one and send it\<close>
  "start_charge cfg gw l today r d =
     (let r = record_action charge_kind (ld_user l) (Some (ra_scheduled_on (ld_attempt l)))
            (Some (loaded_amount_cents l)) [] r
      in case create_checkout (ld_user l) (map_option pl_slug (ld_plan l))
                (rm_contribution_cents (ld_mandate l)) (rm_provider (ld_mandate l)) d of
           (Inl (DomainValidationError f msg), d) \<Rightarrow>
             (Inr (record_skipped ''no_plan'' r), finish_attempt AttemptSkipped l d)
         | (Inl e, d) \<Rightarrow> (Inl e, d)
         | (Inr p, d) \<Rightarrow>
             (let l = l\<lparr>ld_attempt := (ld_attempt l)\<lparr>ra_payment := Some (p_id p)\<rparr>\<rparr>;
                  d = edit_attempt (ra_id (ld_attempt l)) (\<lambda>a. a\<lparr>ra_payment := Some (p_id p)\<rparr>) d
              in take_charge cfg gw l p today r True d))"

definition charge_claimed :: "config \<Rightarrow> gateway \<Rightarrow> loaded \<Rightarrow> date \<Rightarrow> run \<Rightarrow> db \<Rightarrow> (error + run) \<times> db" where
  "charge_claimed cfg gw l today r d =
     (case (if ra_in_doubt (ld_attempt l) then paid_meanwhile l False d else ((True, l), d)) of
        ((False, l), d) \<Rightarrow> (Inr (record_skipped ''in_doubt'' r), snd (release id l d))
      | ((True, l), d) \<Rightarrow>
          if ra_payment (ld_attempt l) \<noteq> None then resume cfg gw l today r d
          else start_charge cfg gw l today r d)"

definition charge :: "config \<Rightarrow> gateway \<Rightarrow> loaded \<Rightarrow> date \<Rightarrow> run \<Rightarrow> bool \<Rightarrow> db
    \<Rightarrow> (error + run) \<times> db" where
  "charge cfg gw l today r dry d =
     (case (if ra_in_doubt (ld_attempt l) then paid_meanwhile l dry d else ((True, l), d)) of
        ((False, l), d) \<Rightarrow> wait_in_doubt cfg l today r dry d
      | ((True, l), d) \<Rightarrow>
          (case (if ra_payment (ld_attempt l) = None \<or> dry then skip_reason d l today else Inr None) of
             Inl e \<Rightarrow> (Inl e, d)
           | Inr (Some reason) \<Rightarrow> apfst Inr (skip_attempt cfg l reason r dry d)
           | Inr None \<Rightarrow>
               if dry then (Inr (rehearse_charge l r), d)
               else (case claim cfg l d of
                       (Inl e, d) \<Rightarrow> (Inl e, d)
                     | (Inr None, d) \<Rightarrow> (Inr (record_skipped ''in_flight'' r), d)
                     | (Inr (Some l), d) \<Rightarrow> charge_claimed cfg gw l today r d)))"

subsection \<open>Settling a charge held in doubt\<close>

datatype settle_outcome = SettlePaid | SettleReleased | SettleFailed

definition settle_slug :: "settle_outcome \<Rightarrow> string" where
  "settle_slug x = (case x of SettlePaid \<Rightarrow> ''paid'' | SettleReleased \<Rightarrow> ''released''
     | SettleFailed \<Rightarrow> ''failed'')"

definition only_paypal_message :: string where
  "only_paypal_message = ''Only a PayPal charge is settled by its reference.''"

definition closed_by_treasurer_message :: string where
  "closed_by_treasurer_message = ''Closed by the treasurer after checking with the provider.''"

definition already_paid_message :: string where
  "already_paid_message =
     ''This charge's payment has already gone through; record it as paid instead.''"

definition not_in_doubt_message :: string where
  "not_in_doubt_message = ''This charge is not waiting to be checked.''"

definition close_unpaid :: "loaded \<Rightarrow> payment \<Rightarrow> db \<Rightarrow> bool \<times> db" where
  "close_unpaid l p d =
     (let d = (if p_status p \<noteq> Succeeded
               then snd (mark_failed (p_id p) (Some [(''error'', JStr closed_by_treasurer_message)]) d) else d)
      in if rm_status (ld_mandate l) \<noteq> MandateActive then (False, d)
         else (True, emit (AutoRenewalOff (rm_id (ld_mandate l)) OffAdministrator)
                (edit_mandate (rm_id (ld_mandate l)) (\<lambda>m. m\<lparr>rm_status := MandatePaused\<rparr>) d)))"

definition settled_attempt :: "settle_outcome \<Rightarrow> attempt \<Rightarrow> attempt" where
  "settled_attempt outcome a = a\<lparr>ra_in_doubt := False, ra_flagged_at := None, ra_attempted_at := None,
     ra_error := (if outcome = SettleFailed then closed_by_treasurer_message else []),
     ra_outcome := (if outcome = SettleFailed then AttemptFailed else ra_outcome a)\<rparr>"

definition settle_checked :: "loaded \<Rightarrow> payment \<Rightarrow> settle_outcome \<Rightarrow> error option" where
  \<comment> \<open>why the treasurer's answer is refused\<close>
  "settle_checked l p outcome =
     (if outcome \<noteq> SettlePaid \<and> p_status p \<in> set settled_statuses
      then Some (DomainValidationError ''outcome'' already_paid_message)
      else if outcome = SettlePaid \<and> p_provider p \<noteq> PayPal
      then Some (DomainValidationError ''reference'' only_paypal_message)
      else None)"

definition settle_payment :: "gateway \<Rightarrow> payment \<Rightarrow> settle_outcome \<Rightarrow> string \<Rightarrow> db \<Rightarrow> (error + unit) \<times> db" where
  "settle_payment gw p outcome reference d =
     (case outcome of
        SettlePaid \<Rightarrow> gw_reference gw p reference d
      | SettleReleased \<Rightarrow> (Inr (), edit_payment (p_id p) (\<lambda>x. x\<lparr>p_charge_sent_at := None\<rparr>) d)
      | SettleFailed \<Rightarrow> (Inr (), d))"

definition settle_body :: "config \<Rightarrow> gateway \<Rightarrow> pk \<Rightarrow> settle_outcome \<Rightarrow> string \<Rightarrow> pk \<Rightarrow> bool \<Rightarrow> db
    \<Rightarrow> (error + delivery list \<times> delivery list) \<times> db" where
  \<comment> \<open>the transaction; it answers the messages for after the commit and those put off\<close>
  "settle_body cfg gw k outcome reference actor defer d =
     (case Option.bind (get_attempt d k) (load_attempt d) of
        None \<Rightarrow> (Inl DoesNotExist, d)
      | Some l \<Rightarrow>
          let a = ld_attempt l
          in if \<not> ra_in_doubt a \<or> ra_outcome a \<noteq> Scheduled
             then (Inl (DomainValidationError ''attempt'' not_in_doubt_message), d)
             else (case Option.bind (ra_payment a) (get_payment d) of
               None \<Rightarrow> (Inl DoesNotExist, d)
             | Some p \<Rightarrow> (case settle_checked l p outcome of
                 Some e \<Rightarrow> (Inl e, d)
               | None \<Rightarrow> (case settle_payment gw p outcome reference d of
                   (Inl e, d) \<Rightarrow> (Inl e, d)
                 | (Inr _, d) \<Rightarrow>
                     (let l = l\<lparr>ld_attempt := settled_attempt outcome a\<rparr>;
                          d = edit_attempt k (settled_attempt outcome) d;
                          (paused, d) = (if outcome = SettleFailed then close_unpaid l p d else (False, d));
                          closed = (if paused then [DeliverClosed k ((ld_mandate l)\<lparr>rm_status := MandatePaused\<rparr>)
                                      (ld_user l)] else []);
                          d = audit_record ''renewal.settle'' (Account actor) (Some (u_id (ld_user l)))
                            [(''attempt'', AInt (int k)), (''payment'', AInt (int (p_id p))),
                             (''outcome'', ASlug (settle_slug outcome)),
                             (''reference'', ASlug (if reference = [] then [] else safe_slug reference))] d
                      in if outcome = SettlePaid
                         then (let today = local_today cfg d
                               in case charge cfg gw l today (new_run today False defer) False d of
                                    (Inl e, d) \<Rightarrow> (Inl e, d)
                                  | (Inr r, d) \<Rightarrow> (Inr ([], case rr_defer r of None \<Rightarrow> [] | Some xs \<Rightarrow> xs), d))
                         else (Inr (if defer then ([], closed) else (closed, [])), d))))))"

definition settle_in_doubt :: "config \<Rightarrow> gateway \<Rightarrow> pk \<Rightarrow> settle_outcome \<Rightarrow> string \<Rightarrow> pk \<Rightarrow> bool \<Rightarrow> db
    \<Rightarrow> (error + attempt option \<times> delivery list) \<times> db" where
  "settle_in_doubt cfg gw k outcome reference actor defer d =
     (case atomic (settle_body cfg gw k outcome reference actor defer) d of
        (Inl e, d) \<Rightarrow> (Inl e, d)
      | (Inr (committed, deferred), d) \<Rightarrow>
          (let d = fold (deliver cfg) committed d
           in (Inr (get_attempt d k, deferred), d)))"

subsection \<open>The mock provider\<close>

text \<open>
  \<open>providers/mock.py\<close>, the one provider that asks nobody: what it charges, and what it calls the
  method it saves.
\<close>

definition mock_fee_cents :: "int \<Rightarrow> int" where
  "mock_fee_cents cents = (if cents = 0 then 0 else (cents * 29 + 1000 div 2) div 1000 + 30)"

definition mock_fees_for :: "payment \<Rightarrow> int \<times> int" where
  "mock_fees_for p = (mock_fee_cents (p_amount_cents p), p_amount_cents p - mock_fee_cents (p_amount_cents p))"

definition mock_method :: saved_method where
  "mock_method = \<lparr>sm_method_ref = ''mock'', sm_label = ''Test card ending 4242, expires 12/2030'',
     sm_customer_ref = [], sm_brand = ''visa'', sm_last4 = ''4242'', sm_exp_month = Some 12,
     sm_exp_year = Some 2030, sm_raw = [(''provider'', JStr ''mock'')]\<rparr>"

definition mock_disabled_message :: string where
  "mock_disabled_message = ''The mock payment provider is disabled.''"

definition mock_ref :: "payment \<Rightarrow> string" where
  "mock_ref p = (if p_provider_ref p \<noteq> [] then p_provider_ref p else ''mock_'' @ digits (int (p_id p)))"

definition mock_confirm :: "config \<Rightarrow> bool \<Rightarrow> payment \<Rightarrow> db \<Rightarrow> (error + bool) \<times> db" where
  \<comment> \<open>\<open>confirm\<close>; the flag says whether the outcome asked for is \<open>"succeed"\<close>; a disabled provider
    raises \<open>MockPaymentsDisabledError\<close>\<close>
  "mock_confirm cfg succeed p d =
     (if \<not> mock_enabled cfg then (Inl (ProviderFailure mock_disabled_message), d)
      else let raw = [(''provider'', JStr ''mock''), (''outcome'', JStr (if succeed then ''succeed'' else ''fail'')),
             (''amount_cents'', JInt (p_amount_cents p))]
           in if succeed
              then (case mark_succeeded cfg (\<lambda>_. Some mock_method) (p_id p)
                        \<lparr>sl_wallet = Some MockWallet, sl_raw = Some raw, sl_provider_ref = Some (mock_ref p),
                         sl_fee_cents = Some (fst (mock_fees_for p)), sl_net_cents = Some (snd (mock_fees_for p))\<rparr> d of
                      (Inl e, d) \<Rightarrow> (Inl e, d) | (Inr _, d) \<Rightarrow> (Inr True, d))
              else (case mark_failed (p_id p) (Some raw) d of
                      (Inl e, d) \<Rightarrow> (Inl e, d) | (Inr _, d) \<Rightarrow> (Inr False, d)))"

definition mock_charge :: "config \<Rightarrow> mandate \<Rightarrow> payment \<Rightarrow> db \<Rightarrow> charge_answer \<times> db" where
  "mock_charge cfg m p d =
     (if \<not> mock_enabled cfg then (MockDisabled mock_disabled_message, d)
      else if rm_method_last4 m = ''0002'' then (Declined ''Your card was declined'', d)
      else case mark_succeeded cfg (\<lambda>_. Some mock_method) (p_id p)
             \<lparr>sl_wallet = Some MockWallet, sl_raw = Some [(''provider'', JStr ''mock''),
                (''outcome'', JStr ''succeed''), (''off_session'', JBool True)],
              sl_provider_ref = Some (mock_ref p), sl_fee_cents = None, sl_net_cents = None\<rparr> d of
             (Inl e, d) \<Rightarrow> (Crashed e, d) | (Inr _, d) \<Rightarrow> (Taken, d))"

definition mock_find :: "config \<Rightarrow> mandate \<Rightarrow> payment \<Rightarrow> db \<Rightarrow> charge_answer \<times> db" where
  "mock_find cfg m p d = (if \<not> mock_enabled cfg then MockDisabled mock_disabled_message else NotTaken, d)"

definition mock_refund :: "config \<Rightarrow> payment \<Rightarrow> refund \<Rightarrow> refund_answer" where
  "mock_refund cfg p r = (if \<not> mock_enabled cfg then Inl (ProviderFailure mock_disabled_message)
     else Inr ([], [(''provider'', JStr ''mock''), (''amount_cents'', JInt (rf_amount_cents r)),
                    (''payment_ref'', JStr (p_provider_ref p))]))"

definition mock_gateway :: "config \<Rightarrow> gateway" where
  \<comment> \<open>\<open>record_charge_reference\<close> is the base class's: a mock charge is never in doubt\<close>
  "mock_gateway cfg = \<lparr>gw_charge = mock_charge cfg, gw_find = mock_find cfg,
     gw_reference = (\<lambda>_ _ d. (Inl (ProviderFailure ''NotImplementedError''), d))\<rparr>"

end
