(* ===== verification/ChargeSafety.thy ===== *)
theory ChargeSafety
  imports Charge
begin

text \<open>
  What makes the charge step safe: a rehearsal writes nothing, an attempt is claimed by one scan at
  a time and settled once, a charge in doubt waits, a payment sent before is looked up before it is
  charged again, and a decline climbs the retry ladder.
\<close>

subsection \<open>A rehearsal\<close>

lemma paid_meanwhile_dry: "paid_meanwhile l True d = ((False, l), d)"
  by (simp add: paid_meanwhile_def split: option.splits)

lemma wait_in_doubt_dry: "snd (wait_in_doubt cfg l today r True d) = d"
  by (simp add: wait_in_doubt_def)

text \<open>A rehearsal of a charge asks no provider and writes nothing at all, whatever the attempt.\<close>

lemma rehearsed_charge_writes_nothing [simp]: "snd (charge cfg gw l today r True d) = d"
proof (cases "ra_in_doubt (ld_attempt l)")
  case True
  then show ?thesis by (simp add: charge_def paid_meanwhile_dry wait_in_doubt_dry)
next
  case False
  then show ?thesis
    by (simp add: charge_def skip_attempt_def apfst_def map_prod_def split: sum.splits option.splits)
qed

subsection \<open>One scan at a time\<close>

text \<open>C3: once a scan has claimed an attempt, no other scan claims it until the claim is as old as a dead
  scan's, however the other scan came by its copy of the attempt.\<close>

theorem claim_is_exclusive:
  assumes "claim cfg l d = (Inr (Some l1), d1)" and "ra_id (ld_attempt l2) = ra_id (ld_attempt l)"
    and "stale_after cfg = Inr stale" and "t \<le> clock d + stale"
  shows "claim cfg l2 (d1\<lparr>clock := t\<rparr>) = (Inr None, d1\<lparr>clock := t\<rparr>)"
proof -
  let ?k = "ra_id (ld_attempt l)"
  obtain a where a: "get_attempt d ?k = Some a" "claimable (clock d - stale) a"
    and d1: "d1 = edit_attempt (ra_id a) (\<lambda>r. r\<lparr>ra_attempted_at := Some (clock d)\<rparr>) d"
    using assms(1,3) by (auto simp: claim_def split: option.splits if_splits)
  have "ra_id a = ?k" using a(1) by (auto simp: get_attempt_def dest: row_get_SomeD)
  then have "get_attempt d1 ?k = Some (a\<lparr>ra_attempted_at := Some (clock d)\<rparr>)"
    using a(1) by (simp add: d1 attempt_edit.get_edit)
  then have "get_attempt (d1\<lparr>clock := t\<rparr>) ?k = Some (a\<lparr>ra_attempted_at := Some (clock d)\<rparr>)"
    by (simp add: get_attempt_def)
  moreover have "\<not> claimable (t - stale) (a\<lparr>ra_attempted_at := Some (clock d)\<rparr>)"
    using assms(4) by (simp add: claimable_def)
  ultimately show ?thesis using assms(2,3) by (simp add: claim_def)
qed

subsection \<open>Settled once\<close>

lemma holds_claim_scheduled:
  "holds_claim a d \<Longrightarrow> \<exists>r. get_attempt d (ra_id a) = Some r \<and> ra_outcome r = Scheduled"
  by (auto simp: holds_claim_def split: option.splits)

lemma close_attempt_closes:
  assumes "close_attempt outcome msg l d = ((True, l'), d')" and "outcome \<noteq> Scheduled"
  shows "\<exists>r. get_attempt d' (ra_id (ld_attempt l)) = Some r \<and> ra_outcome r = outcome"
  using assms holds_claim_scheduled [of "ld_attempt l" d]
  by (auto simp: close_attempt_def attempt_edit.get_edit split: if_splits)

definition is_closed :: "pk \<Rightarrow> db \<Rightarrow> bool" where
  "is_closed k d = (case get_attempt d k of None \<Rightarrow> False | Some a \<Rightarrow> ra_outcome a \<noteq> Scheduled)"

lemma closed_not_held: "is_closed (ra_id a) d \<Longrightarrow> \<not> holds_claim a d"
  by (auto simp: is_closed_def holds_claim_def split: option.splits)

lemma is_closed_cong: "attempts d' = attempts d \<Longrightarrow> is_closed k d' = is_closed k d"
  by (simp add: is_closed_def get_attempt_def)

lemma is_closed_edit:
  assumes "\<And>a. ra_id (f a) = ra_id a" and "\<And>a. ra_outcome (f a) = ra_outcome a"
  shows "is_closed k (edit_attempt j f d) = is_closed k d"
  using assms by (simp add: is_closed_def attempt_edit.get_edit split: option.splits)

lemma edit_other_tables:
  "attempts (edit_mandate k f d) = attempts d" "attempts (edit_payment k g d) = attempts d"
  by (simp_all add: edit_mandate_def edit_payment_def)

lemma send_mandate_email_attempts: "attempts (snd (send_mandate_email cfg u m t x d)) = attempts d"
  by (simp add: send_mandate_email_def send_mail_def Let_def)

lemma deliver_closed: "is_closed k (deliver cfg x d) = is_closed k d"
proof -
  have e: "is_closed k d1 = is_closed k d" if "send_mandate_email cfg u m t y d = (b, d1)" for u m t y b d1
    using send_mandate_email_attempts [of cfg u m t y d] that by (intro is_closed_cong) simp
  show ?thesis
    by (auto simp: deliver_def Let_def e is_closed_edit is_closed_cong [OF edit_other_tables(2)]
        split: delivery.splits prod.splits bool.splits option.splits)
qed

lemma schedule_attempt_closed: "is_closed k d \<Longrightarrow> is_closed k (snd (schedule_attempt m t x a d))"
  by (auto simp: schedule_attempt_def Let_def fresh_pk_def is_closed_def get_attempt_def row_get_append
      split: option.splits)

lemma hand_over_closed: "is_closed k (snd (hand_over cfg x r d)) = is_closed k d"
  by (simp add: hand_over_def deliver_closed split: option.splits)

lemma record_success_closes:
  assumes "holds_claim (ld_attempt l) d"
  shows "is_closed (ra_id (ld_attempt l)) (snd (record_success cfg l r d))"
proof -
  obtain l1 d1 where c: "close_attempt AttemptSucceeded [] l d = ((True, l1), d1)"
    using assms by (simp add: close_attempt_def)
  have "is_closed (ra_id (ld_attempt l)) d1"
    using close_attempt_closes [OF c] by (auto simp: is_closed_def)
  then show ?thesis
    by (simp add: record_success_def c Let_def split_beta hand_over_closed
        is_closed_cong [OF edit_other_tables(1)])
qed

lemma mark_failed_attempts: "attempts (snd (mark_failed k raw d)) = attempts d"
  by (auto simp: mark_failed_def Let_def edit_payment_def split: option.splits)

lemma email_decline_closed: "is_closed k (email_decline cfg l m x d) = is_closed k d"
  using is_closed_cong [OF send_mandate_email_attempts [of cfg "ld_user l" m "''renewal_failed''" x d], of k]
  by (auto simp: email_decline_def is_closed_edit split: prod.splits bool.splits)

lemma schedule_retry_closed: "is_closed k d \<Longrightarrow> is_closed k (schedule_retry l m x d)"
  by (simp add: schedule_retry_def schedule_attempt_closed split: option.splits)

lemma decline_mandate_closed:
  assumes "is_closed k d"
  shows "is_closed k (snd (decline_mandate cfg l today r d))"
proof -
  have "is_closed k (emit ev (edit_mandate j f d))" for ev j f
    using assms by (simp add: is_closed_def get_attempt_def emit_def edit_mandate_def)
  then show ?thesis by (simp add: decline_mandate_def Let_def schedule_retry_closed email_decline_closed)
qed

lemma record_failure_closes:
  assumes "holds_claim (ld_attempt l) d"
  shows "is_closed (ra_id (ld_attempt l)) (snd (record_failure cfg l p reason today r d))"
proof -
  obtain l1 d1 where c: "close_attempt AttemptFailed (take 255 reason) l d = ((True, l1), d1)"
    using assms by (simp add: close_attempt_def)
  have "is_closed (ra_id (ld_attempt l)) d1"
    using close_attempt_closes [OF c] by (auto simp: is_closed_def)
  then have "is_closed (ra_id (ld_attempt l)) (if p_status p \<noteq> Succeeded
      then snd (mark_failed (p_id p) (Some [(''error'', JStr reason)]) d1) else d1)"
    using is_closed_cong [OF mark_failed_attempts] by simp
  then show ?thesis by (simp add: record_failure_def c Let_def decline_mandate_closed)
qed

lemma lost_claim_changes_nothing:
  assumes "\<not> holds_claim (ld_attempt l) d"
  shows "record_success cfg l r d = (r, d)" and "record_failure cfg l p reason today r d = (r, d)"
  using assms by (simp_all add: record_success_def record_failure_def close_attempt_def)


subsection \<open>What a charge asks of the provider\<close>

text \<open>Nothing but the two calls of the gateway asks a provider anything.\<close>

named_theorems calls_frame \<open>steps that ask no provider\<close>

lemma edit_calls [calls_frame]:
  "provider_calls (edit_attempt k f d) = provider_calls d" "provider_calls (edit_payment k g d) = provider_calls d"
  "provider_calls (edit_mandate k h d) = provider_calls d" "provider_calls (emit e d) = provider_calls d"
  "next_pk (edit_attempt k f d) = next_pk d"
  by (simp_all add: edit_attempt_def edit_payment_def edit_mandate_def emit_def)

lemma paid_meanwhile_keeps:
  assumes "paid_meanwhile l dry d = ((b, l1), d1)" and "get_attempt d (ra_id (ld_attempt l)) = Some a"
  shows "ra_id (ld_attempt l1) = ra_id (ld_attempt l)" and "ra_payment (ld_attempt l1) = ra_payment (ld_attempt l)"
    and "\<exists>a1. get_attempt d1 (ra_id (ld_attempt l)) = Some a1 \<and> ra_payment a1 = ra_payment a"
    and "provider_calls d1 = provider_calls d" and "next_pk d1 = next_pk d"
  using assms
  by (auto simp: paid_meanwhile_def attempt_edit.get_edit edit_calls split: if_splits option.splits)

lemma release_calls [calls_frame]: "provider_calls (snd (release f l d)) = provider_calls d"
  by (simp add: release_def calls_frame)

lemma close_calls [calls_frame]: "provider_calls (snd (close_attempt x m l d)) = provider_calls d"
  by (simp add: close_attempt_def calls_frame)

lemma flag_calls [calls_frame]: "provider_calls (snd (flag l p m t d)) = provider_calls d"
  by (simp add: flag_def calls_frame split: option.splits)

lemma delete_payment_calls [calls_frame]: "provider_calls (delete_payment k d) = provider_calls d"
  by (simp add: delete_payment_def)

lemma finish_calls [calls_frame]: "provider_calls (finish_attempt x l d) = provider_calls d"
  by (simp add: finish_attempt_def calls_frame)

lemma release_callsD: "release f l d = (x, d1) \<Longrightarrow> provider_calls d1 = provider_calls d"
  by (metis release_calls snd_conv)

lemma postpone_calls [calls_frame]: "provider_calls (snd (postpone l p r b d)) = provider_calls d"
  by (auto simp: postpone_def calls_frame dest: release_callsD split: prod.splits bool.splits)

lemma hold_calls [calls_frame]: "provider_calls (snd (hold l p r d)) = provider_calls d"
  by (simp add: hold_def Let_def split_beta calls_frame split: option.splits)

lemma doubt_calls [calls_frame]: "provider_calls (snd (doubt l p m r d)) = provider_calls d"
  by (auto simp: doubt_def calls_frame dest: release_callsD split: prod.splits bool.splits)

lemma send_mandate_email_calls [calls_frame]:
  "provider_calls (snd (send_mandate_email cfg u m t x d)) = provider_calls d"
  by (simp add: send_mandate_email_def send_mail_def Let_def)

lemma send_mandate_email_callsD:
  "send_mandate_email cfg u m t x d = (b, d1) \<Longrightarrow> provider_calls d1 = provider_calls d"
  by (metis send_mandate_email_calls snd_conv)

lemma deliver_calls [calls_frame]: "provider_calls (deliver cfg x d) = provider_calls d"
  by (auto simp: deliver_def Let_def calls_frame dest: send_mandate_email_callsD
      split: delivery.splits prod.splits bool.splits option.splits)

lemma hand_over_calls [calls_frame]: "provider_calls (snd (hand_over cfg x r d)) = provider_calls d"
  by (simp add: hand_over_def calls_frame split: option.splits)

lemma record_success_calls [calls_frame]: "provider_calls (snd (record_success cfg l r d)) = provider_calls d"
proof (cases "close_attempt AttemptSucceeded [] l d")
  case (Pair bl d1)
  moreover have "provider_calls d1 = provider_calls d"
    using close_calls [of AttemptSucceeded "[]" l d] Pair by simp
  ultimately show ?thesis
    by (cases bl; cases "fst bl") (simp_all add: record_success_def Let_def split_beta calls_frame)
qed

lemma mark_failed_calls [calls_frame]: "provider_calls (snd (mark_failed k raw d)) = provider_calls d"
  by (auto simp: mark_failed_def Let_def edit_payment_def split: option.splits)

lemma schedule_attempt_calls [calls_frame]: "provider_calls (snd (schedule_attempt m t x a d)) = provider_calls d"
  by (simp add: schedule_attempt_def Let_def fresh_pk_def)

lemma decline_calls [calls_frame]: "provider_calls (snd (decline_mandate cfg l today r d)) = provider_calls d"
proof -
  have "provider_calls (email_decline cfg l m x d) = provider_calls d" for m x d
    by (auto simp: email_decline_def calls_frame dest: send_mandate_email_callsD
        split: prod.splits bool.splits)
  then show ?thesis
    by (simp add: decline_mandate_def Let_def schedule_retry_def calls_frame split: option.splits)
qed

lemma record_failure_calls [calls_frame]:
  "provider_calls (snd (record_failure cfg l p m today r d)) = provider_calls d"
proof (cases "close_attempt AttemptFailed (take 255 m) l d")
  case (Pair bl d1)
  moreover have "provider_calls d1 = provider_calls d"
    using close_calls [of AttemptFailed "take 255 m" l d] Pair by simp
  ultimately show ?thesis
    by (cases bl; cases "fst bl") (simp_all add: record_failure_def Let_def calls_frame)
qed

lemma skip_attempt_calls [calls_frame]: "provider_calls (snd (skip_attempt cfg l m r b d)) = provider_calls d"
proof -
  have "provider_calls (snd (roll_charge_date_past cfg u c d)) = provider_calls d" for u c d
    by (auto simp: roll_charge_date_past_def Let_def edit_mandate_def split: option.splits)
  then show ?thesis by (simp add: skip_attempt_def Let_def calls_frame)
qed

lemma create_checkout_calls [calls_frame]: "provider_calls (snd (create_checkout u s c pr d)) = provider_calls d"
  by (simp add: create_checkout_def Let_def fresh_pk_def split: sum.splits)

lemma snd_apfst_calls [calls_frame]: "provider_calls (snd (apfst f x)) = provider_calls (snd x)"
  by (cases x) simp

lemma record_answer_calls [calls_frame]:
  "provider_calls (snd (record_answer cfg l p b fresh today r answer d)) = provider_calls d"
  by (cases answer) (simp_all add: record_answer_def Let_def calls_frame)

lemma stamp_charge_calls [calls_frame]:
  "provider_calls (snd (stamp_charge m p d)) = provider_calls d" "p_id (fst (stamp_charge m p d)) = p_id p"
  by (simp_all add: stamp_charge_def Let_def calls_frame stamped_payment_def)

definition none_held :: "gateway \<Rightarrow> pk \<Rightarrow> bool" where
  \<comment> \<open>the provider has answered a lookup of the payment that it holds no charge for it\<close>
  "none_held gw k \<longleftrightarrow> (\<exists>m p d. p_id p = k \<and> fst (gw_find gw m p d) = NotTaken)"

text \<open>The calls a charge may have asked, given what the attempt's row held: \<open>new\<close> is a fresh payment.\<close>

definition allowed_calls :: "gateway \<Rightarrow> pk option \<Rightarrow> pk \<Rightarrow> provider_call list \<Rightarrow> bool" where
  "allowed_calls gw held new calls \<longleftrightarrow> calls = [] \<or> (case held of
     None \<Rightarrow> calls = [ChargeCall new]
   | Some k \<Rightarrow> calls = [FindCall k] \<or> calls = [FindCall k, ChargeCall k] \<and> none_held gw k)"

text \<open>
  What the provider interface promises (\<open>providers/base.py\<close>): a charge that was taken leaves its
  payment settled, and a provider writes nothing about the attempt it is asked for.
\<close>

locale payment_gateway =
  fixes gw :: gateway
  assumes charge_keeps: "gw_charge gw m p d = (answer, d')
      \<Longrightarrow> provider_calls d' = provider_calls d \<and> attempts d' = attempts d"
    and charge_taken: "gw_charge gw m p d = (Taken, d')
      \<Longrightarrow> \<exists>q. get_payment d' (p_id p) = Some q \<and> p_status q \<in> set settled_statuses"
    and find_keeps: "gw_find gw m p d = (answer, d')
      \<Longrightarrow> provider_calls d' = provider_calls d \<and> attempts d' = attempts d"
    and find_taken: "gw_find gw m p d = (Taken, d')
      \<Longrightarrow> \<exists>q. get_payment d' (p_id p) = Some q \<and> p_status q \<in> set settled_statuses"
begin

lemma ask_charge_calls:
  "provider_calls (snd (ask_charge gw m p d)) = provider_calls d @ [ChargeCall (p_id p)]"
  using charge_keeps [of m p "call_provider (ChargeCall (p_id p)) d"]
  by (cases "ask_charge gw m p d") (simp add: ask_charge_def call_provider_def)

lemma ask_find_calls:
  "ask_find gw m p d = (answer, d') \<Longrightarrow> provider_calls d' = provider_calls d @ [FindCall (p_id p)]"
  using find_keeps [of m p "call_provider (FindCall (p_id p)) d"]
  by (simp add: ask_find_def call_provider_def)

lemma take_charge_calls:
  "provider_calls (snd (take_charge cfg gw l p today r fresh d))
    \<in> {provider_calls d, provider_calls d @ [ChargeCall (p_id p)]}"
  by (simp add: take_charge_def Let_def split_beta calls_frame ask_charge_calls)

lemma not_held_calls:
  "provider_calls (snd (not_held cfg gw l p today r d))
    \<in> {provider_calls d, provider_calls d @ [ChargeCall (p_id p)]}"
  using take_charge_calls [of cfg l p today "record_charge l p r" False d]
  by (simp add: not_held_def Let_def calls_frame split: sum.splits option.splits)

lemma resume_calls:
  assumes "get_attempt d (ra_id (ld_attempt l)) = Some a" and "ra_payment a = Some k"
  shows "provider_calls (snd (resume cfg gw l today r d))
    \<in> {provider_calls d, provider_calls d @ [FindCall k]}
       \<union> (if none_held gw k then {provider_calls d @ [FindCall k, ChargeCall k]} else {})"
proof (cases "get_payment d k")
  case None
  with assms show ?thesis by (simp add: resume_def)
next
  case (Some p)
  have id: "p_id p = k" using Some by (rule get_payment_id)
  define l1 where "l1 = l\<lparr>ld_attempt := (ld_attempt l)\<lparr>ra_payment := Some k\<rparr>\<rparr>"
  obtain answer d1 where f: "ask_find gw (ld_mandate l1) p d = (answer, d1)" by (metis surj_pair)
  have d1: "provider_calls d1 = provider_calls d @ [FindCall k]" using ask_find_calls [OF f] id by simp
  have "provider_calls (snd (not_held cfg gw l1 p today r d1))
      \<in> {provider_calls d @ [FindCall k], provider_calls d @ [FindCall k, ChargeCall k]}"
    using not_held_calls [of cfg l1 p today r d1] d1 id by simp
  moreover have "none_held gw k" if "answer = NotTaken"
    unfolding none_held_def
    by (intro exI [of _ "ld_mandate l1"] exI [of _ p] exI [of _ "call_provider (FindCall k) d"])
      (use f id that in \<open>simp add: ask_find_def\<close>)
  ultimately show ?thesis using Some assms f d1 id
    by (cases answer) (auto simp: resume_def Let_def l1_def [symmetric] calls_frame split: option.splits)
qed

lemma start_charge_calls:
  "provider_calls (snd (start_charge cfg gw l today r d))
    \<in> {provider_calls d, provider_calls d @ [ChargeCall (next_pk d)]}"
proof -
  let ?c = "create_checkout (ld_user l) (map_option pl_slug (ld_plan l))
      (rm_contribution_cents (ld_mandate l)) (rm_provider (ld_mandate l)) d"
  obtain x d1 where c: "?c = (x, d1)" by (metis surj_pair)
  have d1: "provider_calls d1 = provider_calls d" using create_checkout_calls c by (metis snd_conv)
  show ?thesis
  proof (cases x)
    case (Inl e)
    with c d1 show ?thesis by (cases e) (simp_all add: start_charge_def Let_def calls_frame)
  next
    case (Inr p)
    have "p_id p = next_pk d"
      using c Inr by (auto simp: create_checkout_def Let_def fresh_pk_def new_payment_def split: sum.splits if_splits)
    moreover have "start_charge cfg gw l today r d = take_charge cfg gw
        (l\<lparr>ld_attempt := (ld_attempt l)\<lparr>ra_payment := Some (p_id p)\<rparr>\<rparr>) p today
        (record_action charge_kind (ld_user l) (Some (ra_scheduled_on (ld_attempt l)))
            (Some (loaded_amount_cents l)) [] r) True
        (edit_attempt (ra_id (ld_attempt l)) (\<lambda>a. a\<lparr>ra_payment := Some (p_id p)\<rparr>) d1)"
      using c Inr by (simp add: start_charge_def Let_def)
    ultimately show ?thesis using d1 by (metis take_charge_calls edit_calls(1))
  qed
qed

lemma charge_claimed_calls:
  assumes "get_attempt d (ra_id (ld_attempt l)) = Some a" and "ra_payment (ld_attempt l) = ra_payment a"
  shows "\<exists>calls. allowed_calls gw (ra_payment a) (next_pk d) calls
    \<and> provider_calls (snd (charge_claimed cfg gw l today r d)) = provider_calls d @ calls"
proof -
  define step where "step = (if ra_in_doubt (ld_attempt l) then paid_meanwhile l False d else ((True, l), d))"
  obtain b l1 d1 where s: "step = ((b, l1), d1)" by (metis surj_pair)
  obtain a1 where kept: "ra_id (ld_attempt l1) = ra_id (ld_attempt l)" "ra_payment (ld_attempt l1) = ra_payment a"
    "get_attempt d1 (ra_id (ld_attempt l)) = Some a1" "ra_payment a1 = ra_payment a"
    "provider_calls d1 = provider_calls d" "next_pk d1 = next_pk d"
  proof (cases "ra_in_doubt (ld_attempt l)")
    case True
    then have pm: "paid_meanwhile l False d = ((b, l1), d1)" using s by (simp add: step_def)
    from paid_meanwhile_keeps(3) [OF pm assms(1)] obtain a1 where
      "get_attempt d1 (ra_id (ld_attempt l)) = Some a1" "ra_payment a1 = ra_payment a" by blast
    with paid_meanwhile_keeps(1,2,4,5) [OF pm assms(1)] assms(2) that show thesis by simp
  next
    case False
    with s assms that show thesis by (simp add: step_def)
  qed
  show ?thesis
  proof (cases b)
    case False
    with s kept(5) show ?thesis
      by (auto simp: charge_claimed_def step_def [symmetric] calls_frame allowed_calls_def split: option.splits)
  next
    case True
    then have c: "charge_claimed cfg gw l today r d = (if ra_payment a \<noteq> None then resume cfg gw l1 today r d1
        else start_charge cfg gw l1 today r d1)"
      using s kept(2) by (simp add: charge_claimed_def step_def [symmetric])
    show ?thesis
    proof (cases "ra_payment a")
      case None
      with c start_charge_calls [of cfg l1 today r d1] kept(5,6) show ?thesis
        by (auto simp: allowed_calls_def)
    next
      case (Some k)
      then have r: "provider_calls (snd (charge_claimed cfg gw l today r d))
          \<in> {provider_calls d, provider_calls d @ [FindCall k]}
            \<union> (if none_held gw k then {provider_calls d @ [FindCall k, ChargeCall k]} else {})"
        using c resume_calls [of d1 l1 a1 k cfg today r] kept by (simp split: if_splits)
      define pc where "pc = provider_calls (snd (charge_claimed cfg gw l today r d))"
      have "pc = provider_calls d @ [] \<or> pc = provider_calls d @ [FindCall k]
          \<or> pc = provider_calls d @ [FindCall k, ChargeCall k] \<and> none_held gw k"
        using r unfolding pc_def [symmetric] by (auto split: if_splits)
      then show ?thesis unfolding allowed_calls_def Some option.case pc_def [symmetric] by blast
    qed
  qed
qed

lemma charge_calls:
  assumes "get_attempt d (ra_id (ld_attempt l)) = Some a"
  shows "\<exists>calls. allowed_calls gw (ra_payment a) (next_pk d) calls
    \<and> provider_calls (snd (charge cfg gw l today r dry d)) = provider_calls d @ calls"
proof -
  let ?none = "provider_calls (snd (charge cfg gw l today r dry d)) = provider_calls d"
  have none: ?thesis if ?none
    using that by (auto simp: allowed_calls_def split: option.splits)
  define step where "step = (if ra_in_doubt (ld_attempt l) then paid_meanwhile l dry d else ((True, l), d))"
  obtain b l1 d1 where s: "step = ((b, l1), d1)" by (metis surj_pair)
  obtain a1 where kept: "ra_id (ld_attempt l1) = ra_id (ld_attempt l)"
    "get_attempt d1 (ra_id (ld_attempt l)) = Some a1" "ra_payment a1 = ra_payment a"
    "provider_calls d1 = provider_calls d" "next_pk d1 = next_pk d"
  proof (cases "ra_in_doubt (ld_attempt l)")
    case True
    then have pm: "paid_meanwhile l dry d = ((b, l1), d1)" using s by (simp add: step_def)
    from paid_meanwhile_keeps(3) [OF pm assms(1)] obtain a1 where
      "get_attempt d1 (ra_id (ld_attempt l)) = Some a1" "ra_payment a1 = ra_payment a" by blast
    with paid_meanwhile_keeps(1,2,4,5) [OF pm assms(1)] that show thesis by simp
  next
    case False
    with s assms that show thesis by (simp add: step_def)
  qed
  show ?thesis
  proof (cases b)
    case False
    with s have "charge cfg gw l today r dry d = wait_in_doubt cfg l1 today r dry d1"
      by (simp add: charge_def step_def [symmetric])
    with kept(4) show ?thesis
      by (intro none) (simp add: wait_in_doubt_def Let_def calls_frame split: option.splits)
  next
    case True
    define why where "why = (if ra_payment (ld_attempt l1) = None \<or> dry then skip_reason d1 l1 today else Inr None)"
    have c: "charge cfg gw l today r dry d = (case why of Inl e \<Rightarrow> (Inl e, d1)
       | Inr (Some reason) \<Rightarrow> apfst Inr (skip_attempt cfg l1 reason r dry d1)
       | Inr None \<Rightarrow> if dry then (Inr (rehearse_charge l1 r), d1)
               else (case claim cfg l1 d1 of (Inl e, d) \<Rightarrow> (Inl e, d)
                     | (Inr None, d) \<Rightarrow> (Inr (record_skipped ''in_flight'' r), d)
                     | (Inr (Some l), d) \<Rightarrow> charge_claimed cfg gw l today r d))"
      using s True by (simp add: charge_def step_def [symmetric] why_def)
    show ?thesis
    proof (cases "why = Inr None \<and> \<not> dry")
      case False
      with c kept(4) show ?thesis
        by (intro none) (auto simp: calls_frame split: sum.splits option.splits)
    next
      case run: True
      obtain x d2 where cl: "claim cfg l1 d1 = (x, d2)" by (metis surj_pair)
      have d2: "provider_calls d2 = provider_calls d1"
        using cl by (auto simp: claim_def calls_frame split: sum.splits option.splits if_splits)
      show ?thesis
      proof (cases "\<exists>l2. x = Inr (Some l2)")
        case False
        with c run cl d2 kept(4) show ?thesis
          by (intro none) (auto split: sum.splits option.splits)
      next
        case True
        then obtain l2 where x: "x = Inr (Some l2)" by blast
        obtain a2 where "get_attempt d2 (ra_id (ld_attempt l2)) = Some a2"
          "ra_payment (ld_attempt l2) = ra_payment a2" "ra_payment a2 = ra_payment a" "next_pk d2 = next_pk d"
          using cl x kept
          by (auto simp: claim_def attempt_edit.get_edit edit_calls attempt_table.get_key
              split: sum.splits option.splits if_splits)
        with charge_claimed_calls [of d2 l2 a2 cfg today r] c run cl x d2 kept(4) show ?thesis by simp
      qed
    qed
  qed
qed

end

text \<open>The interpretation on the mock provider: its charges go through \<open>mark_succeeded\<close>.\<close>

lemma activate_term_asks_nobody:
  "provider_calls (snd (activate_term cfg u p src pay g so n d)) = provider_calls d"
  "attempts (snd (activate_term cfg u p src pay g so n d)) = attempts d"
  by (auto simp: activate_term_def Let_def split_beta create_term_def fresh_pk_def set_kind_def
      stamp_member_since_def table_simps edit_user_def audit_record_def emit_def split: option.splits)

lemma roll_asks_nobody:
  "provider_calls (snd (roll_charge_date_past cfg u c d)) = provider_calls d"
  "attempts (snd (roll_charge_date_past cfg u c d)) = attempts d"
  by (auto simp: roll_charge_date_past_def Let_def edit_mandate_def split: option.splits)

lemma activate_pending_asks_nobody:
  "provider_calls (snd (activate_pending_mandate cfg method_of u p d)) = provider_calls d"
  "attempts (snd (activate_pending_mandate cfg method_of u p d)) = attempts d"
  by (auto simp: activate_pending_mandate_def Let_def split_beta save_method_def put_mandate_def
      audit_record_def queue_mail_def emit_def split: option.splits)

lemma fulfill_asks_nobody:
  "provider_calls (fulfill_payment cfg method_of u p d) = provider_calls d"
  "attempts (fulfill_payment cfg method_of u p d) = attempts d"
  by (auto simp: fulfill_payment_def Let_def split_beta activate_pending_asks_nobody roll_asks_nobody
      activate_term_asks_nobody emit_def split: option.splits)

lemma mark_succeeded_asks_nobody:
  assumes "mark_succeeded cfg method_of k s d = (x, d')"
  shows "provider_calls d' = provider_calls d \<and> attempts d' = attempts d"
proof -
  have "provider_calls (apply_donor_fields u p d) = provider_calls d"
    "attempts (apply_donor_fields u p d) = attempts d" for u p d
    by (simp_all add: apply_donor_fields_def Let_def edit_user_def)
  moreover have "provider_calls (save_settled p d) = provider_calls d"
    "attempts (save_settled p d) = attempts d" for p d
    by (simp_all add: save_settled_def edit_payment_def)
  ultimately have "provider_calls (snd (complete_payment cfg method_of k s d)) = provider_calls d
      \<and> attempts (snd (complete_payment cfg method_of k s d)) = attempts d"
    by (simp add: complete_payment_def atomic_def complete_body_def rollback_def Let_def
        fulfill_asks_nobody split: option.splits)
  with assms show ?thesis
    by (auto simp: mark_succeeded_def queue_mail_def split: prod.splits sum.splits if_splits)
qed

lemma mock_charge_keeps:
  "mock_charge cfg m p d = (answer, d') \<Longrightarrow> provider_calls d' = provider_calls d \<and> attempts d' = attempts d"
  by (auto simp: mock_charge_def dest: mark_succeeded_asks_nobody split: prod.splits sum.splits if_splits)

lemma mock_charge_taken:
  "mock_charge cfg m p d = (Taken, d')
    \<Longrightarrow> \<exists>q. get_payment d' (p_id p) = Some q \<and> p_status q \<in> set settled_statuses"
  by (auto simp: mock_charge_def dest: mark_succeeded_settles split: prod.splits sum.splits if_splits)

interpretation mock: payment_gateway "mock_gateway cfg" for cfg
  by unfold_locales
    (auto simp: mock_gateway_def mock_find_def dest: mock_charge_keeps mock_charge_taken split: if_splits)

text \<open>C1: taking a charge asks the provider at most once for money, and a payment that was sent before
  is charged again only after the provider has been asked about it and has answered that it holds
  no charge: an attempt without a payment may charge the payment it has just written, one with a
  payment looks that payment up first.\<close>

theorem sent_payment_looked_up_first:
  assumes "payment_gateway gw" and "get_attempt d (ra_id (ld_attempt l)) = Some a"
  shows "\<exists>calls. provider_calls (snd (charge cfg gw l today r dry d)) = provider_calls d @ calls
    \<and> (calls = [] \<or> (case ra_payment a of
          None \<Rightarrow> calls = [ChargeCall (next_pk d)]
        | Some k \<Rightarrow> calls = [FindCall k]
            \<or> calls = [FindCall k, ChargeCall k] \<and> none_held gw k))"
  using payment_gateway.charge_calls [OF assms, of cfg today r dry] by (auto simp: allowed_calls_def)

subsection \<open>A charge to run the theorems on\<close>

definition due_attempt :: attempt where
  "due_attempt = new_attempt 8 5 (Some 1) 1300"

definition due_charge :: db where
  \<comment> \<open>the renewing member on day 1300, when the automatic renewal is due\<close>
  "due_charge = renewing_member\<lparr>mandates := [sample_mandate 5 1 (Some 1) 0 1300],
     attempts := [due_attempt]\<rparr>"

definition due_loaded :: loaded where
  "due_loaded = \<lparr>ld_attempt = due_attempt, ld_mandate = sample_mandate 5 1 (Some 1) 0 1300,
     ld_user = sample_user 1 Member, ld_plan = Some (sample_plan 1 ''Annual'' (Some 365)),
     ld_term = Some (sample_term 1 1 1 1000 (Some 1364))\<rparr>"

definition due_claimed :: "loaded \<times> db" where
  "due_claimed = (case claim sample_config due_loaded due_charge of
     (Inr (Some l), d) \<Rightarrow> (l, d) | (_, d) \<Rightarrow> (due_loaded, d))"

lemma due_loads: "due_attempts 1300 due_charge = [due_loaded]"
  by code_simp

lemma due_claim: "claim sample_config due_loaded due_charge = (Inr (Some (fst due_claimed)), snd due_claimed)"
  by (simp add: due_claimed_def claim_def stale_after_def sample_config_def minimum_stale_minutes_def
      due_charge_def due_loaded_def due_attempt_def new_attempt_def get_attempt_def claimable_def)

lemma due_claimed_held: "holds_claim (ld_attempt (fst due_claimed)) (snd due_claimed)"
  by code_simp

theorem claim_is_exclusive_witness:
  "claim sample_config due_loaded ((snd due_claimed)\<lparr>clock := clock due_charge + 60\<rparr>)
    = (Inr None, (snd due_claimed)\<lparr>clock := clock due_charge + 60\<rparr>)"
  by (rule claim_is_exclusive [OF due_claim refl, of 3600])
    (simp_all add: stale_after_def sample_config_def minimum_stale_minutes_def)


theorem sent_payment_looked_up_first_witness:
  "\<exists>calls. provider_calls (snd (charge sample_config (mock_gateway sample_config) due_loaded 1300
      (new_run 1300 False False) False due_charge)) = provider_calls due_charge @ calls
    \<and> (calls = [] \<or> calls = [ChargeCall 100])"
proof -
  have "get_attempt due_charge (ra_id (ld_attempt due_loaded)) = Some due_attempt"
    "ra_payment due_attempt = None" "next_pk due_charge = 100"
    by code_simp+
  with sent_payment_looked_up_first [OF mock.payment_gateway_axioms, of due_charge due_loaded due_attempt]
  show ?thesis by simp
qed

subsection \<open>A charge in doubt\<close>

text \<open>C23: a charge held in doubt whose payment has not gone through since is left to the treasurer: the
  scan counts it as skipped, asks no provider, and moves neither the payment, the mandate nor the
  term; at most the treasurer is told once more that it is waiting.\<close>

theorem in_doubt_waits:
  assumes "ra_in_doubt (ld_attempt l)" and "ra_payment (ld_attempt l) = Some k"
    and "get_attempt d (ra_id (ld_attempt l)) = Some (ld_attempt l)" and "get_payment d k = Some p"
    and "list_all (\<lambda>p. p_id p = k \<longrightarrow> p_status p \<noteq> Succeeded) (payments d)"
  shows "\<exists>evs. (evs = [] \<or> (\<exists>why. evs = [RenewalNeedsChecking (ra_id (ld_attempt l)) k why]))
    \<and> charge cfg gw l today r dry d = (Inr (record_skipped ''in_doubt'' r),
        if evs = [] then d
        else (edit_attempt (ra_id (ld_attempt l)) (\<lambda>a. a\<lparr>ra_flagged_at := Some (clock d)\<rparr>) d)
          \<lparr>events := events d @ evs\<rparr>)"
proof -
  have id: "p_id p = k" using assms(4) by (rule get_payment_id)
  have "\<not> list_ex (\<lambda>p. p_id p = k \<and> p_status p = Succeeded) (payments d)"
    using assms(5) by (auto simp: list_all_iff list_ex_iff)
  then have c: "charge cfg gw l today r dry d = wait_in_doubt cfg l today r dry d"
    using assms(1,2) by (simp add: charge_def paid_meanwhile_def)
  let ?quiet = "charge cfg gw l today r dry d = (Inr (record_skipped ''in_doubt'' r), d)"
  let ?told = "charge cfg gw l today r dry d = (Inr (record_skipped ''in_doubt'' r),
      snd (flag l p lapsed_in_doubt_message (ra_flagged_at (ld_attempt l)) d))"
  have "?quiet \<or> ?told"
    unfolding c wait_in_doubt_def Let_def using assms(2-4)
    by (auto split: option.splits)
  then show ?thesis
  proof
    assume ?quiet
    then show ?thesis by (intro exI [of _ "[]"]) simp
  next
    assume told: ?told
    have "snd (flag l p lapsed_in_doubt_message (ra_flagged_at (ld_attempt l)) d)
        = (edit_attempt (ra_id (ld_attempt l)) (\<lambda>a. a\<lparr>ra_flagged_at := Some (clock d)\<rparr>) d)
          \<lparr>events := events d @ [RenewalNeedsChecking (ra_id (ld_attempt l)) k lapsed_in_doubt_message]\<rparr>"
      using assms(3) id by (simp add: flag_def emit_def edit_attempt_def)
    with told show ?thesis
      by (intro exI [of _ "[RenewalNeedsChecking (ra_id (ld_attempt l)) k lapsed_in_doubt_message]"]) simp
  qed
qed

definition doubted_loaded :: loaded where
  "doubted_loaded = due_loaded\<lparr>ld_attempt := due_attempt\<lparr>ra_in_doubt := True, ra_payment := Some 7\<rparr>\<rparr>"

definition doubted_charge :: db where
  "doubted_charge = due_charge\<lparr>attempts := [ld_attempt doubted_loaded],
     payments := [(sample_payment 7 1 (Some 1) 4500)\<lparr>p_provider := PayPal\<rparr>]\<rparr>"

theorem in_doubt_waits_witness:
  "\<exists>d'. charge sample_config (mock_gateway sample_config) doubted_loaded 1400 (new_run 1400 False False) False
      doubted_charge = (Inr (record_skipped ''in_doubt'' (new_run 1400 False False)), d')"
proof -
  let ?p = "(sample_payment 7 1 (Some 1) 4500)\<lparr>p_provider := PayPal\<rparr>"
  have "ra_in_doubt (ld_attempt doubted_loaded)" "ra_payment (ld_attempt doubted_loaded) = Some 7"
    "get_attempt doubted_charge (ra_id (ld_attempt doubted_loaded)) = Some (ld_attempt doubted_loaded)"
    "get_payment doubted_charge 7 = Some ?p"
    "list_all (\<lambda>p. p_id p = 7 \<longrightarrow> p_status p \<noteq> Succeeded) (payments doubted_charge)"
    by code_simp+
  from in_doubt_waits [OF this] show ?thesis by blast
qed

subsection \<open>The retry ladder\<close>

definition waiting :: "pk \<Rightarrow> db \<Rightarrow> attempt list" where
  \<comment> \<open>the charges scheduled for a mandate\<close>
  "waiting k d = filter (\<lambda>a. ra_mandate a = k \<and> ra_outcome a = Scheduled) (attempts d)"

lemma waiting_cong: "attempts d' = attempts d \<Longrightarrow> waiting k d' = waiting k d"
  by (simp add: waiting_def)

lemma waiting_edit_Nil:
  assumes "\<And>a. ra_mandate (f a) = ra_mandate a" and "\<And>a. ra_outcome (f a) = ra_outcome a"
  shows "waiting k (edit_attempt j f d) = [] \<longleftrightarrow> waiting k d = []"
proof -
  have "filter (\<lambda>a. ra_mandate a = k \<and> ra_outcome a = Scheduled) (rows_update (\<lambda>r. ra_id r = j) f as) = []
      \<longleftrightarrow> filter (\<lambda>a. ra_mandate a = k \<and> ra_outcome a = Scheduled) as = []" for as
    using assms by (induction as) auto
  then show ?thesis by (simp add: waiting_def edit_attempt_def)
qed

lemma email_decline_waiting: "waiting k (email_decline cfg l m x d) = [] \<longleftrightarrow> waiting k d = []"
  using waiting_cong [OF send_mandate_email_attempts [of cfg "ld_user l" m "''renewal_failed''" x d], of k]
  by (auto simp: email_decline_def waiting_edit_Nil split: prod.splits bool.splits)

lemma email_decline_mandates: "mandates (email_decline cfg l m x d) = mandates d"
proof -
  have "mandates d1 = mandates d" if "send_mandate_email cfg u m t x d = (b, d1)" for u m t x b d1
    using that by (auto simp: send_mandate_email_def send_mail_def Let_def split: if_splits)
  then show ?thesis
    by (auto simp: email_decline_def edit_attempt_def split: prod.splits bool.splits)
qed

lemma schedule_retry_waiting:
  assumes "waiting (rm_id m) d = []"
  shows "mandates (schedule_retry l m x d) = mandates d"
    and "waiting (rm_id m) (schedule_retry l m x d) = (case x of None \<Rightarrow> []
      | Some on_day \<Rightarrow> [(new_attempt (next_pk d) (rm_id m) (map_option m_id (ld_term l)) on_day)
          \<lparr>ra_retry_of := Some (ra_id (ld_attempt l)), ra_noticed_at := ra_noticed_at (ld_attempt l)\<rparr>])"
proof -
  have "\<not> list_ex (\<lambda>a. ra_mandate a = rm_id m \<and> ra_outcome a = Scheduled) (attempts d)"
    using assms by (auto simp: waiting_def list_ex_iff filter_empty_conv)
  then show "mandates (schedule_retry l m x d) = mandates d"
    "waiting (rm_id m) (schedule_retry l m x d) = (case x of None \<Rightarrow> []
      | Some on_day \<Rightarrow> [(new_attempt (next_pk d) (rm_id m) (map_option m_id (ld_term l)) on_day)
          \<lparr>ra_retry_of := Some (ra_id (ld_attempt l)), ra_noticed_at := ra_noticed_at (ld_attempt l)\<rparr>])"
    using assms
    by (auto simp: schedule_retry_def schedule_attempt_def fresh_pk_def Let_def waiting_def new_attempt_def
        split: option.splits)
qed

lemma decline_mandate_result:
  assumes "waiting (rm_id (ld_mandate l)) d = []"
  shows "mandates (snd (decline_mandate cfg l today r d)) = rows_update (\<lambda>x. rm_id x = rm_id (ld_mandate l))
      (\<lambda>x. x\<lparr>rm_failure_count := rm_failure_count (ld_mandate l) + 1,
         rm_status := (if retry_on today (rm_failure_count (ld_mandate l) + 1) = None then MandatePaused
            else rm_status (ld_mandate l))\<rparr>) (mandates d)"
    and "case retry_on today (rm_failure_count (ld_mandate l) + 1) of
        None \<Rightarrow> waiting (rm_id (ld_mandate l)) (snd (decline_mandate cfg l today r d)) = []
      | Some on_day \<Rightarrow> \<exists>a. waiting (rm_id (ld_mandate l)) (snd (decline_mandate cfg l today r d)) = [a]
          \<and> ra_scheduled_on a = on_day \<and> ra_retry_of a = Some (ra_id (ld_attempt l))"
    and "rr_failed (fst (decline_mandate cfg l today r d)) = rr_failed r"
proof -
  define x where "x = retry_on today (rm_failure_count (ld_mandate l) + 1)"
  define m where "m = declined_mandate x (ld_mandate l)"
  define d1 where "d1 = emit (AutoRenewalDeclined (rm_id m) (ra_error (ld_attempt l)) x)
      (edit_mandate (rm_id m) (\<lambda>y. y\<lparr>rm_failure_count := rm_failure_count m, rm_status := rm_status m\<rparr>) d)"
  have id: "rm_id m = rm_id (ld_mandate l)" by (simp add: m_def declined_mandate_def)
  have "waiting (rm_id m) d1 = waiting (rm_id m) d"
    by (rule waiting_cong) (simp add: d1_def emit_def edit_mandate_def)
  with assms id have w: "waiting (rm_id m) (email_decline cfg l m x d1) = []"
    by (simp add: email_decline_waiting)
  have res: "snd (decline_mandate cfg l today r d) = schedule_retry l m x (email_decline cfg l m x d1)"
    by (simp add: decline_mandate_def Let_def x_def m_def d1_def)
  show "mandates (snd (decline_mandate cfg l today r d)) = rows_update (\<lambda>x. rm_id x = rm_id (ld_mandate l))
      (\<lambda>x. x\<lparr>rm_failure_count := rm_failure_count (ld_mandate l) + 1,
         rm_status := (if retry_on today (rm_failure_count (ld_mandate l) + 1) = None then MandatePaused
            else rm_status (ld_mandate l))\<rparr>) (mandates d)"
    unfolding res schedule_retry_waiting(1) [OF w]
    by (simp add: email_decline_mandates d1_def emit_def edit_mandate_def m_def declined_mandate_def x_def)
  show "case retry_on today (rm_failure_count (ld_mandate l) + 1) of
        None \<Rightarrow> waiting (rm_id (ld_mandate l)) (snd (decline_mandate cfg l today r d)) = []
      | Some on_day \<Rightarrow> \<exists>a. waiting (rm_id (ld_mandate l)) (snd (decline_mandate cfg l today r d)) = [a]
          \<and> ra_scheduled_on a = on_day \<and> ra_retry_of a = Some (ra_id (ld_attempt l))"
    unfolding res id [symmetric] schedule_retry_waiting(2) [OF w] x_def [symmetric]
    by (auto simp: new_attempt_def split: option.splits)
  show "rr_failed (fst (decline_mandate cfg l today r d)) = rr_failed r"
    by (simp add: decline_mandate_def Let_def record_action_def)
qed

lemma close_attempt_waiting:
  assumes "close_attempt outcome msg l d = ((True, l1), d1)" and "outcome \<noteq> Scheduled"
    and "list_all (\<lambda>a. ra_id a = ra_id (ld_attempt l)) (waiting k d)"
  shows "waiting k d1 = []"
  using assms
  by (auto simp: close_attempt_def waiting_def edit_attempt_def filter_empty_conv set_rows_update
      list_all_iff split: if_splits)

lemma record_failure_active:
  assumes "holds_claim (ld_attempt l) d" and "rm_status (ld_mandate l) = MandateActive"
    and "list_all (\<lambda>a. ra_id a = ra_id (ld_attempt l)) (waiting (rm_id (ld_mandate l)) d)"
  obtains l1 d1 where "ld_mandate l1 = ld_mandate l" "ra_id (ld_attempt l1) = ra_id (ld_attempt l)"
    "waiting (rm_id (ld_mandate l)) d1 = []" "mandates d1 = mandates d"
    "record_failure cfg l p why today r d = decline_mandate cfg l1 today (r\<lparr>rr_failed := rr_failed r + 1\<rparr>) d1"
proof -
  obtain l1 d0 where c: "close_attempt AttemptFailed (take 255 why) l d = ((True, l1), d0)"
    using assms(1) by (simp add: close_attempt_def)
  have l1: "ld_mandate l1 = ld_mandate l" "ra_id (ld_attempt l1) = ra_id (ld_attempt l)"
    "mandates d0 = mandates d"
    using c by (auto simp: close_attempt_def edit_attempt_def split: if_splits)
  define d1 where "d1 = (if p_status p \<noteq> Succeeded
      then snd (mark_failed (p_id p) (Some [(''error'', JStr why)]) d0) else d0)"
  have "attempts d1 = attempts d0" by (simp add: d1_def mark_failed_attempts)
  from waiting_cong [OF this] have w: "waiting (rm_id (ld_mandate l)) d1 = []"
    using close_attempt_waiting [OF c _ assms(3)] by simp
  have "mandates d1 = mandates d0"
    by (auto simp: d1_def mark_failed_def Let_def edit_payment_def split: option.splits)
  then show thesis
    using that [OF l1(1,2) w] l1 c assms(2) by (simp add: record_failure_def d1_def [symmetric])
qed

text \<open>C22: a declined charge climbs the retry ladder: the first three failures keep the mandate active and
  schedule exactly one retry, one, three and seven days on, that names the attempt it retries; the
  fourth pauses the mandate and leaves nothing scheduled.\<close>

theorem decline_climbs_ladder:
  assumes "holds_claim (ld_attempt l) d" and "get_mandate d (rm_id m) = Some m" and "ld_mandate l = m"
    and "rm_status m = MandateActive" and "list_all (\<lambda>a. ra_id a = ra_id (ld_attempt l)) (waiting (rm_id m) d)"
    and "record_failure cfg l p why today r d = (r', d')"
  shows "rr_failed r' = rr_failed r + 1
    \<and> get_mandate d' (rm_id m) = Some (m\<lparr>rm_failure_count := rm_failure_count m + 1,
        rm_status := (if rm_failure_count m < 3 then MandateActive else MandatePaused)\<rparr>)
    \<and> (if rm_failure_count m < 3
       then \<exists>a. waiting (rm_id m) d' = [a] \<and> ra_retry_of a = Some (ra_id (ld_attempt l))
         \<and> ra_scheduled_on a = today + (if rm_failure_count m = 0 then 1
              else if rm_failure_count m = 1 then 3 else 7)
       else waiting (rm_id m) d' = [])"
proof -
  obtain l1 d1 where l1: "ld_mandate l1 = m" "ra_id (ld_attempt l1) = ra_id (ld_attempt l)"
    "waiting (rm_id (ld_mandate l1)) d1 = []" "mandates d1 = mandates d"
    and res: "decline_mandate cfg l1 today (r\<lparr>rr_failed := rr_failed r + 1\<rparr>) d1 = (r', d')"
    using record_failure_active [of l d cfg p why today r] assms by metis
  note dm = decline_mandate_result [OF l1(3), of cfg today "r\<lparr>rr_failed := rr_failed r + 1\<rparr>",
      unfolded res fst_conv snd_conv l1(1,2)]
  have three: "retry_on today (rm_failure_count m + 1) = (if rm_failure_count m < 3
      then Some (today + (if rm_failure_count m = 0 then 1 else if rm_failure_count m = 1 then 3 else 7)) else None)"
    by (auto simp: retry_on_def retry_offsets_def less_Suc_eq numeral_3_eq_3)
  have "get_mandate d' (rm_id m) = Some (m\<lparr>rm_failure_count := rm_failure_count m + 1,
      rm_status := (if rm_failure_count m < 3 then MandateActive else MandatePaused)\<rparr>)"
    using assms(2,4) dm(1) l1(4) three by (simp add: get_mandate_def row_get_rows_edit)
  with dm(2,3) three show ?thesis by (auto split: if_splits)
qed

theorem decline_climbs_ladder_witness:
  "\<exists>r' d'. record_failure sample_config (fst due_claimed) (sample_payment 7 1 (Some 1) 4500) ''Declined'' 1300
      (new_run 1300 False False) (snd due_claimed) = (r', d')
    \<and> (\<exists>a. waiting 5 d' = [a] \<and> ra_scheduled_on a = 1301)"
proof -
  let ?m = "sample_mandate 5 1 (Some 1) 0 1300"
  obtain r' d' where f: "record_failure sample_config (fst due_claimed) (sample_payment 7 1 (Some 1) 4500)
      ''Declined'' 1300 (new_run 1300 False False) (snd due_claimed) = (r', d')" by (metis surj_pair)
  have "get_mandate (snd due_claimed) (rm_id ?m) = Some ?m" "ld_mandate (fst due_claimed) = ?m"
    "rm_status ?m = MandateActive"
    "list_all (\<lambda>a. ra_id a = ra_id (ld_attempt (fst due_claimed))) (waiting (rm_id ?m) (snd due_claimed))"
    by code_simp+
  note ladder = decline_climbs_ladder [OF due_claimed_held this f]
  have "rm_id ?m = 5" "rm_failure_count ?m = 0" by (simp_all add: sample_mandate_def)
  with ladder f show ?thesis by auto
qed

subsection \<open>A mandate canceled while its charge was out\<close>

text \<open>The status a decline writes back is the one the scan loaded, not the one in the table: a mandate
  that was turned off after the scan read it, while its charge was out, is active again after the
  decline, still carrying the moment it was canceled, and a retry is scheduled for it.\<close>

theorem decline_revives_canceled:
  assumes "holds_claim (ld_attempt l) d" and "get_mandate d (rm_id (ld_mandate l)) = Some m"
    and "rm_status m = MandateCanceled" and "rm_status (ld_mandate l) = MandateActive"
    and "rm_failure_count (ld_mandate l) < 3"
    and "list_all (\<lambda>a. ra_id a = ra_id (ld_attempt l)) (waiting (rm_id (ld_mandate l)) d)"
    and "record_failure cfg l p why today r d = (r', d')"
  shows "\<exists>m'. get_mandate d' (rm_id (ld_mandate l)) = Some m' \<and> rm_status m' = MandateActive
    \<and> rm_canceled_at m' = rm_canceled_at m \<and> length (waiting (rm_id (ld_mandate l)) d') = 1"
proof -
  obtain l1 d1 where l1: "ld_mandate l1 = ld_mandate l" "ra_id (ld_attempt l1) = ra_id (ld_attempt l)"
    "waiting (rm_id (ld_mandate l1)) d1 = []" "mandates d1 = mandates d"
    and res: "decline_mandate cfg l1 today (r\<lparr>rr_failed := rr_failed r + 1\<rparr>) d1 = (r', d')"
    using record_failure_active [of l d cfg p why today r] assms by metis
  note dm = decline_mandate_result [OF l1(3), of cfg today "r\<lparr>rr_failed := rr_failed r + 1\<rparr>",
      unfolded res fst_conv snd_conv l1(1,2)]
  have "\<exists>x. retry_on today (rm_failure_count (ld_mandate l) + 1) = Some x"
    using assms(5) by (simp add: retry_on_def retry_offsets_def)
  then show ?thesis
    using assms(2,4) dm(1,2) l1(4) by (auto simp: get_mandate_def row_get_rows_edit)
qed

definition canceled_in_flight :: db where
  \<comment> \<open>the member turns the renewal off while the claimed charge, its payment written, is at the provider\<close>
  "canceled_in_flight = snd (cancel_mandate (sample_mandate 5 1 (Some 1) 0 1300) (Some 1) None None
     ((snd due_claimed)\<lparr>payments := [sample_payment 7 1 (Some 1) 4500],
        attempts := map (\<lambda>a. a\<lparr>ra_payment := Some 7\<rparr>) (attempts (snd due_claimed))\<rparr>))"

theorem decline_revives_canceled_witness:
  "\<exists>r' d' m'. record_failure sample_config (fst due_claimed) (sample_payment 7 1 (Some 1) 4500) ''Declined'' 1300
      (new_run 1300 False False) canceled_in_flight = (r', d')
    \<and> get_mandate d' 5 = Some m' \<and> rm_status m' = MandateActive \<and> rm_canceled_at m' \<noteq> None"
proof -
  let ?l = "fst due_claimed"
  obtain r' d' where f: "record_failure sample_config ?l (sample_payment 7 1 (Some 1) 4500)
      ''Declined'' 1300 (new_run 1300 False False) canceled_in_flight = (r', d')" by (metis surj_pair)
  have held: "holds_claim (ld_attempt ?l) canceled_in_flight"
    "rm_status (ld_mandate ?l) = MandateActive" "rm_failure_count (ld_mandate ?l) < 3"
    "list_all (\<lambda>a. ra_id a = ra_id (ld_attempt ?l)) (waiting (rm_id (ld_mandate ?l)) canceled_in_flight)"
    "rm_id (ld_mandate ?l) = 5"
    by code_simp+
  have "case get_mandate canceled_in_flight (rm_id (ld_mandate ?l)) of None \<Rightarrow> False
      | Some m \<Rightarrow> rm_status m = MandateCanceled \<and> rm_canceled_at m \<noteq> None" by code_simp
  then obtain m where m: "get_mandate canceled_in_flight (rm_id (ld_mandate ?l)) = Some m"
    "rm_status m = MandateCanceled" "rm_canceled_at m \<noteq> None" by (auto split: option.splits)
  from decline_revives_canceled [OF held(1) m(1,2) held(2-4) f] f m(3) held(5) show ?thesis by auto
qed

subsection \<open>The treasurer's answer\<close>

lemma deliver_closed_tables:
  "mandates (deliver cfg (DeliverClosed k m u) d) = mandates d"
  "payments (deliver cfg (DeliverClosed k m u) d) = payments d"
  "terms (deliver cfg (DeliverClosed k m u) d) = terms d"
proof -
  have e: "mandates d1 = mandates d \<and> payments d1 = payments d \<and> terms d1 = terms d"
    if "send_mandate_email cfg u m t x d = (b, d1)" for u m t x b d1
    using that by (auto simp: send_mandate_email_def send_mail_def Let_def split: if_splits)
  show "mandates (deliver cfg (DeliverClosed k m u) d) = mandates d"
    "payments (deliver cfg (DeliverClosed k m u) d) = payments d"
    "terms (deliver cfg (DeliverClosed k m u) d) = terms d"
    by (auto simp: deliver_def edit_attempt_def dest: e split: prod.splits bool.splits)
qed

text \<open>An answer the treasurer's screen refuses, or that the provider does not confirm, leaves every
  table, event and queued message as it was.\<close>

theorem settle_refused_writes_nothing:
  assumes "settle_in_doubt cfg gw k outcome reference actor defer d = (Inl e, d')"
  shows "\<exists>lines mails calls. d' = d\<lparr>audit_log := lines, outbox := mails, provider_calls := calls\<rparr>"
  using assms
  by (auto simp: settle_in_doubt_def atomic_def rollback_def Let_def split: prod.splits sum.splits)

theorem settle_refused_writes_nothing_witness:
  "\<exists>e lines mails calls. settle_in_doubt sample_config (mock_gateway sample_config) 8 SettlePaid ''x'' 1 False due_charge
    = (Inl e, due_charge\<lparr>audit_log := lines, outbox := mails, provider_calls := calls\<rparr>)"
proof -
  let ?s = "settle_in_doubt sample_config (mock_gateway sample_config) 8 SettlePaid ''x'' 1 False due_charge"
  have "case fst ?s of Inl e \<Rightarrow> True | Inr x \<Rightarrow> False" by code_simp
  then obtain e d' where "?s = (Inl e, d')" by (cases ?s) (auto split: sum.splits)
  with settle_refused_writes_nothing [OF this] show ?thesis by auto
qed

lemma deliver_closed_attempt:
  assumes "get_attempt d k = Some a"
  shows "\<exists>a'. get_attempt (deliver cfg (DeliverClosed j m u) d) k = Some a'
    \<and> ra_outcome a' = ra_outcome a \<and> ra_in_doubt a' = ra_in_doubt a"
proof -
  have e: "get_attempt d1 k = Some a" if "send_mandate_email cfg u m t x d = (b, d1)" for t x b d1
    using send_mandate_email_attempts [of cfg u m t x d] assms that by (simp add: get_attempt_def)
  obtain b d1 where m: "send_mandate_email cfg u m ''renewal_failed'' None d = (b, d1)" by (metis surj_pair)
  from e [OF m] m show ?thesis by (cases b; cases "k = j") (simp_all add: deliver_def attempt_edit.get_edit)
qed

lemma settle_body_found:
  assumes "get_attempt d k = Some a" and "load_attempt d a = Some l" and "ra_in_doubt a"
    and "ra_outcome a = Scheduled" and "ra_payment a = Some j" and "get_payment d j = Some p"
    and "p_status p \<notin> set settled_statuses"
  shows "ld_attempt l = a" and "settle_checked l p SettleReleased = None" and "settle_checked l p SettleFailed = None"
    and "get_mandate d (ra_mandate a) = Some (ld_mandate l)" and "ra_id a = k" and "p_id p = j"
    and "rm_id (ld_mandate l) = ra_mandate a"
  using assms get_payment_id [OF assms(6)] attempt_table.get_key [OF assms(1)]
  by (auto simp: load_attempt_def settle_checked_def dest: mandate_table.get_key split: option.splits)

text \<open>A charge the treasurer releases is put back as it was before it was sent: scheduled, unclaimed
  and out of doubt, with the same payment, which the next scan charges; the mandate stays as it is
  and no provider is asked.\<close>

theorem settle_released:
  assumes "get_attempt d k = Some a" and "load_attempt d a = Some l" and "ra_in_doubt a"
    and "ra_outcome a = Scheduled" and "ra_payment a = Some j" and "get_payment d j = Some p"
    and "p_status p \<notin> set settled_statuses"
  shows "\<exists>d'. settle_in_doubt cfg gw k SettleReleased reference actor defer d
      = (Inr (Some (a\<lparr>ra_in_doubt := False, ra_flagged_at := None, ra_attempted_at := None, ra_error := []\<rparr>), []), d')
    \<and> get_payment d' j = Some (p\<lparr>p_charge_sent_at := None\<rparr>) \<and> mandates d' = mandates d
    \<and> provider_calls d' = provider_calls d"
proof -
  note f = settle_body_found [OF assms]
  have "a\<lparr>ra_outcome := Scheduled\<rparr> = a" using assms(4) by simp
  then show ?thesis
    using assms f
    by (simp add: settle_in_doubt_def atomic_def settle_body_def Let_def settle_payment_def audit_record_def
        attempt_edit.get_edit payment_edit.get_edit get_attempt_def get_payment_def edit_payment_def
        edit_attempt_def row_get_rows_edit settled_attempt_def)
qed

lemma close_unpaid_result:
  assumes "get_payment d (p_id p) = Some q" and "p_status q \<notin> set settled_statuses" and "p_status p \<noteq> Succeeded"
    and "get_mandate d (rm_id (ld_mandate l)) = Some (ld_mandate l)"
    and "close_unpaid l p d = (paused, d')"
  shows "attempts d' = attempts d" and "terms d' = terms d" and "provider_calls d' = provider_calls d"
    and "\<exists>q. get_payment d' (p_id p) = Some q \<and> p_status q = Failed"
    and "get_mandate d' (rm_id (ld_mandate l)) = Some ((ld_mandate l)\<lparr>rm_status :=
      (if rm_status (ld_mandate l) = MandateActive then MandatePaused else rm_status (ld_mandate l))\<rparr>)"
proof -
  have mf: "snd (mark_failed (p_id p) (Some raw) d) = edit_payment (p_id p)
      (\<lambda>r. r\<lparr>p_status := Failed, p_raw := raw\<rparr>) d" for raw
    using assms(1,2) by (simp add: mark_failed_def Let_def)
  show "attempts d' = attempts d" "terms d' = terms d" "provider_calls d' = provider_calls d"
    "\<exists>q. get_payment d' (p_id p) = Some q \<and> p_status q = Failed"
    "get_mandate d' (rm_id (ld_mandate l)) = Some ((ld_mandate l)\<lparr>rm_status :=
      (if rm_status (ld_mandate l) = MandateActive then MandatePaused else rm_status (ld_mandate l))\<rparr>)"
    using assms
    by (auto simp: close_unpaid_def Let_def mf emit_def edit_mandate_def edit_payment_def get_payment_def
        get_mandate_def row_get_rows_edit split: if_splits)
qed

text \<open>A charge the treasurer closes is failed together with its payment, and an active mandate is
  paused; no term moves and no provider is asked.\<close>

theorem settle_failed:
  assumes "get_attempt d k = Some a" and "load_attempt d a = Some l" and "ra_in_doubt a"
    and "ra_outcome a = Scheduled" and "ra_payment a = Some j" and "get_payment d j = Some p"
    and "p_status p \<notin> set settled_statuses"
  shows "\<exists>a' later d'. settle_in_doubt cfg gw k SettleFailed reference actor defer d = (Inr (Some a', later), d')
    \<and> ra_outcome a' = AttemptFailed \<and> \<not> ra_in_doubt a' \<and> provider_calls d' = provider_calls d
    \<and> terms d' = terms d \<and> (\<exists>q. get_payment d' j = Some q \<and> p_status q = Failed)
    \<and> get_mandate d' (ra_mandate a) = Some ((ld_mandate l)\<lparr>rm_status :=
          (if rm_status (ld_mandate l) = MandateActive then MandatePaused else rm_status (ld_mandate l))\<rparr>)"
proof -
  note f = settle_body_found [OF assms]
  define d1 where "d1 = edit_attempt k (settled_attempt SettleFailed) d"
  define l1 where "l1 = l\<lparr>ld_attempt := settled_attempt SettleFailed a\<rparr>"
  obtain paused d2 where c: "close_unpaid l1 p d1 = (paused, d2)" by (metis surj_pair)
  have m1: "get_payment d1 (p_id p) = Some p" "p_status p \<noteq> Succeeded"
    "get_mandate d1 (rm_id (ld_mandate l1)) = Some (ld_mandate l1)" "ld_mandate l1 = ld_mandate l"
    using assms f by (simp_all add: d1_def l1_def edit_attempt_def get_payment_def get_mandate_def settled_statuses_def)
  note r = close_unpaid_result [OF m1(1) assms(7) m1(2,3) c]
  have a1: "get_attempt d1 k = Some (settled_attempt SettleFailed a)"
    using assms(1) by (simp add: d1_def attempt_edit.get_edit settled_attempt_def)
  define closed where "closed = (if paused
      then [DeliverClosed k ((ld_mandate l)\<lparr>rm_status := MandatePaused\<rparr>) (ld_user l)] else [])"
  define d3 where "d3 = audit_record ''renewal.settle'' (Account actor) (Some (u_id (ld_user l)))
      [(''attempt'', AInt (int k)), (''payment'', AInt (int (p_id p))), (''outcome'', ASlug (settle_slug SettleFailed)),
       (''reference'', ASlug (if reference = [] then [] else safe_slug reference))] d2"
  define d4 where "d4 = (if defer then d3 else fold (deliver cfg) closed d3)"
  have s: "settle_in_doubt cfg gw k SettleFailed reference actor defer d
      = (Inr (get_attempt d4 k, if defer then closed else []), d4)"
    using assms(1-6) f(1,3) c
    by (simp add: settle_in_doubt_def atomic_def settle_body_def Let_def settle_payment_def d1_def [symmetric]
        l1_def [symmetric] closed_def d3_def d4_def)
      (simp add: l1_def)
  have d3: "attempts d3 = attempts d2" "mandates d3 = mandates d2" "payments d3 = payments d2"
    "terms d3 = terms d2" "provider_calls d3 = provider_calls d2"
    by (simp_all add: d3_def audit_record_def)
  have d4: "mandates d4 = mandates d3" "payments d4 = payments d3" "terms d4 = terms d3"
    "provider_calls d4 = provider_calls d3"
    by (simp_all add: d4_def closed_def deliver_closed_tables calls_frame)
  have "get_attempt d3 k = Some (settled_attempt SettleFailed a)"
    using a1 r(1) d3(1) by (simp add: get_attempt_def)
  then obtain a' where a': "get_attempt d4 k = Some a'" "ra_outcome a' = AttemptFailed" "\<not> ra_in_doubt a'"
    using deliver_closed_attempt [of d3 k "settled_attempt SettleFailed a"]
    by (fastforce simp: d4_def closed_def settled_attempt_def split: if_splits)
  have t: "terms d4 = terms d" "provider_calls d4 = provider_calls d"
    using d4 d3 r(2,3) by (simp_all add: d1_def edit_attempt_def)
  have "get_payment d4 j = get_payment d2 j" "get_mandate d4 = get_mandate d2"
    using d3 d4 by (simp_all add: get_payment_def get_mandate_def fun_eq_iff)
  then show ?thesis using s a' t r(4,5) f(6,7) m1(4) by auto
qed

definition settled_witness_payment :: payment where
  "settled_witness_payment = (sample_payment 7 1 (Some 1) 4500)\<lparr>p_provider := PayPal\<rparr>"

lemma doubted_facts:
  "get_attempt doubted_charge 8 = Some (ld_attempt doubted_loaded)"
  "load_attempt doubted_charge (ld_attempt doubted_loaded) = Some doubted_loaded"
  "ra_in_doubt (ld_attempt doubted_loaded)" "ra_outcome (ld_attempt doubted_loaded) = Scheduled"
  "ra_payment (ld_attempt doubted_loaded) = Some 7"
  "get_payment doubted_charge 7 = Some settled_witness_payment"
  "p_status settled_witness_payment \<notin> set settled_statuses"
  by code_simp+

theorem settle_released_witness:
  "\<exists>a d'. settle_in_doubt sample_config (mock_gateway sample_config) 8 SettleReleased [] 1 False doubted_charge
    = (Inr (Some a, []), d') \<and> mandates d' = mandates doubted_charge"
  using settle_released [OF doubted_facts] by blast

theorem settle_failed_witness:
  "\<exists>a later d'. settle_in_doubt sample_config (mock_gateway sample_config) 8 SettleFailed [] 1 False doubted_charge
    = (Inr (Some a, later), d') \<and> ra_outcome a = AttemptFailed"
  using settle_failed [OF doubted_facts] by blast

end
