(* ===== verification/Scan.thy ===== *)
theory Scan
  imports ChargeSafety
begin

text \<open>
  The daily renewal scan (\<open>payments/renewals/scan.py\<close>): the notice of a charge that is coming due,
  the warning about a card that runs out, the catching up of a charge date missed, and the walk that
  then takes every charge due.  A rehearsal runs the same code and carries the attempts it would
  have written to its charge step.
\<close>

definition notice_days :: int where
  "notice_days = 14"

definition card_expiry_warning_days :: int where
  "card_expiry_warning_days = 30"

definition catch_up_days :: int where
  "catch_up_days = 30"

definition lapsed_too_long_message :: string where
  "lapsed_too_long_message =
     ''your membership had lapsed for more than a month, so we did not take the renewal''"

definition scan_skip_reasons :: "string list" where
  "scan_skip_reasons = [''friend'', ''lifetime'', ''no_term'', ''not_active'', ''already_renewed'',
     ''no_plan'', ''in_flight'', ''provider_down'', ''pending'', ''in_doubt'']"

definition reported_reasons :: "run \<Rightarrow> (string \<times> nat) list" where
  \<comment> \<open>the reasons \<open>as_lines\<close> prints under the number skipped, each with its count\<close>
  "reported_reasons r = List.map_filter (\<lambda>reason. case map_of (rr_skipped_by_reason r) reason of
     None \<Rightarrow> None | Some n \<Rightarrow> if n = 0 then None else Some (reason, n)) scan_skip_reasons"

record standing_mandate =
  \<comment> \<open>a mandate with \<open>select_related("user", "plan")\<close>\<close>
  sd_mandate :: mandate
  sd_user :: user
  sd_plan :: "plan option"

definition active_mandates :: "db \<Rightarrow> standing_mandate list" where
  "active_mandates d = List.map_filter (\<lambda>m. case get_user d (rm_user m) of
       None \<Rightarrow> None
     | Some u \<Rightarrow> Some \<lparr>sd_mandate = m, sd_user = u, sd_plan = mandate_plan d m\<rparr>)
     (sort_key rm_id (filter (\<lambda>m. rm_status m = MandateActive) (mandates d)))"

subsection \<open>The notice\<close>

definition first_waiting :: "db \<Rightarrow> mandate \<Rightarrow> attempt option" where
  "first_waiting d m = first_of (sort_key (\<lambda>a. (ra_scheduled_on a, ra_id a)) (waiting (rm_id m) d))"

definition rehearsed_attempt :: "standing_mandate \<Rightarrow> membership option \<Rightarrow> date \<Rightarrow> date \<Rightarrow> loaded list" where
  \<comment> \<open>the attempt has no key: it is never saved\<close>
  "rehearsed_attempt s t charge_on today =
     (if charge_on > today then []
      else [\<lparr>ld_attempt = new_attempt 0 (rm_id (sd_mandate s)) (map_option m_id t) charge_on,
             ld_mandate = sd_mandate s, ld_user = sd_user s, ld_plan = sd_plan s, ld_term = t\<rparr>])"

definition send_notice :: "config \<Rightarrow> standing_mandate \<Rightarrow> attempt \<Rightarrow> date \<Rightarrow> db \<Rightarrow> db" where
  "send_notice cfg s a charge_on d =
     (case send_mandate_email cfg (sd_user s) (sd_mandate s) ''renewal_notice'' (Some charge_on) d of
        (False, d) \<Rightarrow> d
      | (True, d) \<Rightarrow> edit_attempt (ra_id a) (\<lambda>x. x\<lparr>ra_noticed_at := Some (clock d)\<rparr>) d)"

definition announce :: "config \<Rightarrow> standing_mandate \<Rightarrow> membership option \<Rightarrow> attempt option \<Rightarrow> date \<Rightarrow> date
    \<Rightarrow> run \<Rightarrow> bool \<Rightarrow> db \<Rightarrow> (loaded list \<times> run) \<times> db" where
  \<comment> \<open>the end of each notice: write the attempt unless one waits, count it, and tell the member\<close>
  "announce cfg s t waits charge_on today r dry d =
     (let counted = record_action ''renewal_notice'' (sd_user s) (Some charge_on) None []
            (r\<lparr>rr_noticed := rr_noticed r + 1\<rparr>)
      in case waits of
           Some a \<Rightarrow> (([], counted), if dry then d else send_notice cfg s a charge_on d)
         | None \<Rightarrow>
             if dry then ((rehearsed_attempt s t charge_on today, counted), d)
             else (case schedule_attempt (rm_id (sd_mandate s)) (map_option m_id t) charge_on None d of
                     (None, d) \<Rightarrow> (([], r), d)
                   | (Some a, d) \<Rightarrow> (([], counted), send_notice cfg s a charge_on d)))"

definition notice_donation :: "config \<Rightarrow> standing_mandate \<Rightarrow> date \<Rightarrow> run \<Rightarrow> bool \<Rightarrow> db
    \<Rightarrow> (loaded list \<times> run) \<times> db" where
  "notice_donation cfg s today r dry d =
     (let m = sd_mandate s; waits = first_waiting d m; is_yearly = (rm_cadence m = Yearly)
      in if (case waits of None \<Rightarrow> False | Some a \<Rightarrow> \<not> is_yearly \<or> ra_noticed_at a \<noteq> None)
         then (([], r), d)
         else case charge_date d m today of
                None \<Rightarrow> (([], r), d)
              | Some scheduled_on \<Rightarrow>
                  let charge_on = max scheduled_on today
                  in if \<not> is_yearly
                     then if charge_on > today then (([], r), d)
                          else if dry then ((rehearsed_attempt s None charge_on today, r), d)
                          else (([], r), snd (schedule_attempt (rm_id m) None charge_on None d))
                     else if charge_on - today > notice_days then (([], r), d)
                     else announce cfg s None waits charge_on today r dry d)"

definition abandon :: "config \<Rightarrow> standing_mandate \<Rightarrow> run \<Rightarrow> bool \<Rightarrow> db \<Rightarrow> (standing_mandate \<times> run) \<times> db" where
  \<comment> \<open>the mandate held in memory is paused with its row, except in a rehearsal\<close>
  "abandon cfg s r dry d =
     (let m = sd_mandate s;
          r = record_action ''renewal_failed'' (sd_user s) None None lapsed_too_long_message
                (r\<lparr>rr_paused := rr_paused r + 1\<rparr>)
      in if dry then ((s, r), d)
         else let s = s\<lparr>sd_mandate := m\<lparr>rm_status := MandatePaused\<rparr>\<rparr>;
                  d = edit_mandate (rm_id m) (\<lambda>x. x\<lparr>rm_status := MandatePaused\<rparr>) d;
                  d = emit (AutoRenewalOff (rm_id m) OffLapsed) d
              in ((s, r), snd (send_mandate_email cfg (sd_user s) (sd_mandate s) ''renewal_failed'' None d)))"

definition catch_up :: "config \<Rightarrow> standing_mandate \<Rightarrow> date \<Rightarrow> run \<Rightarrow> bool \<Rightarrow> db
    \<Rightarrow> (loaded list \<times> standing_mandate \<times> run) \<times> db" where
  "catch_up cfg s today r dry d =
     (case lapsed_term_to_renew d (sd_user s) today of
        None \<Rightarrow> (([], s, record_skipped ''no_term'' r), d)
      | Some t \<Rightarrow>
          let m = sd_mandate s
          in if list_ex (\<lambda>a. ra_mandate a = rm_id m \<and> ra_membership a = Some (m_id t)) (attempts d)
             then (([], s, r), d)
             else if today - rm_next_charge_on m > catch_up_days
             then (let ((s, r), d) = abandon cfg s r dry d in (([], s, r), d))
             else let charge_on = max (rm_next_charge_on m) today
                  in if charge_on - today > notice_days then (([], s, r), d)
                     else (let ((reh, r), d) = announce cfg s (Some t) None charge_on today r dry d
                           in ((reh, s, r), d)))"

definition notice_renewal :: "config \<Rightarrow> standing_mandate \<Rightarrow> membership \<Rightarrow> date \<Rightarrow> run \<Rightarrow> bool \<Rightarrow> db
    \<Rightarrow> (loaded list \<times> run) \<times> db" where
  \<comment> \<open>the renewal of a term that has not run out\<close>
  "notice_renewal cfg s t today r dry d =
     (let m = sd_mandate s; waits = first_waiting d m
      in if (case waits of
               None \<Rightarrow> list_ex (\<lambda>a. ra_mandate a = rm_id m \<and> ra_membership a = Some (m_id t)
                          \<and> ra_outcome a = AttemptSucceeded) (attempts d)
             | Some a \<Rightarrow> ra_noticed_at a \<noteq> None)
         then (([], r), d)
         else case charge_date d m today of
                None \<Rightarrow> (([], r), d)
              | Some scheduled_on \<Rightarrow>
                  let charge_on = max scheduled_on today
                  in if charge_on - today > notice_days then (([], r), d)
                     else announce cfg s (Some t) waits charge_on today r dry d)"

definition notice :: "config \<Rightarrow> standing_mandate \<Rightarrow> date \<Rightarrow> run \<Rightarrow> bool \<Rightarrow> db
    \<Rightarrow> (loaded list \<times> standing_mandate \<times> run) \<times> db" where
  "notice cfg s today r dry d =
     (if rm_plan (sd_mandate s) = None
      then (let ((reh, r), d) = notice_donation cfg s today r dry d in ((reh, s, r), d))
      else if account_kind d (sd_user s) today = Friend then (([], s, record_skipped ''friend'' r), d)
      else if lifetime_term d (sd_user s) \<noteq> None then (([], s, record_skipped ''lifetime'' r), d)
      else case term_to_renew d (sd_user s) today of
             None \<Rightarrow> catch_up cfg s today r dry d
           | Some t \<Rightarrow> (let ((reh, r), d) = notice_renewal cfg s t today r dry d in ((reh, s, r), d)))"

subsection \<open>The warning about a card\<close>

definition iso_date :: "date \<Rightarrow> string" where
  \<comment> \<open>\<open>date.isoformat()\<close>\<close>
  "iso_date x = (let c = fromordinal x; y = digits (year c)
     in replicate (4 - length y) (CHR ''0'') @ y @ ''-'' @ two_digits (int (month c))
        @ ''-'' @ two_digits (day c))"

definition card_warned_key :: string where
  "card_warned_key = ''card_expiry_warned_for''"

definition warn_about_card :: "config \<Rightarrow> standing_mandate \<Rightarrow> date \<Rightarrow> run \<Rightarrow> bool \<Rightarrow> db \<Rightarrow> run \<times> db" where
  "warn_about_card cfg s today r dry d =
     (let m = sd_mandate s
      in case (card_expires_on m, charge_date d m today) of
           (Some expires, Some charge_on) \<Rightarrow>
             if expires \<ge> charge_on then (r, d)
             else if expires - today > card_expiry_warning_days then (r, d)
             else if map_of (rm_raw m) card_warned_key = Some (JStr (iso_date expires)) then (r, d)
             else let r = record_action ''renewal_card_expiring'' (sd_user s) (Some expires) None []
                        (r\<lparr>rr_warned := rr_warned r + 1\<rparr>)
                  in if dry then (r, d)
                     else (case send_mandate_email cfg (sd_user s) m ''renewal_card_expiring'' (Some charge_on) d of
                             (False, d) \<Rightarrow> (r, d)
                           | (True, d) \<Rightarrow> (r, edit_mandate (rm_id m) (\<lambda>x. x\<lparr>rm_raw :=
                               AList.update card_warned_key (JStr (iso_date expires)) (rm_raw m)\<rparr>) d))
         | _ \<Rightarrow> (r, d))"

subsection \<open>The scan\<close>

fun scan_notices :: "config \<Rightarrow> standing_mandate list \<Rightarrow> date \<Rightarrow> run \<Rightarrow> bool \<Rightarrow> db
    \<Rightarrow> (loaded list \<times> run) \<times> db" where
  "scan_notices cfg [] today r dry d = (([], r), d)"
| "scan_notices cfg (s # ss) today r dry d =
     (let ((reh, s, r), d) = notice cfg s today r dry d;
          (r, d) = warn_about_card cfg s today r dry d;
          ((rest, r), d) = scan_notices cfg ss today r dry d
      in ((reh @ rest, r), d))"

fun scan_charges :: "config \<Rightarrow> gateway \<Rightarrow> loaded list \<Rightarrow> date \<Rightarrow> run \<Rightarrow> bool \<Rightarrow> db
    \<Rightarrow> (error + run) \<times> db" where
  "scan_charges cfg gw [] today r dry d = (Inr r, d)"
| "scan_charges cfg gw (l # ls) today r dry d =
     (case charge cfg gw l today r dry d of
        (Inl e, d) \<Rightarrow> (Inl e, d)
      | (Inr r, d) \<Rightarrow> scan_charges cfg gw ls today r dry d)"

definition scan :: "config \<Rightarrow> gateway \<Rightarrow> date \<Rightarrow> run \<Rightarrow> bool \<Rightarrow> db \<Rightarrow> (error + run) \<times> db" where
  "scan cfg gw today r dry d =
     (let ((rehearsed, r), d) = scan_notices cfg (active_mandates d) today r dry d
      in scan_charges cfg gw (due_attempts today d @ rehearsed) today r dry d)"

datatype scan_refusal = RenewalsBusy | ScanRaised error

definition run_auto_renewals :: "config \<Rightarrow> gateway \<Rightarrow> date option \<Rightarrow> bool \<Rightarrow> actor \<Rightarrow> bool \<Rightarrow> db
    \<Rightarrow> (scan_refusal + run) \<times> db" where
  \<comment> \<open>\<open>lock_free\<close>: the advisory lock is not held by another live scan\<close>
  "run_auto_renewals cfg gw today dry actor lock_free d =
     (let today = (case today of Some x \<Rightarrow> x | None \<Rightarrow> local_today cfg d);
          ran = (if dry then apfst (map_sum ScanRaised id) (scan cfg gw today (new_run today dry False) True d)
                 else case stale_after cfg of
                   Inl e \<Rightarrow> (Inl (ScanRaised e), d)
                 | Inr _ \<Rightarrow> if \<not> lock_free then (Inl RenewalsBusy, d)
                     else apfst (map_sum ScanRaised id) (scan cfg gw today (new_run today dry False) False d))
      in case ran of
           (Inl e, d) \<Rightarrow> (Inl e, d)
         | (Inr r, d) \<Rightarrow> (Inr r, audit_record ''renewals.run'' actor None
             [(''dry_run'', ABool dry), (''noticed'', AInt (int (rr_noticed r))),
              (''charged'', AInt (int (rr_charged r))), (''failed'', AInt (int (rr_failed r))),
              (''paused'', AInt (int (rr_paused r))), (''skipped'', AInt (int (rr_skipped r)))] d))"

end
