(* ===== verification/ScanSafety.thy ===== *)
theory ScanSafety
  imports Scan
begin

text \<open>
  What the daily scan promises: a rehearsal leaves the database as it was, a charge is announced and
  scheduled once, a donation that is due is taken by the scan that finds it, and two places where the
  scan and what it says of itself part.
\<close>

subsection \<open>A rehearsal\<close>

lemma announce_dry [simp]: "snd (announce cfg s t waits charge_on today r True d) = d"
  by (simp add: announce_def Let_def split: option.splits)

lemma abandon_dry [simp]: "snd (abandon cfg s r True d) = d"
  by (simp add: abandon_def Let_def)

lemma notice_donation_dry [simp]: "snd (notice_donation cfg s today r True d) = d"
  by (simp add: notice_donation_def Let_def split: option.splits)

lemma catch_up_dry [simp]: "snd (catch_up cfg s today r True d) = d"
  by (simp add: catch_up_def Let_def case_prod_beta split: option.splits)

lemma notice_renewal_dry [simp]: "snd (notice_renewal cfg s t today r True d) = d"
  by (simp add: notice_renewal_def Let_def split: option.splits)

lemma notice_dry [simp]: "snd (notice cfg s today r True d) = d"
  by (simp add: notice_def Let_def case_prod_beta split: option.splits)

lemma warn_about_card_dry [simp]: "snd (warn_about_card cfg s today r True d) = d"
  by (simp add: warn_about_card_def Let_def split: option.splits)

lemma scan_notices_dry [simp]: "snd (scan_notices cfg ss today r True d) = d"
  by (induction ss arbitrary: r) (simp_all add: case_prod_beta Let_def)

lemma scan_charges_dry [simp]: "snd (scan_charges cfg gw ls today r True d) = d"
proof (induction ls arbitrary: r)
  case Nil
  show ?case by simp
next
  case (Cons l ls)
  obtain y where "charge cfg gw l today r True d = (y, d)"
    using rehearsed_charge_writes_nothing [of cfg gw l today r d] by (metis prod.collapse)
  then show ?case using Cons.IH by (auto split: sum.splits)
qed

lemma scan_dry [simp]: "snd (scan cfg gw today r True d) = d"
  by (simp add: scan_def case_prod_beta)

text \<open>C27: a rehearsal of the whole scan, as of any day and whatever the provider would do, writes no
  row, sends no mail, raises no event and asks no provider; all it leaves is at most its one audit line.\<close>

theorem rehearsed_scan_changes_nothing:
  "\<exists>lines. length lines \<le> 1 \<and> snd (run_auto_renewals cfg gw today True actor lock_free d)
    = d\<lparr>audit_log := audit_log d @ lines\<rparr>"
proof -
  define x where "x = (case today of Some x \<Rightarrow> x | None \<Rightarrow> local_today cfg d)"
  obtain y where y: "scan cfg gw x (new_run x True False) True d = (y, d)"
    using scan_dry [of cfg gw x "new_run x True False" d] by (metis prod.collapse)
  show ?thesis
  proof (cases y)
    case (Inl e)
    then have "snd (run_auto_renewals cfg gw today True actor lock_free d) = d\<lparr>audit_log := audit_log d @ []\<rparr>"
      using y by (simp add: run_auto_renewals_def Let_def flip: x_def)
    then show ?thesis by (intro exI [of _ "[]"]) simp
  next
    case (Inr r)
    define fields where "fields = [(''dry_run'', ABool True), (''noticed'', AInt (int (rr_noticed r))),
        (''charged'', AInt (int (rr_charged r))), (''failed'', AInt (int (rr_failed r))),
        (''paused'', AInt (int (rr_paused r))), (''skipped'', AInt (int (rr_skipped r)))]"
    have "snd (run_auto_renewals cfg gw today True actor lock_free d)
        = audit_record ''renewals.run'' actor None fields d"
      using y Inr by (simp add: run_auto_renewals_def Let_def fields_def flip: x_def)
    then show ?thesis
      by (intro exI [of _ "drop (length (audit_log d)) (audit_log (snd (run_auto_renewals cfg gw today True actor lock_free d)))"])
        (simp add: audit_record_def)
  qed
qed

subsection \<open>Announced once\<close>

lemma first_of_map: "first_of (List.map f xs) = map_option f (first_of xs)"
  by (cases xs) simp_all

lemma first_waiting_edit:
  assumes f: "\<And>a. ra_id (f a) = ra_id a" "\<And>a. ra_mandate (f a) = ra_mandate a"
      "\<And>a. ra_outcome (f a) = ra_outcome a" "\<And>a. ra_scheduled_on (f a) = ra_scheduled_on a"
  shows "first_waiting (edit_attempt k f d) m
    = map_option (\<lambda>a. if ra_id a = k then f a else a) (first_waiting d m)"
proof -
  let ?g = "\<lambda>a. if ra_id a = k then f a else a"
  have "waiting j (edit_attempt k f d) = List.map ?g (waiting j d)" for j
    unfolding waiting_def edit_attempt_def rows_update_def
    by (simp add: filter_map comp_def f if_distrib [of ra_mandate] if_distrib [of ra_outcome])
  then show ?thesis
    by (simp add: first_waiting_def first_of_map sort_key_map_same f)
qed

lemma first_waiting_scheduled:
  assumes "first_waiting d m = None"
  shows "\<exists>a. schedule_attempt (rm_id m) t x None d = (Some a, d\<lparr>next_pk := Suc (next_pk d), attempts := attempts d @ [a]\<rparr>)
      \<and> first_waiting (d\<lparr>next_pk := Suc (next_pk d), attempts := attempts d @ [a]\<rparr>) m = Some a
      \<and> ra_id a = next_pk d \<and> ra_noticed_at a = None \<and> ra_membership a = t \<and> ra_scheduled_on a = x
      \<and> ra_mandate a = rm_id m \<and> ra_outcome a = Scheduled"
proof -
  have "\<not> list_ex (\<lambda>a. ra_mandate a = rm_id m \<and> ra_outcome a = Scheduled) (attempts d)"
    using assms unfolding first_waiting_def first_of_sort_key_None
    by (auto simp: waiting_def list_ex_iff filter_empty_conv)
  then show ?thesis
    using assms unfolding first_waiting_def first_of_sort_key_None
    by (auto simp: schedule_attempt_def fresh_pk_def Let_def waiting_def new_attempt_def)
qed

text \<open>What the rules of a notice read: all of it stays as it was when only attempts and mail change.\<close>

definition same_people :: "db \<Rightarrow> db \<Rightarrow> bool" where
  "same_people d d' \<longleftrightarrow> users d' = users d \<and> terms d' = terms d \<and> plans d' = plans d
     \<and> mandates d' = mandates d \<and> clock d' = clock d"

lemma same_people_refl [simp]: "same_people d d"
  by (simp add: same_people_def)

lemma same_people_rules:
  assumes "same_people d d'"
  shows "account_kind d' u x = account_kind d u x" "lifetime_term d' u = lifetime_term d u"
    "term_to_renew d' u x = term_to_renew d u x" "lapsed_term_to_renew d' u x = lapsed_term_to_renew d u x"
  using assms
  by (simp_all add: same_people_def account_kind_def lifetime_term_def term_to_renew_def
      lapsed_term_to_renew_def memberships_def)

lemma send_notice_tables:
  assumes "\<And>n x. mail_accepted cfg n x" and "u_email (sd_user s) \<noteq> []"
  shows "same_people d (send_notice cfg s a x d)"
    and "first_waiting (send_notice cfg s a x d) m
      = map_option (\<lambda>b. if ra_id b = ra_id a then b\<lparr>ra_noticed_at := Some (clock d)\<rparr> else b) (first_waiting d m)"
    and "List.map ra_membership (attempts (send_notice cfg s a x d)) = List.map ra_membership (attempts d)"
    and "List.map ra_mandate (attempts (send_notice cfg s a x d)) = List.map ra_mandate (attempts d)"
proof -
  define d1 where "d1 = d\<lparr>outbox := outbox d @ [(MandateMail ''renewal_notice'' (rm_id (sd_mandate s)) (Some x), True)]\<rparr>"
  have d1: "send_notice cfg s a x d = edit_attempt (ra_id a) (\<lambda>b. b\<lparr>ra_noticed_at := Some (clock d)\<rparr>) d1"
    using assms by (simp add: send_notice_def send_mandate_email_def send_mail_def d1_def)
  have waits: "first_waiting d1 m = first_waiting d m"
    by (simp add: d1_def first_waiting_def waiting_def)
  show "first_waiting (send_notice cfg s a x d) m
      = map_option (\<lambda>b. if ra_id b = ra_id a then b\<lparr>ra_noticed_at := Some (clock d)\<rparr> else b) (first_waiting d m)"
    unfolding d1 waits [symmetric] by (rule first_waiting_edit) simp_all
  show "same_people d (send_notice cfg s a x d)"
    by (simp add: d1 d1_def same_people_def edit_attempt_def)
  show "List.map ra_membership (attempts (send_notice cfg s a x d)) = List.map ra_membership (attempts d)"
    "List.map ra_mandate (attempts (send_notice cfg s a x d)) = List.map ra_mandate (attempts d)"
    by (simp_all add: d1 d1_def edit_attempt_def map_key_rows_update)
qed

lemma announce_live:
  assumes "\<And>n x. mail_accepted cfg n x" and "u_email (sd_user s) \<noteq> []"
    and "announce cfg s t (first_waiting d (sd_mandate s)) x today r False d = ((reh, r1), d1)"
  shows "reh = [] \<and> same_people d d1 \<and> (\<exists>a. first_waiting d1 (sd_mandate s) = Some a \<and> ra_noticed_at a \<noteq> None)"
proof (cases "first_waiting d (sd_mandate s)")
  case (Some a)
  then have "reh = []" "d1 = send_notice cfg s a x d"
    using assms(3) by (simp_all add: announce_def Let_def)
  with Some show ?thesis by (simp add: send_notice_tables [OF assms(1,2)])
next
  case None
  from first_waiting_scheduled [OF this, of "map_option m_id t" x] obtain a where
    a: "schedule_attempt (rm_id (sd_mandate s)) (map_option m_id t) x None d
        = (Some a, d\<lparr>next_pk := Suc (next_pk d), attempts := attempts d @ [a]\<rparr>)"
      "first_waiting (d\<lparr>next_pk := Suc (next_pk d), attempts := attempts d @ [a]\<rparr>) (sd_mandate s) = Some a"
    by blast
  let ?d = "d\<lparr>next_pk := Suc (next_pk d), attempts := attempts d @ [a]\<rparr>"
  have "reh = []" "d1 = send_notice cfg s a x ?d"
    using assms(3) None a(1) by (simp_all add: announce_def Let_def)
  moreover have "same_people d ?d" by (simp add: same_people_def)
  ultimately show ?thesis
    using a(2) send_notice_tables(1,2) [OF assms(1,2)]
    by (simp add: same_people_def)
qed

lemma catch_up_announced:
  assumes mail: "\<And>n x. mail_accepted cfg n x" "u_email (sd_user s) \<noteq> []"
    and n: "catch_up cfg s today r False d = ((reh, s1, r1), d1)" and active: "rm_status (sd_mandate s1) = MandateActive"
  shows "same_people d d1 \<and> s1 = s \<and> (\<exists>r3. catch_up cfg s today r2 False d1 = (([], s, r3), d1)
    \<and> rr_noticed r3 = rr_noticed r2)"
proof (cases "lapsed_term_to_renew d (sd_user s) today")
  case None
  then show ?thesis using n by (auto simp: catch_up_def record_skipped_def)
next
  case (Some t)
  let ?m = "sd_mandate s"
  define tried where "tried d = list_ex (\<lambda>a. ra_mandate a = rm_id ?m \<and> ra_membership a = Some (m_id t)) (attempts d)" for d :: db
  define x where "x = max (rm_next_charge_on ?m) today"
  have not_late: "tried d \<or> \<not> today - rm_next_charge_on ?m > catch_up_days"
    using n Some active by (auto simp: catch_up_def abandon_def Let_def case_prod_beta tried_def split: if_splits)
  consider (still) "d1 = d" "s1 = s" "tried d \<or> x - today > notice_days \<or> first_waiting d ?m \<noteq> None"
    | (sent) a where "first_waiting d ?m = None" "\<not> tried d" "x - today \<le> notice_days"
        "schedule_attempt (rm_id ?m) (Some (m_id t)) x None d
          = (Some a, d\<lparr>next_pk := Suc (next_pk d), attempts := attempts d @ [a]\<rparr>)"
        "ra_membership a = Some (m_id t)" "ra_mandate a = rm_id ?m"
        "d1 = send_notice cfg s a x (d\<lparr>next_pk := Suc (next_pk d), attempts := attempts d @ [a]\<rparr>)" "s1 = s"
  proof (cases "tried d \<or> x - today > notice_days")
    case True
    then show thesis
      using n Some not_late by (intro still) (auto simp: catch_up_def Let_def tried_def x_def split: if_splits)
  next
    case ready: False
    then have ann: "announce cfg s (Some t) None x today r False d = ((reh, r1), d1)" "s1 = s"
      using n Some not_late by (auto simp: catch_up_def Let_def tried_def x_def case_prod_beta split: if_splits)
    show thesis
    proof (cases "first_waiting d ?m")
      case None
      from first_waiting_scheduled [OF this, of "Some (m_id t)" x] ann ready show thesis
        by (auto simp: announce_def Let_def intro!: sent [OF None])
    next
      case (Some b)
      then have "schedule_attempt (rm_id ?m) (Some (m_id t)) x None d = (None, d)"
        by (auto simp: first_waiting_def schedule_attempt_def list_ex_iff waiting_def dest!: first_of_sort_key_in_set)
      with ann Some show thesis by (intro still) (auto simp: announce_def Let_def)
    qed
  qed
  then show ?thesis
  proof cases
    case still
    then have "first_waiting d ?m \<noteq> None \<Longrightarrow> schedule_attempt (rm_id ?m) (Some (m_id t)) x None d = (None, d)"
      by (auto simp: first_waiting_def schedule_attempt_def list_ex_iff waiting_def dest!: first_of_sort_key_in_set)
    with still not_late Some show ?thesis
      by (auto simp: catch_up_def Let_def tried_def announce_def simp flip: x_def)
  next
    case (sent a)
    let ?d = "d\<lparr>next_pk := Suc (next_pk d), attempts := attempts d @ [a]\<rparr>"
    have people: "same_people d d1"
      using send_notice_tables(1) [OF mail, of ?d a x] sent by (simp add: same_people_def)
    have "zip (List.map ra_mandate (attempts d1)) (List.map ra_membership (attempts d1))
        = zip (List.map ra_mandate (attempts ?d)) (List.map ra_membership (attempts ?d))"
      using send_notice_tables(3,4) [OF mail, of a x ?d] sent by simp
    then have "(rm_id ?m, Some (m_id t)) \<in> set (zip (List.map ra_mandate (attempts d1)) (List.map ra_membership (attempts d1)))"
      using sent by simp
    then have "tried d1" by (auto simp: tried_def list_ex_iff set_zip) 
    then show ?thesis
      using people sent Some by (auto simp: catch_up_def tried_def same_people_rules)
  qed
qed

lemma notice_donation_announced:
  assumes mail: "\<And>n x. mail_accepted cfg n x" "u_email (sd_user s) \<noteq> []"
    and n: "notice_donation cfg s today r False d = ((reh, r1), d1)"
  shows "same_people d d1 \<and> notice_donation cfg s today r2 False d1 = (([], r2), d1)"
proof -
  let ?m = "sd_mandate s"
  define told where "told d = (case first_waiting d ?m of None \<Rightarrow> False
     | Some a \<Rightarrow> rm_cadence ?m \<noteq> Yearly \<or> ra_noticed_at a \<noteq> None)" for d :: db
  have again: "notice_donation cfg s today r2 False d1 = (([], r2), d1)" if "told d1"
    using that by (simp add: notice_donation_def told_def)
  show ?thesis
  proof (cases "told d \<or> charge_date d ?m today = None")
    case True
    then show ?thesis using n by (auto simp: notice_donation_def told_def Let_def split: if_splits)
  next
    case False
    then obtain x where x: "charge_date d ?m today = Some x" by blast
    let ?x = "max x today"
    show ?thesis
    proof (cases "rm_cadence ?m = Yearly")
      case yearly: True
      show ?thesis
      proof (cases "?x - today > notice_days")
        case True
        then show ?thesis using n False x yearly by (auto simp: notice_donation_def told_def Let_def max_def split: if_splits)
      next
        case near: False
        then have "announce cfg s None (first_waiting d ?m) ?x today r False d = ((reh, r1), d1)"
          using n False x yearly by (simp add: notice_donation_def told_def Let_def)
        from announce_live [OF mail this] show ?thesis
          using again by (auto simp: told_def)
      qed
    next
      case often: False
      then have none: "first_waiting d ?m = None" using False by (auto simp: told_def split: option.splits)
      show ?thesis
      proof (cases "?x > today")
        case True
        then show ?thesis using n False x often by (auto simp: notice_donation_def told_def Let_def max_def split: if_splits)
      next
        case due: False
        from first_waiting_scheduled [OF none, of None ?x] obtain a where
          a: "schedule_attempt (rm_id ?m) None ?x None d = (Some a, d\<lparr>next_pk := Suc (next_pk d), attempts := attempts d @ [a]\<rparr>)"
            "first_waiting (d\<lparr>next_pk := Suc (next_pk d), attempts := attempts d @ [a]\<rparr>) ?m = Some a"
          by blast
        then have "d1 = d\<lparr>next_pk := Suc (next_pk d), attempts := attempts d @ [a]\<rparr>"
          using n False x often due by (simp add: notice_donation_def told_def Let_def)
        then show ?thesis using again a(2) often by (simp add: told_def same_people_def)
      qed
    qed
  qed
qed

lemma notice_renewal_announced:
  assumes mail: "\<And>n x. mail_accepted cfg n x" "u_email (sd_user s) \<noteq> []"
    and n: "notice_renewal cfg s t today r False d = ((reh, r1), d1)"
  shows "same_people d d1 \<and> notice_renewal cfg s t today r2 False d1 = (([], r2), d1)"
proof -
  let ?m = "sd_mandate s"
  define told where "told d = (case first_waiting d ?m of
     None \<Rightarrow> list_ex (\<lambda>a. ra_mandate a = rm_id ?m \<and> ra_membership a = Some (m_id t)
        \<and> ra_outcome a = AttemptSucceeded) (attempts d)
   | Some a \<Rightarrow> ra_noticed_at a \<noteq> None)" for d :: db
  show ?thesis
  proof (cases "told d \<or> charge_date d ?m today = None")
    case True
    then show ?thesis using n by (auto simp: notice_renewal_def told_def Let_def split: if_splits)
  next
    case False
    then obtain x where x: "charge_date d ?m today = Some x" by blast
    show ?thesis
    proof (cases "max x today - today > notice_days")
      case True
      then show ?thesis using n False x by (auto simp: notice_renewal_def told_def Let_def)
    next
      case near: False
      then have "announce cfg s (Some t) (first_waiting d ?m) (max x today) today r False d = ((reh, r1), d1)"
        using n False x by (simp add: notice_renewal_def told_def Let_def)
      from announce_live [OF mail this] show ?thesis
        by (auto simp: notice_renewal_def)
    qed
  qed
qed


definition due_standing :: standing_mandate where
  "due_standing = \<lparr>sd_mandate = sample_mandate 5 1 (Some 1) 0 1300, sd_user = sample_user 1 Member,
     sd_plan = Some (sample_plan 1 ''Annual'' (Some 365))\<rparr>"

definition unannounced :: db where
  "unannounced = due_charge\<lparr>attempts := []\<rparr>"

definition once_announced :: "(loaded list \<times> standing_mandate \<times> run) \<times> db" where
  "once_announced = notice sample_config due_standing 1290 (new_run 1290 False False) False unannounced"

lemma once_announced_parts:
  "notice sample_config due_standing 1290 (new_run 1290 False False) False unannounced
    = ((fst (fst once_announced), fst (snd (fst once_announced)), snd (snd (fst once_announced))), snd once_announced)"
  by (simp add: once_announced_def)

lemma once_announced_sent:
  "fst (snd (fst once_announced)) = due_standing" "rr_noticed (snd (snd (fst once_announced))) = 1"
  "length (outbox (snd once_announced)) = 1"
  by code_simp+


subsection \<open>Taken when due\<close>

lemma schedule_attempt_due:
  assumes "first_waiting d m = None" and "get_mandate d (rm_id m) = Some m" and "get_user d (rm_user m) = Some u"
    and "x \<le> today"
  shows "\<exists>l \<in> set (due_attempts today (snd (schedule_attempt (rm_id m) t x None d))).
    ld_mandate l = m \<and> ra_scheduled_on (ld_attempt l) = x \<and> ra_membership (ld_attempt l) = t
      \<and> ra_outcome (ld_attempt l) = Scheduled"
proof -
  from first_waiting_scheduled [OF assms(1), of t x] obtain a where
    a: "schedule_attempt (rm_id m) t x None d = (Some a, d\<lparr>next_pk := Suc (next_pk d), attempts := attempts d @ [a]\<rparr>)"
      "ra_membership a = t" "ra_scheduled_on a = x" "ra_mandate a = rm_id m" "ra_outcome a = Scheduled"
    by blast
  define d1 where "d1 = d\<lparr>next_pk := Suc (next_pk d), attempts := attempts d @ [a]\<rparr>"
  have "load_attempt d1 a = Some \<lparr>ld_attempt = a, ld_mandate = m, ld_user = u, ld_plan = mandate_plan d1 m,
      ld_term = Option.bind (ra_membership a) (get_term d1)\<rparr>"
    using assms(2,3) a(4) by (simp add: load_attempt_def d1_def store_defs)
  moreover have "a \<in> set (filter (\<lambda>a. ra_outcome a = Scheduled \<and> ra_scheduled_on a \<le> today) (attempts d1))"
    using a assms(4) by (simp add: d1_def)
  ultimately show ?thesis
    using a by (force simp: due_attempts_def map_filter_def image_iff simp flip: d1_def)
qed


definition monthly_gift :: mandate where
  "monthly_gift = (sample_mandate 5 1 None 2000 1290)\<lparr>rm_cadence := Monthly\<rparr>"

definition gift_standing :: standing_mandate where
  "gift_standing = \<lparr>sd_mandate = monthly_gift, sd_user = sample_user 1 Donor, sd_plan = None\<rparr>"

definition gift_due :: db where
  "gift_due = empty_db\<lparr>users := [sample_user 1 Donor], mandates := [monthly_gift], clock := 1290 * 86400\<rparr>"

definition gift_noticed :: "(loaded list \<times> standing_mandate \<times> run) \<times> db" where
  "gift_noticed = notice sample_config gift_standing 1290 (new_run 1290 False False) False gift_due"


subsection \<open>A renewal that cannot be priced\<close>

text \<open>Within a fortnight of its charge day a renewal whose term is still running is announced whenever
  nothing waits and the term was not renewed yet: a notice goes and an attempt is written, whatever
  attempts were announced and then skipped before.  A renewal the charge step skips every day (its
  plan is no longer sold) is therefore announced again every day.\<close>

theorem announced_again_after_skip:
  assumes mail: "\<And>n x. mail_accepted cfg n x" "u_email (sd_user s) \<noteq> []"
    and renewal: "rm_plan (sd_mandate s) \<noteq> None" "account_kind d (sd_user s) today = Member"
      "lifetime_term d (sd_user s) = None" "term_to_renew d (sd_user s) today = Some t"
      "rm_status (sd_mandate s) = MandateActive"
    and none: "waiting (rm_id (sd_mandate s)) d = []"
      "\<not> list_ex (\<lambda>a. ra_mandate a = rm_id (sd_mandate s) \<and> ra_membership a = Some (m_id t)
         \<and> ra_outcome a = AttemptSucceeded) (attempts d)"
    and x: "x = max (rm_next_charge_on (sd_mandate s)) today" "x - today \<le> notice_days"
  shows "outbox (snd (notice cfg s today r False d))
      = outbox d @ [(MandateMail ''renewal_notice'' (rm_id (sd_mandate s)) (Some x), True)]
    \<and> (\<exists>a. first_waiting (snd (notice cfg s today r False d)) (sd_mandate s) = Some a
        \<and> ra_membership a = Some (m_id t) \<and> ra_scheduled_on a = x \<and> ra_noticed_at a \<noteq> None)"
proof -
  let ?m = "sd_mandate s"
  have first: "first_waiting d ?m = None" using none(1) by (simp add: first_waiting_def)
  have "filter (\<lambda>a. ra_mandate a = rm_id ?m \<and> ra_outcome a = Scheduled) (attempts d) = []"
    using none(1) by (simp add: waiting_def)
  then have "charge_date d ?m today = Some x" using renewal(5) x(1) by (simp add: charge_date_def)
  moreover have "max x today = x" using x(1) by simp
  ultimately have "notice_renewal cfg s t today r False d = announce cfg s (Some t) None x today r False d"
    using first none(2) x(2) by (simp add: notice_renewal_def Let_def)
  moreover from first_waiting_scheduled [OF first, of "Some (m_id t)" x] obtain a where
    a: "schedule_attempt (rm_id ?m) (Some (m_id t)) x None d
        = (Some a, d\<lparr>next_pk := Suc (next_pk d), attempts := attempts d @ [a]\<rparr>)"
      "first_waiting (d\<lparr>next_pk := Suc (next_pk d), attempts := attempts d @ [a]\<rparr>) ?m = Some a"
      "ra_membership a = Some (m_id t)" "ra_scheduled_on a = x"
    by blast
  ultimately have "snd (notice cfg s today r False d)
      = send_notice cfg s a x (d\<lparr>next_pk := Suc (next_pk d), attempts := attempts d @ [a]\<rparr>)"
    using renewal by (auto simp: notice_def announce_def case_prod_beta)
  moreover have "outbox (send_notice cfg s a x d')
      = outbox d' @ [(MandateMail ''renewal_notice'' (rm_id ?m) (Some x), True)]" for d'
    using mail by (simp add: send_notice_def send_mandate_email_def send_mail_def edit_attempt_def)
  ultimately show ?thesis
    using a send_notice_tables(2) [OF mail, of a x] by simp
qed

definition plan_withdrawn :: db where
  \<comment> \<open>the charge that is due, when the plan is no longer sold\<close>
  "plan_withdrawn = due_charge\<lparr>plans := [(sample_plan 1 ''Annual'' (Some 365))\<lparr>pl_is_active := False\<rparr>]\<rparr>"

definition charge_refused :: db where
  \<comment> \<open>what the charge step leaves of it\<close>
  "charge_refused = snd (charge sample_config (mock_gateway sample_config) due_loaded 1300
     (new_run 1300 False False) False plan_withdrawn)"

lemma charge_refused_rows:
  "mandates charge_refused = [sample_mandate 5 1 (Some 1) 0 1300]"
  "map (\<lambda>a. (ra_id a, ra_mandate a, ra_membership a, ra_outcome a)) (attempts charge_refused)
    = [(8, 5, Some 1, AttemptSkipped)]"
  "terms charge_refused = terms renewing_member" "payments charge_refused = []"
  by code_simp+

theorem announced_again_after_skip_witness:
  "outbox (snd (notice sample_config due_standing 1301 (new_run 1301 False False) False charge_refused))
    = outbox charge_refused @ [(MandateMail ''renewal_notice'' 5 (Some 1301), True)]"
proof -
  have t: "terms charge_refused = [sample_term 1 1 1 1000 (Some 1364)]"
    by (simp add: charge_refused_rows renewing_member_def)
  have "memberships charge_refused (sample_user 1 Member) = [sample_term 1 1 1 1000 (Some 1364)]"
    by (simp add: memberships_def t sample_defs)
  then have rules: "account_kind charge_refused (sample_user 1 Member) 1301 = Member"
    "lifetime_term charge_refused (sample_user 1 Member) = None"
    "term_to_renew charge_refused (sample_user 1 Member) 1301 = Some (sample_term 1 1 1 1000 (Some 1364))"
    by (simp_all add: account_kind_def lifetime_term_def term_to_renew_def
        sample_defs friend_day_has_come_def member_making_statuses_def max_by_def sort_desc_def Let_def)
  have attempts: "waiting 5 charge_refused = []"
    "\<not> list_ex (\<lambda>a. ra_mandate a = 5 \<and> ra_membership a = Some 1 \<and> ra_outcome a = AttemptSucceeded) (attempts charge_refused)"
    by code_simp+
  have "mail_accepted sample_config n x" for n x by (simp add: sample_config_def)
  from announced_again_after_skip [OF this, of due_standing charge_refused 1301 "sample_term 1 1 1 1000 (Some 1364)" 1301] rules attempts
  show ?thesis by (simp add: due_standing_def sample_defs notice_days_def)
qed

subsection \<open>Where the scan and what it says of itself part\<close>

text \<open>An attempt skipped as already charged is counted, and no line of the summary says why.\<close>

lemma already_charged_not_reported:
  "rr_skipped (record_skipped ''already_charged'' r) = rr_skipped r + 1
    \<and> reported_reasons (record_skipped ''already_charged'' r) = reported_reasons r"
proof -
  have "map_of (rr_skipped_by_reason (record_skipped ''already_charged'' r)) reason
      = map_of (rr_skipped_by_reason r) reason" if "reason \<in> set scan_skip_reasons" for reason
    using that by (auto simp: record_skipped_def update_conv' scan_skip_reasons_def)
  note same = this
  have map_filter_eq: "(\<And>x. x \<in> set xs \<Longrightarrow> f x = g x) \<Longrightarrow> List.map_filter f xs = List.map_filter g xs"
    for f g :: "string \<Rightarrow> (string \<times> nat) option" and xs
    by (induction xs) (simp_all add: map_filter_simps split: option.splits)
  show ?thesis
    unfolding reported_reasons_def
    by (intro conjI map_filter_eq) (simp_all only: same, simp add: record_skipped_def)
qed

text \<open>A mandate too far behind is paused in memory by a live scan and not by a rehearsal, which then goes on
  to count a warning about its card that the live scan does not send.\<close>

definition warnings_after :: "config \<Rightarrow> standing_mandate \<Rightarrow> date \<Rightarrow> run \<Rightarrow> bool \<Rightarrow> db \<Rightarrow> nat" where
  \<comment> \<open>the warnings counted when one scan abandons a mandate and looks at its card\<close>
  "warnings_after cfg s today r dry d = (let ((s, r), d) = abandon cfg s r dry d
     in rr_warned (fst (warn_about_card cfg s today r dry d)))"

lemma rehearsal_warns_too_often:
  assumes "card_expires_on (sd_mandate s) = Some e" and "charge_date d (sd_mandate s) today = Some c"
    and "e < c" and "e - today \<le> card_expiry_warning_days"
    and "map_of (rm_raw (sd_mandate s)) card_warned_key \<noteq> Some (JStr (iso_date e))"
  shows "warnings_after cfg s today r True d = rr_warned r + 1 \<and> warnings_after cfg s today r False d = rr_warned r"
proof -
  define r1 where "r1 = record_action ''renewal_failed'' (sd_user s) None None lapsed_too_long_message
    (r\<lparr>rr_paused := rr_paused r + 1\<rparr>)"
  have r1: "rr_warned r1 = rr_warned r" by (simp add: r1_def record_action_def)
  have "abandon cfg s r True d = ((s, r1), d)" by (simp add: abandon_def r1_def)
  moreover have "warn_about_card cfg s today r1 True d
      = (record_action ''renewal_card_expiring'' (sd_user s) (Some e) None [] (r1\<lparr>rr_warned := rr_warned r1 + 1\<rparr>), d)"
    using assms by (simp add: warn_about_card_def Let_def)
  ultimately have dry: "warnings_after cfg s today r True d = rr_warned r + 1"
    by (simp add: warnings_after_def record_action_def r1)
  let ?s = "s\<lparr>sd_mandate := (sd_mandate s)\<lparr>rm_status := MandatePaused\<rparr>\<rparr>"
  obtain d1 where "abandon cfg s r False d = ((?s, r1), d1)"
    by (simp add: abandon_def r1_def Let_def)
  moreover have "charge_date d' (sd_mandate ?s) today = None" for d' by (simp add: charge_date_def)
  ultimately have "warnings_after cfg s today r False d = rr_warned r"
    by (simp add: warnings_after_def warn_about_card_def r1 Let_def split: option.splits)
  with dry show ?thesis by simp
qed

end
