(* ===== verification/Reminders.thy ===== *)
theory Reminders
  imports ScanSafety
begin

text \<open>
  The renewal reminder scanner (\<open>reminders/services.py\<close>) and the schedule it runs on
  (\<open>reminders/models.py\<close>): five stages, each a span of expiry dates, walked once a day.  Every
  reminder sent is a row of the log, keyed on the member, the term and the stage; the row is written
  before the message goes and taken back when it does not.

  The lemmas show that the stages of a valid schedule never overlap, that the log and the mail agree
  whatever the mail server refuses, and that a rehearsal names exactly whom a live run writes to.
\<close>

subsection \<open>The schedule\<close>

definition default_schedule :: reminder_schedule where
  "default_schedule = \<lparr>first_days_before = 60, second_days_before = 30, final_days_before = 7,
     lapsed_days_after = 30\<rparr>"

definition max_first_days_before :: int where
  "max_first_days_before = 180"

definition min_final_days_before :: int where
  "min_final_days_before = 1"

definition min_lapsed_days_after :: int where
  "min_lapsed_days_after = 7"

definition max_lapsed_days_after :: int where
  "max_lapsed_days_after = 365"

definition schedule_errors :: "int \<Rightarrow> int \<Rightarrow> int \<Rightarrow> int \<Rightarrow> (string \<times> string) list" where
  \<comment> \<open>keyed by field; the arguments are the first, second, final and lapsed days\<close>
  "schedule_errors first_days second_days final_days lapsed_days =
     (if first_days > max_first_days_before
      then [(''first_days_before'', ''The first reminder can be at most 180 days before expiry.'')]
      else if first_days \<le> second_days
      then [(''first_days_before'', ''The first reminder must be more days before expiry than the second.'')]
      else [])
     @ (if second_days \<le> final_days
        then [(''second_days_before'', ''The second reminder must be more days before expiry than the final one.'')]
        else [])
     @ (if final_days < min_final_days_before
        then [(''final_days_before'', ''The final reminder must be at least 1 day before expiry.'')]
        else [])
     @ (if \<not> (min_lapsed_days_after \<le> lapsed_days \<and> lapsed_days \<le> max_lapsed_days_after)
        then [(''lapsed_days_after'', ''The lapsed reminder must be 7 to 365 days after expiry.'')]
        else [])"

definition valid_schedule :: "reminder_schedule \<Rightarrow> bool" where
  "valid_schedule s \<longleftrightarrow> schedule_errors (first_days_before s) (second_days_before s)
     (final_days_before s) (lapsed_days_after s) = []"

definition load_schedule :: "db \<Rightarrow> reminder_schedule" where
  "load_schedule d = (case schedule_row d of Some s \<Rightarrow> s | None \<Rightarrow> default_schedule)"

definition save_schedule :: "reminder_schedule \<Rightarrow> db \<Rightarrow> db" where
  "save_schedule s d = d\<lparr>schedule_row := Some s\<rparr>"

definition kind_order :: "reminder_kind list" where
  "kind_order = [First, Second, Final, ExpiredKind, Lapsed]"

fun offset_of :: "reminder_schedule \<Rightarrow> reminder_kind \<Rightarrow> int" where
  \<comment> \<open>\<open>offsets()\<close>\<close>
  "offset_of s First = - first_days_before s"
| "offset_of s Second = - second_days_before s"
| "offset_of s Final = - final_days_before s"
| "offset_of s ExpiredKind = 0"
| "offset_of s Lapsed = lapsed_days_after s"

fun post_expiry_reach :: "reminder_kind \<Rightarrow> int option" where
  "post_expiry_reach ExpiredKind = Some 6"
| "post_expiry_reach Lapsed = Some 30"
| "post_expiry_reach _ = None"

definition stage_span :: "reminder_kind \<Rightarrow> date \<Rightarrow> reminder_schedule \<Rightarrow> date \<times> date" where
  "stage_span kind today s =
     (let offset = offset_of s kind;
          latest = today - offset;
          reach = (case post_expiry_reach kind of
             Some n \<Rightarrow> n
           | None \<Rightarrow> Min (set (filter (\<lambda>other. other > offset) (map (offset_of s) kind_order))) - offset - 1)
      in (latest - reach, latest))"

definition in_stage :: "reminder_schedule \<Rightarrow> date \<Rightarrow> reminder_kind \<Rightarrow> date \<Rightarrow> bool" where
  "in_stage s today kind e \<longleftrightarrow> (case stage_span kind today s of (a, b) \<Rightarrow> a \<le> e \<and> e \<le> b)"

subsection \<open>The summary of a run\<close>

record reminder_run =
  rn_today :: date
  rn_dry_run :: bool
  rn_sent :: nat
  rn_skipped :: nat
  rn_failed :: nat
  rn_expired_flipped :: nat
  rn_sent_by_kind :: "(reminder_kind \<times> nat) list"
  rn_skipped_by_reason :: "(string \<times> nat) list"
  rn_failed_by_kind :: "(reminder_kind \<times> nat) list"
  rn_actions :: "run_action list"

definition count_one :: "'k \<Rightarrow> ('k \<times> nat) list \<Rightarrow> ('k \<times> nat) list" where
  "count_one k counts = AList.update k ((case map_of counts k of Some n \<Rightarrow> n | None \<Rightarrow> 0) + 1) counts"

definition kind_value :: "reminder_kind \<Rightarrow> string" where
  "kind_value k = (case k of First \<Rightarrow> ''first'' | Second \<Rightarrow> ''second'' | Final \<Rightarrow> ''final''
     | ExpiredKind \<Rightarrow> ''expired'' | Lapsed \<Rightarrow> ''lapsed'')"

definition record_reminded :: "reminder_kind \<Rightarrow> user \<Rightarrow> membership \<Rightarrow> reminder_run \<Rightarrow> reminder_run" where
  "record_reminded kind u t r = r\<lparr>rn_sent := rn_sent r + 1,
     rn_sent_by_kind := count_one kind (rn_sent_by_kind r),
     rn_actions := rn_actions r @ [\<lparr>ac_kind = kind_value kind, ac_member = display_name u,
       ac_email = u_email u, ac_on = m_ends_on t, ac_amount_cents = None, ac_detail = []\<rparr>]\<rparr>"

definition record_passed_over :: "string \<Rightarrow> reminder_run \<Rightarrow> reminder_run" where
  "record_passed_over reason r = r\<lparr>rn_skipped := rn_skipped r + 1,
     rn_skipped_by_reason := count_one reason (rn_skipped_by_reason r)\<rparr>"

definition record_unsent :: "reminder_kind \<Rightarrow> reminder_run \<Rightarrow> reminder_run" where
  "record_unsent kind r = r\<lparr>rn_failed := rn_failed r + 1,
     rn_failed_by_kind := count_one kind (rn_failed_by_kind r)\<rparr>"

definition problem :: "reminder_run \<Rightarrow> string" where
  "problem r = (if rn_failed r = 0 then []
     else digits (int (rn_failed r)) @ '' reminder'' @ (if rn_failed r = 1 then [] else ''s'')
       @ '' could not be sent; the scan log names the member and membership ids'')"

subsection \<open>Who is written to\<close>

definition renews_itself :: "db \<Rightarrow> user \<Rightarrow> bool" where
  "renews_itself d u =
     (case first_of (sort_key rm_id (filter (\<lambda>m. rm_user m = u_id u \<and> rm_plan m \<noteq> None) (mandates d))) of
        None \<Rightarrow> False
      | Some m \<Rightarrow>
          if rm_status m = MandateActive then True
          else if rm_status m \<noteq> MandatePending then False
          else list_ex (\<lambda>a. ra_mandate a = rm_id m \<and> ra_outcome a = Scheduled) (attempts d))"

definition log_key :: "reminder_log \<Rightarrow> pk \<times> pk \<times> reminder_kind" where
  "log_key l = (rl_user l, rl_membership l, rl_kind l)"

definition reminder_skip_reason :: "db \<Rightarrow> user \<Rightarrow> membership \<Rightarrow> reminder_kind \<Rightarrow> date \<Rightarrow> string option" where
  "reminder_skip_reason d u t kind today =
     (if \<not> u_is_active u then Some ''inactive_user''
      else if u_email u = [] then Some ''no_email''
      else if list_ex (\<lambda>l. log_key l = (u_id u, m_id t, kind)) (reminder_logs d) then Some ''already_sent''
      else let status = membership_status d (Some u) today
           in if st_is_lifetime status then Some ''lifetime''
              else if renews_itself d u then Some ''auto_renew''
              else if kind = Lapsed
              then (if st_status status = StateCurrent then Some ''renewed'' else None)
              else if st_expires_on status \<noteq> m_ends_on t then Some ''renewed''
              else None)"

definition candidate_term :: "date \<Rightarrow> date \<Rightarrow> db \<Rightarrow> membership \<Rightarrow> (user \<times> membership) option" where
  \<comment> \<open>the filters of one row, joined to its account\<close>
  "candidate_term earliest latest d t =
     (case (m_ends_on t, get_user d (m_user t)) of
        (Some e, Some u) \<Rightarrow>
          if earliest \<le> e \<and> e \<le> latest \<and> m_status t \<notin> {TermCanceled, TermSuspended}
             \<and> u_kind u \<noteq> Friend \<and> u_friend_on u = None
          then Some (u, t) else None
      | _ \<Rightarrow> None)"

definition candidates :: "reminder_kind \<Rightarrow> date \<Rightarrow> reminder_schedule \<Rightarrow> db \<Rightarrow> (user \<times> membership) list" where
  "candidates kind today s d =
     (let (earliest, latest) = stage_span kind today s
      in List.map_filter (candidate_term earliest latest d) (sort_key (\<lambda>t. (m_user t, m_id t)) (terms d)))"

subsection \<open>Sending\<close>

datatype send_refusal = LoggedMeanwhile | MailRefused

definition send_one :: "config \<Rightarrow> user \<Rightarrow> membership \<Rightarrow> reminder_kind \<Rightarrow> db \<Rightarrow> (send_refusal + unit) \<times> db" where
  \<comment> \<open>the unique constraint refuses a second row of one key; the row is deleted when the mail fails\<close>
  "send_one cfg u t kind d =
     (if list_ex (\<lambda>l. log_key l = (u_id u, m_id t, kind)) (reminder_logs d) then (Inl LoggedMeanwhile, d)
      else let row = \<lparr>rl_user = u_id u, rl_membership = m_id t, rl_kind = kind, rl_sent_at = clock d,
                 rl_to_email = u_email u\<rparr>;
               d = d\<lparr>reminder_logs := reminder_logs d @ [row]\<rparr>
           in case send_mail cfg (ReminderMail kind (u_id u) (m_id t)) d of
                (True, d) \<Rightarrow> (Inr (), d)
              | (False, d) \<Rightarrow> (Inl MailRefused,
                  d\<lparr>reminder_logs := rows_delete (\<lambda>l. log_key l = log_key row) (reminder_logs d)\<rparr>))"

definition remind :: "config \<Rightarrow> reminder_kind \<Rightarrow> date \<Rightarrow> bool \<Rightarrow> user \<times> membership
    \<Rightarrow> reminder_run \<times> db \<Rightarrow> reminder_run \<times> db" where
  \<comment> \<open>the body of the inner loop\<close>
  "remind cfg kind today dry c acc =
     (case (c, acc) of ((u, t), (r, d)) \<Rightarrow>
        (case reminder_skip_reason d u t kind today of
           Some reason \<Rightarrow> (record_passed_over reason r, d)
         | None \<Rightarrow>
             if dry then (record_reminded kind u t r, d)
             else (case send_one cfg u t kind d of
                     (Inl LoggedMeanwhile, d) \<Rightarrow> (record_passed_over ''already_sent'' r, d)
                   | (Inl MailRefused, d) \<Rightarrow> (record_unsent kind r, d)
                   | (Inr _, d) \<Rightarrow> (record_reminded kind u t r, d))))"

definition remind_stage :: "config \<Rightarrow> date \<Rightarrow> bool \<Rightarrow> reminder_schedule \<Rightarrow> reminder_kind
    \<Rightarrow> reminder_run \<times> db \<Rightarrow> reminder_run \<times> db" where
  "remind_stage cfg today dry s kind acc =
     fold (remind cfg kind today dry) (candidates kind today s (snd acc)) acc"

definition new_reminder_run :: "date \<Rightarrow> bool \<Rightarrow> reminder_run" where
  "new_reminder_run today dry = \<lparr>rn_today = today, rn_dry_run = dry, rn_sent = 0, rn_skipped = 0,
     rn_failed = 0, rn_expired_flipped = 0, rn_sent_by_kind = [], rn_skipped_by_reason = [],
     rn_failed_by_kind = [], rn_actions = []\<rparr>"

definition send_renewal_reminders :: "config \<Rightarrow> date option \<Rightarrow> bool \<Rightarrow> actor \<Rightarrow> db \<Rightarrow> reminder_run \<times> db" where
  "send_renewal_reminders cfg today dry actor d =
     (let today = (case today of Some x \<Rightarrow> x | None \<Rightarrow> local_today cfg d);
          (flipped, d) = (if dry then (rows_matched (lapsed_term today) (terms d), d)
            else expire_lapsed_memberships cfg (Some today) d);
          d = (if dry then d else snd (convert_due_friends cfg (Some today) d));
          r = (new_reminder_run today dry)\<lparr>rn_expired_flipped := flipped\<rparr>;
          (r, d) = fold (remind_stage cfg today dry (load_schedule d)) kind_order (r, d)
      in (r, audit_record ''reminders.run'' actor None [(''dry_run'', ABool dry),
            (''sent'', AInt (int (rn_sent r))), (''skipped'', AInt (int (rn_skipped r))),
            (''failed'', AInt (int (rn_failed r))), (''expired_flipped'', AInt (int (rn_expired_flipped r)))] d))"

subsection \<open>The stages of a valid schedule\<close>

lemma valid_schedule_iff:
  "valid_schedule s \<longleftrightarrow> first_days_before s \<le> 180 \<and> second_days_before s < first_days_before s
    \<and> final_days_before s < second_days_before s \<and> 1 \<le> final_days_before s
    \<and> 7 \<le> lapsed_days_after s \<and> lapsed_days_after s \<le> 365"
  by (auto simp: valid_schedule_def schedule_errors_def max_first_days_before_def
      min_final_days_before_def min_lapsed_days_after_def max_lapsed_days_after_def split: if_splits)

lemma stage_span_valid:
  assumes "valid_schedule s"
  shows "stage_span kind today s = (case kind of
      First \<Rightarrow> (today + second_days_before s + 1, today + first_days_before s)
    | Second \<Rightarrow> (today + final_days_before s + 1, today + second_days_before s)
    | Final \<Rightarrow> (today + 1, today + final_days_before s)
    | ExpiredKind \<Rightarrow> (today - 6, today)
    | Lapsed \<Rightarrow> (today - lapsed_days_after s - 30, today - lapsed_days_after s))"
  using assms by (cases kind) (auto simp: valid_schedule_iff stage_span_def kind_order_def Let_def min_def)

text \<open>C33: the stages of a schedule that passes its own rules never overlap, so a scan writes to a member
  about a term at most once, and the three stages ahead of expiry together cover every day from
  tomorrow to the first reminder's day, so no term slips between two of them.\<close>

theorem stages_tile:
  assumes "valid_schedule s"
  shows "(in_stage s today k1 e \<and> in_stage s today k2 e \<longrightarrow> k1 = k2)
    \<and> ((\<exists>k \<in> {First, Second, Final}. in_stage s today k e) \<longleftrightarrow> today < e \<and> e \<le> today + first_days_before s)
    \<and> (in_stage s today ExpiredKind e \<longleftrightarrow> today - 6 \<le> e \<and> e \<le> today)
    \<and> (in_stage s today Lapsed e \<longleftrightarrow> today - lapsed_days_after s - 30 \<le> e \<and> e \<le> today - lapsed_days_after s)"
  using assms
  by (cases k1; cases k2) (auto simp: in_stage_def stage_span_valid valid_schedule_iff)

theorem stages_tile_witness:
  "(\<exists>k \<in> {First, Second, Final}. in_stage default_schedule 1000 k 1023)
    \<and> \<not> in_stage default_schedule 1000 ExpiredKind 1023"
proof -
  have "valid_schedule default_schedule" by (simp add: valid_schedule_iff default_schedule_def)
  from stages_tile [OF this, of 1000 First 1023 First] show ?thesis
    by (simp add: default_schedule_def)
qed

subsection \<open>The log and the mail agree\<close>

definition reminder_key :: "mail \<times> bool \<Rightarrow> (pk \<times> pk \<times> reminder_kind) option" where
  \<comment> \<open>what a message the mail server took reminds of\<close>
  "reminder_key x = (case x of (ReminderMail kind u t, True) \<Rightarrow> Some (u, t, kind) | _ \<Rightarrow> None)"

definition reminded :: "db \<Rightarrow> (pk \<times> pk \<times> reminder_kind) list" where
  "reminded d = List.map_filter reminder_key (outbox d)"

definition reminders_logged :: "db \<Rightarrow> bool" where
  \<comment> \<open>the log holds the reminders that went, each once, in the order they went\<close>
  "reminders_logged d \<longleftrightarrow> map log_key (reminder_logs d) = reminded d \<and> distinct (reminded d)"

lemma reminders_logged_cong:
  "reminder_logs d' = reminder_logs d \<Longrightarrow> outbox d' = outbox d \<Longrightarrow> reminders_logged d' = reminders_logged d"
  by (simp add: reminders_logged_def reminded_def)

lemma reminded_snoc:
  "reminded (d\<lparr>outbox := outbox d @ [(ReminderMail kind u t, True)]\<rparr>) = reminded d @ [(u, t, kind)]"
  "reminded (d\<lparr>outbox := outbox d @ [(ReminderMail kind u t, False)]\<rparr>) = reminded d"
  "reminded (d\<lparr>reminder_logs := ls, outbox := outbox d @ [(ReminderMail kind u t, True)]\<rparr>) = reminded d @ [(u, t, kind)]"
  by (simp_all add: reminded_def reminder_key_def List.map_filter_def)

lemma send_one_result:
  assumes "(u_id u, m_id t, kind) \<notin> log_key ` set (reminder_logs d)"
  shows "send_one cfg u t kind d =
    (if mail_accepted cfg (length (outbox d)) (ReminderMail kind (u_id u) (m_id t))
     then (Inr (), d\<lparr>reminder_logs := reminder_logs d @ [\<lparr>rl_user = u_id u, rl_membership = m_id t,
             rl_kind = kind, rl_sent_at = clock d, rl_to_email = u_email u\<rparr>],
             outbox := outbox d @ [(ReminderMail kind (u_id u) (m_id t), True)]\<rparr>)
     else (Inl MailRefused, d\<lparr>outbox := outbox d @ [(ReminderMail kind (u_id u) (m_id t), False)]\<rparr>))"
proof -
  have "\<not> list_ex (\<lambda>l. log_key l = (u_id u, m_id t, kind)) (reminder_logs d)"
    using assms by (force simp: list_ex_iff)
  moreover have "rows_delete (\<lambda>l. log_key l = (u_id u, m_id t, kind)) (reminder_logs d) = reminder_logs d"
    using assms by (force simp: rows_delete_def intro: filter_True)
  ultimately show ?thesis
    by (simp add: send_one_def send_mail_def Let_def log_key_def rows_delete_def)
qed

lemma remind_logged:
  assumes "reminders_logged d"
  shows "reminders_logged (snd (remind cfg kind today dry c (r, d)))"
proof -
  obtain u t where c: "c = (u, t)" by (cases c)
  show ?thesis
  proof (cases "reminder_skip_reason d u t kind today = None \<and> \<not> dry")
    case False
    then show ?thesis using assms by (auto simp: remind_def c split: option.splits)
  next
    case True
    then have "(u_id u, m_id t, kind) \<notin> log_key ` set (reminder_logs d)"
      by (auto simp: reminder_skip_reason_def list_ex_iff split: if_splits)
    moreover have "set (reminded d) = log_key ` set (reminder_logs d)"
      using assms by (metis reminders_logged_def set_map)
    ultimately show ?thesis
      using assms True
      by (simp add: remind_def c send_one_result reminders_logged_def reminded_snoc)
        (simp add: log_key_def)
  qed
qed

lemma remind_stage_logged:
  "reminders_logged (snd acc) \<Longrightarrow> reminders_logged (snd (remind_stage cfg today dry s kind acc))"
proof -
  have "reminders_logged (snd acc) \<Longrightarrow> reminders_logged (snd (fold (remind cfg kind today dry) cs acc))" for cs
  proof (induction cs arbitrary: acc)
    case (Cons c cs)
    then show ?case using remind_logged [of "snd acc" cfg kind today dry c "fst acc"] by simp
  qed simp
  then show "reminders_logged (snd acc) \<Longrightarrow> ?thesis" by (simp add: remind_stage_def)
qed

text \<open>What the two daily scans leave alone.\<close>

lemma announce_rest:
  "reminder_logs (fold (announce_expiry x) ts d) = reminder_logs d" "outbox (fold (announce_expiry x) ts d) = outbox d"
  "mandates (fold (announce_expiry x) ts d) = mandates d" "attempts (fold (announce_expiry x) ts d) = attempts d"
  "schedule_row (fold (announce_expiry x) ts d) = schedule_row d"
  by (induction ts arbitrary: d) (simp_all add: announce_expiry_def emit_def)

lemma expire_rest:
  "reminder_logs (snd (expire_lapsed_memberships cfg x d)) = reminder_logs d"
  "outbox (snd (expire_lapsed_memberships cfg x d)) = outbox d"
  "mandates (snd (expire_lapsed_memberships cfg x d)) = mandates d"
  "attempts (snd (expire_lapsed_memberships cfg x d)) = attempts d"
  "schedule_row (snd (expire_lapsed_memberships cfg x d)) = schedule_row d"
  "users (snd (expire_lapsed_memberships cfg x d)) = users d"
  by (simp_all add: expire_lapsed_memberships_def Let_def announce_rest table_simps)

lemma convert_one_rest:
  "reminder_logs (snd (convert_one x u acc)) = reminder_logs (snd acc)"
  "outbox (snd (convert_one x u acc)) = outbox (snd acc)"
  "mandates (snd (convert_one x u acc)) = mandates (snd acc)"
  "attempts (snd (convert_one x u acc)) = attempts (snd acc)"
  "schedule_row (snd (convert_one x u acc)) = schedule_row (snd acc)"
  "terms (snd (convert_one x u acc)) = terms (snd acc)"
  "plans (snd (convert_one x u acc)) = plans (snd acc)"
  by (simp_all add: convert_one_def Let_def emit_def audit_record_def split: prod.splits)

lemma convert_fold_rest:
  "reminder_logs (snd (fold (convert_one x) us acc)) = reminder_logs (snd acc)"
  "outbox (snd (fold (convert_one x) us acc)) = outbox (snd acc)"
  "mandates (snd (fold (convert_one x) us acc)) = mandates (snd acc)"
  "attempts (snd (fold (convert_one x) us acc)) = attempts (snd acc)"
  "schedule_row (snd (fold (convert_one x) us acc)) = schedule_row (snd acc)"
  "terms (snd (fold (convert_one x) us acc)) = terms (snd acc)"
  "plans (snd (fold (convert_one x) us acc)) = plans (snd acc)"
  by (induction us arbitrary: acc) (simp_all add: convert_one_rest)

lemma convert_rest:
  "reminder_logs (snd (convert_due_friends cfg x d)) = reminder_logs d"
  "outbox (snd (convert_due_friends cfg x d)) = outbox d"
  "mandates (snd (convert_due_friends cfg x d)) = mandates d"
  "attempts (snd (convert_due_friends cfg x d)) = attempts d"
  "schedule_row (snd (convert_due_friends cfg x d)) = schedule_row d"
  "terms (snd (convert_due_friends cfg x d)) = terms d"
  "plans (snd (convert_due_friends cfg x d)) = plans d"
  by (simp_all add: convert_due_friends_def convert_listed_def convert_fold_rest Let_def)

definition prepared :: "config \<Rightarrow> date \<Rightarrow> bool \<Rightarrow> db \<Rightarrow> db" where
  \<comment> \<open>the database the stages are walked on\<close>
  "prepared cfg today dry d = (if dry then d
     else snd (convert_due_friends cfg (Some today) (snd (expire_lapsed_memberships cfg (Some today) d))))"

definition flipped_by :: "config \<Rightarrow> date \<Rightarrow> bool \<Rightarrow> db \<Rightarrow> nat" where
  "flipped_by cfg today dry d = (if dry then rows_matched (lapsed_term today) (terms d)
     else fst (expire_lapsed_memberships cfg (Some today) d))"

definition walked :: "config \<Rightarrow> date \<Rightarrow> bool \<Rightarrow> db \<Rightarrow> reminder_run \<times> db" where
  "walked cfg today dry d = fold (remind_stage cfg today dry (load_schedule (prepared cfg today dry d))) kind_order
     ((new_reminder_run today dry)\<lparr>rn_expired_flipped := flipped_by cfg today dry d\<rparr>, prepared cfg today dry d)"

lemma send_renewal_reminders_walked:
  "\<exists>fields. send_renewal_reminders cfg (Some today) dry actor d
    = (fst (walked cfg today dry d), audit_record ''reminders.run'' actor None fields (snd (walked cfg today dry d)))"
proof -
  obtain n d1 where e: "expire_lapsed_memberships cfg (Some today) d = (n, d1)" by fastforce
  obtain r d2 where w: "walked cfg today dry d = (r, d2)" by fastforce
  have "send_renewal_reminders cfg (Some today) dry actor d = (r, audit_record ''reminders.run'' actor None
     [(''dry_run'', ABool dry), (''sent'', AInt (int (rn_sent r))), (''skipped'', AInt (int (rn_skipped r))),
      (''failed'', AInt (int (rn_failed r))), (''expired_flipped'', AInt (int (rn_expired_flipped r)))] d2)"
    using w by (cases dry) (simp_all only: send_renewal_reminders_def walked_def prepared_def flipped_by_def Let_def e
        option.case if_True if_False case_prod_conv fst_conv snd_conv)
  with w show ?thesis by auto
qed

lemma send_renewal_reminders_today:
  "send_renewal_reminders cfg None dry actor d = send_renewal_reminders cfg (Some (local_today cfg d)) dry actor d"
  by (simp add: send_renewal_reminders_def)

lemma prepared_rest:
  "reminder_logs (prepared cfg x dry d) = reminder_logs d" "outbox (prepared cfg x dry d) = outbox d"
  "mandates (prepared cfg x dry d) = mandates d" "attempts (prepared cfg x dry d) = attempts d"
  "schedule_row (prepared cfg x dry d) = schedule_row d" "plans (prepared cfg x dry d) = plans d"
  by (simp_all add: prepared_def convert_rest expire_rest plans_expire)

lemma walked_logged: "reminders_logged d \<Longrightarrow> reminders_logged (snd (walked cfg today dry d))"
proof -
  have "reminders_logged (snd acc) \<Longrightarrow> reminders_logged (snd (fold (remind_stage cfg today dry s) ks acc))" for s ks acc
    by (induction ks arbitrary: acc) (simp_all add: remind_stage_logged)
  moreover assume "reminders_logged d"
  then have "reminders_logged (prepared cfg today dry d)"
    by (simp only: reminders_logged_cong [OF prepared_rest(1,2)])
  ultimately show ?thesis by (simp add: walked_def)
qed

lemma run_logged: "reminders_logged d \<Longrightarrow> reminders_logged (snd (send_renewal_reminders cfg today dry actor d))"
proof -
  assume d: "reminders_logged d"
  have "reminders_logged (snd (send_renewal_reminders cfg (Some x) dry actor d))" for x
  proof -
    obtain fields where "send_renewal_reminders cfg (Some x) dry actor d
        = (fst (walked cfg x dry d), audit_record ''reminders.run'' actor None fields (snd (walked cfg x dry d)))"
      using send_renewal_reminders_walked by blast
    with walked_logged [OF d] show ?thesis
      by (simp add: audit_record_def reminders_logged_def reminded_def)
  qed
  then show ?thesis by (cases today) (simp_all add: send_renewal_reminders_today)
qed

text \<open>C25: each reminder goes once.  Whatever days the scans run on, however the schedule is edited between
  them, whoever asks for them and whichever messages the mail server refuses, the log names exactly the
  reminders the mail server took, in the order they went, and no member gets the reminder of one
  stage about one term twice.\<close>

theorem each_reminder_once:
  assumes "reminders_logged d"
  shows "reminders_logged (fold (\<lambda>(cfg, s, today, dry, actor) d.
    snd (send_renewal_reminders cfg today dry actor (save_schedule s d))) scans d)"
  using assms
proof (induction scans arbitrary: d)
  case (Cons scan scans)
  obtain cfg s today dry actor where scan: "scan = (cfg, s, today, dry, actor)" by (cases scan)
  have "reminders_logged (save_schedule s d)"
    using Cons.prems by (simp add: save_schedule_def reminders_logged_def reminded_def)
  then show ?case by (simp add: scan Cons.IH run_logged)
qed simp

definition two_scans :: "(config \<times> reminder_schedule \<times> date option \<times> bool \<times> actor) list" where
  \<comment> \<open>the same member is in the second stage on both days\<close>
  "two_scans = [(sample_config, default_schedule, Some 1340, False, Command),
     (sample_config, default_schedule\<lparr>first_days_before := 90\<rparr>, Some 1341, False, Command)]"

theorem each_reminder_once_witness:
  "reminders_logged (fold (\<lambda>(cfg, s, today, dry, actor) d.
      snd (send_renewal_reminders cfg today dry actor (save_schedule s d))) two_scans renewing_member)"
proof -
  have "reminders_logged renewing_member" by code_simp
  from each_reminder_once [OF this, of two_scans] show ?thesis .
qed

subsection \<open>A rehearsal names whom a live run writes to\<close>

text \<open>One walk along all the stages: the candidates never change under it, so the stages can be read off
  the database the walk begins on.\<close>

definition all_candidates :: "date \<Rightarrow> reminder_schedule \<Rightarrow> db \<Rightarrow> (reminder_kind \<times> user \<times> membership) list" where
  "all_candidates today s d = concat (map (\<lambda>k. map (Pair k) (candidates k today s d)) kind_order)"

definition no_reminders :: "db \<Rightarrow> db" where
  "no_reminders d = d\<lparr>reminder_logs := [], outbox := []\<rparr>"

definition only_reminded :: "db \<Rightarrow> db \<Rightarrow> bool" where
  \<comment> \<open>nothing but the log and the mail differs\<close>
  "only_reminded d d' \<longleftrightarrow> no_reminders d' = no_reminders d"

lemma only_reminded_refl [simp]: "only_reminded d d"
  by (simp add: only_reminded_def)

lemma only_reminded_trans: "only_reminded d d' \<Longrightarrow> only_reminded d' d'' \<Longrightarrow> only_reminded d d''"
  by (simp add: only_reminded_def)

lemma only_reminded_tables:
  assumes "only_reminded d d'"
  shows "users d' = users d" "terms d' = terms d" "plans d' = plans d" "mandates d' = mandates d"
    "attempts d' = attempts d" "schedule_row d' = schedule_row d"
proof -
  have same: "f d' = f d" if "\<And>x. f (no_reminders x) = f x" for f :: "db \<Rightarrow> 'x"
    using assms that by (metis only_reminded_def)
  show "users d' = users d" "terms d' = terms d" "plans d' = plans d" "mandates d' = mandates d"
    "attempts d' = attempts d" "schedule_row d' = schedule_row d"
    by (rule same, simp add: no_reminders_def)+
qed

lemma candidates_cong:
  assumes "users d' = users d" and "terms d' = terms d"
  shows "candidates k x s d' = candidates k x s d"
proof -
  have "candidate_term a b d' = candidate_term a b d" for a b
    by (simp add: candidate_term_def fun_eq_iff get_user_def assms)
  then show ?thesis by (simp add: candidates_def assms)
qed

lemma send_one_only: "only_reminded d (snd (send_one cfg u t k d))"
  by (cases "mail_accepted cfg (length (outbox d)) (ReminderMail k (u_id u) (m_id t))")
    (simp_all add: send_one_def send_mail_def Let_def only_reminded_def no_reminders_def)

lemma remind_only: "only_reminded (snd acc) (snd (remind cfg k x dry c acc))"
proof -
  have "only_reminded d d'" if "send_one cfg u t k d = (y, d')" for u t d y d'
    using send_one_only [of d cfg u t k] that by simp
  then show ?thesis
    by (auto simp: remind_def split: prod.splits option.splits sum.splits send_refusal.splits)
qed

lemma remind_fold_only: "only_reminded (snd acc) (snd (fold (remind cfg k x dry) cs acc))"
proof (induction cs arbitrary: acc)
  case (Cons c cs)
  then show ?case using remind_only only_reminded_trans by (metis fold_simps(2))
qed simp

lemma stages_flat:
  "fold (remind_stage cfg x dry s) ks acc
    = fold (\<lambda>(k, c). remind cfg k x dry c) (concat (map (\<lambda>k. map (Pair k) (candidates k x s (snd acc))) ks)) acc"
proof (induction ks arbitrary: acc)
  case (Cons k ks)
  let ?acc = "remind_stage cfg x dry s k acc"
  have "only_reminded (snd acc) (snd ?acc)"
    by (simp add: remind_stage_def remind_fold_only)
  then have "candidates j x s (snd ?acc) = candidates j x s (snd acc)" for j
    by (intro candidates_cong only_reminded_tables)
  moreover have "fold (\<lambda>(k, c). remind cfg k x dry c) (map (Pair k) cs) = fold (remind cfg k x dry) cs" for cs
    by (simp add: fold_map comp_def)
  ultimately have "fold (\<lambda>(k, c). remind cfg k x dry c) (map (Pair k) (candidates k x s (snd acc))) acc = ?acc"
    and "\<And>j. candidates j x s (snd ?acc) = candidates j x s (snd acc)"
    by (simp_all add: remind_stage_def)
  then show ?case by (simp add: Cons.IH)
qed simp

definition candidate_key :: "reminder_kind \<times> user \<times> membership \<Rightarrow> pk \<times> pk \<times> reminder_kind" where
  "candidate_key c = (case c of (k, u, t) \<Rightarrow> (u_id u, m_id t, k))"

definition skip_of :: "db \<Rightarrow> date \<Rightarrow> reminder_kind \<times> user \<times> membership \<Rightarrow> string option" where
  "skip_of d x c = (case c of (k, u, t) \<Rightarrow> reminder_skip_reason d u t k x)"

definition decided :: "db \<Rightarrow> date \<Rightarrow> reminder_kind \<times> user \<times> membership \<Rightarrow> reminder_run \<Rightarrow> reminder_run" where
  \<comment> \<open>what a candidate adds to the summary when every message is taken\<close>
  "decided d x c r = (case skip_of d x c of Some reason \<Rightarrow> record_passed_over reason r
     | None \<Rightarrow> (case c of (k, u, t) \<Rightarrow> record_reminded k u t r))"

lemma membership_status_cong:
  assumes "terms d' = terms d" and "plans d' = plans d"
  shows "membership_status d' u y = membership_status d u y"
proof -
  have "memberships d' = memberships d" "plan_name d' = plan_name d" "started_terms d' = started_terms d"
    using assms by (auto simp: fun_eq_iff memberships_def plan_name_def get_plan_def started_terms_def)
  note same = this
  show ?thesis
    unfolding membership_status_def account_kind_def awaits_first_term_def coverage_def current_term_def same ..
qed

lemma renews_itself_cong:
  "mandates d' = mandates d \<Longrightarrow> attempts d' = attempts d \<Longrightarrow> renews_itself d' u = renews_itself d u"
  by (simp add: renews_itself_def cong: option.case_cong)

lemma skip_of_cong:
  assumes "only_reminded d d'" and "candidate_key c \<in> log_key ` set (reminder_logs d')
    \<longleftrightarrow> candidate_key c \<in> log_key ` set (reminder_logs d)"
  shows "skip_of d' x c = skip_of d x c"
proof -
  obtain k u t where c: "c = (k, u, t)" by (cases c)
  have "list_ex (\<lambda>l. log_key l = (u_id u, m_id t, k)) (reminder_logs d')
      \<longleftrightarrow> list_ex (\<lambda>l. log_key l = (u_id u, m_id t, k)) (reminder_logs d)"
    using assms(2) by (simp add: c candidate_key_def list_ex_iff image_iff eq_commute)
  moreover have "renews_itself d' u = renews_itself d u"
    by (rule renews_itself_cong) (rule only_reminded_tables [OF assms(1)])+
  ultimately show ?thesis
    using membership_status_cong [OF only_reminded_tables(2,3) [OF assms(1)]]
    by (simp add: c skip_of_def reminder_skip_reason_def Let_def)
qed

lemma skip_of_logged: "skip_of d x c = None \<Longrightarrow> candidate_key c \<notin> log_key ` set (reminder_logs d)"
  by (auto simp: skip_of_def reminder_skip_reason_def candidate_key_def list_ex_iff split: prod.splits if_splits)

lemma walk_rehearsed: "fold (\<lambda>(k, c). remind cfg k x True c) cs (r, d) = (fold (decided d x) cs r, d)"
  by (induction cs arbitrary: r)
    (auto simp: remind_def decided_def skip_of_def split: prod.splits option.splits)

lemma remind_live:
  assumes "\<And>n m. mail_accepted cfg n m" and "remind cfg k x False (u, t) (r, d) = (r1, d1)"
  shows "r1 = decided d x (k, u, t) r \<and> only_reminded d d1
    \<and> log_key ` set (reminder_logs d1) = log_key ` set (reminder_logs d)
        \<union> (if skip_of d x (k, u, t) = None then {candidate_key (k, u, t)} else {})"
proof (cases "skip_of d x (k, u, t)")
  case None
  from skip_of_logged [OF this] have "(u_id u, m_id t, k) \<notin> log_key ` set (reminder_logs d)"
    by (simp add: candidate_key_def)
  from send_one_result [OF this, of cfg] None assms show ?thesis
    by (auto simp: remind_def skip_of_def decided_def candidate_key_def log_key_def only_reminded_def no_reminders_def)
next
  case (Some y)
  with assms(2) show ?thesis by (auto simp: remind_def skip_of_def decided_def)
qed

lemma walk_live:
  assumes "\<And>n m. mail_accepted cfg n m" and "distinct (map candidate_key cs)"
    and "fold (\<lambda>(k, c). remind cfg k x False c) cs (r, d) = (r1, d1)"
  shows "r1 = fold (decided d x) cs r \<and> only_reminded d d1
    \<and> log_key ` set (reminder_logs d1) = log_key ` set (reminder_logs d)
        \<union> candidate_key ` {c \<in> set cs. skip_of d x c = None}"
  using assms(2,3)
proof (induction cs arbitrary: r d)
  case Nil
  then show ?case by simp
next
  case (Cons c cs)
  obtain k u t where c: "c = (k, u, t)" by (cases c)
  obtain r2 d2 where step: "remind cfg k x False (u, t) (r, d) = (r2, d2)" by fastforce
  note one = remind_live [OF assms(1) step]
  have rest: "skip_of d2 x b = skip_of d x b" if "b \<in> set cs" for b
  proof (rule skip_of_cong)
    have "candidate_key b \<noteq> candidate_key c" using Cons.prems(1) that by (auto simp: image_iff)
    then show "candidate_key b \<in> log_key ` set (reminder_logs d2)
        \<longleftrightarrow> candidate_key b \<in> log_key ` set (reminder_logs d)"
      using one by (auto simp: c)
  qed (use one in simp)
  then have same: "fold (decided d2 x) cs r2 = fold (decided d x) cs r2"
    by (intro fold_cong) (auto simp: decided_def fun_eq_iff)
  have "fold (\<lambda>(k, c). remind cfg k x False c) cs (r2, d2) = (r1, d1)"
    using Cons.prems(2) by (simp add: c step)
  from Cons.IH [OF _ this] Cons.prems(1)
  have "r1 = fold (decided d x) cs r2" "only_reminded d2 d1"
    "log_key ` set (reminder_logs d1) = log_key ` set (reminder_logs d2) \<union> candidate_key ` {b \<in> set cs. skip_of d x b = None}"
    using same rest by (auto cong: conj_cong)
  with one show ?case by (auto simp: c intro: only_reminded_trans)
qed

text \<open>Expiring terms and converting friends ahead of the walk leave the same candidates, decided alike.\<close>

lemma row_get_map_same_key:
  "(\<And>r. key (f r) = key r) \<Longrightarrow> row_get key (map f t) k = map_option f (row_get key t k)"
  by (induction t) auto

definition expired_candidate :: "date \<Rightarrow> reminder_kind \<times> user \<times> membership \<Rightarrow> reminder_kind \<times> user \<times> membership" where
  "expired_candidate x c = (case c of (k, u, t) \<Rightarrow> (k, u, expire_row x t))"

lemma prepared_tables:
  assumes "distinct (map m_id (terms d))"
  shows "terms (prepared cfg x False d) = map (expire_row x) (terms d)"
    and "users (prepared cfg x False d) = map (\<lambda>r. if due_conversion x r then as_friend r else r) (users d)"
  using terms_expire [OF assms, of cfg x] by (simp_all add: prepared_def convert_rest expire_rest users_convert_due)

lemma candidate_term_prepared:
  assumes "distinct (map m_id (terms d))"
  shows "candidate_term a b (prepared cfg x False d) (expire_row x t)
    = map_option (\<lambda>(u, t). (u, expire_row x t)) (candidate_term a b d t)"
proof -
  let ?f = "\<lambda>r. if due_conversion x r then as_friend r else r"
  have user: "get_user (prepared cfg x False d) k = map_option ?f (get_user d k)" for k
    by (simp add: get_user_def prepared_tables [OF assms]) (rule row_get_map_same_key, simp)
  have status: "m_status (expire_row x t) \<in> {TermCanceled, TermSuspended} \<longleftrightarrow> m_status t \<in> {TermCanceled, TermSuspended}"
    by (simp add: expire_row_def expired_def lapsed_term_def)
  show ?thesis
  proof (cases "get_user d (m_user t)")
    case None
    then show ?thesis by (simp add: candidate_term_def user split: option.splits)
  next
    case (Some u)
    show ?thesis
    proof (cases "due_conversion x u")
      case True
      then have "u_friend_on u \<noteq> None" by (auto simp: due_conversion_def split: option.splits)
      with Some True show ?thesis
        by (auto simp: candidate_term_def user as_friend_def split: option.splits)
    next
      case False
      with Some status show ?thesis
        by (auto simp: candidate_term_def user split: option.splits)
    qed
  qed
qed

lemma map_filter_map_same:
  assumes "\<And>x. f (g x) = map_option h (f' x)"
  shows "List.map_filter f (map g xs) = map h (List.map_filter f' xs)"
  by (induction xs) (simp_all add: map_filter_simps assms split: option.splits)

lemma all_candidates_prepared:
  assumes "distinct (map m_id (terms d))"
  shows "all_candidates x s (prepared cfg x False d) = map (expired_candidate x) (all_candidates x s d)"
proof -
  have sorted: "sort_key (\<lambda>t. (m_user t, m_id t)) (terms (prepared cfg x False d))
      = map (expire_row x) (sort_key (\<lambda>t. (m_user t, m_id t)) (terms d))"
    unfolding prepared_tables [OF assms] by (rule sort_key_map_same) simp
  have "candidates k x s (prepared cfg x False d) = map (\<lambda>(u, t). (u, expire_row x t)) (candidates k x s d)" for k
    unfolding candidates_def sorted case_prod_beta Let_def
    by (rule map_filter_map_same) (simp add: candidate_term_prepared [OF assms] case_prod_unfold)
  then show ?thesis
    by (simp add: all_candidates_def map_concat comp_def expired_candidate_def case_prod_beta)
qed

lemma decided_prepared:
  assumes "distinct (map m_id (terms d))"
  shows "decided (prepared cfg x False d) x (expired_candidate x c) = decided d x c"
    and "skip_of (prepared cfg x False d) x (expired_candidate x c) = skip_of d x c"
proof -
  let ?d = "prepared cfg x False d"
  obtain k u t where c: "c = (k, u, t)" by (cases c)
  have "membership_status ?d v x = membership_status d v x" for v
    by (rule membership_status_expired [OF prepared_tables(1) [OF assms] _ order_refl]) (simp add: prepared_rest)
  moreover have "renews_itself ?d u = renews_itself d u"
    by (rule renews_itself_cong) (rule prepared_rest)+
  ultimately show skip: "skip_of ?d x (expired_candidate x c) = skip_of d x c"
    by (simp add: c skip_of_def expired_candidate_def reminder_skip_reason_def prepared_rest Let_def)
  show "decided ?d x (expired_candidate x c) = decided d x c"
    unfolding decided_def skip by (auto simp: c expired_candidate_def record_reminded_def split: option.splits)
qed

lemma candidate_key_kind: "candidate_key (j, u, t) = candidate_key (k, u', t') \<Longrightarrow> j = k"
  by (simp add: candidate_key_def split: prod.splits)

lemma distinct_candidate_keys:
  assumes "distinct (map m_id (terms d))"
  shows "distinct (map candidate_key (all_candidates x s d))"
proof -
  have ids: "distinct (map m_id ts) \<Longrightarrow> distinct (map (\<lambda>(u, t). (u_id u, m_id t, k)) (List.map_filter (candidate_term a b d) ts))"
    for k a b ts
  proof -
    have "snd c = t" if "candidate_term a b d t = Some c" for c t
      using that by (auto simp: candidate_term_def split: option.splits if_splits)
    then have "map (\<lambda>c. m_id (snd c)) (List.map_filter (candidate_term a b d) ts)
        = map m_id (filter (\<lambda>t. candidate_term a b d t \<noteq> None) ts)"
      by (induction ts) (auto simp: map_filter_simps split: option.splits)
    moreover assume "distinct (map m_id ts)"
    ultimately have "distinct (map (\<lambda>c. m_id (snd c)) (List.map_filter (candidate_term a b d) ts))"
      by (simp add: distinct_map_filter)
    then have "distinct (List.map_filter (candidate_term a b d) ts)"
        "inj_on (\<lambda>c. m_id (snd c)) (set (List.map_filter (candidate_term a b d) ts))"
      by (simp_all only: distinct_map)
    moreover from this(2) have "inj_on (\<lambda>(u, t). (u_id u, m_id t, k)) (set (List.map_filter (candidate_term a b d) ts))"
      unfolding inj_on_def by fastforce
    ultimately show "distinct (map (\<lambda>(u, t). (u_id u, m_id t, k)) (List.map_filter (candidate_term a b d) ts))"
      by (simp only: distinct_map)
  qed
  have "distinct (map m_id (sort_key (\<lambda>t. (m_user t, m_id t)) (terms d)))"
    using assms by (simp add: distinct_map)
  then have each: "distinct (map candidate_key (map (Pair k) (candidates k x s d)))" for k
    using ids by (simp add: candidates_def comp_def candidate_key_def case_prod_unfold Let_def)
  have "distinct (map candidate_key (concat (map (\<lambda>k. map (Pair k) (candidates k x s d)) ks)))" if "distinct ks" for ks
    using that
  proof (induction ks)
    case (Cons k ks)
    then show ?case using each [of k] by (auto dest: candidate_key_kind)
  qed simp
  moreover have "distinct kind_order" by (simp add: kind_order_def)
  ultimately show ?thesis by (simp only: all_candidates_def)
qed

lemma decided_flag: "fold (decided d x) cs (r\<lparr>rn_dry_run := b\<rparr>) = (fold (decided d x) cs r)\<lparr>rn_dry_run := b\<rparr>"
proof (induction cs arbitrary: r)
  case (Cons c cs)
  have "decided d x c (r\<lparr>rn_dry_run := b\<rparr>) = (decided d x c r)\<lparr>rn_dry_run := b\<rparr>"
    by (cases c) (simp add: decided_def record_passed_over_def record_reminded_def split: option.splits)
  then show ?case by (simp add: Cons.IH)
qed simp

lemma walked_flat:
  "walked cfg x dry d = fold (\<lambda>(k, c). remind cfg k x dry c)
     (all_candidates x (load_schedule d) (prepared cfg x dry d))
     ((new_reminder_run x dry)\<lparr>rn_expired_flipped := flipped_by cfg x dry d\<rparr>, prepared cfg x dry d)"
  by (simp add: walked_def stages_flat all_candidates_def load_schedule_def prepared_rest)

lemma walked_dry:
  "walked cfg x True d = (fold (decided d x) (all_candidates x (load_schedule d) d)
     ((new_reminder_run x True)\<lparr>rn_expired_flipped := rows_matched (lapsed_term x) (terms d)\<rparr>), d)"
  unfolding walked_flat walk_rehearsed by (simp add: prepared_def flipped_by_def)

lemma walked_live:
  assumes "\<And>n m. mail_accepted cfg n m" and "distinct (map m_id (terms d))"
  shows "fst (walked cfg x False d) = (fst (walked cfg x True d))\<lparr>rn_dry_run := False\<rparr>"
    and "only_reminded (prepared cfg x False d) (snd (walked cfg x False d))"
    and "log_key ` set (reminder_logs (snd (walked cfg x False d))) = log_key ` set (reminder_logs d)
      \<union> candidate_key ` {c \<in> set (all_candidates x (load_schedule d) d). skip_of d x c = None}"
proof -
  let ?cs = "all_candidates x (load_schedule d) d" and ?d = "prepared cfg x False d"
  let ?r = "(new_reminder_run x False)\<lparr>rn_expired_flipped := flipped_by cfg x False d\<rparr>"
  obtain r1 d1 where w: "walked cfg x False d = (r1, d1)" by fastforce
  have key: "candidate_key (expired_candidate x c) = candidate_key c" for c
    by (simp add: candidate_key_def expired_candidate_def split: prod.splits)
  have keys: "distinct (map candidate_key (map (expired_candidate x) ?cs))"
    using distinct_candidate_keys [OF assms(2)] by (simp add: comp_def key)
  from w have "fold (\<lambda>(k, c). remind cfg k x False c) (map (expired_candidate x) ?cs) (?r, ?d) = (r1, d1)"
    by (simp add: walked_flat all_candidates_prepared [OF assms(2)])
  note live = walk_live [OF assms(1) keys this]
  have "fold (decided ?d x) (map (expired_candidate x) ?cs) ?r = fold (decided d x) ?cs ?r"
    by (simp add: fold_map comp_def decided_prepared [OF assms(2)])
  moreover have "flipped_by cfg x False d = rows_matched (lapsed_term x) (terms d)"
    using expire_leaves_none [OF assms(2), of x cfg] by (simp add: flipped_by_def rows_matched_def)
  then have "?r = ((new_reminder_run x True)\<lparr>rn_expired_flipped := rows_matched (lapsed_term x) (terms d)\<rparr>)\<lparr>rn_dry_run := False\<rparr>"
    by (simp add: new_reminder_run_def)
  ultimately have "fst (walked cfg x False d) = fold (decided d x) ?cs
      (((new_reminder_run x True)\<lparr>rn_expired_flipped := rows_matched (lapsed_term x) (terms d)\<rparr>)\<lparr>rn_dry_run := False\<rparr>)"
    using live w by simp
  then show "fst (walked cfg x False d) = (fst (walked cfg x True d))\<lparr>rn_dry_run := False\<rparr>"
    unfolding walked_dry fst_conv decided_flag .
  show "only_reminded ?d (snd (walked cfg x False d))" using live w by simp
  have "{c \<in> set (map (expired_candidate x) ?cs). skip_of ?d x c = None}
      = expired_candidate x ` {c \<in> set ?cs. skip_of d x c = None}"
    using decided_prepared(2) [OF assms(2), of cfg x] by auto
  then have "candidate_key ` {c \<in> set (map (expired_candidate x) ?cs). skip_of ?d x c = None}
      = candidate_key ` {c \<in> set ?cs. skip_of d x c = None}"
    by (simp only: image_image key)
  with live w show "log_key ` set (reminder_logs (snd (walked cfg x False d))) = log_key ` set (reminder_logs d)
      \<union> candidate_key ` {c \<in> set ?cs. skip_of d x c = None}"
    by (simp add: prepared_rest)
qed

text \<open>A rehearsal of the reminders writes nothing but its audit line and, when the mail server takes every
  message, answers exactly what the live run answers: the same counts, the same reasons and the same
  people in the same order, although the live run first expires terms and converts friends and logs
  each reminder as it goes.\<close>

theorem rehearsed_reminders_agree:
  assumes "\<And>n m. mail_accepted cfg n m" and "distinct (map m_id (terms d))"
  shows "fst (send_renewal_reminders cfg today False actor d)
      = (fst (send_renewal_reminders cfg today True actor d))\<lparr>rn_dry_run := False\<rparr>
    \<and> (\<exists>line. snd (send_renewal_reminders cfg today True actor d) = d\<lparr>audit_log := audit_log d @ [line]\<rparr>)"
proof -
  have "fst (send_renewal_reminders cfg (Some x) False actor d)
      = (fst (send_renewal_reminders cfg (Some x) True actor d))\<lparr>rn_dry_run := False\<rparr>
    \<and> (\<exists>line. snd (send_renewal_reminders cfg (Some x) True actor d) = d\<lparr>audit_log := audit_log d @ [line]\<rparr>)" for x
  proof -
    obtain f1 f2 where f: "send_renewal_reminders cfg (Some x) False actor d = (fst (walked cfg x False d),
        audit_record ''reminders.run'' actor None f1 (snd (walked cfg x False d)))"
      "send_renewal_reminders cfg (Some x) True actor d = (fst (walked cfg x True d),
        audit_record ''reminders.run'' actor None f2 (snd (walked cfg x True d)))"
      using send_renewal_reminders_walked by meson
    have "snd (walked cfg x True d) = d" by (simp add: walked_dry)
    with f walked_live(1) [OF assms] show ?thesis by (auto simp: audit_record_def)
  qed
  then show ?thesis by (cases today) (simp_all add: send_renewal_reminders_today)
qed

theorem rehearsed_reminders_agree_witness:
  "fst (send_renewal_reminders sample_config (Some 1340) False Command renewing_member)
    = (fst (send_renewal_reminders sample_config (Some 1340) True Command renewing_member))\<lparr>rn_dry_run := False\<rparr>"
proof -
  have "mail_accepted sample_config n m" for n m by (simp add: sample_config_def)
  moreover have "distinct (map m_id (terms renewing_member))" by code_simp
  ultimately show ?thesis
    using rehearsed_reminders_agree [of sample_config renewing_member "Some 1340" Command] by blast
qed

subsection \<open>What a run adds to the log\<close>

definition reminder_due :: "db \<Rightarrow> date \<Rightarrow> user \<Rightarrow> membership \<Rightarrow> reminder_kind \<Rightarrow> bool" where
  \<comment> \<open>the promise of the scanner, without its lists and its order\<close>
  "reminder_due d x u t k \<longleftrightarrow> t \<in> set (terms d) \<and> get_user d (m_user t) = Some u
     \<and> (case m_ends_on t of None \<Rightarrow> False | Some e \<Rightarrow> in_stage (load_schedule d) x k e)
     \<and> m_status t \<in> {TermActive, TermExpired}
     \<and> u_kind u \<noteq> Friend \<and> u_friend_on u = None \<and> u_is_active u \<and> u_email u \<noteq> []
     \<and> \<not> renews_itself d u \<and> \<not> st_is_lifetime (membership_status d (Some u) x)
     \<and> (if k = Lapsed then st_status (membership_status d (Some u) x) \<noteq> StateCurrent
        else st_expires_on (membership_status d (Some u) x) = m_ends_on t)"

definition logged_keys :: "db \<Rightarrow> (pk \<times> pk \<times> reminder_kind) set" where
  "logged_keys d = log_key ` set (reminder_logs d)"

lemma candidates_iff:
  "(u, t) \<in> set (candidates k x s d) \<longleftrightarrow> t \<in> set (terms d) \<and> get_user d (m_user t) = Some u
     \<and> (case m_ends_on t of None \<Rightarrow> False | Some e \<Rightarrow> in_stage s x k e)
     \<and> m_status t \<in> {TermActive, TermExpired} \<and> u_kind u \<noteq> Friend \<and> u_friend_on u = None"
proof -
  have mf: "y \<in> set (List.map_filter f xs) \<longleftrightarrow> (\<exists>z \<in> set xs. f z = Some y)" for y f and xs :: "membership list"
    by (induction xs) (auto simp: map_filter_simps split: option.splits)
  have status: "m_status t \<in> {TermActive, TermExpired} \<longleftrightarrow> m_status t \<notin> {TermCanceled, TermSuspended}"
    by (cases "m_status t") simp_all
  have some: "candidate_term a b d z = Some (u, t) \<longleftrightarrow> z = t \<and> get_user d (m_user t) = Some u
      \<and> (case m_ends_on t of None \<Rightarrow> False | Some e \<Rightarrow> a \<le> e \<and> e \<le> b)
      \<and> m_status t \<notin> {TermCanceled, TermSuspended} \<and> u_kind u \<noteq> Friend \<and> u_friend_on u = None" for a b z
    by (auto simp: candidate_term_def split: option.splits)
  show ?thesis
    unfolding status candidates_def Let_def case_prod_beta mf some in_stage_def by auto
qed

lemma due_iff:
  "(k, u, t) \<in> set (all_candidates x (load_schedule d) d) \<and> skip_of d x (k, u, t) = None
    \<longleftrightarrow> reminder_due d x u t k \<and> (u_id u, m_id t, k) \<notin> logged_keys d"
proof -
  have "k \<in> set kind_order" by (cases k) (simp_all add: kind_order_def)
  then have "(k, u, t) \<in> set (all_candidates x (load_schedule d) d) \<longleftrightarrow> (u, t) \<in> set (candidates k x (load_schedule d) d)"
    by (auto simp: all_candidates_def)
  moreover have "list_ex (\<lambda>l. log_key l = (u_id u, m_id t, k)) (reminder_logs d) \<longleftrightarrow> (u_id u, m_id t, k) \<in> logged_keys d"
    by (force simp: list_ex_iff logged_keys_def)
  ultimately show ?thesis
    by (auto simp: candidates_iff skip_of_def reminder_skip_reason_def reminder_due_def Let_def split: if_splits)
qed

text \<open>C26: the scanner refines its promise.  A live run whose messages the mail server takes adds to the log
  exactly the reminders that are due on its day: one for every account, term and stage such that the
  term ends inside the stage, the account is an active member with an address, nothing renews the
  membership by itself, and no later coverage has replaced the term.\<close>

theorem run_logs_what_is_due:
  assumes "\<And>n m. mail_accepted cfg n m" and "distinct (map m_id (terms d))"
  shows "logged_keys (snd (send_renewal_reminders cfg (Some x) False actor d))
    = logged_keys d \<union> {(u_id u, m_id t, k) | u t k. reminder_due d x u t k}"
proof -
  obtain fs where "send_renewal_reminders cfg (Some x) False actor d = (fst (walked cfg x False d),
      audit_record ''reminders.run'' actor None fs (snd (walked cfg x False d)))"
    using send_renewal_reminders_walked by blast
  then have "logged_keys (snd (send_renewal_reminders cfg (Some x) False actor d))
      = logged_keys d \<union> candidate_key ` {c \<in> set (all_candidates x (load_schedule d) d). skip_of d x c = None}"
    using walked_live(3) [OF assms] by (simp add: logged_keys_def audit_record_def)
  moreover have "candidate_key ` {c \<in> set (all_candidates x (load_schedule d) d). skip_of d x c = None}
      = {(u_id u, m_id t, k) | u t k. (k, u, t) \<in> set (all_candidates x (load_schedule d) d) \<and> skip_of d x (k, u, t) = None}"
    by (force simp: candidate_key_def)
  ultimately show ?thesis unfolding due_iff by blast
qed

theorem run_logs_what_is_due_witness:
  "logged_keys (snd (send_renewal_reminders sample_config (Some 1340) False Command renewing_member))
    = logged_keys renewing_member \<union> {(u_id u, m_id t, k) | u t k. reminder_due renewing_member 1340 u t k}"
proof -
  have "mail_accepted sample_config n m" for n m by (simp add: sample_config_def)
  moreover have "distinct (map m_id (terms renewing_member))" by code_simp
  ultimately show ?thesis by (rule run_logs_what_is_due)
qed

subsection \<open>A second run\<close>

lemma fold_decided_none_sent:
  "(\<And>c. c \<in> set cs \<Longrightarrow> skip_of d x c \<noteq> None) \<Longrightarrow> rn_sent (fold (decided d x) cs r) = rn_sent r"
proof (induction cs arbitrary: r)
  case (Cons c cs)
  from Cons.prems [of c] have "rn_sent (decided d x c r) = rn_sent r"
    by (auto simp: decided_def record_passed_over_def)
  then show ?case using Cons by simp
qed simp

lemma walked_again:
  assumes mail: "\<And>n m. mail_accepted cfg n m" and ids: "distinct (map m_id (terms d))"
    and d2: "d2 = audit_record ''reminders.run'' actor None fs (snd (walked cfg x False d))"
    and c: "c \<in> set (all_candidates x (load_schedule d2) d2)"
  shows "skip_of d2 x c \<noteq> None"
proof -
  let ?d1 = "snd (walked cfg x False d)" and ?p = "prepared cfg x False d"
  note live = walked_live [OF mail ids, of x]
  have same: "skip_of d2 x c = skip_of ?d1 x c" for c
  proof -
    have "membership_status d2 v y = membership_status ?d1 v y" for v y
      by (rule membership_status_cong) (simp_all add: d2 audit_record_def)
    moreover have "renews_itself d2 v = renews_itself ?d1 v" for v
      by (rule renews_itself_cong) (simp_all add: d2 audit_record_def)
    ultimately show ?thesis
      by (cases c) (simp add: skip_of_def reminder_skip_reason_def Let_def, simp add: d2 audit_record_def)
  qed
  have tables: "users d2 = users ?p" "terms d2 = terms ?p" "schedule_row d2 = schedule_row d"
    using only_reminded_tables [OF live(2)] by (simp_all add: d2 audit_record_def prepared_rest)
  have "all_candidates x (load_schedule d2) d2 = map (expired_candidate x) (all_candidates x (load_schedule d) d)"
  proof -
    have "load_schedule d2 = load_schedule d" by (simp add: load_schedule_def tables)
    moreover have "candidates k x s d2 = candidates k x s ?p" for k s
      by (rule candidates_cong [OF tables(1,2)])
    ultimately have "all_candidates x (load_schedule d2) d2 = all_candidates x (load_schedule d) ?p"
      by (simp add: all_candidates_def)
    then show ?thesis by (simp add: all_candidates_prepared [OF ids])
  qed
  with c obtain b where b: "b \<in> set (all_candidates x (load_schedule d) d)" "c = expired_candidate x b" by auto
  have key: "candidate_key c = candidate_key b"
    by (simp add: b(2) candidate_key_def expired_candidate_def split: prod.splits)
  show ?thesis
  proof (cases "candidate_key c \<in> log_key ` set (reminder_logs ?d1)")
    case True
    then show ?thesis using skip_of_logged [of ?d1 x c] same [of c] by metis
  next
    case False
    then have "candidate_key c \<notin> log_key ` set (reminder_logs ?p)" and b_skip: "skip_of d x b \<noteq> None"
      using live(3) b(1) key by (auto simp: prepared_rest)
    then have "skip_of ?d1 x c = skip_of ?p x c"
      using skip_of_cong [OF live(2)] False by blast
    with same b_skip show ?thesis
      by (simp add: b(2) decided_prepared(2) [OF ids])
  qed
qed

text \<open>A second run on the same day sends nothing: after a live run whose messages the mail server
  took, every member the stages still list is passed over, whoever asks for the second run.\<close>

theorem second_run_sends_nothing:
  assumes "\<And>n m. mail_accepted cfg n m" and "distinct (map m_id (terms d))"
  shows "rn_sent (fst (send_renewal_reminders cfg (Some x) False actor2
    (snd (send_renewal_reminders cfg (Some x) False actor d)))) = 0"
proof -
  obtain fs where one: "send_renewal_reminders cfg (Some x) False actor d = (fst (walked cfg x False d),
      audit_record ''reminders.run'' actor None fs (snd (walked cfg x False d)))"
    using send_renewal_reminders_walked by blast
  define d2 where "d2 = audit_record ''reminders.run'' actor None fs (snd (walked cfg x False d))"
  have "terms d2 = map (expire_row x) (terms d)"
    using only_reminded_tables(2) [OF walked_live(2) [OF assms]] prepared_tables(1) [OF assms(2)]
    by (simp add: d2_def audit_record_def)
  then have ids: "distinct (map m_id (terms d2))" using assms(2) by (simp add: comp_def)
  have "rn_sent (fst (walked cfg x True d2)) = 0"
    unfolding walked_dry using walked_again [OF assms d2_def]
    by (simp add: fold_decided_none_sent new_reminder_run_def)
  then have "rn_sent (fst (walked cfg x False d2)) = 0"
    by (simp add: walked_live(1) [OF assms(1) ids])
  moreover obtain f2 where "send_renewal_reminders cfg (Some x) False actor2 d2 = (fst (walked cfg x False d2),
      audit_record ''reminders.run'' actor2 None f2 (snd (walked cfg x False d2)))"
    using send_renewal_reminders_walked by blast
  ultimately show ?thesis by (simp add: one d2_def)
qed

theorem second_run_sends_nothing_witness:
  "rn_sent (fst (send_renewal_reminders sample_config (Some 1340) False Anonymous
    (snd (send_renewal_reminders sample_config (Some 1340) False Command renewing_member)))) = 0"
proof -
  have "mail_accepted sample_config n m" for n m by (simp add: sample_config_def)
  moreover have "distinct (map m_id (terms renewing_member))" by code_simp
  ultimately show ?thesis by (rule second_run_sends_nothing)
qed

subsection \<open>A member neither scan writes to\<close>

lemma renews_itself_skips:
  "renews_itself d u \<Longrightarrow> reminder_skip_reason d u t k x \<noteq> None"
  by (simp add: reminder_skip_reason_def Let_def)

text \<open>A lapsed member may hear from nobody.  A renewal that stays active after a charge was skipped
  against the term (its plan no longer sold, say) is passed over in silence by the renewal scan once
  that term has run out, day after day and however late it gets; and because the renewal is still active
  every reminder stage passes the member over too.\<close>

theorem lapses_unnoticed:
  assumes "rm_plan (sd_mandate s) \<noteq> None" and "account_kind d (sd_user s) today = Member"
    and "lifetime_term d (sd_user s) = None" and "term_to_renew d (sd_user s) today = None"
    and "lapsed_term_to_renew d (sd_user s) today = Some t"
    and "a \<in> set (attempts d)" and "ra_mandate a = rm_id (sd_mandate s)" and "ra_membership a = Some (m_id t)"
    and "filter (\<lambda>m. rm_user m = u_id (sd_user s) \<and> rm_plan m \<noteq> None) (mandates d) = [sd_mandate s]"
    and "rm_status (sd_mandate s) = MandateActive"
  shows "notice cfg s today r False d = (([], s, r), d)
    \<and> (\<forall>term stage x. reminder_skip_reason d (sd_user s) term stage x \<noteq> None)"
proof -
  have "list_ex (\<lambda>a. ra_mandate a = rm_id (sd_mandate s) \<and> ra_membership a = Some (m_id t)) (attempts d)"
    using assms(6-8) by (auto simp: list_ex_iff)
  then have "notice cfg s today r False d = (([], s, r), d)"
    using assms(1-5) by (auto simp: notice_def catch_up_def)
  moreover have "renews_itself d (sd_user s)"
    using assms(9,10) by (simp add: renews_itself_def)
  ultimately show ?thesis by (simp add: renews_itself_skips)
qed

theorem lapses_unnoticed_witness:
  "notice sample_config due_standing 1400 (new_run 1400 False False) False charge_refused
    = (([], due_standing, new_run 1400 False False), charge_refused)"
proof -
  obtain a where a: "a \<in> set (attempts charge_refused)" "ra_mandate a = 5" "ra_membership a = Some 1"
    using charge_refused_rows(2) by (cases "attempts charge_refused") auto
  have t: "terms charge_refused = [sample_term 1 1 1 1000 (Some 1364)]"
    by (simp add: charge_refused_rows renewing_member_def)
  have "memberships charge_refused (sample_user 1 Member) = [sample_term 1 1 1 1000 (Some 1364)]"
    by (simp add: memberships_def t sample_defs)
  then have "account_kind charge_refused (sample_user 1 Member) 1400 = Member"
    "lifetime_term charge_refused (sample_user 1 Member) = None"
    "term_to_renew charge_refused (sample_user 1 Member) 1400 = None"
    "lapsed_term_to_renew charge_refused (sample_user 1 Member) 1400 = Some (sample_term 1 1 1 1000 (Some 1364))"
    by (simp_all add: account_kind_def lifetime_term_def term_to_renew_def lapsed_term_to_renew_def
        sample_defs friend_day_has_come_def member_making_statuses_def max_by_def sort_desc_def Let_def)
  with lapses_unnoticed [of due_standing charge_refused 1400 "sample_term 1 1 1 1000 (Some 1364)" a] a
  show ?thesis by (simp add: due_standing_def charge_refused_rows sample_defs)
qed

end
