(* ===== verification/Casing.thy ===== *)
theory Casing
  imports Strings
begin

text \<open>
  The spelling of names, addresses and telephone numbers as they are stored
  (\<open>caldart/casing.py\<close>, \<open>caldart/phone.py\<close>).  Letters and digits are those of ASCII; the
  typographic apostrophe, which no byte spells, is left out of the separators of a name.

  Every account is saved through these functions each time, so what matters is that saving twice
  spells as saving once does, and that spelling a name changes nothing of it but the case and
  the white space.
\<close>

subsection \<open>Letters\<close>

definition code_of :: "char \<Rightarrow> nat" where
  "code_of c = of_char c"

definition is_upper :: "char \<Rightarrow> bool" where
  "is_upper c \<longleftrightarrow> 65 \<le> code_of c \<and> code_of c \<le> 90"

definition is_lower :: "char \<Rightarrow> bool" where
  "is_lower c \<longleftrightarrow> 97 \<le> code_of c \<and> code_of c \<le> 122"

definition is_digit :: "char \<Rightarrow> bool" where
  "is_digit c \<longleftrightarrow> 48 \<le> code_of c \<and> code_of c \<le> 57"

definition lower_char :: "char \<Rightarrow> char" where
  "lower_char c = (if is_upper c then char_of (code_of c + 32) else c)"

definition upper_char :: "char \<Rightarrow> char" where
  "upper_char c = (if is_lower c then char_of (code_of c - 32) else c)"

definition lower :: "string \<Rightarrow> string" where
  "lower s = map lower_char s"

definition upper :: "string \<Rightarrow> string" where
  "upper s = map upper_char s"

definition capitalize :: "string \<Rightarrow> string" where
  "capitalize s = (case s of [] \<Rightarrow> [] | c # cs \<Rightarrow> upper_char c # lower cs)"

fun split_on :: "char \<Rightarrow> string \<Rightarrow> string list" where
  \<comment> \<open>\<open>s.split(c)\<close>\<close>
  "split_on c [] = [[]]"
| "split_on c (x # s) = (if x = c then [] # split_on c s
     else case split_on c s of [] \<Rightarrow> [[x]] | w # ws \<Rightarrow> (x # w) # ws)"

fun join_with :: "char \<Rightarrow> string list \<Rightarrow> string" where
  \<comment> \<open>\<open>c.join(ws)\<close>\<close>
  "join_with c [] = []"
| "join_with c [w] = w"
| "join_with c (w # ws) = w @ c # join_with c ws"

fun collapse :: "string \<Rightarrow> string" where
  \<comment> \<open>every run of white space becomes one space\<close>
  "collapse [] = []"
| "collapse [c] = (if space_char c then '' '' else [c])"
| "collapse (c # d # s) = (if space_char c \<and> space_char d then collapse (d # s)
     else (if space_char c then CHR '' '' else c) # collapse (d # s))"

definition trimmed :: "string \<Rightarrow> string" where
  "trimmed s = collapse (strip s)"

subsection \<open>Street addresses and cities\<close>

fun after_apostrophes :: "string \<Rightarrow> string list \<Rightarrow> string list" where
  \<comment> \<open>each piece capitalized past a lone letter, the pieces taken in pairs\<close>
  "after_apostrophes before [] = []"
| "after_apostrophes before (piece # ps) =
     (if length before = 1 then capitalize piece else lower piece) # after_apostrophes piece ps"

definition title_case_part :: "string \<Rightarrow> string" where
  "title_case_part part = (case split_on CHR 0x27 part of
     [] \<Rightarrow> [] | p # ps \<Rightarrow> join_with CHR 0x27 (capitalize p # after_apostrophes p ps))"

definition title_case_word :: "string \<Rightarrow> string" where
  "title_case_word word = (if list_ex is_digit word then word
     else join_with CHR ''-'' (map title_case_part (split_on CHR ''-'' word)))"

definition title_case_words :: "string \<Rightarrow> string" where
  "title_case_words value = (let t = trimmed value in if t = [] then []
     else join_with CHR '' '' (map title_case_word (split_on CHR '' '' t)))"

subsection \<open>Names of people\<close>

definition name_particles :: "string list" where
  "name_particles = [''van'', ''von'', ''der'', ''den'', ''de'', ''del'', ''della'', ''da'', ''di'', ''du'', ''la'', ''le'']"

definition name_suffixes :: "string list" where
  "name_suffixes = [''ii'', ''iii'', ''iv'']"

definition is_vowel :: "char \<Rightarrow> bool" where
  "is_vowel c \<longleftrightarrow> c \<in> set ''aeiouy''"

definition name_separator :: "char \<Rightarrow> bool" where
  "name_separator c \<longleftrightarrow> c = CHR 0x27 \<or> c = CHR ''.''"

fun name_tokens :: "string \<Rightarrow> string \<times> (char \<times> string) list" where
  \<comment> \<open>the first piece, then each separator with the piece after it\<close>
  "name_tokens [] = ([], [])"
| "name_tokens (c # s) = (case name_tokens s of (piece, rest) \<Rightarrow>
     if name_separator c then ([], (c, piece) # rest) else (c # piece, rest))"

fun cased_tokens :: "string \<Rightarrow> (char \<times> string) list \<Rightarrow> string" where
  \<comment> \<open>\<open>before\<close> is the piece ahead, as it was typed\<close>
  "cased_tokens before [] = []"
| "cased_tokens before ((sep, piece) # rest) =
     sep # (if sep = CHR ''.'' \<or> length before = 1 then capitalize piece else lower piece)
       @ cased_tokens piece rest"

definition mc_name :: "string \<Rightarrow> string" where
  "mc_name joined = (if take 2 joined = ''Mc'' \<and> length joined > 2
     then ''Mc'' @ upper_char (joined ! 2) # drop 3 joined else joined)"

definition name_part :: "string \<Rightarrow> string" where
  "name_part part =
     (if \<not> list_ex is_vowel (lower part) then upper part
      else case name_tokens part of (first_piece, rest) \<Rightarrow>
        mc_name (capitalize first_piece @ cased_tokens first_piece rest))"

definition name_word :: "bool \<Rightarrow> bool \<Rightarrow> string \<Rightarrow> string" where
  "name_word is_first particle_leads word =
     (let lowered = lower word
      in if (particle_leads \<or> \<not> is_first) \<and> lowered \<in> set name_particles then lowered
         else if \<not> is_first \<and> lowered \<in> set name_suffixes then upper word
         else join_with CHR ''-'' (map name_part (split_on CHR ''-'' word)))"

definition name_words :: "bool \<Rightarrow> string list \<Rightarrow> string list" where
  \<comment> \<open>the words with their index, of which only the first matters\<close>
  "name_words lead ws = (case ws of [] \<Rightarrow> []
     | w # rest \<Rightarrow> name_word True lead w # map (name_word False lead) rest)"

definition cased_name :: "bool \<Rightarrow> string \<Rightarrow> string" where
  "cased_name particle_leads value =
     (let t = trimmed value
      in if t \<noteq> upper t \<and> t \<noteq> lower t then t
         else let ws = split_on CHR '' '' t; lead = particle_leads \<and> length ws > 1
              in join_with CHR '' '' (name_words lead ws))"

definition person_name :: "string \<Rightarrow> string" where
  "person_name value = cased_name False value"

definition person_last_name :: "string \<Rightarrow> string" where
  "person_last_name value = cased_name True value"

lemma name_examples:
  "person_name ''MCDONALD'' = ''McDonald''" "person_last_name ''DE LA CRUZ'' = ''de la Cruz''"
  "title_case_words ''o'brien 3B LANE'' = ''O'Brien 3B Lane''"
  by code_simp+

subsection \<open>Case only\<close>

lemma code_of_less: "code_of c < 256"
  by (simp add: code_of_def)

lemma code_of_char_of [simp]: "n < 256 \<Longrightarrow> code_of (char_of n) = n"
  by (simp add: code_of_def)

lemma char_of_code_of [simp]: "char_of (code_of c) = c"
  by (simp add: code_of_def)

lemma code_of_eq_iff: "code_of c = code_of d \<longleftrightarrow> c = d"
  by (simp add: code_of_def)

lemma lower_lower_char [simp]: "lower_char (lower_char c) = lower_char c"
  by (auto simp: lower_char_def is_upper_def)

lemma lower_upper_char [simp]: "lower_char (upper_char c) = lower_char c"
  by (auto simp: lower_char_def upper_char_def is_upper_def is_lower_def)

lemma upper_lower_char [simp]: "upper_char (lower_char c) = upper_char c"
  by (auto simp: lower_char_def upper_char_def is_upper_def is_lower_def)

lemma space_code: "space_char c \<longleftrightarrow> code_of c \<in> {9, 10, 11, 12, 13, 28, 29, 30, 31, 32, 133, 160}"
  by (simp add: space_char_def code_of_def)

lemma lower_char_fixes:
  assumes "\<not> is_upper c" and "\<not> is_lower c"
  shows "lower_char x = c \<longleftrightarrow> x = c" and "lower_char c = c"
  using assms by (auto simp: lower_char_def is_upper_def is_lower_def)

lemma space_lower_char [simp]: "space_char (lower_char c) \<longleftrightarrow> space_char c"
  by (auto simp: lower_char_def is_upper_def space_code)

lemma lower_simps [simp]: "lower [] = []" "lower (c # s) = lower_char c # lower s"
  "lower (s @ t) = lower s @ lower t" "lower (lower s) = lower s" "length (lower s) = length s"
  by (simp_all add: lower_def)

lemma lower_upper [simp]: "lower (upper s) = lower s"
  by (simp add: lower_def upper_def)

lemma upper_lower [simp]: "upper (lower s) = upper s"
  by (simp add: lower_def upper_def)

lemma lower_Nil_iff [simp]: "lower s = [] \<longleftrightarrow> s = []"
  by (simp add: lower_def)

lemma lower_capitalize [simp]: "lower (capitalize s) = lower s"
  by (simp add: capitalize_def split: list.splits)

lemma capitalize_lower [simp]: "capitalize (lower s) = capitalize s"
  by (cases s) (simp_all add: capitalize_def)

lemma split_on_lower:
  assumes "\<not> is_upper c" and "\<not> is_lower c"
  shows "split_on c (lower s) = map lower (split_on c s)"
proof (induction s)
  case (Cons x s)
  then show ?case using lower_char_fixes(1) [OF assms, of x] by (auto split: list.splits)
qed simp

lemma lower_join:
  assumes "lower_char c = c"
  shows "lower (join_with c ws) = join_with c (map lower ws)"
  using assms by (induction c ws rule: join_with.induct) simp_all

lemma split_on_not_Nil [simp]: "split_on c s \<noteq> []"
  by (induction s) (auto split: list.splits)

lemma join_split: "join_with c (split_on c s) = s"
proof (induction s)
  case (Cons x s)
  obtain w ws where ws: "split_on c s = w # ws" by (cases "split_on c s") auto
  show ?case
  proof (cases "x = c")
    case True
    then show ?thesis using Cons ws by simp
  next
    case False
    then show ?thesis using Cons ws by (cases ws) auto
  qed
qed simp

text \<open>The separators and the particles are untouched by the case.\<close>

lemma plain_chars: "\<not> is_upper CHR ''-''" "\<not> is_lower CHR ''-''" "\<not> is_upper CHR '' ''" "\<not> is_lower CHR '' ''"
  "\<not> is_upper CHR 0x27" "\<not> is_lower CHR 0x27" "\<not> is_upper CHR ''.''" "\<not> is_lower CHR ''.''"
  by (simp_all add: is_upper_def is_lower_def code_of_def)

lemmas lower_plain = lower_char_fixes [OF plain_chars(1,2)] lower_char_fixes [OF plain_chars(3,4)]
  lower_char_fixes [OF plain_chars(5,6)] lower_char_fixes [OF plain_chars(7,8)]

lemma name_separator_lower [simp]: "name_separator (lower_char c) \<longleftrightarrow> name_separator c"
  by (simp add: name_separator_def lower_plain)

lemma lower_separator: "name_separator c \<Longrightarrow> lower_char c = c"
  by (auto simp: name_separator_def lower_plain)

definition token_text :: "string \<times> (char \<times> string) list \<Rightarrow> string" where
  "token_text t = fst t @ concat (map (\<lambda>(c, p). c # p) (snd t))"

lemma token_text_tokens: "token_text (name_tokens s) = s"
  by (induction s) (auto simp: token_text_def split: prod.splits)

lemma name_tokens_lower:
  "name_tokens (lower s) = (lower (fst (name_tokens s)), map (\<lambda>(c, p). (c, lower p)) (snd (name_tokens s)))"
  by (induction s) (auto simp: lower_separator split: prod.splits)

lemma name_tokens_separators: "(c, p) \<in> set (snd (name_tokens s)) \<Longrightarrow> name_separator c"
  by (induction s arbitrary: c p) (auto split: prod.splits if_splits)

lemma lower_cased_tokens:
  "(\<And>c p. (c, p) \<in> set rest \<Longrightarrow> lower_char c = c)
    \<Longrightarrow> lower (cased_tokens before rest) = lower (concat (map (\<lambda>(c, p). c # p) rest))"
  by (induction before rest rule: cased_tokens.induct) auto

lemma cased_tokens_lower:
  "cased_tokens (lower before) (map (\<lambda>(c, p). (c, lower p)) rest) = cased_tokens before rest"
  by (induction before rest rule: cased_tokens.induct) auto

lemma lower_mc_name: "lower (mc_name j) = lower j"
proof (cases "take 2 j = ''Mc'' \<and> length j > 2")
  case True
  then have "j = take 2 j @ j ! 2 # drop 3 j"
    by (metis Suc_1 append_take_drop_id Cons_nth_drop_Suc eval_nat_numeral(3))
  with True have "j = ''Mc'' @ j ! 2 # drop 3 j" by simp
  then have "lower j = lower (''Mc'' @ j ! 2 # drop 3 j)" by (rule arg_cong)
  with True show ?thesis by (simp add: mc_name_def)
next
  case False
  then show ?thesis by (auto simp: mc_name_def)
qed

lemma lower_name_part [simp]: "lower (name_part p) = lower p"
proof -
  obtain f rest where t: "name_tokens p = (f, rest)" by fastforce
  have p: "p = f @ concat (map (\<lambda>(c, p). c # p) rest)"
    using token_text_tokens [of p] by (simp add: t token_text_def)
  have "lower_char c = c" if "(c, q) \<in> set rest" for c q
    using name_tokens_separators [of c q p] lower_separator that by (simp add: t)
  from this have "lower (cased_tokens f rest) = lower (concat (map (\<lambda>(c, p). c # p) rest))"
    by (rule lower_cased_tokens)
  moreover have "lower p = lower f @ lower (concat (map (\<lambda>(c, p). c # p) rest))"
    using p by (metis lower_simps(3))
  ultimately show ?thesis by (simp add: name_part_def t lower_mc_name)
qed

lemma name_part_lower [simp]: "name_part (lower p) = name_part p"
  by (simp add: name_part_def name_tokens_lower cased_tokens_lower case_prod_beta)

lemma lower_name_word [simp]: "lower (name_word b l w) = lower w"
proof -
  have "lower (join_with CHR ''-'' (map name_part (split_on CHR ''-'' w))) = lower w"
    by (simp add: lower_join lower_plain comp_def) (metis join_split lower_join lower_plain(2))
  then show ?thesis by (simp add: name_word_def Let_def)
qed

lemma name_word_lower [simp]: "name_word b l (lower w) = name_word b l w"
  by (simp add: name_word_def split_on_lower [OF plain_chars(1,2)] comp_def Let_def)

subsection \<open>Saving a name twice\<close>

definition spelled :: "bool \<Rightarrow> string \<Rightarrow> string" where
  \<comment> \<open>a name in one case, word by word\<close>
  "spelled particle_leads t = (let ws = split_on CHR '' '' t; lead = particle_leads \<and> length ws > 1
     in join_with CHR '' '' (name_words lead ws))"

lemma cased_name_spelled:
  "cased_name l v = (if trimmed v \<noteq> upper (trimmed v) \<and> trimmed v \<noteq> lower (trimmed v) then trimmed v
     else spelled l (trimmed v))"
  by (simp add: cased_name_def spelled_def Let_def)

lemma lower_spelled: "lower (spelled l t) = lower t"
proof -
  have "map lower (name_words lead ws) = map lower ws" for lead ws
    by (cases ws) (simp_all add: name_words_def)
  then show ?thesis
    by (simp add: spelled_def Let_def lower_join lower_plain)
      (metis join_split lower_join lower_plain(4))
qed

lemma spelled_lower: "spelled l (lower t) = spelled l t"
proof -
  have "name_words lead (map lower ws) = name_words lead ws" for lead ws
    by (cases ws) (simp_all add: name_words_def)
  then show ?thesis
    by (simp add: spelled_def Let_def split_on_lower [OF plain_chars(3,4)])
qed

fun tidy_runs :: "string \<Rightarrow> bool" where
  "tidy_runs [] = True"
| "tidy_runs [c] = (space_char c \<longrightarrow> c = CHR '' '')"
| "tidy_runs (c # d # s) = ((space_char c \<longrightarrow> c = CHR '' '' \<and> \<not> space_char d) \<and> tidy_runs (d # s))"

definition tidy :: "string \<Rightarrow> bool" where
  "tidy s \<longleftrightarrow> tidy_runs s \<and> (s \<noteq> [] \<longrightarrow> \<not> space_char (hd s) \<and> \<not> space_char (last s))"

lemma tidy_runs_lower: "tidy_runs (lower s) = tidy_runs s"
  by (induction s rule: tidy_runs.induct) (auto simp: lower_plain)

lemma tidy_lower: "tidy (lower s) = tidy s"
proof -
  have "s \<noteq> [] \<Longrightarrow> hd (lower s) = lower_char (hd s)" "s \<noteq> [] \<Longrightarrow> last (lower s) = lower_char (last s)"
    by (simp_all add: lower_def hd_map last_map)
  then show ?thesis by (auto simp: tidy_def tidy_runs_lower)
qed

lemma space_is_space: "space_char CHR '' ''"
  by (simp add: space_code code_of_def)

lemma collapse_hd: "s \<noteq> [] \<Longrightarrow> collapse s \<noteq> [] \<and> space_char (hd (collapse s)) = space_char (hd s)"
  by (induction s rule: collapse.induct) (auto simp: space_is_space)

lemma collapse_last: "s \<noteq> [] \<Longrightarrow> space_char (last (collapse s)) = space_char (last s)"
proof (induction s rule: collapse.induct)
  case (3 c d s)
  then show ?case using collapse_hd [of "d # s"] by auto
qed (auto simp: space_is_space)

lemma collapse_runs: "tidy_runs (collapse s)"
proof (induction s rule: collapse.induct)
  case (3 c d s)
  have "collapse (d # s) \<noteq> []" "space_char (hd (collapse (d # s))) = space_char d"
    using collapse_hd [of "d # s"] by auto
  then obtain e t where "collapse (d # s) = e # t" "space_char e = space_char d" by (cases "collapse (d # s)") auto
  with 3 show ?case by auto
qed auto

lemma collapse_tidy: "tidy_runs s \<Longrightarrow> collapse s = s"
  by (induction s rule: collapse.induct) auto

lemma strip_ends:
  "strip s \<noteq> [] \<Longrightarrow> \<not> space_char (hd (strip s)) \<and> \<not> space_char (last (strip s))"
proof -
  let ?l = "dropWhile space_char s"
  obtain t where t: "?l = strip s @ t"
    using rstrip_where_prefix [of ?l space_char] by (auto simp: strip_def lstrip_where_def)
  assume "strip s \<noteq> []"
  then have "?l \<noteq> []" and "hd ?l = hd (strip s)" using t by auto
  then have "\<not> space_char (hd (strip s))" by (metis hd_dropWhile)
  moreover have "last (strip s) = hd (dropWhile space_char (rev ?l))"
    using \<open>strip s \<noteq> []\<close> by (simp add: strip_def lstrip_where_def rstrip_where_def last_rev)
  moreover have "dropWhile space_char (rev ?l) \<noteq> []"
    using \<open>strip s \<noteq> []\<close> by (simp add: strip_def lstrip_where_def rstrip_where_def)
  ultimately show ?thesis by (metis hd_dropWhile)
qed

lemma strip_tidy: "s \<noteq> [] \<Longrightarrow> \<not> space_char (hd s) \<Longrightarrow> \<not> space_char (last s) \<Longrightarrow> strip s = s"
proof -
  assume s: "s \<noteq> []" "\<not> space_char (hd s)" "\<not> space_char (last s)"
  then have "dropWhile space_char s = s" by (cases s) auto
  moreover have "dropWhile space_char (rev s) = rev s"
    using s by (cases "rev s") (auto simp: last_rev rev_eq_Cons_iff)
  ultimately show "strip s = s" by (simp add: strip_def lstrip_where_def rstrip_where_def)
qed

lemma tidy_trimmed: "tidy (trimmed s)"
proof (cases "strip s = []")
  case True
  then show ?thesis by (simp add: trimmed_def tidy_def)
next
  case False
  with strip_ends [OF this] collapse_hd [OF this] collapse_last [OF this] collapse_runs show ?thesis
    by (simp add: trimmed_def tidy_def)
qed

lemma trimmed_tidy: "tidy s \<Longrightarrow> trimmed s = s"
proof -
  assume s: "tidy s"
  have "strip s = s"
  proof (cases "s = []")
    case True
    then show ?thesis by (simp add: strip_def lstrip_where_def rstrip_where_def)
  next
    case False
    with s show ?thesis by (intro strip_tidy) (auto simp: tidy_def)
  qed
  with s show ?thesis by (simp add: trimmed_def tidy_def collapse_tidy)
qed

text \<open>Saving a name twice spells it as saving it once does, for a first and for a last name, and
  spelling a name changes nothing of it but the case of its letters and the white space around and
  between its words.\<close>

theorem name_spelling_settles:
  "cased_name l (cased_name l v) = cased_name l v \<and> lower (cased_name l v) = lower (trimmed v)"
proof
  let ?t = "trimmed v" and ?r = "cased_name l v"
  show low: "lower ?r = lower ?t"
    by (simp add: cased_name_spelled lower_spelled)
  have "tidy ?r" using tidy_trimmed [of v] low tidy_lower by metis
  then have tr: "trimmed ?r = ?r" by (rule trimmed_tidy)
  show "cased_name l ?r = ?r"
  proof (cases "?r \<noteq> upper ?r \<and> ?r \<noteq> lower ?r")
    case True
    then show ?thesis by (simp add: cased_name_spelled [of l ?r] tr)
  next
    case one_case: False
    show ?thesis
    proof (cases "?t \<noteq> upper ?t \<and> ?t \<noteq> lower ?t")
      case True
      then have "?r = ?t" by (simp add: cased_name_spelled)
      with True one_case show ?thesis by simp
    next
      case False
      then have "?r = spelled l ?t" by (auto simp: cased_name_spelled)
      moreover have "spelled l ?r = spelled l ?t" by (metis low spelled_lower)
      moreover have "cased_name l ?r = spelled l ?r"
        using one_case unfolding cased_name_spelled [of l ?r] tr by auto
      ultimately show ?thesis by metis
    qed
  qed
qed

subsection \<open>Names of businesses\<close>

definition business_abbreviations :: "string list" where
  "business_abbreviations = [''llc'', ''llp'', ''lp'', ''pc'', ''fbo'', ''usa'', ''faa'', ''cap'']"

definition short_abbreviation_length :: nat where
  "short_abbreviation_length = 4"

definition k_words :: "string list" where
  "k_words = [''keel'', ''keen'', ''keep'', ''kemp'', ''kent'', ''kern'', ''keys'', ''kids'', ''kind'', ''king'',
     ''kirk'', ''kite'', ''kiwi'', ''knob'', ''knot'', ''know'']"

definition business_markers :: "string list" where
  "business_markers = [''aero'', ''air'', ''aircraft'', ''aviation'', ''club'', ''co'', ''company'', ''corp'', ''fbo'',
     ''flight'', ''flyers'', ''flying'', ''group'', ''inc'', ''jet'', ''jets'', ''llc'', ''llp'', ''lp'', ''partners'',
     ''services'']"

definition short_word_abbreviations :: "string list" where
  "short_word_abbreviations = [''ct'', ''ctr'', ''dr'', ''ft'', ''hwy'', ''jr'', ''ln'', ''mr'', ''mrs'', ''mt'', ''pl'',
     ''rd'', ''sr'', ''st'', ''tr'']"

definition business_small_words :: "string list" where
  "business_small_words = [''of'', ''the'', ''and'', ''at'', ''for'', ''in'', ''on'']"

definition strip_where :: "(char \<Rightarrow> bool) \<Rightarrow> string \<Rightarrow> string" where
  "strip_where P s = rstrip_where P (lstrip_where P s)"

definition airport_identifier :: "string \<Rightarrow> bool" where
  "airport_identifier s \<longleftrightarrow> length s = 4 \<and> s ! 0 = CHR ''K'' \<and> list_all is_upper s"

definition is_short_abbreviation :: "string \<Rightarrow> bool \<Rightarrow> bool" where
  \<comment> \<open>a word of ASCII letters in capitals is \<open>isalpha()\<close> and \<open>isupper()\<close> when it is not empty\<close>
  "is_short_abbreviation registered may_be_code =
     (if registered = [] \<or> \<not> list_all is_upper registered then False
      else if length registered > short_abbreviation_length then False
      else let lowered = lower registered
           in if \<not> list_ex is_vowel lowered then lowered \<notin> set short_word_abbreviations
              else may_be_code \<and> airport_identifier registered \<and> lowered \<notin> set k_words)"

definition business_word :: "string \<Rightarrow> string \<Rightarrow> bool \<Rightarrow> bool \<Rightarrow> string" where
  "business_word word registered is_first may_be_code =
     (let lowered = lower word
      in if lowered \<in> set business_abbreviations \<or> CHR ''.'' \<in> set word then upper word
         else if \<not> is_first \<and> lowered \<in> set business_small_words then lowered
         else if is_short_abbreviation registered may_be_code then registered
         else word)"

definition business_name :: "string \<Rightarrow> string" where
  "business_name value =
     (let t = trimmed value
      in if t \<noteq> upper t \<and> t \<noteq> lower t then t
         else let registered = split_on CHR '' '' t;
                  ws = split_on CHR '' '' (title_case_words t);
                  leads_business = list_ex (\<lambda>w. strip_where (\<lambda>c. c \<in> {CHR ''.'', CHR '',''}) (lower w)
                     \<in> set business_markers) (tl registered)
              in join_with CHR '' '' (map (\<lambda>i. business_word (ws ! i) (registered ! i) (i = 0)
                   (i = 0 \<and> leads_business)) [0..<length ws]))"

lemma business_examples:
  "business_name ''KPAO FBO INC'' = ''KPAO FBO Inc''" "business_name ''KATE SMITH'' = ''Kate Smith''"
  by code_simp+

subsection \<open>Telephone numbers\<close>

definition national_digits :: "string \<Rightarrow> string" where
  \<comment> \<open>the digits, without a leading country code\<close>
  "national_digits v = (let ds = filter is_digit v
     in if length ds = 11 \<and> hd ds = CHR ''1'' then drop 1 ds else ds)"

definition dashed :: "string \<Rightarrow> string" where
  "dashed ds = take 3 ds @ CHR ''-'' # take 3 (drop 3 ds) @ CHR ''-'' # drop 6 ds"

definition normalize_phone :: "string option \<Rightarrow> string" where
  "normalize_phone value = (case value of
     None \<Rightarrow> []
   | Some v \<Rightarrow> if v = [] then []
       else if length (national_digits v) \<noteq> 10 then strip v else dashed (national_digits v))"

definition phone_shape :: "string \<Rightarrow> bool" where
  \<comment> \<open>\<open>PHONE_RE\<close>\<close>
  "phone_shape s \<longleftrightarrow> length s = 12 \<and> s ! 3 = CHR ''-'' \<and> s ! 7 = CHR ''-''
     \<and> (\<forall>i < 12. i \<noteq> 3 \<and> i \<noteq> 7 \<longrightarrow> is_digit (s ! i))"

lemma digit_plain: "\<not> is_digit CHR ''-''" "is_digit c \<Longrightarrow> \<not> space_char c"
  by (auto simp: is_digit_def space_code code_of_def)

lemma national_digits_dashed:
  assumes "length ds = 10" and "list_all is_digit ds"
  shows "national_digits (dashed ds) = ds"
proof -
  have split: "take 3 ds @ take 3 (drop 3 ds) @ drop 6 ds = ds"
    using append_take_drop_id [of 3 "drop 3 ds"] append_take_drop_id [of 3 ds] by simp
  have keep: "filter is_digit (take k ds) = take k ds" "filter is_digit (drop k ds) = drop k ds"
    "filter is_digit (take j (drop k ds)) = take j (drop k ds)" for j k
    using assms(2) by (auto simp: filter_id_conv list_all_iff dest: in_set_takeD in_set_dropD)
  have "filter is_digit (dashed ds) = ds"
    using split by (simp add: dashed_def keep digit_plain)
  then show ?thesis using assms(1) by (simp add: national_digits_def)
qed

lemma filter_digits_strip: "filter is_digit (strip v) = filter is_digit v"
proof -
  have drop: "filter is_digit (dropWhile space_char s) = filter is_digit s" for s
    using digit_plain(2) by (induction s) auto
  have "filter is_digit (rstrip_where space_char s) = filter is_digit s" for s
    by (metis drop rev_filter rev_rev_ident rstrip_where_def)
  then show ?thesis by (simp add: strip_def lstrip_where_def drop)
qed

lemma strip_strip: "strip (strip s) = strip s"
proof (cases "strip s = []")
  case True
  have "strip [] = []" by (simp add: strip_def lstrip_where_def rstrip_where_def)
  with True show ?thesis by simp
next
  case False
  with strip_ends [OF this] show ?thesis by (intro strip_tidy) auto
qed

text \<open>Storing a number twice stores it as once, and what is stored has the one shape or is what was typed.\<close>

lemma phone_spelling_settles:
  "normalize_phone (Some (normalize_phone v)) = normalize_phone v"
proof (cases v)
  case None
  then show ?thesis by (simp add: normalize_phone_def)
next
  case (Some s)
  show ?thesis
  proof (cases "s \<noteq> [] \<and> length (national_digits s) = 10")
    case True
    have "list_all is_digit (national_digits s)"
      by (auto simp: national_digits_def Let_def list_all_iff dest: in_set_dropD)
    with True have "national_digits (dashed (national_digits s)) = national_digits s"
      by (intro national_digits_dashed) auto
    moreover have "dashed (national_digits s) \<noteq> []" by (simp add: dashed_def)
    ultimately show ?thesis using True by (simp add: Some normalize_phone_def)
  next
    case False
    have "national_digits (strip s) = national_digits s"
      by (simp add: national_digits_def filter_digits_strip)
    then show ?thesis using False by (auto simp: Some normalize_phone_def strip_strip)
  qed
qed

end
