(* ===== verification/Accounts.thy ===== *)
theory Accounts
  imports Store Casing
begin

text \<open>
  Accounts, their roles, and the edits the services allow (\<open>apps/accounts/models.py\<close>,
  \<open>apps/accounts/roles.py\<close>, \<open>apps/accounts/history.py\<close>, \<open>apps/accounts/services.py\<close>).

  An account is the \<open>user\<close> row of \<open>Store\<close> with the columns its security rests on, kept in an
  \<open>account_db\<close> of its own: the tables the account services write and what they emit.  A service
  gets its accounts as loaded instances, which may be older than their rows, and writes only the
  columns it lists; the roles are read from the group table each time.  Password hashing, the
  signing of links and keyed hashes are Django's and are fields of the configuration.

  Proved here: a role write stays within what its author may give, whatever the author asks for
  (what sequences of requests can do is in \<open>AccountStatus\<close>).
\<close>

subsection \<open>State\<close>

record account = user +
  a_password :: string
  a_is_superuser :: bool
  a_is_staff :: bool
  a_email_verified_at :: "moment option"
  a_email_bounced_at :: "moment option"
  a_email_bounce_detail :: string
  a_pending_email :: string
  a_email_change_undone_at :: "moment option"
  a_recovery_email :: string
  a_recovery_until :: "moment option"
  a_reactivation_blocked :: bool
  a_is_demo :: bool

datatype change_kind = ChangeCreated | ChangeRoles | ChangeDeactivated | ChangeReactivated
  | ChangeBlocked | ChangeUnblocked | ChangeNewPassword | ChangeEmail | ChangeEmailUndone
  | ChangeMfaReset

record account_change =
  ac_user :: pk
  ac_changed_by :: "pk option"
  ac_changed_at :: moment
  ac_by_command :: bool
  ac_kind :: change_kind
  ac_added :: "string list"
  ac_removed :: "string list"

record totp_device =
  td_user :: pk
  td_secret :: string
  td_confirmed_at :: "moment option"
  td_last_used_step :: "int option"

record recovery_code =
  rc_id :: pk
  rc_user :: pk
  rc_salt :: string
  rc_code_hash :: string
  rc_used_at :: "moment option"

record failure_count =
  fc_key :: string
  fc_count :: nat
  fc_until :: moment

record login_session =
  \<comment> \<open>a row of Django's session table: the account signed in, and when the session expires\<close>
  ls_signed_in :: "pk option"
  ls_expires :: moment

datatype account_event =
    \<comment> \<open>\<open>became_friend\<close>, or \<open>became_member\<close>, with \<open>how\<close> administrator\<close>
    BecameByAdministrator pk bool
  | RolesChanged pk "string list" "string list" actor
  | AccountDeactivated pk "pk option"
  | AccountReactivated pk "pk option"
  | EmailAddressChanged pk string

text \<open>The messages, each with the account it is about and the address it goes to; a link mailed
  is its signed token.\<close>

datatype account_mail =
    PasswordLink pk string bool
  | InvitationLink pk string bool
  | VerificationLink pk string string
  | EmailChangeLink pk string string
  | EmailChangeNotice pk string string bool
  | Notice string pk string "nat option"

record account_db =
  ad_accounts :: "account list"
  ad_groups :: "(pk \<times> string) list"
  ad_changes :: "account_change list"
  ad_devices :: "totp_device list"
  ad_codes :: "recovery_code list"
  ad_failures :: "failure_count list"
  ad_sessions :: "login_session list"
  ad_next_pk :: pk
  ad_draws :: nat
  ad_now :: moment
  ad_audit :: "audit_line list"
  ad_events :: "account_event list"
  ad_mail :: "account_mail list"

text \<open>
  What the services call outside the repository: \<open>make_password raw n\<close> and \<open>unusable_password n\<close>
  hash a password and mark one unusable with the \<open>n\<close>-th random draw of the process;
  \<open>password_accepted\<close> are the validators; \<open>normalize_domain\<close> is \<open>normalize_email\<close> of Django's manager;
  \<open>dumps salt at payload\<close> and \<open>loads salt max_age now token\<close> sign and read a link;
  \<open>keyed_hash purpose value key\<close> is \<open>salted_hmac\<close>; \<open>otp secret step\<close> the code of an authenticator;
  \<open>draw_text alphabet length n\<close> random text; \<open>session_auth_hash\<close> the fingerprint of a stored password
  hash a session carries; \<open>digest\<close> is SHA-256; \<open>local_date\<close> the day a moment falls on here.  The rest are the settings.
\<close>

record account_config =
  make_password :: "string \<Rightarrow> nat \<Rightarrow> string"
  unusable_password :: "nat \<Rightarrow> string"
  check_password :: "string \<Rightarrow> string \<Rightarrow> bool"
  password_accepted :: "string \<Rightarrow> bool"
  normalize_domain :: "string \<Rightarrow> string"
  dumps :: "string \<Rightarrow> moment \<Rightarrow> json \<Rightarrow> string"
  loads :: "string \<Rightarrow> int \<Rightarrow> moment \<Rightarrow> string \<Rightarrow> json option"
  keyed_hash :: "string \<Rightarrow> string \<Rightarrow> string \<Rightarrow> string"
  otp :: "string \<Rightarrow> int \<Rightarrow> string"
  draw_text :: "string \<Rightarrow> nat \<Rightarrow> nat \<Rightarrow> string"
  session_auth_hash :: "string \<Rightarrow> string"
  digest :: "string \<Rightarrow> string"
  local_date :: "moment \<Rightarrow> date"
  org_title :: string
  secret_keys :: "string list"
  email_verification_timeout :: int
  lockout_attempts :: int
  lockout_seconds :: int
  lockout_code_attempts :: int
  lockout_code_seconds :: int
  demo_skips_two_factor :: bool

datatype account_error =
    Refused string
  | FieldRefused string string
  | PermissionRefused string
  | DonorPasswordRequired
  | PasswordRejected
  | NoAddress
  | AddressClash

definition get_account :: "account_db \<Rightarrow> pk \<Rightarrow> account option" where
  "get_account d k = row_get u_id (ad_accounts d) k"

definition edit_account :: "pk \<Rightarrow> (account \<Rightarrow> account) \<Rightarrow> account_db \<Rightarrow> account_db" where
  \<comment> \<open>\<open>user.save(update_fields=...)\<close>: the columns listed, of the row with this key\<close>
  "edit_account k f d = d\<lparr>ad_accounts := rows_update (\<lambda>r. u_id r = k) f (ad_accounts d)\<rparr>"

definition account_rollback :: "account_db \<Rightarrow> account_db \<Rightarrow> account_db" where
  \<comment> \<open>the rows, the events and the mail of a failed transaction are undone, its log lines are not\<close>
  "account_rollback before after = before\<lparr>ad_audit := ad_audit after, ad_draws := ad_draws after\<rparr>"

definition account_atomic ::
  "(account_db \<Rightarrow> (account_error + 'a) \<times> account_db) \<Rightarrow> account_db \<Rightarrow> (account_error + 'a) \<times> account_db" where
  "account_atomic f d =
     (case f d of (Inl e, d') \<Rightarrow> (Inl e, account_rollback d d') | (Inr x, d') \<Rightarrow> (Inr x, d'))"

definition log_line :: "string \<Rightarrow> actor \<Rightarrow> pk option \<Rightarrow> bool \<Rightarrow> (string \<times> audit_value) list
    \<Rightarrow> account_db \<Rightarrow> account_db" where
  "log_line action who target refused fs d = d\<lparr>ad_audit := ad_audit d @
     [\<lparr>al_action = action, al_actor = who, al_target = target, al_refused = refused, al_fields = fs\<rparr>]\<rparr>"

definition raise_event :: "account_event \<Rightarrow> account_db \<Rightarrow> account_db" where
  "raise_event e d = d\<lparr>ad_events := ad_events d @ [e]\<rparr>"

definition post :: "account_mail \<Rightarrow> account_db \<Rightarrow> account_db" where
  \<comment> \<open>\<open>send_on_commit\<close>: handed over once the transaction has committed\<close>
  "post m d = d\<lparr>ad_mail := ad_mail d @ [m]\<rparr>"

definition draw :: "account_db \<Rightarrow> nat \<times> account_db" where
  "draw d = (ad_draws d, d\<lparr>ad_draws := Suc (ad_draws d)\<rparr>)"

subsection \<open>Roles\<close>

definition role_slugs :: "string list" where
  "role_slugs = [''member'', ''verifier'', ''dart_leader'', ''user_admin'', ''treasurer'',
     ''account_admin'', ''management'', ''website_admin'', ''system_admin'']"

definition staff_role_slugs :: "string list" where
  "staff_role_slugs = filter (\<lambda>s. s \<noteq> ''member'') role_slugs"

definition role_label :: "string \<Rightarrow> string" where
  "role_label slug = (case map_of [(''member'', ''Member''), (''verifier'', ''Verifier''),
     (''dart_leader'', ''DART leader''), (''user_admin'', ''User administrator''),
     (''treasurer'', ''Treasurer''), (''account_admin'', ''Account administrator''),
     (''management'', ''CalDART management''), (''website_admin'', ''Website administrator''),
     (''system_admin'', ''System administrator'')] slug of
     None \<Rightarrow> slug | Some l \<Rightarrow> l)"

definition mfa_required_roles :: "string list" where
  "mfa_required_roles = [''user_admin'', ''treasurer'', ''account_admin'', ''management'',
     ''website_admin'', ''system_admin'']"

definition guarded_roles :: "string list" where
  "guarded_roles = mfa_required_roles"

datatype acting = CommandActor | Person account

definition actor_of :: "acting \<Rightarrow> actor" where
  "actor_of who = (case who of CommandActor \<Rightarrow> Command | Person u \<Rightarrow> Account (u_id u))"

definition roles :: "account_db \<Rightarrow> pk \<Rightarrow> string list" where
  "roles d k = filter (\<lambda>s. (k, s) \<in> set (ad_groups d)) role_slugs"

definition has_role :: "account_db \<Rightarrow> pk \<Rightarrow> string \<Rightarrow> bool" where
  "has_role d k slug \<longleftrightarrow> slug \<in> set (roles d k) \<or> ''system_admin'' \<in> set (roles d k)"

definition has_any_role :: "account_db \<Rightarrow> pk \<Rightarrow> string list \<Rightarrow> bool" where
  "has_any_role d k slugs \<longleftrightarrow> ''system_admin'' \<in> set (roles d k) \<or> set (roles d k) \<inter> set slugs \<noteq> {}"

definition add_role :: "pk \<Rightarrow> string \<Rightarrow> account_db \<Rightarrow> account_db" where
  "add_role k slug d = (if (k, slug) \<in> set (ad_groups d) then d
     else d\<lparr>ad_groups := ad_groups d @ [(k, slug)]\<rparr>)"

definition remove_role :: "pk \<Rightarrow> string \<Rightarrow> account_db \<Rightarrow> account_db" where
  "remove_role k slug d = d\<lparr>ad_groups := filter (\<lambda>row. row \<noteq> (k, slug)) (ad_groups d)\<rparr>"

definition set_roles :: "pk \<Rightarrow> string list \<Rightarrow> account_db \<Rightarrow> account_db" where
  \<comment> \<open>the groups that are no role are kept\<close>
  "set_roles k slugs d =
     (let wanted = filter (\<lambda>s. s \<in> set slugs) role_slugs;
          kept = filter (\<lambda>row. fst row \<noteq> k \<or> snd row \<notin> set role_slugs \<or> snd row \<in> set wanted) (ad_groups d)
      in d\<lparr>ad_groups := kept @ map (Pair k) (filter (\<lambda>s. (k, s) \<notin> set kept) wanted)\<rparr>)"

definition can_access_members_content :: "account_db \<Rightarrow> account \<Rightarrow> membership_state \<Rightarrow> bool" where
  \<comment> \<open>\<open>state\<close> is what \<open>membership_status\<close> answers for the account\<close>
  "can_access_members_content d u state \<longleftrightarrow> a_is_superuser u \<or> state = StateCurrent
     \<or> set (roles d (u_id u)) \<inter> set staff_role_slugs \<noteq> {}"

definition effective_roles :: "account_db \<Rightarrow> acting \<Rightarrow> string set" where
  "effective_roles d who = (case who of
     CommandActor \<Rightarrow> set role_slugs
   | Person u \<Rightarrow> set (roles d (u_id u)) \<union> (if a_is_superuser u then {''system_admin''} else {}))"

definition sync_django_flags :: "account_db \<Rightarrow> account \<Rightarrow> account" where
  "sync_django_flags d u =
     (let admin = ''system_admin'' \<in> set (roles d (u_id u))
      in u\<lparr>a_is_superuser := admin, a_is_staff := admin \<or> ''website_admin'' \<in> set (roles d (u_id u))\<rparr>)"

subsection \<open>Creating an account\<close>

definition normalized_email :: "string \<Rightarrow> string" where
  "normalized_email s = lower (strip s)"

definition same_address :: "string \<Rightarrow> string \<Rightarrow> bool" where
  \<comment> \<open>\<open>email__iexact\<close>: the database compares both sides upper-cased\<close>
  "same_address s t \<longleftrightarrow> upper s = upper t"

definition spelled_account :: "account \<Rightarrow> account" where
  \<comment> \<open>what \<open>User.save\<close> does to the instance first\<close>
  "spelled_account u = u\<lparr>u_email := strip (u_email u), u_first_name := person_name (u_first_name u),
     u_last_name := person_last_name (u_last_name u)\<rparr>"

definition create_account :: "account_config \<Rightarrow> string \<Rightarrow> string \<Rightarrow> string \<Rightarrow> string \<Rightarrow> person_kind
    \<Rightarrow> account_db \<Rightarrow> (account_error + account) \<times> account_db" where
  "create_account cfg email raw_password first_name last_name kind d =
     (if email = [] then (Inl NoAddress, d)
      else let (n, d1) = draw d;
               u = spelled_account \<lparr>u_id = ad_next_pk d, u_email = strip (normalize_domain cfg email),
                 u_first_name = strip first_name, u_last_name = strip last_name, u_is_active = True,
                 u_kind = kind, u_friend_on = None,
                 a_password = (if raw_password = [] then unusable_password cfg n
                               else make_password cfg raw_password n),
                 a_is_superuser = False, a_is_staff = False, a_email_verified_at = None,
                 a_email_bounced_at = None, a_email_bounce_detail = [], a_pending_email = [],
                 a_email_change_undone_at = None, a_recovery_email = [], a_recovery_until = None,
                 a_reactivation_blocked = False, a_is_demo = False\<rparr>
           in if list_ex (\<lambda>r. lower (u_email r) = lower (u_email u)) (ad_accounts d) then (Inl AddressClash, d1)
              else let d2 = d1\<lparr>ad_accounts := ad_accounts d1 @ [u], ad_next_pk := Suc (ad_next_pk d1)\<rparr>
                   in (Inr u, if kind = Donor then d2 else add_role (u_id u) ''member'' d2))"

definition is_donor :: "account \<Rightarrow> bool" where
  "is_donor u \<longleftrightarrow> u_kind u = Donor"

definition kind_slug :: "person_kind \<Rightarrow> string" where
  "kind_slug kind = (case kind of Member \<Rightarrow> ''member'' | Friend \<Rightarrow> ''friend'' | Donor \<Rightarrow> ''donor'')"

definition set_kind :: "account \<Rightarrow> person_kind \<Rightarrow> actor \<Rightarrow> account_db \<Rightarrow> (bool \<times> account) \<times> account_db" where
  "set_kind u kind who d =
     (if u_kind u = kind \<and> u_friend_on u = None then ((False, u), d)
      else let is_new_kind = (u_kind u \<noteq> kind);
               u1 = u\<lparr>u_kind := kind, u_friend_on := None\<rparr>;
               d1 = edit_account (u_id u) (\<lambda>r. r\<lparr>u_kind := kind, u_friend_on := None\<rparr>) d
           in ((is_new_kind, spelled_account u1),
               if is_new_kind then log_line ''account.kind'' who (Some (u_id u)) False [(''to'', ASlug (kind_slug kind))] d1
               else d1))"

subsection \<open>Who may write which role\<close>

definition writes_roles :: "account_db \<Rightarrow> account \<Rightarrow> string set \<Rightarrow> bool" where
  "writes_roles d t wanted \<longleftrightarrow> wanted \<noteq> set (roles d (u_id t))"

definition moves_system_admin :: "account_db \<Rightarrow> account \<Rightarrow> string set \<Rightarrow> bool" where
  "moves_system_admin d t wanted \<longleftrightarrow>
     (if ''system_admin'' \<in> wanted then ''system_admin'' \<notin> set (roles d (u_id t))
      else ''system_admin'' \<in> effective_roles d (Person t))"

definition is_own :: "acting \<Rightarrow> account \<Rightarrow> bool" where
  "is_own who t = (case who of CommandActor \<Rightarrow> False | Person u \<Rightarrow> u_id u = u_id t)"

definition assignable_roles :: "account_db \<Rightarrow> acting \<Rightarrow> account \<Rightarrow> string list" where
  "assignable_roles d who t =
     (if is_own who t then []
      else let held = effective_roles d who
           in if ''system_admin'' \<in> held then role_slugs
              else filter (\<lambda>s. s \<notin> set guarded_roles \<or> s \<in> held) role_slugs)"

definition own_roles_refused :: string where
  "own_roles_refused = ''You cannot change your own roles. Ask another administrator.''"

definition role_change_refused :: string where
  "role_change_refused = ''Only a system administrator can grant or take away the System administrator role.''"

definition role_not_held_refused :: "string list \<Rightarrow> string" where
  "role_not_held_refused slugs = ''You cannot give or take away a role you do not hold yourself: ''
     @ concat (map (\<lambda>(i, s). (if i = 0 then [] else '', '') @ role_label s) (enumerate 0 slugs)) @ ''.''"

definition refuse_roles :: "acting \<Rightarrow> account \<Rightarrow> string \<Rightarrow> account_db \<Rightarrow> account_db" where
  "refuse_roles who t reason d =
     log_line ''account.roles'' (actor_of who) (Some (u_id t)) True [(''reason'', ASlug reason)] d"

definition checked_roles :: "acting \<Rightarrow> account \<Rightarrow> string list \<Rightarrow> account_db
    \<Rightarrow> (account_error + string list) \<times> account_db" where
  "checked_roles who t wanted d =
     (let held = set wanted;
          ordered = filter (\<lambda>s. s \<in> held) role_slugs;
          moved = (held - set (roles d (u_id t))) \<union> (set (roles d (u_id t)) - held);
          not_held = filter (\<lambda>s. s \<in> moved \<and> s \<notin> set (assignable_roles d who t)) role_slugs
      in if \<not> writes_roles d t held then (Inr ordered, d)
         else if is_own who t then (Inl (PermissionRefused own_roles_refused), refuse_roles who t ''own_account'' d)
         else if moves_system_admin d t held \<and> ''system_admin'' \<notin> effective_roles d who
         then (Inl (FieldRefused ''roles'' role_change_refused), refuse_roles who t ''system_admin_role'' d)
         else if not_held \<noteq> []
         then (Inl (FieldRefused ''roles'' (role_not_held_refused not_held)), refuse_roles who t ''roles_not_held'' d)
         else (Inr ordered, d))"

definition may_edit_protected_fields :: "account_db \<Rightarrow> acting \<Rightarrow> account \<Rightarrow> bool" where
  "may_edit_protected_fields d who t \<longleftrightarrow> ''system_admin'' \<in> effective_roles d who
     \<or> (effective_roles d (Person t) - effective_roles d who) \<inter> set guarded_roles = {}"

subsection \<open>Account edits\<close>

text \<open>What an edit may ask for; \<open>None\<close> is a key the changes do not carry.\<close>

record account_edit =
  ch_email :: "string option"
  ch_first_name :: "string option"
  ch_last_name :: "string option"
  ch_roles :: "string list option"
  ch_kind :: "person_kind option"

definition donor_kind_refused :: string where
  "donor_kind_refused = ''A donor becomes a member or a friend only by registering.''"

definition altered_names :: "account \<Rightarrow> account_edit \<Rightarrow> string list" where
  "altered_names t ch =
     (if ch_first_name ch \<noteq> None \<and> ch_first_name ch \<noteq> Some (u_first_name t) then [''first_name''] else [])
     @ (if ch_last_name ch \<noteq> None \<and> ch_last_name ch \<noteq> Some (u_last_name t) then [''last_name''] else [])"

definition role_move :: "account_db \<Rightarrow> account \<Rightarrow> string list option \<Rightarrow> (string list \<times> string list) option" where
  \<comment> \<open>the slugs a role list adds and takes away, when it changes the list at all\<close>
  "role_move d t wanted = (case wanted of None \<Rightarrow> None
     | Some w \<Rightarrow> if \<not> writes_roles d t (set w) then None
         else Some (filter (\<lambda>s. s \<in> set w \<and> s \<notin> set (roles d (u_id t))) role_slugs,
                    filter (\<lambda>s. s \<notin> set w \<and> s \<in> set (roles d (u_id t))) role_slugs))"

definition record_account_change :: "change_kind \<Rightarrow> actor \<Rightarrow> pk \<Rightarrow> string list \<Rightarrow> string list
    \<Rightarrow> account_db \<Rightarrow> account_db" where
  "record_account_change kind who k added removed d = d\<lparr>ad_changes := ad_changes d @
     [\<lparr>ac_user = k, ac_changed_by = (case who of Account a \<Rightarrow> Some a | _ \<Rightarrow> None), ac_changed_at = ad_now d,
       ac_by_command = (case who of Account a \<Rightarrow> False | _ \<Rightarrow> True), ac_kind = kind,
       ac_added = added, ac_removed = removed\<rparr>]\<rparr>"

definition edited_names :: "account \<Rightarrow> account_edit \<Rightarrow> account" where
  "edited_names t ch = t\<lparr>u_first_name := (case ch_first_name ch of None \<Rightarrow> u_first_name t | Some v \<Rightarrow> v),
     u_last_name := (case ch_last_name ch of None \<Rightarrow> u_last_name t | Some v \<Rightarrow> v)\<rparr>"

definition save_edit :: "account_edit \<Rightarrow> bool \<Rightarrow> account \<Rightarrow> account \<Rightarrow> account" where
  \<comment> \<open>the columns of the row the edit writes: the names it carries, the flags of a role write\<close>
  "save_edit ch with_flags t r = r\<lparr>
     u_first_name := (if ch_first_name ch = None then u_first_name r else u_first_name t),
     u_last_name := (if ch_last_name ch = None then u_last_name r else u_last_name t),
     a_is_superuser := (if with_flags then a_is_superuser t else a_is_superuser r),
     a_is_staff := (if with_flags then a_is_staff t else a_is_staff r)\<rparr>"

definition edit_kind :: "acting \<Rightarrow> person_kind option \<Rightarrow> account \<Rightarrow> account_db \<Rightarrow> account \<times> account_db" where
  "edit_kind who kind t d = (case kind of None \<Rightarrow> (t, d)
     | Some k \<Rightarrow> if k = u_kind t then (t, d)
         else case set_kind t k (actor_of who) d of
             ((False, t1), d1) \<Rightarrow> (t1, d1)
           | ((True, t1), d1) \<Rightarrow> (t1, raise_event (BecameByAdministrator (u_id t) (k = Friend)) d1))"

definition log_edit :: "acting \<Rightarrow> account \<Rightarrow> string list \<Rightarrow> (string list \<times> string list) option
    \<Rightarrow> account_db \<Rightarrow> account_db" where
  "log_edit who t named moved d =
     (let d1 = (if named = [] then d
            else log_line ''account.update'' (actor_of who) (Some (u_id t)) False [(''fields'', ASlugs named)] d)
      in case moved of None \<Rightarrow> d1
         | Some (added, removed) \<Rightarrow>
             raise_event (RolesChanged (u_id t) added removed (actor_of who))
               (record_account_change ChangeRoles (actor_of who) (u_id t) added removed
                 (log_line ''account.roles'' (actor_of who) (Some (u_id t)) False
                   [(''added'', ASlugs added), (''removed'', ASlugs removed)] d1)))"

definition write_edit :: "acting \<Rightarrow> account \<Rightarrow> account_edit \<Rightarrow> string list option \<Rightarrow> account_db
    \<Rightarrow> account \<times> account_db" where
  "write_edit who t ch wanted d =
     (let named = altered_names t ch;
          moved = role_move d t wanted;
          t1 = edited_names t ch;
          d1 = (if moved = None then d else set_roles (u_id t) (case wanted of None \<Rightarrow> [] | Some w \<Rightarrow> w) d);
          t2 = spelled_account (if moved = None then t1 else sync_django_flags d1 t1);
          d2 = edit_account (u_id t) (save_edit ch (moved \<noteq> None) t2) d1;
          (t3, d3) = edit_kind who (ch_kind ch) t2 d2
      in (t3, log_edit who t named moved d3))"

definition update_body :: "acting \<Rightarrow> account \<Rightarrow> account_edit \<Rightarrow> account_db \<Rightarrow> (account_error + account) \<times> account_db" where
  "update_body who t ch d =
     (case (case ch_roles ch of None \<Rightarrow> (Inr None, d)
            | Some w \<Rightarrow> apfst (map_sum id Some) (checked_roles who t w d)) of
        (Inl e, d1) \<Rightarrow> (Inl e, d1)
      | (Inr wanted, d1) \<Rightarrow>
          if ch_kind ch \<noteq> None \<and> is_donor t
          then (Inl (FieldRefused ''kind'' donor_kind_refused),
                log_line ''account.kind'' (actor_of who) (Some (u_id t)) True [(''reason'', ASlug ''donor_kind'')] d1)
          else apfst Inr (write_edit who t ch wanted d1))"

definition update_account :: "acting \<Rightarrow> account \<Rightarrow> account_edit \<Rightarrow> account_db
    \<Rightarrow> (account_error + account) \<times> account_db" where
  "update_account who t ch d = account_atomic (update_body who t ch) d"

definition no_edit :: account_edit where
  "no_edit = \<lparr>ch_email = None, ch_first_name = None, ch_last_name = None, ch_roles = None, ch_kind = None\<rparr>"

definition set_verifier :: "account \<Rightarrow> account \<Rightarrow> bool \<Rightarrow> account_db \<Rightarrow> (account_error + account) \<times> account_db" where
  "set_verifier u t wanted d =
     (let held = filter (\<lambda>s. s \<noteq> ''verifier'') (roles d (u_id t))
      in update_account (Person u) t (no_edit\<lparr>ch_roles := Some (if wanted then held @ [''verifier''] else held)\<rparr>) d)"

definition email_change_refused :: string where
  "email_change_refused = ''You cannot change the email address of an account that holds administrative roles you do not hold.''"

definition check_account_edit :: "acting \<Rightarrow> account \<Rightarrow> account_edit \<Rightarrow> account_db
    \<Rightarrow> (account_error + unit) \<times> account_db" where
  "check_account_edit who t ch d =
     (let changed = (case ch_email ch of None \<Rightarrow> []
            | Some v \<Rightarrow> if normalized_email v \<noteq> normalized_email (u_email t) then [''email''] else [])
      in if changed = [] \<or> may_edit_protected_fields d who t then (Inr (), d)
         else (Inl (FieldRefused ''email'' email_change_refused),
               log_line ''account.update'' (actor_of who) (Some (u_id t)) True
                 [(''fields'', ASlugs changed), (''reason'', ASlug ''roles_not_held'')] d))"

subsection \<open>Addresses\<close>

definition keeps_address :: "account_db \<Rightarrow> string \<Rightarrow> account \<Rightarrow> bool" where
  \<comment> \<open>the address is the account's recovery address, still kept\<close>
  "keeps_address d address r \<longleftrightarrow> same_address (a_recovery_email r) address
     \<and> (case a_recovery_until r of None \<Rightarrow> False | Some t \<Rightarrow> t > ad_now d)"

definition address_holder :: "account_db \<Rightarrow> string \<Rightarrow> account option" where
  "address_holder d address =
     (let a = strip address
      in case find (\<lambda>r. same_address (u_email r) a) (ad_accounts d) of
           Some r \<Rightarrow> Some r
         | None \<Rightarrow> find (keeps_address d a) (ad_accounts d))"

definition address_taken :: "account_db \<Rightarrow> string \<Rightarrow> pk option \<Rightarrow> bool" where
  "address_taken d address by_other_than =
     (let a = strip address;
          others = filter (\<lambda>r. Some (u_id r) \<noteq> by_other_than) (ad_accounts d)
      in list_ex (\<lambda>r. same_address (u_email r) a) others \<or> list_ex (keeps_address d a) others)"

subsection \<open>Passwords and password links\<close>

definition replace_password :: "account_config \<Rightarrow> account \<Rightarrow> string \<Rightarrow> account_db \<Rightarrow> (bool \<times> account) \<times> account_db" where
  "replace_password cfg u raw_password d =
     (let (n, d1) = draw d;
          new_hash = make_password cfg raw_password n;
          matches = (\<lambda>r. u_id r = u_id u \<and> a_password r = a_password u);
          write = (\<lambda>r. r\<lparr>a_password := new_hash, a_pending_email := [], a_is_demo := False\<rparr>)
      in if rows_matched matches (ad_accounts d1) = 0 then ((False, u), d1)
         else ((True, write u), d1\<lparr>ad_accounts := rows_update matches write (ad_accounts d1)\<rparr>))"

definition send_password_reset_email :: "account \<Rightarrow> bool \<Rightarrow> string option \<Rightarrow> account_db \<Rightarrow> bool \<times> account_db" where
  "send_password_reset_email u required address d =
     (if u_email u = [] \<or> is_donor u \<or> a_reactivation_blocked u then (False, d)
      else (True, post (PasswordLink (u_id u)
        (case address of None \<Rightarrow> u_email u | Some a \<Rightarrow> if a = [] then u_email u else a) required) d))"

definition send_password_invitation :: "account \<Rightarrow> bool \<Rightarrow> account_db \<Rightarrow> account_db" where
  "send_password_invitation u taken_back d =
     (if is_donor u then d else post (InvitationLink (u_id u) (u_email u) taken_back) d)"

subsection \<open>Proving an address\<close>

definition field_of :: "json \<Rightarrow> string \<Rightarrow> json option" where
  "field_of j name = (case j of JObj fs \<Rightarrow> map_of fs name | _ \<Rightarrow> None)"

definition int_of :: "json option \<Rightarrow> int option" where
  \<comment> \<open>\<open>isinstance(x, int)\<close>, which a boolean passes\<close>
  "int_of j = (case j of Some (JInt n) \<Rightarrow> Some n | Some (JBool b) \<Rightarrow> Some (if b then 1 else 0) | _ \<Rightarrow> None)"

definition str_of :: "json option \<Rightarrow> string option" where
  "str_of j = (case j of Some (JStr s) \<Rightarrow> Some s | _ \<Rightarrow> None)"

definition account_numbered :: "account_db \<Rightarrow> int \<Rightarrow> account option" where
  "account_numbered d n = (if n < 0 then None else get_account d (nat n))"

record donor_upgrade =
  du_first_name :: string
  du_last_name :: string
  du_kind :: person_kind

definition email_verification_salt :: string where
  "email_verification_salt = ''accounts.email-verification''"

definition email_verification_invalid :: string where
  "email_verification_invalid = ''That verification link is invalid or has expired.''"

definition person_kinds :: "person_kind list" where
  "person_kinds = [Member, Friend]"

definition make_email_verification_token :: "account_config \<Rightarrow> account \<Rightarrow> donor_upgrade option \<Rightarrow> account_db \<Rightarrow> string" where
  "make_email_verification_token cfg u upgrade d =
     dumps cfg email_verification_salt (ad_now d) (JObj
       ([(''user'', JInt (int (u_id u))), (''email'', JStr (normalized_email (u_email u)))]
        @ (case upgrade of None \<Rightarrow> []
           | Some up \<Rightarrow> [(''upgrade'', JObj [(''first_name'', JStr (du_first_name up)),
               (''last_name'', JStr (du_last_name up)), (''kind'', JStr (kind_slug (du_kind up)))])])))"

definition send_email_verification :: "account_config \<Rightarrow> account \<Rightarrow> donor_upgrade option \<Rightarrow> account_db \<Rightarrow> account_db" where
  "send_email_verification cfg u upgrade d =
     (if is_donor u \<and> upgrade = None then d
      else post (VerificationLink (u_id u) (u_email u) (make_email_verification_token cfg u upgrade d)) d)"

definition donor_upgrade_of :: "json \<Rightarrow> donor_upgrade option" where
  "donor_upgrade_of payload = (case field_of payload ''upgrade'' of
     Some (JObj fs) \<Rightarrow>
       (case (str_of (map_of fs ''first_name''), str_of (map_of fs ''last_name''), str_of (map_of fs ''kind'')) of
          (Some f, Some l, Some k) \<Rightarrow>
            (case find (\<lambda>p. kind_slug p = k) person_kinds of None \<Rightarrow> None
             | Some p \<Rightarrow> Some \<lparr>du_first_name = f, du_last_name = l, du_kind = p\<rparr>)
        | _ \<Rightarrow> None)
   | _ \<Rightarrow> None)"

definition verification_target :: "account_db \<Rightarrow> json \<Rightarrow> account option" where
  "verification_target d payload = (case (int_of (field_of payload ''user''), str_of (field_of payload ''email'')) of
     (Some k, Some email) \<Rightarrow>
       (case account_numbered d k of None \<Rightarrow> None
        | Some u \<Rightarrow> if u_is_active u \<and> normalized_email (u_email u) = email then Some u else None)
   | _ \<Rightarrow> None)"

definition confirm_email_address :: "account \<Rightarrow> actor \<Rightarrow> account_db \<Rightarrow> (bool \<times> account) \<times> account_db" where
  "confirm_email_address u who d =
     (let same = (\<lambda>r. u_id r = u_id u \<and> same_address (u_email r) (u_email u));
          bounced = (\<lambda>r. same r \<and> a_email_bounced_at r \<noteq> None);
          clear = (\<lambda>r. r\<lparr>a_email_bounced_at := None, a_email_bounce_detail := []\<rparr>);
          u1 = (if rows_matched bounced (ad_accounts d) = 0 then u else clear u);
          d1 = d\<lparr>ad_accounts := rows_update bounced clear (ad_accounts d)\<rparr>;
          unproved = (\<lambda>r. same r \<and> a_email_verified_at r = None);
          stamp = (\<lambda>r. r\<lparr>a_email_verified_at := Some (ad_now d)\<rparr>)
      in if rows_matched unproved (ad_accounts d1) = 0 then ((False, u1), d1)
         else ((True, stamp u1), log_line ''account.email_verified'' who (Some (u_id u)) False []
                 (d1\<lparr>ad_accounts := rows_update unproved stamp (ad_accounts d1)\<rparr>)))"

definition upgrade_donor :: "account \<Rightarrow> donor_upgrade \<Rightarrow> account_db \<Rightarrow> account \<times> account_db" where
  "upgrade_donor u up d =
     (let u1 = spelled_account (u\<lparr>u_first_name := du_first_name up, u_last_name := du_last_name up\<rparr>);
          d1 = edit_account (u_id u) (\<lambda>r. r\<lparr>u_first_name := u_first_name u1, u_last_name := u_last_name u1\<rparr>) d;
          d2 = add_role (u_id u) ''member'' d1;
          ((_, u2), d3) = set_kind u1 (du_kind up) (Account (u_id u)) d2
      in (u2, d3))"

definition open_donor :: "account_config \<Rightarrow> account \<Rightarrow> json \<Rightarrow> string \<Rightarrow> account_db
    \<Rightarrow> (account_error + account) \<times> account_db" where
  \<comment> \<open>the branch of \<open>verify_email\<close> for a donor: the registration its link carries\<close>
  "open_donor cfg u payload raw_password d =
     (case donor_upgrade_of payload of
        None \<Rightarrow> (Inl (FieldRefused ''token'' email_verification_invalid), d)
      | Some up \<Rightarrow>
          if raw_password = [] then (Inl DonorPasswordRequired, d)
          else if \<not> password_accepted cfg raw_password then (Inl PasswordRejected, d)
          else let (n, d1) = draw d;
                   u1 = spelled_account (u\<lparr>a_password := make_password cfg raw_password n\<rparr>);
                   d2 = edit_account (u_id u) (\<lambda>r. r\<lparr>a_password := a_password u1\<rparr>) d1
               in apfst Inr (upgrade_donor u1 up d2))"

definition verify_body :: "account_config \<Rightarrow> string \<Rightarrow> string \<Rightarrow> account_db \<Rightarrow> (account_error + account) \<times> account_db" where
  "verify_body cfg token raw_password d =
     (let invalid = Inl (FieldRefused ''token'' email_verification_invalid)
      in case loads cfg email_verification_salt (email_verification_timeout cfg) (ad_now d) token of
           None \<Rightarrow> (invalid, d)
         | Some payload \<Rightarrow> (case verification_target d payload of
               None \<Rightarrow> (invalid, d)
             | Some u \<Rightarrow> (case (if is_donor u then open_donor cfg u payload raw_password d else (Inr u, d)) of
                   (Inl e, d1) \<Rightarrow> (Inl e, d1)
                 | (Inr u1, d1) \<Rightarrow> (case confirm_email_address u1 (Account (u_id u1)) d1 of
                       ((True, u2), d2) \<Rightarrow> (Inr u2, d2)
                     | ((False, u2), d2) \<Rightarrow> (case verification_target d2 payload of
                           None \<Rightarrow> (invalid, d2)
                         | Some u3 \<Rightarrow> (Inr u3, d2))))))"

definition verify_email :: "account_config \<Rightarrow> string \<Rightarrow> string \<Rightarrow> account_db \<Rightarrow> (account_error + account) \<times> account_db" where
  "verify_email cfg token raw_password d = account_atomic (verify_body cfg token raw_password) d"

definition clear_email_bounce :: "account \<Rightarrow> account \<Rightarrow> account_db \<Rightarrow> account \<times> account_db" where
  "clear_email_bounce u t d =
     (if a_email_bounced_at t = None then (t, d)
      else (spelled_account (t\<lparr>a_email_bounced_at := None, a_email_bounce_detail := []\<rparr>),
            log_line ''account.bounce_cleared'' (Account (u_id u)) (Some (u_id t)) False []
              (edit_account (u_id t) (\<lambda>r. r\<lparr>a_email_bounced_at := None, a_email_bounce_detail := []\<rparr>) d)))"

subsection \<open>Reading the state after a write\<close>

named_theorems account_simps \<open>reading the accounts and their roles after a write\<close>

lemma get_edit_account [account_simps]:
  "(\<And>r. u_id (f r) = u_id r) \<Longrightarrow> get_account (edit_account k f d) j
    = (if j = k then map_option f (get_account d j) else get_account d j)"
  by (simp add: get_account_def edit_account_def row_get_rows_edit)

interpretation account_row: editable_table get_account edit_account u_id
  by unfold_locales (simp add: get_edit_account, simp add: get_account_def edit_account_def rows_edit_missing)

lemma get_account_SomeD: "get_account d k = Some r \<Longrightarrow> r \<in> set (ad_accounts d) \<and> u_id r = k"
  by (auto simp: get_account_def dest: row_get_SomeD)

lemma edit_account_fields [account_simps]:
  "ad_groups (edit_account k f d) = ad_groups d" "ad_now (edit_account k f d) = ad_now d"
  "ad_sessions (edit_account k f d) = ad_sessions d" "ad_devices (edit_account k f d) = ad_devices d"
  "ad_codes (edit_account k f d) = ad_codes d"
  by (simp_all add: edit_account_def)

lemma emitting_keeps [account_simps]:
  "ad_accounts (log_line a w t b fs d) = ad_accounts d" "ad_groups (log_line a w t b fs d) = ad_groups d"
  "ad_accounts (raise_event e d) = ad_accounts d" "ad_groups (raise_event e d) = ad_groups d"
  "ad_accounts (post m d) = ad_accounts d" "ad_groups (post m d) = ad_groups d"
  "ad_accounts (record_account_change c w k xs ys d) = ad_accounts d"
  "ad_groups (record_account_change c w k xs ys d) = ad_groups d"
  "ad_accounts (account_rollback d d') = ad_accounts d" "ad_groups (account_rollback d d') = ad_groups d"
  by (simp_all add: log_line_def raise_event_def post_def record_account_change_def account_rollback_def)

lemma roles_cong: "ad_groups d = ad_groups d' \<Longrightarrow> roles d k = roles d' k"
  by (simp add: roles_def)

lemma get_account_cong: "ad_accounts d = ad_accounts d' \<Longrightarrow> get_account d k = get_account d' k"
  by (simp add: get_account_def)

lemma roles_in_slugs: "s \<in> set (roles d k) \<Longrightarrow> s \<in> set role_slugs"
  by (simp add: roles_def)

lemma set_roles_roles [account_simps]:
  "set (roles (set_roles k w d) j) = (if j = k then set w \<inter> set role_slugs else set (roles d j))"
  by (auto simp: roles_def set_roles_def Let_def)

lemma set_roles_accounts [account_simps]: "ad_accounts (set_roles k w d) = ad_accounts d"
  by (simp add: set_roles_def Let_def)

lemma sync_django_flags_simps [account_simps]:
  "u_id (sync_django_flags d u) = u_id u"
  "a_is_superuser (sync_django_flags d u) = (''system_admin'' \<in> set (roles d (u_id u)))"
  by (simp_all add: sync_django_flags_def Let_def)

lemma spelled_account_simps [account_simps]:
  "u_id (spelled_account u) = u_id u" "a_is_superuser (spelled_account u) = a_is_superuser u"
  "u_kind (spelled_account u) = u_kind u" "u_is_active (spelled_account u) = u_is_active u"
  "a_password (spelled_account u) = a_password u"
  by (simp_all add: spelled_account_def)

lemma edited_names_simps [account_simps]:
  "u_id (edited_names t ch) = u_id t" "a_is_superuser (edited_names t ch) = a_is_superuser t"
  by (simp_all add: edited_names_def)

lemma save_edit_simps [account_simps]:
  "u_id (save_edit ch b t r) = u_id r" "u_is_active (save_edit ch b t r) = u_is_active r"
  "a_is_superuser (save_edit ch b t r) = (if b then a_is_superuser t else a_is_superuser r)"
  "a_reactivation_blocked (save_edit ch b t r) = a_reactivation_blocked r"
  by (simp_all add: save_edit_def)

subsection \<open>The powers of an account\<close>

definition powers :: "account_db \<Rightarrow> pk \<Rightarrow> string set" where
  \<comment> \<open>the roles the stored account counts as holding\<close>
  "powers d k = set (roles d k)
     \<union> (case get_account d k of None \<Rightarrow> {} | Some r \<Rightarrow> if a_is_superuser r then {''system_admin''} else {})"

lemma effective_powers: "get_account d k = Some u \<Longrightarrow> effective_roles d (Person u) = powers d k"
  using get_account_SomeD [of d k u] by (simp add: effective_roles_def powers_def)

lemma powers_cong:
  "ad_groups d = ad_groups d' \<Longrightarrow> ad_accounts d = ad_accounts d' \<Longrightarrow> powers d = powers d'"
  by (rule ext) (simp add: powers_def roles_def get_account_def)

lemma powers_edit:
  assumes "\<And>r. u_id (f r) = u_id r" and "\<And>r. a_is_superuser (f r) = a_is_superuser r"
  shows "powers (edit_account k f d) = powers d"
  by (rule ext) (auto simp: powers_def get_edit_account [OF assms(1)] roles_def edit_account_fields assms(2)
      split: option.splits)

lemma powers_in_slugs: "s \<in> powers d k \<Longrightarrow> s \<in> set role_slugs"
  by (auto simp: powers_def role_slugs_def split: option.splits if_splits dest: roles_in_slugs)

subsection \<open>A role write\<close>

lemma checked_roles_InrD:
  assumes "checked_roles who t w d = (Inr ws, d')"
  shows "d' = d" and "ws = filter (\<lambda>s. s \<in> set w) role_slugs"
    and "writes_roles d t (set w) \<Longrightarrow> \<not> is_own who t
      \<and> (moves_system_admin d t (set w) \<longrightarrow> ''system_admin'' \<in> effective_roles d who)
      \<and> (\<forall>s \<in> set role_slugs. (s \<in> set w) \<noteq> (s \<in> set (roles d (u_id t))) \<longrightarrow> s \<in> set (assignable_roles d who t))"
  using assms by (auto simp: checked_roles_def Let_def filter_empty_conv split: if_splits)

lemma checked_roles_no_write:
  "checked_roles who t w d = (r, d') \<Longrightarrow> ad_accounts d' = ad_accounts d \<and> ad_groups d' = ad_groups d"
  by (auto simp: checked_roles_def Let_def refuse_roles_def account_simps split: if_splits)

lemma set_kind_powers:
  "set_kind u k who d = (r, d') \<Longrightarrow> powers d' = powers d"
  by (auto simp: set_kind_def Let_def powers_edit account_simps split: if_splits
      intro!: trans [OF powers_cong powers_edit])

lemma edit_kind_powers: "edit_kind who k t d = (t', d') \<Longrightarrow> powers d' = powers d"
  by (auto simp: edit_kind_def account_simps split: option.splits if_splits prod.splits bool.splits
      dest!: set_kind_powers intro: trans [OF powers_cong])

lemma log_edit_powers: "powers (log_edit who t named moved d) = powers d"
  by (rule powers_cong) (simp_all add: log_edit_def Let_def account_simps split: option.splits prod.splits)

lemma role_move_None: "role_move d t (Some w) = None \<longleftrightarrow> \<not> writes_roles d t (set w)"
  by (simp add: role_move_def)

lemma powers_set_roles_saved:
  assumes "get_account d (u_id t) = Some t0" and "u_id t2 = u_id t"
    and "a_is_superuser t2 = (''system_admin'' \<in> set w \<inter> set role_slugs)"
  shows "powers (edit_account (u_id t) (save_edit ch True t2) (set_roles (u_id t) w d))
    = (powers d)(u_id t := set w \<inter> set role_slugs)"
proof (rule ext)
  fix j
  have "get_account (set_roles (u_id t) w d) j = get_account d j"
    by (simp add: get_account_def account_simps)
  then show "powers (edit_account (u_id t) (save_edit ch True t2) (set_roles (u_id t) w d)) j
    = ((powers d)(u_id t := set w \<inter> set role_slugs)) j"
    using assms by (auto simp: powers_def get_edit_account roles_cong [OF edit_account_fields(1)] account_simps
        split: option.splits)
qed

lemma write_edit_powers:
  assumes "get_account d (u_id t) = Some t0" and "write_edit who t ch wanted d = (t', d')"
  shows "powers d' = (if role_move d t wanted = None then powers d
    else (powers d)(u_id t := set (the wanted) \<inter> set role_slugs))"
proof (cases "role_move d t wanted = None")
  case True
  then show ?thesis using assms(2)
    by (auto simp: write_edit_def Let_def log_edit_powers powers_edit account_simps
        split: prod.splits dest!: edit_kind_powers)
next
  case False
  then obtain w where w: "wanted = Some w" by (auto simp: role_move_def split: option.splits)
  define t2 where "t2 = spelled_account (sync_django_flags (set_roles (u_id t) w d) (edited_names t ch))"
  have "powers d' = powers (edit_account (u_id t) (save_edit ch True t2) (set_roles (u_id t) w d))"
    using assms(2) False by (auto simp: write_edit_def Let_def w t2_def log_edit_powers
        split: prod.splits dest!: edit_kind_powers)
  also have "\<dots> = (powers d)(u_id t := set w \<inter> set role_slugs)"
    by (rule powers_set_roles_saved [OF assms(1)]) (simp_all add: t2_def account_simps)
  finally show ?thesis unfolding w option.sel using False w by (simp del: not_None_eq)
qed

lemma update_body_powers:
  assumes t: "get_account d (u_id t) = Some t" and run: "update_body who t ch d = (r, d')"
  obtains "powers d' = powers d"
  | w where "ch_roles ch = Some w" "writes_roles d t (set w)"
      "checked_roles who t w d = (Inr (filter (\<lambda>s. s \<in> set w) role_slugs), d)"
      "powers d' = (powers d)(u_id t := set w \<inter> set role_slugs)"
proof (cases "ch_roles ch")
  case None
  obtain t1 d1 where w: "write_edit who t ch None d = (t1, d1)" by fastforce
  have "powers d1 = powers d" using write_edit_powers [OF t w] by (simp add: role_move_def)
  moreover have "d' = d1 \<or> powers d' = powers d"
    using run None w by (auto simp: update_body_def account_simps split: if_splits intro!: powers_cong)
  ultimately have "powers d' = powers d" by auto
  then show ?thesis by (rule that(1))
next
  case w: (Some w)
  obtain c d1 where c: "checked_roles who t w d = (c, d1)" by fastforce
  show ?thesis
  proof (cases c)
    case (Inl e)
    then have "d' = d1" using run w c by (simp add: update_body_def)
    then have "powers d' = powers d"
      using checked_roles_no_write [OF c] by (intro powers_cong) simp_all
    then show ?thesis by (rule that(1))
  next
    case (Inr ws)
    let ?ws = "filter (\<lambda>s. s \<in> set w) role_slugs"
    have d1: "d1 = d" and ws: "ws = ?ws" using checked_roles_InrD [OF c [unfolded Inr]] by simp_all
    have step: "powers d' = (if role_move d t (Some ?ws) = None then powers d
        else (powers d)(u_id t := set ?ws \<inter> set role_slugs))"
      if "\<not> (ch_kind ch \<noteq> None \<and> is_donor t)"
    proof -
      obtain t' d2 where w2: "write_edit who t ch (Some ?ws) d = (t', d2)" by fastforce
      have "d' = d2" using run w c Inr ws d1 w2 that by (auto simp: update_body_def split: if_splits)
      with w2 have "write_edit who t ch (Some ?ws) d = (t', d')" by simp
      from write_edit_powers [OF t this] show ?thesis by simp
    qed
    consider (donor) "ch_kind ch \<noteq> None \<and> is_donor t"
      | (same) "\<not> (ch_kind ch \<noteq> None \<and> is_donor t)" "role_move d t (Some ?ws) = None"
      | (moved) "\<not> (ch_kind ch \<noteq> None \<and> is_donor t)" "role_move d t (Some ?ws) \<noteq> None" by blast
    then show ?thesis
    proof cases
      case donor
      then have "powers d' = powers d" using run w c Inr d1
        by (auto simp: update_body_def account_simps intro!: powers_cong)
      then show ?thesis by (rule that(1))
    next
      case same
      then show ?thesis using step by (intro that(1)) simp
    next
      case moved
      have "set ?ws \<inter> set role_slugs = set w \<inter> set role_slugs" by auto
      moreover have "writes_roles d t (set w)"
        using moved(2) roles_in_slugs [of _ d "u_id t"] by (auto simp: role_move_None writes_roles_def)
      moreover have "checked_roles who t w d = (Inr ?ws, d)" using c Inr d1 ws by simp
      ultimately show ?thesis using step [OF moved(1)] moved(2) by (intro that(2) [OF w]) simp_all
    qed
  qed
qed

text \<open>C10: whatever an edit of an account asks for, the powers it moves are those of that account
  alone, which is not the editor's own, and only roles the editor may assign: with an editor who
  is no system administrator, roles outside the guarded ones and guarded roles the editor holds.\<close>

theorem role_write_within_authority:
  assumes "get_account d (u_id t) = Some t" and "update_account who t ch d = (r, d')"
    and "(s \<in> powers d' k) \<noteq> (s \<in> powers d k)"
  shows "k = u_id t \<and> \<not> is_own who t \<and> s \<in> set (assignable_roles d who t)
    \<and> (s \<in> set guarded_roles \<longrightarrow> s \<in> effective_roles d who \<or> ''system_admin'' \<in> effective_roles d who)"
proof -
  obtain r1 d1 where run: "update_body who t ch d = (r1, d1)" by fastforce
  have d': "powers d' = powers d \<or> powers d' = powers d1"
    using assms(2) run by (auto simp: update_account_def account_atomic_def account_simps
        split: sum.splits intro!: powers_cong)
  with assms(3) have moved: "(s \<in> powers d1 k) \<noteq> (s \<in> powers d k)" by auto
  from update_body_powers [OF assms(1) run] obtain w where w: "writes_roles d t (set w)"
      and c: "checked_roles who t w d = (Inr (filter (\<lambda>s. s \<in> set w) role_slugs), d)"
      and p: "powers d1 = (powers d)(u_id t := set w \<inter> set role_slugs)"
    using moved by metis
  have k: "k = u_id t" and s: "s \<in> set role_slugs" "(s \<in> set w) \<noteq> (s \<in> powers d (u_id t))"
    using moved p powers_in_slugs [of s d k] by (auto split: if_splits)
  note ok = checked_roles_InrD(3) [OF c w]
  have "s \<in> set (assignable_roles d who t)"
  proof (cases "(s \<in> set w) \<noteq> (s \<in> set (roles d (u_id t)))")
    case True
    with ok s show ?thesis by blast
  next
    case False
    then have "s = ''system_admin''" "s \<notin> set w" "s \<in> effective_roles d (Person t)"
      using s by (auto simp: powers_def effective_roles_def assms(1) split: if_splits)
    then have "''system_admin'' \<in> effective_roles d who" using ok by (simp add: moves_system_admin_def)
    then show ?thesis using ok \<open>s \<in> set role_slugs\<close> by (simp add: assignable_roles_def)
  qed
  then show ?thesis using ok k by (auto simp: assignable_roles_def Let_def split: if_splits)
qed

subsection \<open>What an edit leaves alone\<close>

definition standing :: "account_db \<Rightarrow> pk \<Rightarrow> (bool \<times> bool) option" where
  \<comment> \<open>whether the stored account is active, and whether it is blocked\<close>
  "standing d k = map_option (\<lambda>r. (u_is_active r, a_reactivation_blocked r)) (get_account d k)"

lemma standing_cong: "ad_accounts d = ad_accounts d' \<Longrightarrow> standing d = standing d'"
  by (rule ext) (simp add: standing_def get_account_def)

lemma emitting_standing [account_simps]:
  "powers (log_line a w i b fs d) = powers d" "standing (log_line a w i b fs d) = standing d"
  "powers (raise_event e d) = powers d" "standing (raise_event e d) = standing d"
  "powers (post m d) = powers d" "standing (post m d) = standing d"
  "powers (record_account_change c w k xs ys d) = powers d"
  "standing (record_account_change c w k xs ys d) = standing d"
  "powers (account_rollback d d') = powers d" "standing (account_rollback d d') = standing d"
  by (intro powers_cong standing_cong, simp_all add: account_simps)+

lemma standing_edit:
  assumes "\<And>r. u_id (f r) = u_id r" and "\<And>r. u_is_active (f r) = u_is_active r"
    and "\<And>r. a_reactivation_blocked (f r) = a_reactivation_blocked r"
  shows "standing (edit_account k f d) = standing d"
  by (rule ext) (simp add: standing_def get_edit_account [OF assms(1)] assms(2,3) option.map_comp comp_def)

lemma set_kind_standing: "set_kind u k who d = (r, d') \<Longrightarrow> standing d' = standing d"
  by (auto simp: set_kind_def Let_def standing_edit account_simps split: if_splits
      intro!: trans [OF standing_cong standing_edit])

lemma edit_kind_standing: "edit_kind who k t d = (t', d') \<Longrightarrow> standing d' = standing d"
  by (auto simp: edit_kind_def account_simps split: option.splits if_splits prod.splits bool.splits
      dest!: set_kind_standing intro: trans [OF standing_cong])

lemma write_edit_standing:
  assumes "write_edit who t ch wanted d = (t', d')"
  shows "standing d' = standing d"
proof -
  have log: "standing (log_edit who t n m x) = standing x" for n m x
    by (rule standing_cong) (simp add: log_edit_def Let_def account_simps split: option.splits prod.splits)
  have "standing (edit_account k (save_edit ch b t2) x) = standing x" for k b t2 x
    by (rule standing_edit) (simp_all add: account_simps)
  moreover have "standing (set_roles k w x) = standing x" for k w x
    by (rule standing_cong) (simp add: account_simps)
  ultimately show ?thesis using assms
    by (auto simp: write_edit_def Let_def log split: prod.splits if_splits dest!: edit_kind_standing)
qed

lemma update_account_standing:
  assumes "update_account who t ch d = (r, d')"
  shows "standing d' = standing d"
proof -
  obtain r1 d1 where run: "update_body who t ch d = (r1, d1)" by fastforce
  obtain c dc where c: "(case ch_roles ch of None \<Rightarrow> (Inr None, d)
      | Some w \<Rightarrow> apfst (map_sum id Some) (checked_roles who t w d)) = (c, dc)" by fastforce
  have "standing dc = standing d"
    using c by (cases "ch_roles ch") (auto intro!: standing_cong dest!: checked_roles_no_write simp: apfst_def map_prod_def split: prod.splits)
  moreover have "standing d1 = standing dc"
    using run c by (auto simp: update_body_def account_simps apfst_def map_prod_def split: sum.splits if_splits prod.splits
        intro: standing_cong dest: write_edit_standing)
  ultimately show ?thesis using assms run
    by (auto simp: update_account_def account_atomic_def account_simps split: sum.splits intro!: standing_cong)
qed

subsection \<open>Rows to run the operations on\<close>

definition sample_account :: "pk \<Rightarrow> string \<Rightarrow> account" where
  "sample_account k address = \<lparr>u_id = k, u_email = address, u_first_name = ''Ann'', u_last_name = ''Lee'',
     u_is_active = True, u_kind = Member, u_friend_on = None, a_password = ''hash'', a_is_superuser = False,
     a_is_staff = False, a_email_verified_at = Some 5, a_email_bounced_at = None, a_email_bounce_detail = [],
     a_pending_email = [], a_email_change_undone_at = None, a_recovery_email = [], a_recovery_until = None,
     a_reactivation_blocked = False, a_is_demo = False\<rparr>"

definition sample_accounts :: account_db where
  \<comment> \<open>a system administrator, a treasurer who is a user administrator, a plain member\<close>
  "sample_accounts = \<lparr>ad_accounts = [sample_account 1 ''admin@x.org'', sample_account 2 ''tom@x.org'', sample_account 3 ''ann@x.org''],
     ad_groups = [(1, ''system_admin''), (2, ''user_admin''), (2, ''treasurer''), (3, ''member'')],
     ad_changes = [], ad_devices = [], ad_codes = [], ad_failures = [],
     ad_sessions = [\<lparr>ls_signed_in = Some 3, ls_expires = 2000\<rparr>],
     ad_next_pk = 10, ad_draws = 0, ad_now = 1000, ad_audit = [], ad_events = [], ad_mail = []\<rparr>"

definition sample_account_config :: account_config where
  \<comment> \<open>a hash that names its draw, tokens nobody can read, an authenticator that shows one code\<close>
  "sample_account_config = \<lparr>make_password = (\<lambda>raw n. raw @ [char_of n]), unusable_password = (\<lambda>n. CHR ''!'' # [char_of n]),
     check_password = (\<lambda>raw h. butlast h = raw), password_accepted = (\<lambda>raw. length raw \<ge> 8),
     normalize_domain = (\<lambda>s. s), dumps = (\<lambda>salt at j. salt), loads = (\<lambda>salt age now token. None),
     keyed_hash = (\<lambda>purpose v key. v @ key), otp = (\<lambda>secret step. if step = 33 then ''123456'' else ''000000''),
     draw_text = (\<lambda>alphabet n i. replicate n (alphabet ! (i mod length alphabet))),
     session_auth_hash = (\<lambda>h. h), digest = (\<lambda>s. s), local_date = (\<lambda>t. t div 86400), org_title = ''CalDART'', secret_keys = [''k''],
     email_verification_timeout = 86400, lockout_attempts = 3, lockout_seconds = 900,
     lockout_code_attempts = 20, lockout_code_seconds = 86400, demo_skips_two_factor = False\<rparr>"

definition wanted_roles :: "string list \<Rightarrow> account_edit" where
  "wanted_roles ss = no_edit\<lparr>ch_roles := Some ss\<rparr>"

lemmas sample_account_defs = sample_account_def sample_accounts_def wanted_roles_def no_edit_def

lemma sample_rows [simp]:
  "get_account sample_accounts 1 = Some (sample_account 1 ''admin@x.org'')"
  "get_account sample_accounts 2 = Some (sample_account 2 ''tom@x.org'')"
  "get_account sample_accounts 3 = Some (sample_account 3 ''ann@x.org'')"
  "u_id (sample_account k e) = k"
  by (simp_all add: get_account_def sample_account_defs)

lemma treasurer_given:
  "''treasurer'' \<in> powers (snd (update_account (Person (sample_account 2 ''tom@x.org'')) (sample_account 3 ''ann@x.org'')
      (wanted_roles [''treasurer'']) sample_accounts)) 3" (is ?now)
  "''treasurer'' \<notin> powers sample_accounts 3" (is ?before)
proof -
  show ?before by (simp add: powers_def roles_def sample_account_defs role_slugs_def get_account_def)
  let ?who = "Person (sample_account 2 ''tom@x.org'')" and ?t = "sample_account 3 ''ann@x.org''"
    and ?ch = "wanted_roles [''treasurer'']"
  have who: "effective_roles sample_accounts ?who = {''user_admin'', ''treasurer''}"
    and t: "roles sample_accounts 3 = [''member'']"
    by (auto simp: effective_roles_def roles_def role_slugs_def sample_account_defs)
  have "checked_roles ?who ?t [''treasurer''] sample_accounts = (Inr [''treasurer''], sample_accounts)"
    by (simp add: checked_roles_def writes_roles_def moves_system_admin_def t is_own_def assignable_roles_def who
        effective_roles_def [of _ "Person ?t"] Let_def)
      (simp add: sample_account_def role_slugs_def guarded_roles_def mfa_required_roles_def)
  moreover obtain t' d' where w: "write_edit ?who ?t ?ch (Some [''treasurer'']) sample_accounts = (t', d')" by fastforce
  ultimately have "snd (update_account ?who ?t ?ch sample_accounts) = d'"
    by (simp add: update_account_def account_atomic_def update_body_def wanted_roles_def no_edit_def)
  moreover have "powers d' = (powers sample_accounts)(3 := {''treasurer''})"
    using write_edit_powers [OF _ w] by (simp add: role_move_def writes_roles_def t role_slugs_def)
  ultimately show ?now by simp
qed

lemma role_write_within_authority_witness:
  "\<exists>r d'. update_account (Person (sample_account 2 ''tom@x.org'')) (sample_account 3 ''ann@x.org'')
      (wanted_roles [''treasurer'']) sample_accounts = (r, d')
    \<and> (''treasurer'' \<in> effective_roles sample_accounts (Person (sample_account 2 ''tom@x.org''))
       \<or> ''system_admin'' \<in> effective_roles sample_accounts (Person (sample_account 2 ''tom@x.org'')))"
proof -
  obtain r d' where run: "update_account (Person (sample_account 2 ''tom@x.org'')) (sample_account 3 ''ann@x.org'')
      (wanted_roles [''treasurer'']) sample_accounts = (r, d')" by fastforce
  have "''treasurer'' \<in> powers d' 3" using treasurer_given(1) run by simp
  moreover have "''treasurer'' \<in> set guarded_roles" by (simp add: guarded_roles_def mfa_required_roles_def)
  ultimately show ?thesis
    using role_write_within_authority [OF _ run, of "''treasurer''" 3] treasurer_given(2) run by simp
qed

end
