(* ===== verification/AccountStatus.thy ===== *)
theory AccountStatus
  imports Accounts
begin

text \<open>
  Deactivating, reactivating and blocking accounts (\<open>apps/accounts/status.py\<close>), and what the role
  writes and the changes of status do together: the relation \<open>account_step\<close> is one request, by an
  active account on any account or by an owner on their own, with whatever arguments.

  However requests follow one another, the site keeps an active system administrator, a guarded
  role never appears among accounts none of which may give it, and a blocked account comes back
  only after an account that holds all its guarded roles lifted the block.
\<close>

subsection \<open>The operations\<close>

definition closed_account_message :: "account_config \<Rightarrow> string" where
  "closed_account_message cfg = ''This account has been closed. Contact '' @ org_title cfg @ '' to reopen it.''"

definition refuse_status :: "string \<Rightarrow> account \<Rightarrow> account \<Rightarrow> string \<Rightarrow> account_db \<Rightarrow> account_db" where
  "refuse_status action u t reason d =
     log_line action (Account (u_id u)) (Some (u_id t)) True [(''reason'', ASlug reason)] d"

definition end_sessions :: "pk \<Rightarrow> account_db \<Rightarrow> nat \<times> account_db" where
  "end_sessions k d =
     (let signed_in = (\<lambda>s. ls_expires s > ad_now d \<and> ls_signed_in s = Some k)
      in (rows_matched signed_in (ad_sessions d), d\<lparr>ad_sessions := rows_delete signed_in (ad_sessions d)\<rparr>))"

definition verify_on_commit :: "account_config \<Rightarrow> account \<Rightarrow> account_db \<Rightarrow> account_db" where
  "verify_on_commit cfg u d = (if a_email_verified_at u = None then send_email_verification cfg u None d else d)"

definition write_inactive :: "account \<Rightarrow> account_db \<Rightarrow> account_db" where
  "write_inactive t d = edit_account (u_id t) (\<lambda>r. r\<lparr>u_is_active := False, a_pending_email := []\<rparr>) d"

definition write_active :: "account \<Rightarrow> account_db \<Rightarrow> account_db" where
  "write_active t d = edit_account (u_id t) (\<lambda>r. r\<lparr>u_is_active := True\<rparr>) d"

definition deactivate_own_account :: "account \<Rightarrow> account_db \<Rightarrow> (account_error + unit) \<times> account_db" where
  "deactivate_own_account u d =
     (if is_donor u
      then (Inl (Refused ''A donor doesn't have a portal account to deactivate.''),
            refuse_status ''account.deactivate'' u u ''donor_account'' d)
      else if ''system_admin'' \<in> effective_roles d (Person u)
      then (Inl (Refused ''A system administrator cannot deactivate their own account.''),
            refuse_status ''account.deactivate'' u u ''system_admin_target'' d)
      else (Inr (), raise_event (AccountDeactivated (u_id u) None)
        (record_account_change ChangeDeactivated (Account (u_id u)) (u_id u) [] []
          (log_line ''account.deactivate'' (Account (u_id u)) (Some (u_id u)) False [(''self_service'', ABool True)]
            (write_inactive u d)))))"

definition deactivated_account :: "account_config \<Rightarrow> string \<Rightarrow> string \<Rightarrow> account_db \<Rightarrow> account option" where
  "deactivated_account cfg email raw_password d =
     (case find (\<lambda>r. same_address (u_email r) (strip email) \<and> \<not> u_is_active r) (ad_accounts d) of
        None \<Rightarrow> None
      | Some u \<Rightarrow> if is_donor u then None
          else if \<not> check_password cfg raw_password (a_password u) then None else Some u)"

definition reactivate_own_account :: "account_config \<Rightarrow> account \<Rightarrow> account_db \<Rightarrow> (account_error + unit) \<times> account_db" where
  "reactivate_own_account cfg u d =
     (if a_reactivation_blocked u
      then (Inl (Refused (closed_account_message cfg)),
            refuse_status ''account.activate'' u u ''reactivation_blocked'' d)
      else (Inr (), verify_on_commit cfg u (raise_event (AccountReactivated (u_id u) None)
        (record_account_change ChangeReactivated (Account (u_id u)) (u_id u) [] []
          (log_line ''account.activate'' (Account (u_id u)) (Some (u_id u)) False [(''self_service'', ABool True)]
            (write_active u d))))))"

definition status_change_refused :: string where
  "status_change_refused =
     ''You cannot activate or deactivate an account that holds administrative roles you do not hold.''"

definition deactivate_account :: "account \<Rightarrow> account \<Rightarrow> account_db \<Rightarrow> (account_error + unit) \<times> account_db" where
  "deactivate_account u t d =
     (if is_donor t
      then (Inl (Refused ''A donor doesn't have a portal account to deactivate.''),
            refuse_status ''account.deactivate'' u t ''donor_account'' d)
      else if u_id t = u_id u
      then (Inl (Refused ''You cannot deactivate your own account.''),
            refuse_status ''account.deactivate'' u t ''self_deactivation'' d)
      else if \<not> may_edit_protected_fields d (Person u) t
      then (Inl (Refused status_change_refused), refuse_status ''account.deactivate'' u t ''roles_not_held'' d)
      else if \<not> u_is_active t then (Inl (Refused ''That account is already deactivated.''), d)
      else (Inr (), snd (end_sessions (u_id t) (raise_event (AccountDeactivated (u_id t) (Some (u_id u)))
        (record_account_change ChangeDeactivated (Account (u_id u)) (u_id t) [] []
          (log_line ''account.deactivate'' (Account (u_id u)) (Some (u_id t)) False []
            (write_inactive t d)))))))"

definition reactivate_account :: "account_config \<Rightarrow> account \<Rightarrow> account \<Rightarrow> account_db \<Rightarrow> (account_error + unit) \<times> account_db" where
  "reactivate_account cfg u t d =
     (if is_donor t
      then (Inl (Refused ''A donor doesn't have a portal account to reactivate.''),
            refuse_status ''account.activate'' u t ''donor_account'' d)
      else if \<not> may_edit_protected_fields d (Person u) t
      then (Inl (Refused status_change_refused), refuse_status ''account.activate'' u t ''roles_not_held'' d)
      else if a_reactivation_blocked t
      then (Inl (Refused ''A user administrator has blocked this account from reactivating. Allow reactivation on its user record first.''),
            refuse_status ''account.activate'' u t ''reactivation_blocked'' d)
      else if u_is_active t then (Inl (Refused ''That account is already active.''), d)
      else (Inr (), verify_on_commit cfg t (raise_event (AccountReactivated (u_id t) (Some (u_id u)))
        (record_account_change ChangeReactivated (Account (u_id u)) (u_id t) [] []
          (log_line ''account.activate'' (Account (u_id u)) (Some (u_id t)) False [] (write_active t d))))))"

definition check_block :: "account \<Rightarrow> account \<Rightarrow> bool \<Rightarrow> account_db \<Rightarrow> (account_error + unit) \<times> account_db" where
  "check_block u t blocked d =
     (let action = (if blocked then ''account.block'' else ''account.unblock'')
      in if is_donor t
         then (Inl (Refused ''A donor doesn't have a portal account to block.''),
               refuse_status action u t ''donor_account'' d)
         else if u_id t = u_id u
         then (Inl (Refused ''You cannot block your own account.''),
               refuse_status action u t ''self_deactivation'' d)
         else if \<not> may_edit_protected_fields d (Person u) t
         then (Inl (Refused ''You cannot block or unblock an account that holds administrative roles you do not hold.''),
               refuse_status action u t ''roles_not_held'' d)
         else (Inr (), d))"

definition set_reactivation_blocked :: "account \<Rightarrow> account \<Rightarrow> bool \<Rightarrow> account_db \<Rightarrow> (account_error + bool) \<times> account_db" where
  "set_reactivation_blocked u t blocked d =
     (case check_block u t blocked d of
        (Inl e, d1) \<Rightarrow> (Inl e, d1)
      | (Inr _, d1) \<Rightarrow>
          if a_reactivation_blocked t = blocked then (Inr False, d1)
          else (Inr True,
            record_account_change (if blocked then ChangeBlocked else ChangeUnblocked) (Account (u_id u)) (u_id t) [] []
              (log_line (if blocked then ''account.block'' else ''account.unblock'') (Account (u_id u)) (Some (u_id t)) False []
                (edit_account (u_id t) (\<lambda>r. r\<lparr>a_reactivation_blocked := blocked\<rparr>) d1))))"

definition clear_password_and_end_sessions :: "account_config \<Rightarrow> account \<Rightarrow> account_db \<Rightarrow> nat \<times> account_db" where
  "clear_password_and_end_sessions cfg u d =
     (let (n, d1) = draw d
      in end_sessions (u_id u) (edit_account (u_id u)
           (\<lambda>r. r\<lparr>a_password := unusable_password cfg n, a_pending_email := []\<rparr>) d1))"

subsection \<open>One request\<close>

definition acting_account :: "account_db \<Rightarrow> account \<Rightarrow> bool" where
  "acting_account d u \<longleftrightarrow> get_account d (u_id u) = Some u \<and> u_is_active u"

inductive account_step :: "account_config \<Rightarrow> account_db \<Rightarrow> account_db \<Rightarrow> bool" for cfg where
  edit: "acting_account d u \<Longrightarrow> get_account d (u_id t) = Some t
    \<Longrightarrow> update_account (Person u) t ch d = (r, d') \<Longrightarrow> account_step cfg d d'"
| leave: "acting_account d u \<Longrightarrow> deactivate_own_account u d = (x, d') \<Longrightarrow> account_step cfg d d'"
| deactivate: "acting_account d u \<Longrightarrow> get_account d (u_id t) = Some t
    \<Longrightarrow> deactivate_account u t d = (x, d') \<Longrightarrow> account_step cfg d d'"
| come_back: "get_account d (u_id t) = Some t \<Longrightarrow> reactivate_own_account cfg t d = (x, d') \<Longrightarrow> account_step cfg d d'"
| reactivate: "acting_account d u \<Longrightarrow> get_account d (u_id t) = Some t
    \<Longrightarrow> reactivate_account cfg u t d = (x, d') \<Longrightarrow> account_step cfg d d'"
| block: "acting_account d u \<Longrightarrow> get_account d (u_id t) = Some t
    \<Longrightarrow> set_reactivation_blocked u t b d = (y, d') \<Longrightarrow> account_step cfg d d'"

lemma status_keeps [account_simps]:
  "ad_accounts (refuse_status a u t s d) = ad_accounts d" "ad_groups (refuse_status a u t s d) = ad_groups d"
  "ad_accounts (snd (end_sessions k d)) = ad_accounts d" "ad_groups (snd (end_sessions k d)) = ad_groups d"
  "ad_accounts (verify_on_commit cfg u d) = ad_accounts d" "ad_groups (verify_on_commit cfg u d) = ad_groups d"
  "ad_groups (write_inactive t d) = ad_groups d" "ad_groups (write_active t d) = ad_groups d"
  by (simp_all add: refuse_status_def end_sessions_def Let_def verify_on_commit_def send_email_verification_def
      write_inactive_def write_active_def account_simps)

lemma status_standing [account_simps]:
  "powers (refuse_status a u t s d) = powers d" "standing (refuse_status a u t s d) = standing d"
  "powers (snd (end_sessions k d)) = powers d" "standing (snd (end_sessions k d)) = standing d"
  "powers (verify_on_commit cfg u d) = powers d" "standing (verify_on_commit cfg u d) = standing d"
  by (intro powers_cong standing_cong, simp_all add: account_simps)+

lemma powers_write [account_simps]:
  "powers (write_inactive t d) = powers d" "powers (write_active t d) = powers d"
  by (simp_all add: write_inactive_def write_active_def powers_edit)

lemma standing_write [account_simps]:
  "standing (write_inactive t d) k = (if k = u_id t then map_option (\<lambda>(_, b). (False, b)) (standing d k) else standing d k)"
  "standing (write_active t d) k = (if k = u_id t then map_option (\<lambda>(_, b). (True, b)) (standing d k) else standing d k)"
  by (simp_all add: standing_def write_inactive_def write_active_def get_edit_account option.map_comp comp_def)

lemma standing_block [account_simps]:
  "standing (edit_account j (\<lambda>r. r\<lparr>a_reactivation_blocked := b\<rparr>) d) k
    = (if k = j then map_option (\<lambda>(a, _). (a, b)) (standing d k) else standing d k)"
  by (simp add: standing_def get_edit_account option.map_comp comp_def)

text \<open>What each operation does to the powers and to the standing of the accounts.\<close>

lemma deactivate_own_effect:
  assumes "deactivate_own_account u d = (x, d')"
  shows "powers d' = powers d" and "standing d' k \<noteq> standing d k \<Longrightarrow>
    k = u_id u \<and> ''system_admin'' \<notin> effective_roles d (Person u) \<and> standing d' k = map_option (\<lambda>(_, b). (False, b)) (standing d k)"
proof -
  let ?w = "write_inactive u d"
  have "(powers d' = powers d \<and> standing d' = standing d) \<or> (''system_admin'' \<notin> effective_roles d (Person u)
      \<and> powers d' = powers ?w \<and> standing d' = standing ?w)"
    using assms by (auto simp: deactivate_own_account_def account_simps split: if_splits)
  then show "powers d' = powers d" "standing d' k \<noteq> standing d k \<Longrightarrow>
    k = u_id u \<and> ''system_admin'' \<notin> effective_roles d (Person u) \<and> standing d' k = map_option (\<lambda>(_, b). (False, b)) (standing d k)"
    by (auto simp: account_simps split: if_splits)
qed

lemma deactivate_effect:
  assumes "deactivate_account u t d = (x, d')"
  shows "powers d' = powers d" and "standing d' k \<noteq> standing d k \<Longrightarrow>
    k = u_id t \<and> k \<noteq> u_id u \<and> may_edit_protected_fields d (Person u) t
      \<and> standing d' k = map_option (\<lambda>(_, b). (False, b)) (standing d k)"
proof -
  let ?w = "write_inactive t d"
  have "(powers d' = powers d \<and> standing d' = standing d) \<or> (u_id t \<noteq> u_id u \<and> may_edit_protected_fields d (Person u) t
      \<and> powers d' = powers ?w \<and> standing d' = standing ?w)"
    using assms by (auto simp: deactivate_account_def account_simps split: if_splits)
  then show "powers d' = powers d" "standing d' k \<noteq> standing d k \<Longrightarrow>
    k = u_id t \<and> k \<noteq> u_id u \<and> may_edit_protected_fields d (Person u) t
      \<and> standing d' k = map_option (\<lambda>(_, b). (False, b)) (standing d k)"
    by (auto simp: account_simps split: if_splits)
qed

lemma come_back_effect:
  assumes "reactivate_own_account cfg t d = (x, d')"
  shows "powers d' = powers d" and "standing d' k \<noteq> standing d k \<Longrightarrow>
    k = u_id t \<and> \<not> a_reactivation_blocked t \<and> standing d' k = map_option (\<lambda>(_, b). (True, b)) (standing d k)"
proof -
  let ?w = "write_active t d"
  have "(powers d' = powers d \<and> standing d' = standing d) \<or> (\<not> a_reactivation_blocked t
      \<and> powers d' = powers ?w \<and> standing d' = standing ?w)"
    using assms by (auto simp: reactivate_own_account_def account_simps split: if_splits)
  then show "powers d' = powers d" "standing d' k \<noteq> standing d k \<Longrightarrow>
    k = u_id t \<and> \<not> a_reactivation_blocked t \<and> standing d' k = map_option (\<lambda>(_, b). (True, b)) (standing d k)"
    by (auto simp: account_simps split: if_splits)
qed

lemma reactivate_effect:
  assumes "reactivate_account cfg u t d = (x, d')"
  shows "powers d' = powers d" and "standing d' k \<noteq> standing d k \<Longrightarrow>
    k = u_id t \<and> \<not> a_reactivation_blocked t \<and> standing d' k = map_option (\<lambda>(_, b). (True, b)) (standing d k)"
proof -
  let ?w = "write_active t d"
  have "(powers d' = powers d \<and> standing d' = standing d) \<or> (\<not> a_reactivation_blocked t
      \<and> powers d' = powers ?w \<and> standing d' = standing ?w)"
    using assms by (auto simp: reactivate_account_def account_simps split: if_splits)
  then show "powers d' = powers d" "standing d' k \<noteq> standing d k \<Longrightarrow>
    k = u_id t \<and> \<not> a_reactivation_blocked t \<and> standing d' k = map_option (\<lambda>(_, b). (True, b)) (standing d k)"
    by (auto simp: account_simps split: if_splits)
qed

lemma block_effect:
  assumes "set_reactivation_blocked u t b d = (y, d')"
  shows "powers d' = powers d" and "standing d' k \<noteq> standing d k \<Longrightarrow>
    k = u_id t \<and> k \<noteq> u_id u \<and> may_edit_protected_fields d (Person u) t
      \<and> standing d' k = map_option (\<lambda>(a, _). (a, b)) (standing d k)"
proof -
  let ?w = "edit_account (u_id t) (\<lambda>r. r\<lparr>a_reactivation_blocked := b\<rparr>) d"
  have "(powers d' = powers d \<and> standing d' = standing d) \<or> (u_id t \<noteq> u_id u \<and> may_edit_protected_fields d (Person u) t
      \<and> powers d' = powers ?w \<and> standing d' = standing ?w)"
    using assms by (auto simp: set_reactivation_blocked_def check_block_def Let_def account_simps split: if_splits)
  moreover have "powers ?w = powers d" by (simp add: powers_edit)
  ultimately show "powers d' = powers d" "standing d' k \<noteq> standing d k \<Longrightarrow>
    k = u_id t \<and> k \<noteq> u_id u \<and> may_edit_protected_fields d (Person u) t
      \<and> standing d' k = map_option (\<lambda>(a, _). (a, b)) (standing d k)"
    by (auto simp: account_simps split: if_splits)
qed

subsection \<open>What holds however requests follow one another\<close>

definition active_admin :: "account_db \<Rightarrow> pk \<Rightarrow> bool" where
  "active_admin d k \<longleftrightarrow> (case standing d k of None \<Rightarrow> False | Some (active, _) \<Rightarrow> active)
     \<and> ''system_admin'' \<in> powers d k"

lemma actingD:
  assumes "acting_account d u"
  shows "effective_roles d (Person u) = powers d (u_id u)"
    and "standing d (u_id u) = Some (True, a_reactivation_blocked u)"
  using assms by (simp_all add: acting_account_def effective_powers standing_def)

lemma acting_admin: "acting_account d u \<Longrightarrow> ''system_admin'' \<in> effective_roles d (Person u) \<Longrightarrow> active_admin d (u_id u)"
  by (simp add: active_admin_def actingD)

lemma protected_admin:
  "get_account d (u_id t) = Some t \<Longrightarrow> may_edit_protected_fields d who t \<Longrightarrow> ''system_admin'' \<in> powers d (u_id t)
    \<Longrightarrow> ''system_admin'' \<in> effective_roles d who"
  using effective_powers [of d "u_id t" t]
  by (auto simp: may_edit_protected_fields_def guarded_roles_def mfa_required_roles_def)

lemma active_admin_kept:
  "standing d' k = standing d k \<Longrightarrow> powers d' = powers d \<Longrightarrow> active_admin d k \<Longrightarrow> active_admin d' k"
  by (simp add: active_admin_def)

lemma step_keeps_admin:
  assumes "account_step cfg d d'" and "active_admin d k"
  shows "\<exists>k'. active_admin d' k'"
  using assms
proof cases
  case (edit u t ch r)
  note std = update_account_standing [OF edit(3)]
  show ?thesis
  proof (cases "''system_admin'' \<in> powers d' k")
    case True
    with assms(2) std have "active_admin d' k" by (simp add: active_admin_def)
    then show ?thesis ..
  next
    case False
    note moved = role_write_within_authority [OF edit(2,3), of "''system_admin''"]
    have k: "k = u_id t" "u_id u \<noteq> u_id t" "''system_admin'' \<in> effective_roles d (Person u)"
      using moved [of k] False assms(2)
      by (auto simp: active_admin_def is_own_def guarded_roles_def mfa_required_roles_def)
    have "''system_admin'' \<in> powers d' (u_id u)"
      using moved [of "u_id u"] k actingD(1) [OF edit(1)] by auto
    then have "active_admin d' (u_id u)" using std actingD(2) [OF edit(1)] by (simp add: active_admin_def)
    then show ?thesis ..
  qed
next
  case (leave u x)
  note eff = deactivate_own_effect [OF leave(2)]
  have "standing d' k = standing d k"
    using eff(2) [of k] actingD(1) [OF leave(1)] assms(2) by (auto simp: active_admin_def)
  then show ?thesis using active_admin_kept eff(1) assms(2) by blast
next
  case (deactivate u t x)
  note eff = deactivate_effect [OF deactivate(3)]
  show ?thesis
  proof (cases "standing d' k = standing d k")
    case True
    then show ?thesis using active_admin_kept eff(1) assms(2) by blast
  next
    case False
    then have k: "k = u_id t" "u_id t \<noteq> u_id u" "may_edit_protected_fields d (Person u) t" using eff(2) by blast+
    then have "''system_admin'' \<in> effective_roles d (Person u)"
      using protected_admin [OF deactivate(2)] assms(2) by (simp add: active_admin_def)
    then have "active_admin d (u_id u)" by (rule acting_admin [OF deactivate(1)])
    moreover have "standing d' (u_id u) = standing d (u_id u)" using eff(2) [of "u_id u"] k by auto
    ultimately show ?thesis using active_admin_kept eff(1) by blast
  qed
next
  case (come_back t x)
  note eff = come_back_effect [OF come_back(2)]
  have "active_admin d' k" using eff(1) eff(2) [of k] assms(2)
    by (cases "standing d' k = standing d k") (auto simp: active_admin_def split: option.splits)
  then show ?thesis ..
next
  case (reactivate u t x)
  note eff = reactivate_effect [OF reactivate(3)]
  have "active_admin d' k" using eff(1) eff(2) [of k] assms(2)
    by (cases "standing d' k = standing d k") (auto simp: active_admin_def split: option.splits)
  then show ?thesis ..
next
  case (block u t b y)
  note eff = block_effect [OF block(3)]
  have "active_admin d' k" using eff(1) eff(2) [of k] assms(2)
    by (cases "standing d' k = standing d k") (auto simp: active_admin_def split: option.splits)
  then show ?thesis ..
qed

text \<open>C11: a site with an active system administrator still has one after any sequence of role
  writes, deactivations, reactivations and blocks by its active accounts.\<close>

theorem system_admin_remains:
  assumes "(account_step cfg)\<^sup>*\<^sup>* d d'" and "\<exists>k. active_admin d k"
  shows "\<exists>k. active_admin d' k"
  using assms by (induction rule: rtranclp_induct) (auto dest: step_keeps_admin)

lemma step_powers:
  assumes "account_step cfg d d'" and "s \<in> powers d' k" and "s \<notin> powers d k" and "s \<in> set guarded_roles"
  shows "\<exists>k'. s \<in> powers d k' \<or> ''system_admin'' \<in> powers d k'"
  using assms
proof cases
  case (edit u t ch r)
  have "s \<in> effective_roles d (Person u) \<or> ''system_admin'' \<in> effective_roles d (Person u)"
    using role_write_within_authority [OF edit(2,3), of s k] assms(2-4) by auto
  then show ?thesis using actingD(1) [OF edit(1)] by auto
qed (use assms deactivate_own_effect(1) deactivate_effect(1) come_back_effect(1) reactivate_effect(1)
    block_effect(1) in metis)+

text \<open>C15: a guarded role that no account may give never appears: while no account holds it or the
  role of system administrator, no sequence of requests gives either to anybody.\<close>

theorem guarded_role_never_minted:
  assumes "(account_step cfg)\<^sup>*\<^sup>* d d'" and "s \<in> set guarded_roles"
    and "\<And>k. s \<notin> powers d k \<and> ''system_admin'' \<notin> powers d k"
  shows "s \<notin> powers d' k \<and> ''system_admin'' \<notin> powers d' k"
  using assms(1)
proof (induction arbitrary: k rule: rtranclp_induct)
  case base
  then show ?case using assms(3) by blast
next
  case (step d1 d2)
  have "''system_admin'' \<in> set guarded_roles" by (simp add: guarded_roles_def mfa_required_roles_def)
  then show ?case
    using step_powers [OF step.hyps(2), of s] step_powers [OF step.hyps(2), of "''system_admin''"]
      step.IH assms(2) by blast
qed

text \<open>C16: an account that is deactivated and blocked stays deactivated whatever is requested, and
  stays blocked unless the request is another account's that holds every guarded role it holds.\<close>

theorem blocked_stays_closed:
  assumes "account_step cfg d d'" and "standing d k = Some (False, True)"
  shows "standing d' k = Some (False, True) \<or> standing d' k = Some (False, False)
    \<and> (\<exists>u t. acting_account d u \<and> u_id u \<noteq> k \<and> get_account d k = Some t \<and> may_edit_protected_fields d (Person u) t)"
  using assms
proof cases
  case (edit u t ch r)
  then show ?thesis using update_account_standing [OF edit(3)] assms(2) by simp
next
  case (leave u x)
  then show ?thesis using deactivate_own_effect(2) [OF leave(2), of k] assms(2) by auto
next
  case (deactivate u t x)
  then show ?thesis using deactivate_effect(2) [OF deactivate(3), of k] assms(2) by auto
next
  case (come_back t x)
  then show ?thesis using come_back_effect(2) [OF come_back(2), of k] assms(2) by (auto simp: standing_def)
next
  case (reactivate u t x)
  then show ?thesis using reactivate_effect(2) [OF reactivate(3), of k] assms(2) by (auto simp: standing_def)
next
  case (block u t b y)
  then show ?thesis using block_effect(2) [OF block(3), of k] assms(2) by (cases b) auto
qed

subsection \<open>The requests on concrete accounts\<close>

definition sample_treasurer :: account_db where
  "sample_treasurer = snd (update_account (Person (sample_account 2 ''tom@x.org'')) (sample_account 3 ''ann@x.org'')
     (wanted_roles [''treasurer'']) sample_accounts)"

lemma acting_sample: "acting_account sample_accounts (sample_account 2 ''tom@x.org'')"
  by (simp add: acting_account_def, simp add: sample_account_def)

lemma sample_step: "(account_step cfg)\<^sup>*\<^sup>* sample_accounts sample_treasurer"
proof -
  have "account_step cfg sample_accounts sample_treasurer"
    unfolding sample_treasurer_def by (rule account_step.edit [OF acting_sample _ prod.collapse [symmetric]]) simp
  then show ?thesis by (rule r_into_rtranclp)
qed

lemma sample_admin: "active_admin sample_accounts 1"
  by code_simp

lemma system_admin_remains_witness: "\<exists>k. active_admin sample_treasurer k"
  by (rule system_admin_remains [OF sample_step [of undefined]]) (rule exI, rule sample_admin)

definition sample_no_admin :: account_db where
  "sample_no_admin = sample_accounts\<lparr>ad_groups := [(2, ''user_admin''), (3, ''member'')]\<rparr>"

lemma no_admin_powers: "''treasurer'' \<notin> powers sample_no_admin k" "''system_admin'' \<notin> powers sample_no_admin k"
  by (auto simp: powers_def roles_def sample_no_admin_def get_account_def sample_account_defs row_get_def
      split: option.splits if_splits)

definition sample_refused :: account_db where
  "sample_refused = snd (update_account (Person (sample_account 2 ''tom@x.org'')) (sample_account 3 ''ann@x.org'')
     (wanted_roles [''treasurer'']) sample_no_admin)"

lemma sample_refused_step: "(account_step cfg)\<^sup>*\<^sup>* sample_no_admin sample_refused"
proof -
  have rows: "get_account sample_no_admin k = get_account sample_accounts k" for k
    by (rule get_account_cong) (simp add: sample_no_admin_def)
  then have "acting_account sample_no_admin (sample_account 2 ''tom@x.org'')"
    using acting_sample by (simp add: acting_account_def)
  then have "account_step cfg sample_no_admin sample_refused"
    unfolding sample_refused_def by (rule account_step.edit [OF _ _ prod.collapse [symmetric]]) (simp add: rows)
  then show ?thesis by (rule r_into_rtranclp)
qed

lemma guarded_role_never_minted_witness:
  "\<forall>k. ''treasurer'' \<notin> powers sample_refused k \<and> ''system_admin'' \<notin> powers sample_refused k"
  by (intro allI, rule guarded_role_never_minted [OF sample_refused_step [of undefined]])
    (simp_all add: no_admin_powers guarded_roles_def mfa_required_roles_def)

definition sample_closed :: account_db where
  \<comment> \<open>the third account deactivated and blocked\<close>
  "sample_closed = sample_accounts\<lparr>ad_accounts := [sample_account 1 ''admin@x.org'', sample_account 2 ''tom@x.org'',
     (sample_account 3 ''ann@x.org'')\<lparr>u_is_active := False, a_reactivation_blocked := True\<rparr>]\<rparr>"

lemma blocked_stays_closed_witness:
  "\<forall>cfg0. standing (snd (reactivate_own_account cfg0 ((sample_account 3 ''ann@x.org'')\<lparr>u_is_active := False, a_reactivation_blocked := True\<rparr>)
       sample_closed)) 3 \<noteq> Some (True, True)"
proof
  fix cfg0
  let ?t = "(sample_account 3 ''ann@x.org'')\<lparr>u_is_active := False, a_reactivation_blocked := True\<rparr>"
  have row: "get_account sample_closed (u_id ?t) = Some ?t" by code_simp
  have closed: "standing sample_closed 3 = Some (False, True)" by code_simp
  have "account_step cfg0 sample_closed (snd (reactivate_own_account cfg0 ?t sample_closed))"
    by (rule account_step.come_back [OF row prod.collapse [symmetric]])
  from blocked_stays_closed [OF this closed] show "standing (snd (reactivate_own_account cfg0 ?t sample_closed)) 3 \<noteq> Some (True, True)"
    by auto
qed

end
