(* ===== verification/TwoFactor.thy ===== *)
theory TwoFactor
  imports AccountStatus
begin

text \<open>
  Two-factor sign-in (\<open>apps/accounts/mfa.py\<close>): who needs a second factor, enrolling an
  authenticator, checking a code, the backup codes, an administrator's reset, and the pending
  sign-in a session holds between the password and the code.

  A session is the record of the three entries this module keeps in it; the entries are written
  by this module alone, so their shape is not checked again.  What random text and what codes an
  authenticator shows come from the configuration.

  Proved: an authenticator's steps are accepted in strictly rising order, so none twice; every
  backup code accepted is one of the unused ones and is spent; a pending sign-in takes five wrong
  codes at most, warns its owner once, and does not survive a new password.
\<close>

subsection \<open>Settings\<close>

definition totp_digits :: nat where "totp_digits = 6"
definition totp_interval :: int where "totp_interval = 30"
definition totp_drift_steps :: int where "totp_drift_steps = 1"
definition recovery_code_count :: nat where "recovery_code_count = 10"
definition recovery_code_alphabet :: string where "recovery_code_alphabet = ''abcdefghjkmnpqrstuvwxyz23456789''"
definition recovery_code_group :: nat where "recovery_code_group = 5"
definition recovery_code_groups :: nat where "recovery_code_groups = 2"
definition recovery_hash_purpose :: string where "recovery_hash_purpose = ''caldart.accounts.recovery-code''"
definition pending_seconds :: int where "pending_seconds = 300"
definition pending_attempts :: nat where "pending_attempts = 5"
definition enrollment_seconds :: int where "enrollment_seconds = 600"

definition code_refused :: string where
  "code_refused = ''That code is not right. Enter the current code from your app, or a backup code.''"

datatype sign_in_step = StepVerify | StepEnroll

datatype code_kind = KindTotp | KindRecovery

record enrolling =
  en_user :: pk
  en_secret :: string
  en_started :: moment

record pending =
  pd_user :: pk
  pd_auth_hash :: string
  pd_started :: moment
  pd_attempts :: nat
  pd_warned :: bool
  pd_reactivate :: bool

record session_data =
  sd_key :: nat
  sd_pending :: "pending option"
  sd_verified :: "(pk \<times> moment) option"
  sd_enrollment :: "enrolling option"

record pending_sign_in =
  ps_user :: account
  ps_step :: sign_in_step
  ps_reactivate :: bool

subsection \<open>Who needs a second factor\<close>

definition mfa_required :: "account_config \<Rightarrow> account \<Rightarrow> account_db \<Rightarrow> bool" where
  "mfa_required cfg u d \<longleftrightarrow> \<not> (a_is_demo u \<and> demo_skips_two_factor cfg)
     \<and> effective_roles d (Person u) \<inter> set mfa_required_roles \<noteq> {}"

definition confirmed_device :: "pk \<Rightarrow> account_db \<Rightarrow> totp_device option" where
  "confirmed_device k d = find (\<lambda>t. td_user t = k \<and> td_confirmed_at t \<noteq> None) (ad_devices d)"

definition has_two_factor :: "pk \<Rightarrow> account_db \<Rightarrow> bool" where
  "has_two_factor k d \<longleftrightarrow> list_ex (\<lambda>t. td_user t = k \<and> td_confirmed_at t \<noteq> None) (ad_devices d)"

definition needs_second_factor :: "account_config \<Rightarrow> account \<Rightarrow> account_db \<Rightarrow> bool" where
  "needs_second_factor cfg u d \<longleftrightarrow> mfa_required cfg u d \<or> has_two_factor (u_id u) d"

definition unused_code :: "pk \<Rightarrow> recovery_code \<Rightarrow> bool" where
  "unused_code k r \<longleftrightarrow> rc_user r = k \<and> rc_used_at r = None"

definition recovery_codes_remaining :: "pk \<Rightarrow> account_db \<Rightarrow> nat" where
  "recovery_codes_remaining k d = length (filter (unused_code k) (ad_codes d))"

definition mail_notice :: "account \<Rightarrow> string \<Rightarrow> nat option \<Rightarrow> account_db \<Rightarrow> account_db" where
  "mail_notice u template extra d = post (Notice template (u_id u) (u_email u) extra) d"

subsection \<open>Checking a code\<close>

definition normalized_code :: "string \<Rightarrow> string" where
  "normalized_code code = lower (filter (\<lambda>c. \<not> space_char c \<and> c \<noteq> CHR ''-'') code)"

definition matching_step :: "account_config \<Rightarrow> string \<Rightarrow> int option \<Rightarrow> string \<Rightarrow> account_db \<Rightarrow> int option" where
  \<comment> \<open>the last of the steps around now whose code it is\<close>
  "matching_step cfg secret last_used code d =
     (let candidate = normalized_code code; now = ad_now d div totp_interval
      in if length candidate \<noteq> totp_digits \<or> \<not> list_all is_digit candidate then None
         else fold (\<lambda>step matched.
                let is_fresh = (case last_used of None \<Rightarrow> True | Some l \<Rightarrow> step > l)
                in if otp cfg secret step = candidate \<and> is_fresh then Some step else matched)
              [now - totp_drift_steps..now + totp_drift_steps] None)"

definition recovery_hash :: "account_config \<Rightarrow> string \<Rightarrow> string \<Rightarrow> string \<Rightarrow> string" where
  "recovery_hash cfg salt code secret_key = keyed_hash cfg recovery_hash_purpose (salt @ '':'' @ code) secret_key"

definition spend_recovery_code :: "account_config \<Rightarrow> pk \<Rightarrow> string \<Rightarrow> account_db \<Rightarrow> bool \<times> account_db" where
  "spend_recovery_code cfg k code d =
     (let candidate = normalized_code code
      in if length candidate \<noteq> recovery_code_group * recovery_code_groups then (False, d)
         else let matches = (\<lambda>r. list_ex (\<lambda>key. recovery_hash cfg (rc_salt r) candidate key = rc_code_hash r) (secret_keys cfg));
                  matched = fold (\<lambda>r m. if matches r then Some r else m) (filter (unused_code k) (ad_codes d)) None
              in case matched of
                   None \<Rightarrow> (False, d)
                 | Some row \<Rightarrow>
                     let unspent = (\<lambda>r. rc_id r = rc_id row \<and> rc_used_at r = None)
                     in (rows_matched unspent (ad_codes d) = 1,
                         d\<lparr>ad_codes := rows_update unspent (\<lambda>r. r\<lparr>rc_used_at := Some (ad_now d)\<rparr>) (ad_codes d)\<rparr>))"

definition check_code :: "account_config \<Rightarrow> account \<Rightarrow> string \<Rightarrow> account_db \<Rightarrow> code_kind option \<times> account_db" where
  "check_code cfg u code d =
     (case confirmed_device (u_id u) d of
        None \<Rightarrow> (None, d)
      | Some dev \<Rightarrow> (case matching_step cfg (td_secret dev) (td_last_used_step dev) code d of
            Some step \<Rightarrow> (Some KindTotp, d\<lparr>ad_devices := rows_update (\<lambda>t. td_user t = td_user dev)
              (\<lambda>t. t\<lparr>td_last_used_step := Some step\<rparr>) (ad_devices d)\<rparr>)
          | None \<Rightarrow> (case spend_recovery_code cfg (u_id u) code d of
                (False, d1) \<Rightarrow> (None, d1)
              | (True, d1) \<Rightarrow> (Some KindRecovery,
                  mail_notice u ''mfa_recovery_code_used'' (Some (recovery_codes_remaining (u_id u) d1))
                    (log_line ''account.mfa_recovery_used'' (Account (u_id u)) (Some (u_id u)) False [] d1)))))"

definition require_code :: "account_config \<Rightarrow> account \<Rightarrow> string \<Rightarrow> account_db \<Rightarrow> (account_error + code_kind) \<times> account_db" where
  "require_code cfg u code d = (case check_code cfg u code d of
     (None, d1) \<Rightarrow> (Inl (FieldRefused ''otp'' code_refused), d1) | (Some kind, d1) \<Rightarrow> (Inr kind, d1))"

subsection \<open>Enrolling, and the backup codes\<close>

definition new_secret :: "account_config \<Rightarrow> account_db \<Rightarrow> string \<times> account_db" where
  \<comment> \<open>twenty random bytes in base 32\<close>
  "new_secret cfg d = (let (n, d1) = draw d in (draw_text cfg ''ABCDEFGHIJKLMNOPQRSTUVWXYZ234567'' 32 n, d1))"

definition new_recovery_code :: "account_config \<Rightarrow> account_db \<Rightarrow> string \<times> account_db" where
  "new_recovery_code cfg d =
     (let (n, d1) = draw d; (m, d2) = draw d1
      in (draw_text cfg recovery_code_alphabet recovery_code_group n @ ''-''
          @ draw_text cfg recovery_code_alphabet recovery_code_group m, d2))"

fun store_codes :: "account_config \<Rightarrow> pk \<Rightarrow> nat \<Rightarrow> account_db \<Rightarrow> string list \<times> account_db" where
  "store_codes cfg k 0 d = ([], d)"
| "store_codes cfg k (Suc n) d =
     (let (code, d1) = new_recovery_code cfg d; (s, d2) = draw d1;
          salt = draw_text cfg ''0123456789abcdef'' 32 s;
          row = \<lparr>rc_id = ad_next_pk d2, rc_user = k, rc_salt = salt,
            rc_code_hash = recovery_hash cfg salt (normalized_code code) (hd (secret_keys cfg)), rc_used_at = None\<rparr>;
          (codes, d3) = store_codes cfg k n (d2\<lparr>ad_codes := ad_codes d2 @ [row], ad_next_pk := Suc (ad_next_pk d2)\<rparr>)
      in (code # codes, d3))"

definition replace_recovery_codes :: "account_config \<Rightarrow> pk \<Rightarrow> account_db \<Rightarrow> string list \<times> account_db" where
  "replace_recovery_codes cfg k d =
     store_codes cfg k recovery_code_count (d\<lparr>ad_codes := rows_delete (\<lambda>r. rc_user r = k) (ad_codes d)\<rparr>)"

definition start_enrollment :: "account_config \<Rightarrow> session_data \<Rightarrow> account \<Rightarrow> account_db
    \<Rightarrow> (account_error + string) \<times> session_data \<times> account_db" where
  \<comment> \<open>answers the secret; the address and the drawing of it the app scans are presentation\<close>
  "start_enrollment cfg se u d =
     (if has_two_factor (u_id u) d then (Inl (Refused ''Two-factor sign-in is already on for this account.''), se, d)
      else let (secret, d1) = new_secret cfg d
           in (Inr secret, se\<lparr>sd_enrollment := Some \<lparr>en_user = u_id u, en_secret = secret, en_started = ad_now d1\<rparr>\<rparr>, d1))"

definition enrolling_secret :: "session_data \<Rightarrow> account \<Rightarrow> account_db \<Rightarrow> string option" where
  "enrolling_secret se u d = (case sd_enrollment se of None \<Rightarrow> None
     | Some e \<Rightarrow> if en_user e \<noteq> u_id u \<or> ad_now d - en_started e > enrollment_seconds then None else Some (en_secret e))"

definition store_device :: "pk \<Rightarrow> string \<Rightarrow> int \<Rightarrow> account_db \<Rightarrow> account_db" where
  \<comment> \<open>\<open>update_or_create\<close>\<close>
  "store_device k secret step d =
     (let dev = \<lparr>td_user = k, td_secret = secret, td_confirmed_at = Some (ad_now d), td_last_used_step = Some step\<rparr>
      in if list_ex (\<lambda>t. td_user t = k) (ad_devices d)
         then d\<lparr>ad_devices := rows_update (\<lambda>t. td_user t = k) (\<lambda>_. dev) (ad_devices d)\<rparr>
         else d\<lparr>ad_devices := ad_devices d @ [dev]\<rparr>)"

definition confirm_enrollment :: "account_config \<Rightarrow> session_data \<Rightarrow> account \<Rightarrow> string \<Rightarrow> account_db
    \<Rightarrow> (account_error + string list) \<times> session_data \<times> account_db" where
  "confirm_enrollment cfg se u code d =
     (case enrolling_secret se u d of
        None \<Rightarrow> (Inl (Refused ''Start setting up two-factor sign-in first.''), se, d)
      | Some secret \<Rightarrow>
          if has_two_factor (u_id u) d then (Inl (Refused ''Two-factor sign-in is already on for this account.''), se, d)
          else case matching_step cfg secret None code d of
              None \<Rightarrow> (Inl (FieldRefused ''otp'' code_refused), se, d)
            | Some step \<Rightarrow>
                let (codes, d1) = replace_recovery_codes cfg (u_id u) (store_device (u_id u) secret step d)
                in (Inr codes, se\<lparr>sd_enrollment := None\<rparr>, mail_notice u ''mfa_enabled'' None
                     (log_line ''account.mfa_enable'' (Account (u_id u)) (Some (u_id u)) False [] d1)))"

definition regenerate_recovery_codes :: "account_config \<Rightarrow> account \<Rightarrow> string \<Rightarrow> account_db
    \<Rightarrow> (account_error + string list) \<times> account_db" where
  "regenerate_recovery_codes cfg u code d = account_atomic (\<lambda>d.
     if \<not> has_two_factor (u_id u) d then (Inl (Refused ''Two-factor sign-in is not on for this account.''), d)
     else case require_code cfg u code d of
         (Inl e, d1) \<Rightarrow> (Inl e, d1)
       | (Inr _, d1) \<Rightarrow> let (codes, d2) = replace_recovery_codes cfg (u_id u) d1
           in (Inr codes, mail_notice u ''mfa_recovery_codes_regenerated'' None
                (log_line ''account.mfa_recovery_codes'' (Account (u_id u)) (Some (u_id u)) False [] d2))) d"

subsection \<open>Turning it off, and an administrator's reset\<close>

definition remove_two_factor :: "pk \<Rightarrow> account_db \<Rightarrow> bool \<times> account_db" where
  "remove_two_factor k d = (list_ex (\<lambda>t. td_user t = k) (ad_devices d),
     d\<lparr>ad_devices := rows_delete (\<lambda>t. td_user t = k) (ad_devices d), ad_codes := rows_delete (\<lambda>r. rc_user r = k) (ad_codes d)\<rparr>)"

definition refuse_if_required :: "account_config \<Rightarrow> account \<Rightarrow> account_db \<Rightarrow> (account_error + unit) \<times> account_db" where
  "refuse_if_required cfg u d =
     (if mfa_required cfg u d
      then (Inl (PermissionRefused ''Your role requires two-factor sign-in, so it cannot be turned off. If you have lost your phone, ask a user administrator to reset it.''),
            refuse_status ''account.mfa_disable'' u u ''mfa_required'' d)
      else (Inr (), d))"

definition disable_two_factor :: "account_config \<Rightarrow> account \<Rightarrow> string \<Rightarrow> account_db \<Rightarrow> (account_error + unit) \<times> account_db" where
  "disable_two_factor cfg u code d = account_atomic (\<lambda>d.
     case refuse_if_required cfg u d of
       (Inl e, d1) \<Rightarrow> (Inl e, d1)
     | (Inr _, d1) \<Rightarrow>
         if \<not> has_two_factor (u_id u) d1 then (Inl (Refused ''Two-factor sign-in is not on for this account.''), d1)
         else case require_code cfg u code d1 of
             (Inl e, d2) \<Rightarrow> (Inl e, d2)
           | (Inr _, d2) \<Rightarrow> (Inr (), mail_notice u ''mfa_disabled'' None
               (log_line ''account.mfa_disable'' (Account (u_id u)) (Some (u_id u)) False []
                 (snd (remove_two_factor (u_id u) d2))))) d"

definition reset_refusal :: "acting \<Rightarrow> account \<Rightarrow> account_db \<Rightarrow> (string \<times> string) option" where
  "reset_refusal who t d =
     (if is_donor t then Some (''donor_account'', ''A donor doesn't have a portal account to reset.'')
      else if is_own who t
      then Some (''self_deactivation'', ''You cannot reset your own two-factor sign-in. Turn it off or on yourself.'')
      else if ''system_admin'' \<in> effective_roles d (Person t) \<and> ''system_admin'' \<notin> effective_roles d who
      then Some (''system_admin_target'', ''Only a system administrator can reset a system administrator's two-factor sign-in.'')
      else None)"

definition reset_two_factor :: "acting \<Rightarrow> account \<Rightarrow> account_db \<Rightarrow> (account_error + unit) \<times> account_db" where
  "reset_two_factor who t d =
     (case reset_refusal who t d of
        Some (reason, message) \<Rightarrow> (Inl (Refused message),
          log_line ''account.mfa_reset'' (actor_of who) (Some (u_id t)) True [(''reason'', ASlug reason)] d)
      | None \<Rightarrow> (Inr (), mail_notice t ''mfa_reset'' None
          (record_account_change ChangeMfaReset (actor_of who) (u_id t) [] []
            (log_line ''account.mfa_reset'' (actor_of who) (Some (u_id t)) False []
              (snd (end_sessions (u_id t) (snd (remove_two_factor (u_id t) d))))))))"

subsection \<open>The session between the password and the code\<close>

definition mark_session :: "session_data \<Rightarrow> account \<Rightarrow> account_db \<Rightarrow> session_data" where
  "mark_session se u d = se\<lparr>sd_verified := Some (u_id u, ad_now d)\<rparr>"

definition unmark_session :: "session_data \<Rightarrow> session_data" where
  "unmark_session se = se\<lparr>sd_verified := None\<rparr>"

definition session_passed :: "session_data \<Rightarrow> account \<Rightarrow> bool" where
  "session_passed se u \<longleftrightarrow> (case sd_verified se of None \<Rightarrow> False | Some (k, _) \<Rightarrow> k = u_id u)"

definition next_step :: "account \<Rightarrow> account_db \<Rightarrow> sign_in_step" where
  "next_step u d = (if has_two_factor (u_id u) d then StepVerify else StepEnroll)"

definition begin_pending :: "account_config \<Rightarrow> session_data \<Rightarrow> account \<Rightarrow> bool \<Rightarrow> account_db
    \<Rightarrow> sign_in_step \<times> session_data \<times> account_db" where
  "begin_pending cfg se u reactivate d =
     (let (n, d1) = draw d
      in (next_step u d1, se\<lparr>sd_key := n, sd_pending := Some \<lparr>pd_user = u_id u,
            pd_auth_hash = session_auth_hash cfg (a_password u), pd_started = ad_now d1, pd_attempts = 0,
            pd_warned = False, pd_reactivate = reactivate\<rparr>\<rparr>, d1))"

definition clear_pending :: "session_data \<Rightarrow> session_data" where
  "clear_pending se = se\<lparr>sd_pending := None\<rparr>"

definition pending_user :: "account_config \<Rightarrow> pending \<Rightarrow> account_db \<Rightarrow> account option" where
  "pending_user cfg p d =
     (if ad_now d - pd_started p > pending_seconds \<or> pd_attempts p \<ge> pending_attempts then None
      else case get_account d (pd_user p) of
          None \<Rightarrow> None
        | Some u \<Rightarrow> if is_donor u \<or> a_reactivation_blocked u then None
            else if \<not> u_is_active u \<and> \<not> pd_reactivate p then None
            else if pd_auth_hash p \<noteq> session_auth_hash cfg (a_password u) then None else Some u)"

definition pending_sign_in :: "account_config \<Rightarrow> session_data \<Rightarrow> account_db \<Rightarrow> pending_sign_in option \<times> session_data" where
  "pending_sign_in cfg se d = (case sd_pending se of
     None \<Rightarrow> (None, se)
   | Some p \<Rightarrow> (case pending_user cfg p d of
         None \<Rightarrow> (None, clear_pending se)
       | Some u \<Rightarrow> (Some \<lparr>ps_user = u, ps_step = next_step u d, ps_reactivate = pd_reactivate p\<rparr>, se)))"

definition count_wrong_code :: "session_data \<Rightarrow> account \<Rightarrow> account_db \<Rightarrow> bool \<times> session_data \<times> account_db" where
  "count_wrong_code se u d = (case sd_pending se of
     None \<Rightarrow> (True, se, d)
   | Some p \<Rightarrow>
       let d1 = (if pd_warned p then d else mail_notice u ''mfa_wrong_code'' None d);
           attempts = pd_attempts p + 1
       in if attempts \<ge> pending_attempts then (True, clear_pending se, d1)
          else (False, se\<lparr>sd_pending := Some (p\<lparr>pd_attempts := attempts, pd_warned := True\<rparr>)\<rparr>, d1))"

subsection \<open>A code is accepted once\<close>

definition last_step :: "pk \<Rightarrow> account_db \<Rightarrow> int option" where
  "last_step k d = (case confirmed_device k d of None \<Rightarrow> None | Some dev \<Rightarrow> td_last_used_step dev)"

fun accepted :: "account_config \<Rightarrow> account \<Rightarrow> (moment \<times> string) list \<Rightarrow> account_db \<Rightarrow> int list \<times> nat \<times> account_db" where
  \<comment> \<open>codes tried one after another, each at its moment: the steps accepted, and how many backup codes\<close>
  "accepted cfg u [] d = ([], 0, d)"
| "accepted cfg u ((t, code) # rest) d =
     (case check_code cfg u code (d\<lparr>ad_now := t\<rparr>) of (kind, d1) \<Rightarrow>
        case accepted cfg u rest d1 of (steps, n, d2) \<Rightarrow>
          (case kind of
             None \<Rightarrow> (steps, n, d2)
           | Some KindTotp \<Rightarrow> (the (last_step (u_id u) d1) # steps, n, d2)
           | Some KindRecovery \<Rightarrow> (steps, Suc n, d2)))"

lemma fold_last:
  "fold (\<lambda>x m. if P x then Some x else m) xs m0 = Some y \<Longrightarrow> (y \<in> set xs \<and> P y) \<or> m0 = Some y"
  by (induction xs arbitrary: m0) (auto split: if_splits)

lemma matching_stepD:
  assumes "matching_step cfg secret used code d = Some step"
  shows "otp cfg secret step = normalized_code code" and "used = Some l \<Longrightarrow> l < step"
    and "\<bar>step - ad_now d div totp_interval\<bar> \<le> totp_drift_steps"
proof -
  have "step \<in> set [ad_now d div totp_interval - totp_drift_steps..ad_now d div totp_interval + totp_drift_steps]
      \<and> otp cfg secret step = normalized_code code \<and> (case used of None \<Rightarrow> True | Some l \<Rightarrow> step > l)"
    using assms by (auto simp: matching_step_def Let_def split: if_splits dest!: fold_last)
  then show "otp cfg secret step = normalized_code code" "used = Some l \<Longrightarrow> l < step"
    "\<bar>step - ad_now d div totp_interval\<bar> \<le> totp_drift_steps"
    by auto
qed

lemma find_rows_update:
  "(\<And>t. Q t \<Longrightarrow> P (f t) = P t) \<Longrightarrow> (\<And>t. P t \<Longrightarrow> Q t) \<Longrightarrow> find P (rows_update Q f ts) = map_option f (find P ts)"
  by (induction ts) auto

lemma confirmed_device_used:
  "confirmed_device k (d\<lparr>ad_devices := rows_update (\<lambda>t. td_user t = k) (\<lambda>t. t\<lparr>td_last_used_step := s\<rparr>) (ad_devices d)\<rparr>)
    = map_option (\<lambda>t. t\<lparr>td_last_used_step := s\<rparr>) (confirmed_device k d)"
proof -
  have "find (\<lambda>t. td_user t = k \<and> td_confirmed_at t \<noteq> None) (rows_update (\<lambda>t. td_user t = k) (\<lambda>t. t\<lparr>td_last_used_step := s\<rparr>) ts)
      = map_option (\<lambda>t. t\<lparr>td_last_used_step := s\<rparr>) (find (\<lambda>t. td_user t = k \<and> td_confirmed_at t \<noteq> None) ts)" for ts
    by (rule find_rows_update) auto
  then show ?thesis by (simp add: confirmed_device_def)
qed

lemma confirmed_device_cong: "ad_devices d = ad_devices d' \<Longrightarrow> confirmed_device k d = confirmed_device k d'"
  by (simp add: confirmed_device_def)

lemma confirmed_device_user: "confirmed_device k d = Some dev \<Longrightarrow> td_user dev = k"
  by (auto simp: confirmed_device_def find_Some_iff)

lemma spend_devices: "spend_recovery_code cfg k code d = (b, d') \<Longrightarrow> ad_devices d' = ad_devices d"
  by (auto simp: spend_recovery_code_def Let_def split: if_splits option.splits)

lemma unused_spent:
  assumes "distinct (map rc_id codes)" and "r0 \<in> set codes" and "unused_code k r0"
  shows "Suc (length (filter (unused_code k)
      (rows_update (\<lambda>r. rc_id r = rc_id r0 \<and> rc_used_at r = None) (\<lambda>r. r\<lparr>rc_used_at := Some t\<rparr>) codes)))
    = length (filter (unused_code k) codes)"
    and "rows_matched (\<lambda>r. rc_id r = rc_id r0 \<and> rc_used_at r = None) codes = 1"
proof -
  obtain xs ys where c: "codes = xs @ r0 # ys" using assms(2) by (auto simp: in_set_conv_decomp)
  have other: "rc_id r \<noteq> rc_id r0" if "r \<in> set xs \<union> set ys" for r
  proof -
    have "rc_id r \<in> rc_id ` set xs \<union> rc_id ` set ys" using that by auto
    moreover have "rc_id r0 \<notin> rc_id ` set xs \<union> rc_id ` set ys" using assms(1) by (simp add: c)
    ultimately show ?thesis by metis
  qed
  have "rows_update (\<lambda>r. rc_id r = rc_id r0 \<and> rc_used_at r = None) (\<lambda>r. r\<lparr>rc_used_at := Some t\<rparr>) zs = zs"
    if "set zs \<subseteq> set xs \<union> set ys" for zs
    using that other by (intro rows_update_none) auto
  then show "Suc (length (filter (unused_code k)
      (rows_update (\<lambda>r. rc_id r = rc_id r0 \<and> rc_used_at r = None) (\<lambda>r. r\<lparr>rc_used_at := Some t\<rparr>) codes)))
    = length (filter (unused_code k) codes)"
    using assms(3) by (simp add: c unused_code_def)
  have "filter (\<lambda>r. rc_id r = rc_id r0 \<and> rc_used_at r = None) zs = []" if "set zs \<subseteq> set xs \<union> set ys" for zs
    using that other by (auto simp: filter_empty_conv)
  then show "rows_matched (\<lambda>r. rc_id r = rc_id r0 \<and> rc_used_at r = None) codes = 1"
    using assms(3) by (simp add: c rows_matched_def unused_code_def)
qed

lemma spend_effect:
  assumes "spend_recovery_code cfg k code d = (b, d')" and "distinct (map rc_id (ad_codes d))"
  shows "(if b then 1 else 0) + recovery_codes_remaining k d' = recovery_codes_remaining k d"
    and "map rc_id (ad_codes d') = map rc_id (ad_codes d)"
proof -
  define matches where "matches (r :: recovery_code) \<longleftrightarrow> list_ex (\<lambda>key. recovery_hash cfg (rc_salt r) (normalized_code code) key
      = rc_code_hash r) (secret_keys cfg)" for r
  define m where "m = fold (\<lambda>r m. if matches r then Some r else m) (filter (unused_code k) (ad_codes d)) None"
  have "(b = False \<and> d' = d) \<or> (\<exists>r0. b = True \<and> r0 \<in> set (ad_codes d) \<and> unused_code k r0
      \<and> d' = d\<lparr>ad_codes := rows_update (\<lambda>r. rc_id r = rc_id r0 \<and> rc_used_at r = None)
        (\<lambda>r. r\<lparr>rc_used_at := Some (ad_now d)\<rparr>) (ad_codes d)\<rparr>)"
  proof (cases m)
    case None
    then show ?thesis using assms(1)
      by (simp add: spend_recovery_code_def Let_def m_def matches_def split: if_splits)
  next
    case (Some r0)
    then have r0: "r0 \<in> set (ad_codes d)" "unused_code k r0"
      using fold_last [of matches "filter (unused_code k) (ad_codes d)" None r0] by (simp_all add: m_def)
    show ?thesis
    proof (cases "length (normalized_code code) = recovery_code_group * recovery_code_groups")
      case False
      then show ?thesis using assms(1) by (simp add: spend_recovery_code_def)
    next
      case True
      then have "b = True" "d' = d\<lparr>ad_codes := rows_update (\<lambda>r. rc_id r = rc_id r0 \<and> rc_used_at r = None)
        (\<lambda>r. r\<lparr>rc_used_at := Some (ad_now d)\<rparr>) (ad_codes d)\<rparr>"
        using assms(1) Some unused_spent(2) [OF assms(2) r0]
        by (simp_all add: spend_recovery_code_def Let_def m_def matches_def)
      with r0 show ?thesis by blast
    qed
  qed
  then show "(if b then 1 else 0) + recovery_codes_remaining k d' = recovery_codes_remaining k d"
    and "map rc_id (ad_codes d') = map rc_id (ad_codes d)"
    using unused_spent(1) [OF assms(2)] by (auto simp: recovery_codes_remaining_def map_key_rows_update)
qed

lemma emitting_keeps_factors [account_simps]:
  "ad_devices (log_line a w t b fs d) = ad_devices d" "ad_codes (log_line a w t b fs d) = ad_codes d"
  "ad_devices (post m d) = ad_devices d" "ad_codes (post m d) = ad_codes d"
  "ad_devices (mail_notice u s n d) = ad_devices d" "ad_codes (mail_notice u s n d) = ad_codes d"
  by (simp_all add: log_line_def post_def mail_notice_def)

lemma remaining_cong: "ad_codes d = ad_codes d' \<Longrightarrow> recovery_codes_remaining k d = recovery_codes_remaining k d'"
  by (simp add: recovery_codes_remaining_def)

text \<open>What one check does, for each of its answers.\<close>

lemma check_code_effect:
  assumes run: "check_code cfg u code d = (kind, d')" and ids: "distinct (map rc_id (ad_codes d))"
  defines "k \<equiv> u_id u"
  shows "map_option td_secret (confirmed_device k d') = map_option td_secret (confirmed_device k d)"
    and "map rc_id (ad_codes d') = map rc_id (ad_codes d)"
    and "(if kind = Some KindRecovery then 1 else 0) + recovery_codes_remaining k d' = recovery_codes_remaining k d"
    and "kind \<noteq> Some KindTotp \<Longrightarrow> last_step k d' = last_step k d"
    and "kind = Some KindTotp \<Longrightarrow> \<exists>dev step. confirmed_device k d = Some dev
      \<and> matching_step cfg (td_secret dev) (last_step k d) code d = Some step \<and> last_step k d' = Some step"
proof -
  consider (no_device) "confirmed_device k d = None" "kind = None" "d' = d"
    | (totp) dev step where "confirmed_device k d = Some dev" "kind = Some KindTotp"
        "matching_step cfg (td_secret dev) (td_last_used_step dev) code d = Some step"
        "d' = d\<lparr>ad_devices := rows_update (\<lambda>t. td_user t = k) (\<lambda>t. t\<lparr>td_last_used_step := Some step\<rparr>) (ad_devices d)\<rparr>"
    | (other) b d1 where "spend_recovery_code cfg k code d = (b, d1)" "kind = (if b then Some KindRecovery else None)"
        "ad_devices d' = ad_devices d1" "ad_codes d' = ad_codes d1"
    using run confirmed_device_user [of k d]
    by (auto simp: check_code_def k_def account_simps split: option.splits prod.splits bool.splits)
  then have "map_option td_secret (confirmed_device k d') = map_option td_secret (confirmed_device k d)
    \<and> map rc_id (ad_codes d') = map rc_id (ad_codes d)
    \<and> (if kind = Some KindRecovery then 1 else 0) + recovery_codes_remaining k d' = recovery_codes_remaining k d
    \<and> (kind \<noteq> Some KindTotp \<longrightarrow> last_step k d' = last_step k d)
    \<and> (kind = Some KindTotp \<longrightarrow> (\<exists>dev step. confirmed_device k d = Some dev
      \<and> matching_step cfg (td_secret dev) (last_step k d) code d = Some step \<and> last_step k d' = Some step))"
  proof cases
    case no_device
    then show ?thesis by simp
  next
    case totp
    then show ?thesis by (simp add: confirmed_device_used last_step_def recovery_codes_remaining_def)
  next
    case other
    have dev: "confirmed_device k d' = confirmed_device k d"
      using other(3) spend_devices [OF other(1)] by (intro confirmed_device_cong) simp
    show ?thesis
      using spend_effect [OF other(1) ids] other(2,4) remaining_cong [OF other(4)]
      by (simp add: dev last_step_def split: if_splits)
  qed
  then show "map_option td_secret (confirmed_device k d') = map_option td_secret (confirmed_device k d)"
    "map rc_id (ad_codes d') = map rc_id (ad_codes d)"
    "(if kind = Some KindRecovery then 1 else 0) + recovery_codes_remaining k d' = recovery_codes_remaining k d"
    "kind \<noteq> Some KindTotp \<Longrightarrow> last_step k d' = last_step k d"
    "kind = Some KindTotp \<Longrightarrow> \<exists>dev step. confirmed_device k d = Some dev
      \<and> matching_step cfg (td_secret dev) (last_step k d) code d = Some step \<and> last_step k d' = Some step"
    by blast+
qed

lemma at_moment_keeps [simp]:
  "confirmed_device k (d\<lparr>ad_now := t\<rparr>) = confirmed_device k d" "last_step k (d\<lparr>ad_now := t\<rparr>) = last_step k d"
  "recovery_codes_remaining k (d\<lparr>ad_now := t\<rparr>) = recovery_codes_remaining k d"
  by (simp_all add: confirmed_device_def last_step_def recovery_codes_remaining_def)

definition shown_near :: "account_config \<Rightarrow> string \<Rightarrow> int \<Rightarrow> moment \<times> string \<Rightarrow> bool" where
  \<comment> \<open>the code is the authenticator's for that step, and the step is the moment's or one beside it\<close>
  "shown_near cfg secret step = (\<lambda>(t, code). otp cfg secret step = normalized_code code
     \<and> \<bar>step - t div totp_interval\<bar> \<le> totp_drift_steps)"

text \<open>C13: of any codes tried one after another, at whatever moments, the authenticator steps accepted
  rise strictly from the last one used before, each is the code the confirmed device shows within
  one step of the moment it was tried, and every backup code accepted is one fewer unused.\<close>

theorem second_factor_used_once:
  assumes "accepted cfg u tries d = (steps, n, d')" and "distinct (map rc_id (ad_codes d))"
  shows "sorted_wrt (<) steps
    \<and> (\<forall>step \<in> set steps. (\<forall>l. last_step (u_id u) d = Some l \<longrightarrow> l < step)
        \<and> (\<exists>dev \<in> set_option (confirmed_device (u_id u) d). \<exists>at \<in> set tries. shown_near cfg (td_secret dev) step at))
    \<and> n + recovery_codes_remaining (u_id u) d' = recovery_codes_remaining (u_id u) d"
  using assms
proof (induction tries arbitrary: d d' steps n)
  case (Cons at rest)
  obtain t code where at: "at = (t, code)" by fastforce
  let ?k = "u_id u" and ?d = "d\<lparr>ad_now := t\<rparr>"
  obtain kind d1 where c: "check_code cfg u code ?d = (kind, d1)" by fastforce
  obtain steps1 n1 d2 where r: "accepted cfg u rest d1 = (steps1, n1, d2)" by (metis prod_cases3)
  have "distinct (map rc_id (ad_codes ?d))" using Cons.prems(2) by simp
  note eff = check_code_effect [OF c this, simplified]
  have "distinct (map rc_id (ad_codes d1))" using eff(2) Cons.prems(2) by simp
  note ih = Cons.IH [OF r this]
  have secret: "\<exists>dev \<in> set_option (confirmed_device ?k d). td_secret dev = td_secret dev1"
    if "confirmed_device ?k d1 = Some dev1" for dev1
    using eff(1) that by (cases "confirmed_device ?k d") auto
  have later: "\<exists>dev \<in> set_option (confirmed_device ?k d). \<exists>at \<in> set (at # rest). shown_near cfg (td_secret dev) step at"
    if "step \<in> set steps1" for step
    using ih that secret by (metis (no_types, lifting) elem_set list.set_intros(2))
  show ?case
  proof (cases "kind = Some KindTotp")
    case True
    obtain dev step where dev: "confirmed_device ?k d = Some dev" "last_step ?k d1 = Some step"
        "matching_step cfg (td_secret dev) (last_step ?k d) code ?d = Some step"
      using eff(5) True by auto
    have res: "steps = step # steps1" "n = n1" "d' = d2"
      using Cons.prems(1) True dev(2) by (simp_all add: at c r)
    have near: "shown_near cfg (td_secret dev) step at"
      using matching_stepD(1,3) [OF dev(3)] by (simp add: shown_near_def at)
    have above: "l < step" if "last_step ?k d = Some l" for l
      using matching_stepD(2) [OF dev(3)] that by simp
    moreover have rise: "\<forall>s \<in> set steps1. step < s" using ih dev(2) by blast
    moreover have "n + recovery_codes_remaining ?k d' = recovery_codes_remaining ?k d"
      using ih eff(3) True res by simp
    moreover have "\<exists>dev \<in> set_option (confirmed_device ?k d). \<exists>at \<in> set (at # rest). shown_near cfg (td_secret dev) step at"
      using dev(1) near by auto
    ultimately show ?thesis using ih later res by (auto dest: less_trans)
  next
    case False
    have res: "steps = steps1" "d' = d2" "n = (if kind = Some KindRecovery then Suc n1 else n1)"
      using Cons.prems(1) False by (auto simp: at c r split: option.splits code_kind.splits)
    then show ?thesis using ih eff(3) eff(4) [OF False] later by (auto split: if_splits)
  qed
qed simp

definition sample_enrolled :: account_db where
  "sample_enrolled = sample_accounts\<lparr>ad_devices := [\<lparr>td_user = 2, td_secret = ''s'', td_confirmed_at = Some 5,
     td_last_used_step = Some 30\<rparr>]\<rparr>"

lemma second_factor_used_once_witness:
  "\<exists>d'. accepted sample_account_config (sample_account 2 ''tom@x.org'') [(1000, ''123 456''), (1010, ''123456'')]
      sample_enrolled = ([33], 0, d')
    \<and> recovery_codes_remaining 2 d' = recovery_codes_remaining 2 sample_enrolled"
proof -
  have steps: "[32..34] = [32, 33, 34 :: int]" by (simp add: upto.simps)
  have norm: "normalized_code ''123 456'' = ''123456''" "normalized_code ''123456'' = ''123456''"
    by code_simp+
  have dig: "is_digit CHR ''1''" "is_digit CHR ''2''" "is_digit CHR ''3''" "is_digit CHR ''4''" "is_digit CHR ''5''"
    "is_digit CHR ''6''" by code_simp+
  have c1: "check_code sample_account_config (sample_account 2 ''tom@x.org'') ''123 456'' (sample_enrolled\<lparr>ad_now := 1000\<rparr>)
      = (Some KindTotp, sample_enrolled\<lparr>ad_devices := [\<lparr>td_user = 2, td_secret = ''s'', td_confirmed_at = Some 5, td_last_used_step = Some 33\<rparr>], ad_now := 1000\<rparr>)"
    by (simp add: check_code_def confirmed_device_def matching_step_def norm dig totp_digits_def totp_interval_def
        totp_drift_steps_def steps sample_enrolled_def) (simp add: sample_account_config_def)
  have c2: "check_code sample_account_config (sample_account 2 ''tom@x.org'') ''123456'' (sample_enrolled\<lparr>ad_devices := [\<lparr>td_user = 2, td_secret = ''s'', td_confirmed_at = Some 5, td_last_used_step = Some 33\<rparr>], ad_now := 1010\<rparr>)
      = (None, sample_enrolled\<lparr>ad_devices := [\<lparr>td_user = 2, td_secret = ''s'', td_confirmed_at = Some 5, td_last_used_step = Some 33\<rparr>], ad_now := 1010\<rparr>)"
    by (simp add: check_code_def confirmed_device_def matching_step_def norm dig totp_digits_def totp_interval_def
        totp_drift_steps_def steps spend_recovery_code_def recovery_code_group_def recovery_code_groups_def)
      (simp add: sample_account_config_def)
  obtain d' where run: "accepted sample_account_config (sample_account 2 ''tom@x.org'') [(1000, ''123 456''), (1010, ''123456'')]
      sample_enrolled = ([33], 0, d')"
    using c2 by (simp add: c1 last_step_def confirmed_device_def)
  have "distinct (map rc_id (ad_codes sample_enrolled))" by (simp add: sample_enrolled_def sample_accounts_def)
  from second_factor_used_once [OF run this] run show ?thesis by auto
qed

subsection \<open>Five wrong codes\<close>

fun wrong_codes :: "nat \<Rightarrow> account \<Rightarrow> session_data \<Rightarrow> account_db \<Rightarrow> session_data \<times> account_db" where
  "wrong_codes 0 u se d = (se, d)"
| "wrong_codes (Suc n) u se d = (case wrong_codes n u se d of (se1, d1) \<Rightarrow> snd (count_wrong_code se1 u d1))"

lemma wrong_codes_pending:
  assumes "sd_pending se = Some p" and "pd_attempts p = 0" and "\<not> pd_warned p"
  shows "wrong_codes n u se d =
    (if n = 0 then (se, d)
     else (if n < pending_attempts then se\<lparr>sd_pending := Some (p\<lparr>pd_attempts := n, pd_warned := True\<rparr>)\<rparr>
           else clear_pending se, mail_notice u ''mfa_wrong_code'' None d))"
proof (induction n)
  case (Suc n)
  then show ?case using assms
    by (cases "n = 0") (auto simp: count_wrong_code_def clear_pending_def pending_attempts_def Let_def)
qed simp

text \<open>C14: a pending sign-in takes five wrong codes: fewer leave it waiting with their number counted,
  five throw it away, so that only the password starts another, and its owner is warned once.\<close>

theorem pending_takes_five_codes:
  assumes "begin_pending cfg se u b d = (step, se1, d1)" and "wrong_codes n u se1 d1 = (se2, d2)"
  shows "(n < pending_attempts \<longrightarrow> map_option pd_attempts (sd_pending se2) = Some n)
    \<and> (n \<ge> pending_attempts \<longrightarrow> pending_sign_in cfg se2 d3 = (None, se2))
    \<and> ad_mail d2 = ad_mail d @ (if n = 0 then [] else [Notice ''mfa_wrong_code'' (u_id u) (u_email u) None])"
proof -
  obtain p where p: "sd_pending se1 = Some p" "pd_attempts p = 0" "\<not> pd_warned p" and mail: "ad_mail d1 = ad_mail d"
    using assms(1) by (auto simp: begin_pending_def draw_def Let_def)
  show ?thesis
    using assms(2) p mail unfolding wrong_codes_pending [OF p]
    by (auto simp: mail_notice_def post_def clear_pending_def pending_sign_in_def pending_attempts_def
        split: if_splits)
qed

lemma pending_takes_five_codes_witness:
  "\<exists>se1 se2 d1 d2 step. begin_pending sample_account_config \<lparr>sd_key = 0, sd_pending = None, sd_verified = None, sd_enrollment = None\<rparr>
       (sample_account 2 ''tom@x.org'') False sample_enrolled = (step, se1, d1)
     \<and> wrong_codes 5 (sample_account 2 ''tom@x.org'') se1 d1 = (se2, d2)
     \<and> pending_sign_in sample_account_config se2 sample_enrolled = (None, se2)"
proof -
  obtain step se1 d1 where b: "begin_pending sample_account_config \<lparr>sd_key = 0, sd_pending = None, sd_verified = None, sd_enrollment = None\<rparr>
       (sample_account 2 ''tom@x.org'') False sample_enrolled = (step, se1, d1)" by (metis prod_cases3)
  obtain se2 d2 where w: "wrong_codes 5 (sample_account 2 ''tom@x.org'') se1 d1 = (se2, d2)" by fastforce
  from pending_takes_five_codes [OF b w, of sample_enrolled] b w show ?thesis
    by (simp add: pending_attempts_def)
qed

text \<open>A pending sign-in is bound to the password it passed: a new one voids it.\<close>

lemma new_password_voids_pending:
  assumes "sd_pending se = Some p" and "get_account d (pd_user p) = Some u"
    and "session_auth_hash cfg (a_password u) \<noteq> pd_auth_hash p"
  shows "pending_sign_in cfg se d = (None, clear_pending se)"
  using assms by (simp add: pending_sign_in_def pending_user_def)

lemma required_stays_on:
  assumes "mfa_required cfg u d"
  shows "\<exists>e d'. disable_two_factor cfg u code d = (Inl e, d') \<and> ad_devices d' = ad_devices d \<and> ad_codes d' = ad_codes d"
  using assms by (simp add: disable_two_factor_def account_atomic_def refuse_if_required_def account_rollback_def)

end
