(* ===== verification/Lockout.thy ===== *)
theory Lockout
  imports TwoFactor
begin

text \<open>
  The sign-in lockout of an account (\<open>apps/accounts/lockout.py\<close>): counts of failed attempts in rows
  keyed by a digest of what is counted and whose, each with the moment its window closes.

  Proved: failed passwords within one window lock the address out exactly from the one that
  reaches the limit until the window closes, are reported once, and count the same however the
  address is spelled; and the day's count of wrong codes is not reset by the owner signing in.
\<close>

subsection \<open>Counting\<close>

definition short_count :: string where "short_count = ''failures''"
definition code_count :: string where "code_count = ''code-failures''"
definition notice_mark :: string where "notice_mark = ''notice''"
definition notice_seconds :: int where "notice_seconds = 24 * 60 * 60"

record count_limit =
  li_name :: string
  li_attempts :: int
  li_seconds :: int

definition account_for :: "string \<Rightarrow> account_db \<Rightarrow> account option" where
  "account_for email d = find (\<lambda>r. same_address (u_email r) (strip email)) (ad_accounts d)"

definition lockout_subject :: "string \<Rightarrow> account_db \<Rightarrow> string \<times> account option" where
  "lockout_subject email d = (case account_for email d of
     Some u \<Rightarrow> (''account:'' @ digits (int (u_id u)), Some u)
   | None \<Rightarrow> (''address:'' @ upper (strip email), None))"

definition count_key :: "account_config \<Rightarrow> string \<Rightarrow> string \<Rightarrow> string" where
  "count_key cfg name subject = digest cfg (name @ '':'' @ subject)"

definition count_limits :: "account_config \<Rightarrow> bool \<Rightarrow> count_limit list" where
  "count_limits cfg code = filter (\<lambda>l. li_attempts l > 0 \<and> li_seconds l > 0)
     (\<lparr>li_name = short_count, li_attempts = lockout_attempts cfg, li_seconds = lockout_seconds cfg\<rparr>
      # (if code then [\<lparr>li_name = code_count, li_attempts = lockout_code_attempts cfg,
           li_seconds = lockout_code_seconds cfg\<rparr>] else []))"

definition count_row :: "string \<Rightarrow> account_db \<Rightarrow> failure_count option" where
  "count_row key d = find (\<lambda>r. fc_key r = key) (ad_failures d)"

definition limit_wait :: "account_config \<Rightarrow> string \<Rightarrow> account_db \<Rightarrow> count_limit \<Rightarrow> int list" where
  "limit_wait cfg subject d l = (case count_row (count_key cfg (li_name l) subject) d of
     None \<Rightarrow> []
   | Some r \<Rightarrow> if fc_until r > ad_now d \<and> int (fc_count r) \<ge> li_attempts l
       then [max 1 (fc_until r - ad_now d)] else [])"

definition lockout_wait :: "account_config \<Rightarrow> string \<Rightarrow> account_db \<Rightarrow> int option" where
  "lockout_wait cfg email d =
     (let subject = fst (lockout_subject email d);
          waits = concat (map (limit_wait cfg subject d) (count_limits cfg True))
      in if waits = [] then None else Some (Max (set waits)))"

definition count_up :: "moment \<Rightarrow> int \<Rightarrow> failure_count \<Rightarrow> failure_count" where
  \<comment> \<open>one more in an open window, the first of a new one after it\<close>
  "count_up now seconds r =
     (if fc_until r \<le> now then r\<lparr>fc_count := 1, fc_until := now + seconds\<rparr> else r\<lparr>fc_count := fc_count r + 1\<rparr>)"

definition count_one :: "string \<Rightarrow> int \<Rightarrow> account_db \<Rightarrow> nat \<times> account_db" where
  "count_one key seconds d =
     (let now = ad_now d
      in case count_row key d of
           None \<Rightarrow> (1, d\<lparr>ad_failures := ad_failures d @ [\<lparr>fc_key = key, fc_count = 1, fc_until = now + seconds\<rparr>]\<rparr>)
         | Some r \<Rightarrow> (fc_count (count_up now seconds r),
             d\<lparr>ad_failures := rows_update (\<lambda>x. fc_key x = key) (count_up now seconds) (ad_failures d)\<rparr>))"

definition locked_out :: "account_config \<Rightarrow> string \<Rightarrow> account option \<Rightarrow> nat \<Rightarrow> account_db \<Rightarrow> account_db" where
  "locked_out cfg subject who number d =
     (let d1 = log_line ''account.lockout'' Anonymous (map_option u_id who) True
            [(''reason'', ASlug ''too_many_failures''), (''attempts'', AInt (int number))] d
      in case who of
           None \<Rightarrow> d1
         | Some u \<Rightarrow> (case count_one (count_key cfg notice_mark subject) notice_seconds d1 of
             (n, d2) \<Rightarrow> if n = 1 then mail_notice u ''sign_in_locked'' None d2 else d2))"

definition count_failure :: "account_config \<Rightarrow> string \<Rightarrow> account option \<Rightarrow> count_limit \<Rightarrow> account_db \<Rightarrow> account_db" where
  "count_failure cfg subject who l d =
     (case count_one (count_key cfg (li_name l) subject) (li_seconds l) d of
        (n, d1) \<Rightarrow> if int n = li_attempts l then locked_out cfg subject who n d1 else d1)"

definition record_failure :: "account_config \<Rightarrow> string \<Rightarrow> bool \<Rightarrow> account_db \<Rightarrow> account_db" where
  "record_failure cfg email code d =
     (case lockout_subject email d of (subject, who) \<Rightarrow>
        let d1 = fold (count_failure cfg subject who) (count_limits cfg code) d
        in d1\<lparr>ad_failures := rows_delete (\<lambda>r. fc_until r < ad_now d1 - 86400) (ad_failures d1)\<rparr>)"

definition clear_failures :: "account_config \<Rightarrow> string \<Rightarrow> account_db \<Rightarrow> account_db" where
  "clear_failures cfg email d = (let subject = fst (lockout_subject email d)
     in d\<lparr>ad_failures := rows_delete (\<lambda>r. fc_key r = count_key cfg short_count subject) (ad_failures d)\<rparr>)"

definition clear_all_failures :: "account_config \<Rightarrow> string \<Rightarrow> account_db \<Rightarrow> account_db" where
  "clear_all_failures cfg email d = (let subject = fst (lockout_subject email d)
     in d\<lparr>ad_failures := rows_delete (\<lambda>r. fc_key r \<in> {count_key cfg short_count subject,
          count_key cfg code_count subject}) (ad_failures d)\<rparr>)"

subsection \<open>One row of the table\<close>

lemma count_row_update:
  assumes "\<And>r. fc_key (f r) = fc_key r"
  shows "find (\<lambda>r. fc_key r = j) (rows_update (\<lambda>x. fc_key x = k) f t)
    = (if j = k then map_option f (find (\<lambda>r. fc_key r = j) t) else find (\<lambda>r. fc_key r = j) t)"
  using assms by (induction t) auto

lemma find_append: "find P (xs @ ys) = (case find P xs of None \<Rightarrow> find P ys | Some x \<Rightarrow> Some x)"
  by (induction xs) auto

lemma fc_key_count_up [simp]: "fc_key (count_up now s r) = fc_key r"
  by (simp add: count_up_def)

definition opened :: "moment \<Rightarrow> int \<Rightarrow> failure_count option \<Rightarrow> nat \<times> moment" where
  \<comment> \<open>the count and the end of the window after one more failure\<close>
  "opened now seconds r = (case r of None \<Rightarrow> (1, now + seconds)
     | Some r \<Rightarrow> if fc_until r \<le> now then (1, now + seconds) else (fc_count r + 1, fc_until r))"

lemma count_one_effect:
  assumes "count_one key seconds d = (n, d')"
  shows "n = fst (opened (ad_now d) seconds (count_row key d))"
    and "count_row j d' = (if j = key then Some \<lparr>fc_key = key, fc_count = n,
        fc_until = snd (opened (ad_now d) seconds (count_row key d))\<rparr> else count_row j d)"
    and "\<exists>fs. d' = d\<lparr>ad_failures := fs\<rparr>"
proof -
  have key: "fc_key r = key" if "count_row key d = Some r" for r
    using that by (auto simp: count_row_def find_Some_iff)
  show "n = fst (opened (ad_now d) seconds (count_row key d))"
    using assms by (auto simp: count_one_def Let_def opened_def count_up_def split: option.splits if_splits)
  show "count_row j d' = (if j = key then Some \<lparr>fc_key = key, fc_count = n,
        fc_until = snd (opened (ad_now d) seconds (count_row key d))\<rparr> else count_row j d)"
  proof (cases "count_row key d")
    case None
    then show ?thesis using assms
      by (auto simp: count_one_def Let_def opened_def count_row_def find_append split: option.splits)
  next
    case (Some r)
    then have "n = fc_count (count_up (ad_now d) seconds r)"
      "d' = d\<lparr>ad_failures := rows_update (\<lambda>x. fc_key x = key) (count_up (ad_now d) seconds) (ad_failures d)\<rparr>"
      using assms by (simp_all add: count_one_def Let_def)
    then show ?thesis using Some key [OF Some]
      by (cases r) (auto simp: count_row_def count_row_update opened_def count_up_def)
  qed
  show "\<exists>fs. d' = d\<lparr>ad_failures := fs\<rparr>"
    using assms by (auto simp: count_one_def Let_def split: option.splits)
qed

lemma count_keys_differ:
  assumes "inj (digest cfg)"
  shows "count_key cfg short_count s \<noteq> count_key cfg notice_mark t" "count_key cfg short_count s \<noteq> count_key cfg code_count t"
    "count_key cfg code_count s \<noteq> count_key cfg notice_mark t"
  using assms by (auto simp: count_key_def inj_def short_count_def notice_mark_def code_count_def)

subsection \<open>Failed passwords\<close>

definition closed_count :: "string \<Rightarrow> moment \<Rightarrow> account_db \<Rightarrow> bool" where
  "closed_count key t d \<longleftrightarrow> (\<forall>r \<in> set (ad_failures d). fc_key r = key \<longrightarrow> fc_until r \<le> t)"

definition lockouts_reported :: "account_db \<Rightarrow> nat" where
  "lockouts_reported d = length (filter (\<lambda>l. al_action l = ''account.lockout'') (ad_audit d))"

lemma closed_countD: "closed_count key t d \<Longrightarrow> count_row key d = Some r \<Longrightarrow> fc_until r \<le> t"
  by (auto simp: closed_count_def count_row_def find_Some_iff)

lemma closed_opened: "closed_count key (ad_now d) d \<Longrightarrow> opened (ad_now d) s (count_row key d) = (1, ad_now d + s)"
  using closed_countD [of key "ad_now d" d] by (cases "count_row key d") (auto simp: opened_def)

lemma count_one_closed:
  assumes "count_one j s d = (n, d')" and "closed_count key t d" and "j \<noteq> key"
  shows "closed_count key t d'"
  using assms by (auto simp: count_one_def Let_def closed_count_def set_rows_update split: option.splits if_splits)

lemma find_filter: "find P xs = Some x \<Longrightarrow> Q x \<Longrightarrow> find P (filter Q xs) = Some x"
  by (induction xs) (auto split: if_splits)

lemma locked_out_effect:
  assumes "locked_out cfg s who n d = d'" and "inj (digest cfg)"
  shows "count_row (count_key cfg short_count s) d' = count_row (count_key cfg short_count s) d"
    and "closed_count (count_key cfg code_count s) t d \<Longrightarrow> closed_count (count_key cfg code_count s) t d'"
    and "ad_accounts d' = ad_accounts d" and "ad_now d' = ad_now d"
    and "lockouts_reported d' = Suc (lockouts_reported d)"
proof -
  let ?d1 = "log_line ''account.lockout'' Anonymous (map_option u_id who) True
            [(''reason'', ASlug ''too_many_failures''), (''attempts'', AInt (int n))] d"
  let ?nk = "count_key cfg notice_mark s"
  obtain m d2 where c: "count_one ?nk notice_seconds ?d1 = (m, d2)" by fastforce
  have log: "count_row k ?d1 = count_row k d" "closed_count k t ?d1 = closed_count k t d"
    "ad_accounts ?d1 = ad_accounts d" "ad_now ?d1 = ad_now d" "lockouts_reported ?d1 = Suc (lockouts_reported d)" for k
    by (simp_all add: log_line_def count_row_def closed_count_def lockouts_reported_def)
  have post: "count_row k (post x y) = count_row k y" "closed_count k t (post x y) = closed_count k t y"
    "ad_accounts (post x y) = ad_accounts y" "ad_now (post x y) = ad_now y" "lockouts_reported (post x y) = lockouts_reported y" for k x y
    by (simp_all add: post_def count_row_def closed_count_def lockouts_reported_def)
  obtain fs where fs: "d2 = ?d1\<lparr>ad_failures := fs\<rparr>" using count_one_effect(3) [OF c] by blast
  have d': "d' = ?d1 \<or> d' = d2 \<or> (\<exists>x. d' = post x d2)"
    using assms(1) c by (auto simp: locked_out_def Let_def mail_notice_def split: option.splits if_splits)
  note ne = count_keys_differ [OF assms(2)]
  show "count_row (count_key cfg short_count s) d' = count_row (count_key cfg short_count s) d"
    using d' count_one_effect(2) [OF c, of "count_key cfg short_count s"] ne(1) by (auto simp: log post)
  show "closed_count (count_key cfg code_count s) t d \<Longrightarrow> closed_count (count_key cfg code_count s) t d'"
    using d' count_one_closed [OF c, of "count_key cfg code_count s" t] ne(3) [THEN not_sym] by (auto simp: log post)
  show "ad_accounts d' = ad_accounts d" "ad_now d' = ad_now d" "lockouts_reported d' = Suc (lockouts_reported d)"
    using d' log post by (auto simp: fs) (auto simp: lockouts_reported_def)
qed

lemma record_password_failure:
  assumes run: "record_failure cfg e False d = d'" and inj: "inj (digest cfg)"
    and set: "0 < lockout_attempts cfg" "0 < lockout_seconds cfg" and subj: "lockout_subject e d = (s, who)"
    and op: "opened (ad_now d) (lockout_seconds cfg) (count_row (count_key cfg short_count s) d) = (n, w)"
    and w: "ad_now d < w"
  shows "count_row (count_key cfg short_count s) d' = Some \<lparr>fc_key = count_key cfg short_count s, fc_count = n, fc_until = w\<rparr>"
    and "closed_count (count_key cfg code_count s) t d \<Longrightarrow> closed_count (count_key cfg code_count s) t d'"
    and "ad_accounts d' = ad_accounts d" and "ad_now d' = ad_now d"
    and "lockouts_reported d' = lockouts_reported d + (if int n = lockout_attempts cfg then 1 else 0)"
proof -
  let ?k = "count_key cfg short_count s" and ?ck = "count_key cfg code_count s"
  obtain m d1 where c: "count_one ?k (lockout_seconds cfg) d = (m, d1)" by fastforce
  note one = count_one_effect [OF c, unfolded op fst_conv snd_conv]
  define d2 where "d2 = (if int n = lockout_attempts cfg then locked_out cfg s who n d1 else d1)"
  have d': "d' = d2\<lparr>ad_failures := rows_delete (\<lambda>r. fc_until r < ad_now d2 - 86400) (ad_failures d2)\<rparr>"
    using run set one(1) by (simp add: record_failure_def subj count_limits_def count_failure_def c d2_def Let_def)
  obtain fs where fs: "d1 = d\<lparr>ad_failures := fs\<rparr>" using one(3) by blast
  have "count_row ?k d2 = count_row ?k d1 \<and> (closed_count ?ck t d \<longrightarrow> closed_count ?ck t d2)
    \<and> ad_accounts d2 = ad_accounts d \<and> ad_now d2 = ad_now d
    \<and> lockouts_reported d2 = lockouts_reported d + (if int n = lockout_attempts cfg then 1 else 0)"
  proof -
    have c1: "closed_count ?ck t d \<Longrightarrow> closed_count ?ck t d1"
      using count_one_closed [OF c] count_keys_differ(2) [OF inj] by blast
    have d1: "ad_accounts d1 = ad_accounts d" "ad_now d1 = ad_now d" "lockouts_reported d1 = lockouts_reported d"
      by (simp_all add: fs lockouts_reported_def)
    show ?thesis using locked_out_effect [OF refl inj] c1 d1 by (auto simp: d2_def)
  qed
  then have d2: "count_row ?k d2 = Some \<lparr>fc_key = ?k, fc_count = n, fc_until = w\<rparr>"
    "closed_count ?ck t d \<Longrightarrow> closed_count ?ck t d2" "ad_accounts d2 = ad_accounts d" "ad_now d2 = ad_now d"
    "lockouts_reported d2 = lockouts_reported d + (if int n = lockout_attempts cfg then 1 else 0)"
    using one(1,2) by auto
  show "count_row ?k d' = Some \<lparr>fc_key = ?k, fc_count = n, fc_until = w\<rparr>"
    using d2(1,4) w find_filter [of "\<lambda>r. fc_key r = ?k" "ad_failures d2" _ "\<lambda>r. \<not> fc_until r < ad_now d - 86400"]
    by (simp add: d' count_row_def rows_delete_def)
  show "closed_count ?ck t d \<Longrightarrow> closed_count ?ck t d'"
    using d2(2) by (auto simp: d' closed_count_def rows_delete_def)
  show "ad_accounts d' = ad_accounts d" "ad_now d' = ad_now d"
    "lockouts_reported d' = lockouts_reported d + (if int n = lockout_attempts cfg then 1 else 0)"
    using d2(3-5) by (simp_all add: d' lockouts_reported_def)
qed

fun failed_passwords :: "account_config \<Rightarrow> (moment \<times> string) list \<Rightarrow> account_db \<Rightarrow> account_db" where
  \<comment> \<open>failed passwords, each at its moment and with the address as it was typed\<close>
  "failed_passwords cfg [] d = d"
| "failed_passwords cfg ((t, e) # rest) d = failed_passwords cfg rest (record_failure cfg e False (d\<lparr>ad_now := t\<rparr>))"

lemma lockout_subject_cong: "ad_accounts d = ad_accounts d' \<Longrightarrow> lockout_subject e d = lockout_subject e d'"
  by (simp add: lockout_subject_def account_for_def)

lemma failed_passwords_count:
  assumes "inj (digest cfg)" and "0 < lockout_attempts cfg" and "0 < lockout_seconds cfg"
    and "count_row (count_key cfg short_count s) d = Some \<lparr>fc_key = count_key cfg short_count s, fc_count = m, fc_until = w\<rparr>"
    and "0 < m" and "\<forall>(t, e) \<in> set tries. t < w \<and> lockout_subject e d = (s, who)"
    and "closed_count (count_key cfg code_count s) t0 d"
  defines "d' \<equiv> failed_passwords cfg tries d"
  shows "count_row (count_key cfg short_count s) d' = Some \<lparr>fc_key = count_key cfg short_count s,
        fc_count = m + length tries, fc_until = w\<rparr>
    \<and> closed_count (count_key cfg code_count s) t0 d' \<and> ad_accounts d' = ad_accounts d
    \<and> lockouts_reported d' = lockouts_reported d + (if int m < lockout_attempts cfg
        \<and> lockout_attempts cfg \<le> int (m + length tries) then 1 else 0)"
  using assms(4-7) unfolding d'_def
proof (induction tries arbitrary: m d)
  case (Cons tr rest)
  obtain t e where tr: "tr = (t, e)" by fastforce
  let ?k = "count_key cfg short_count s" and ?d = "d\<lparr>ad_now := t\<rparr>"
  define d1 where "d1 = record_failure cfg e False ?d"
  have row: "count_row ?k ?d = Some \<lparr>fc_key = ?k, fc_count = m, fc_until = w\<rparr>"
    using Cons.prems(1) by (simp add: count_row_def)
  have subj: "lockout_subject e ?d = (s, who)" and t: "t < w"
    using Cons.prems(3) lockout_subject_cong [of ?d d e] by (auto simp: tr)
  have "opened (ad_now ?d) (lockout_seconds cfg) (count_row ?k ?d) = (Suc m, w)"
    using t by (simp add: row opened_def)
  note eff = record_password_failure [OF d1_def [symmetric] assms(1-3) subj this]
  have closed: "closed_count (count_key cfg code_count s) t0 d1"
    using eff(2) [of t0] t Cons.prems(4) by (simp add: closed_count_def)
  have acc: "ad_accounts d1 = ad_accounts d" using eff(3) t by simp
  have "\<forall>(t, e) \<in> set rest. t < w \<and> lockout_subject e d1 = (s, who)"
    using Cons.prems(3) lockout_subject_cong [OF acc] by auto
  from Cons.IH [OF _ _ this closed] eff(1) t
  have ih: "count_row ?k (failed_passwords cfg rest d1) = Some \<lparr>fc_key = ?k, fc_count = Suc m + length rest, fc_until = w\<rparr>
      \<and> closed_count (count_key cfg code_count s) t0 (failed_passwords cfg rest d1)
      \<and> ad_accounts (failed_passwords cfg rest d1) = ad_accounts d1
      \<and> lockouts_reported (failed_passwords cfg rest d1) = lockouts_reported d1
        + (if int (Suc m) < lockout_attempts cfg \<and> lockout_attempts cfg \<le> int (Suc m + length rest) then 1 else 0)"
    by simp
  moreover have "lockouts_reported d1 = lockouts_reported d + (if int (Suc m) = lockout_attempts cfg then 1 else 0)"
    using eff(5) t by (simp add: lockouts_reported_def)
  ultimately show ?case using acc by (auto simp: tr d1_def [symmetric])
qed simp

lemma limit_wait_closed:
  "closed_count (count_key cfg (li_name l) s) t0 d \<Longrightarrow> t0 \<le> ad_now d \<Longrightarrow> limit_wait cfg s d l = []"
  by (auto simp: limit_wait_def dest: closed_countD split: option.splits)

text \<open>C12: failed passwords within one window, from an address however it is spelled, lock it out exactly
  from the one that reaches the limit until the window that began with the first has passed, and
  the lockout is recorded once.\<close>

theorem lockout_exact:
  assumes "inj (digest cfg)" and "0 < lockout_attempts cfg" and "0 < lockout_seconds cfg"
    and "\<forall>(t, e) \<in> set ((t0, e0) # rest). t0 \<le> t \<and> t < t0 + lockout_seconds cfg \<and> lockout_subject e d = (s, who)"
    and "closed_count (count_key cfg short_count s) t0 d" and "closed_count (count_key cfg code_count s) t0 d"
    and "t0 \<le> t" and "lockout_subject e d = (s, who)"
  shows "lockout_wait cfg e ((failed_passwords cfg ((t0, e0) # rest) d)\<lparr>ad_now := t\<rparr>)
      = (if int (Suc (length rest)) < lockout_attempts cfg \<or> t0 + lockout_seconds cfg \<le> t then None
         else Some (t0 + lockout_seconds cfg - t))
    \<and> lockouts_reported (failed_passwords cfg ((t0, e0) # rest) d)
      = lockouts_reported d + (if int (Suc (length rest)) < lockout_attempts cfg then 0 else 1)"
proof -
  let ?k = "count_key cfg short_count s" and ?ck = "count_key cfg code_count s" and ?d = "d\<lparr>ad_now := t0\<rparr>"
  define w where "w = t0 + lockout_seconds cfg"
  define d1 where "d1 = record_failure cfg e0 False ?d"
  define d' where "d' = failed_passwords cfg ((t0, e0) # rest) d"
  have subj0: "lockout_subject e0 ?d = (s, who)"
    using assms(4) lockout_subject_cong [of ?d d e0] by simp
  have "closed_count ?k (ad_now ?d) ?d" using assms(5) by (simp add: closed_count_def)
  then have "opened (ad_now ?d) (lockout_seconds cfg) (count_row ?k ?d) = (1, ad_now ?d + lockout_seconds cfg)"
    by (rule closed_opened)
  then have "opened (ad_now ?d) (lockout_seconds cfg) (count_row ?k ?d) = (1, w)" by (simp add: w_def)
  note eff = record_password_failure [OF d1_def [symmetric] assms(1-3) subj0 this]
  have w: "t0 < w" using assms(3) by (simp add: w_def)
  have acc: "ad_accounts d1 = ad_accounts d" using eff(3) w by simp
  have "closed_count ?ck t0 d1" using eff(2) [of t0] w assms(6) by (simp add: closed_count_def)
  moreover have "\<forall>(t, e) \<in> set rest. t < w \<and> lockout_subject e d1 = (s, who)"
    using assms(4) lockout_subject_cong [OF acc] by (auto simp: w_def)
  ultimately have fin: "count_row ?k d' = Some \<lparr>fc_key = ?k, fc_count = Suc (length rest), fc_until = w\<rparr>"
      "closed_count ?ck t0 d'" "ad_accounts d' = ad_accounts d"
      "lockouts_reported d' = lockouts_reported d1 + (if 1 < lockout_attempts cfg
        \<and> lockout_attempts cfg \<le> int (Suc (length rest)) then 1 else 0)"
    using failed_passwords_count [OF assms(1-3), of s d1 1 w rest who t0] eff(1) w acc
    by (auto simp: d'_def d1_def)
  have reported: "lockouts_reported d1 = lockouts_reported d + (if lockout_attempts cfg = 1 then 1 else 0)"
    using eff(5) w by (simp add: lockouts_reported_def)
  let ?e = "d'\<lparr>ad_now := t\<rparr>"
  have subj: "lockout_subject e ?e = (s, who)" using assms(8) lockout_subject_cong [of ?e d e] fin(3) by simp
  have "closed_count ?ck t0 ?e" using fin(2) by (simp add: closed_count_def)
  then have code: "limit_wait cfg s ?e l = []" if "li_name l = code_count" for l
    using limit_wait_closed [of cfg l s t0 ?e] assms(7) that by simp
  have short: "limit_wait cfg s ?e l = (if int (Suc (length rest)) < lockout_attempts cfg \<or> w \<le> t then [] else [w - t])"
    if "li_name l = short_count" "li_attempts l = lockout_attempts cfg" for l
    using fin(1) that by (simp add: limit_wait_def count_row_def)
  have "lockout_wait cfg e ?e = (if int (Suc (length rest)) < lockout_attempts cfg \<or> w \<le> t then None else Some (w - t))"
    using assms(2,3) by (auto simp: lockout_wait_def subj count_limits_def code short)
  moreover have "lockouts_reported d' = lockouts_reported d + (if int (Suc (length rest)) < lockout_attempts cfg then 0 else 1)"
    using fin(4) reported assms(2) by auto
  ultimately show ?thesis by (simp add: d'_def w_def)
qed

lemma lockout_exact_witness:
  "lockout_wait sample_account_config ''TOM@x.org'' ((failed_passwords sample_account_config
      [(1000, ''tom@x.org''), (1010, '' Tom@X.org''), (1020, ''tom@x.org'')] sample_accounts)\<lparr>ad_now := 1100\<rparr>) = Some 800"
proof -
  have subj: "lockout_subject e sample_accounts = (''account:2'', Some (sample_account 2 ''tom@x.org''))"
    if "e \<in> {''tom@x.org'', '' Tom@X.org'', ''TOM@x.org''}" for e
    using that by (elim insertE emptyE; hypsubst; code_simp)
  have cfg: "inj (digest sample_account_config)" "lockout_attempts sample_account_config = 3"
    "lockout_seconds sample_account_config = 900"
    by (simp_all add: sample_account_config_def inj_def)
  have "closed_count k 1000 sample_accounts" for k by (simp add: closed_count_def sample_accounts_def)
  then show ?thesis
    using lockout_exact [OF cfg(1), of 1000 "''tom@x.org''" "[(1010, '' Tom@X.org''), (1020, ''tom@x.org'')]"
        sample_accounts "''account:2''" "Some (sample_account 2 ''tom@x.org'')" 1100 "''TOM@x.org''"] subj
    by (simp add: cfg)
qed

text \<open>An owner who signs in clears the short count; the day's count of wrong codes stays.\<close>

lemma clear_failures_keeps_codes:
  assumes "inj (digest cfg)" and "lockout_subject email d = (s, who)"
  shows "count_row (count_key cfg code_count s) (clear_failures cfg email d) = count_row (count_key cfg code_count s) d"
    and "count_row (count_key cfg short_count s) (clear_failures cfg email d) = None"
proof -
  have ne: "count_key cfg code_count s \<noteq> count_key cfg short_count s"
    using count_keys_differ(2) [OF assms(1)] by metis
  have "find (\<lambda>r. fc_key r = j) (rows_delete (\<lambda>r. fc_key r = k) t)
      = (if j = k then None else find (\<lambda>r. fc_key r = j) t)"
    for j k and t :: "failure_count list"
    by (induction t) (auto simp: rows_delete_def)
  then show "count_row (count_key cfg code_count s) (clear_failures cfg email d) = count_row (count_key cfg code_count s) d"
    "count_row (count_key cfg short_count s) (clear_failures cfg email d) = None"
    using ne by (simp_all add: clear_failures_def assms(2) count_row_def)
qed

end
