(* ===== verification/EmailChange.thy ===== *)
theory EmailChange
  imports Lockout
begin

text \<open>
  Changing an account's sign-in address (\<open>apps/accounts/email_change.py\<close>): the request, the link to
  the new address that completes it, the notice to the old one with a link that undoes it, and
  the recovery address kept meanwhile.

  A link is read by the signing library, so following one starts from what \<open>loads\<close> makes of it.
  Messages a caller may gather to send after its answer are sent like the others here.  No two
  accounts share an address here, so the database never refuses a completed change.

  Proved: no address is ever held or reserved by two accounts; while an address is kept for
  recovery, whatever is requested and completed meanwhile, its owner's link puts the account back
  into their hands; and a link that undid a change undoes nothing again.
\<close>

subsection \<open>The recovery address\<close>

definition display_date :: "date \<Rightarrow> string" where
  \<comment> \<open>\<open>%m/%d/%Y\<close>\<close>
  "display_date x = (let c = fromordinal x
     in two_digits (int (month c)) @ ''/'' @ two_digits (day c) @ ''/'' @ digits (year c))"

definition email_change_salt :: string where "email_change_salt = ''accounts.email-change''"
definition email_change_undo_salt :: string where "email_change_undo_salt = ''accounts.email-change-undo''"
definition password_fingerprint_salt :: string where "password_fingerprint_salt = ''accounts.email-change.password''"
definition email_change_undo_timeout :: int where "email_change_undo_timeout = 7 * 86400"
definition undo_invalid :: string where "undo_invalid = ''That link is invalid, has expired, or has been used.''"
definition address_taken_message :: string where "address_taken_message = ''Another account already uses that email address.''"

definition recent_change_refused :: "account_config \<Rightarrow> moment \<Rightarrow> string" where
  "recent_change_refused cfg until = ''Your sign-in address changed in the last seven days, so it cannot change again until ''
     @ display_date (local_date cfg until) @ ''.''"

definition recovery_address :: "account_db \<Rightarrow> account \<Rightarrow> string" where
  "recovery_address d u = (case a_recovery_until u of
     None \<Rightarrow> []
   | Some t \<Rightarrow> if a_recovery_email u = [] then [] else if t > ad_now d then a_recovery_email u else [])"

definition notice_address :: "account_db \<Rightarrow> account \<Rightarrow> string" where
  "notice_address d u = (let recovery = recovery_address d u
     in if recovery \<noteq> [] then recovery else if a_email_verified_at u \<noteq> None then u_email u else [])"

subsection \<open>The links and the notices\<close>

definition password_fingerprint :: "account_config \<Rightarrow> account \<Rightarrow> string" where
  "password_fingerprint cfg u = take 32 (keyed_hash cfg password_fingerprint_salt (a_password u) (hd (secret_keys cfg)))"

definition make_email_change_token :: "account_config \<Rightarrow> account \<Rightarrow> pk option \<Rightarrow> account_db \<Rightarrow> string" where
  "make_email_change_token cfg u requested_by d = dumps cfg email_change_salt (ad_now d) (JObj
     [(''user'', JInt (int (u_id u))), (''email'', JStr (normalized_email (u_email u))),
      (''change_to'', JStr (normalized_email (a_pending_email u))),
      (''by'', case requested_by of None \<Rightarrow> JNull | Some k \<Rightarrow> JInt (int k)),
      (''pw'', JStr (password_fingerprint cfg u))])"

definition send_email_change_link :: "account_config \<Rightarrow> account \<Rightarrow> pk option \<Rightarrow> account_db \<Rightarrow> account_db" where
  "send_email_change_link cfg u requested_by d =
     (if a_pending_email u = [] \<or> address_taken d (a_pending_email u) (Some (u_id u)) then d
      else post (EmailChangeLink (u_id u) (a_pending_email u) (make_email_change_token cfg u requested_by d)) d)"

definition make_undo_token :: "account_config \<Rightarrow> account \<Rightarrow> string \<Rightarrow> string \<Rightarrow> account_db \<Rightarrow> string" where
  "make_undo_token cfg u previous_email new_email d = dumps cfg email_change_undo_salt (ad_now d) (JObj
     [(''user'', JInt (int (u_id u))), (''from'', JStr previous_email), (''to'', JStr new_email), (''at'', JInt (ad_now d))])"

definition send_email_change_notice :: "account_config \<Rightarrow> account \<Rightarrow> string \<Rightarrow> string \<Rightarrow> bool \<Rightarrow> account_db \<Rightarrow> account_db" where
  "send_email_change_notice cfg u previous_email new_email completed d =
     post (EmailChangeNotice (u_id u) previous_email (make_undo_token cfg u previous_email new_email d) completed) d"

subsection \<open>Asking for a change\<close>

definition request_body :: "account_config \<Rightarrow> acting \<Rightarrow> account \<Rightarrow> string \<Rightarrow> bool \<Rightarrow> account_db
    \<Rightarrow> (account_error + account) \<times> account_db" where
  "request_body cfg who t email quiet_if_taken d =
     (let address = strip email; k = u_id t
      in if normalized_email address = normalized_email (u_email t) then (Inr t, d)
         else case check_account_edit who t (no_edit\<lparr>ch_email := Some address\<rparr>) d of
             (Inl e, d1) \<Rightarrow> (Inl e, d1)
           | (Inr _, d1) \<Rightarrow>
               if is_own who t \<and> recovery_address d1 t \<noteq> [] \<and> a_recovery_until t \<noteq> None
               then (Inl (FieldRefused ''email'' (recent_change_refused cfg (the (a_recovery_until t)))), d1)
               else if \<not> quiet_if_taken \<and> address_taken d1 address (Some k)
               then (Inl (FieldRefused ''email'' address_taken_message), d1)
               else if is_donor t
               then if list_ex (\<lambda>r. u_id r \<noteq> k \<and> lower (u_email r) = lower address) (ad_accounts d1) then (Inl AddressClash, d1)
                    else (Inr (spelled_account (t\<lparr>u_email := address\<rparr>)),
                      log_line ''account.update'' (actor_of who) (Some k) False [(''fields'', ASlugs [''email''])]
                        (edit_account k (\<lambda>r. r\<lparr>u_email := address\<rparr>) d1))
               else let t1 = spelled_account (t\<lparr>a_pending_email := address\<rparr>);
                        d2 = log_line ''account.email_change_request'' (actor_of who) (Some k) False []
                          (edit_account k (\<lambda>r. r\<lparr>a_pending_email := address\<rparr>) d1);
                        d3 = send_email_change_link cfg t1 (case who of CommandActor \<Rightarrow> None | Person u \<Rightarrow> Some (u_id u)) d2;
                        notice_to = notice_address d3 t1
                    in (Inr t1, if notice_to = [] then d3 else send_email_change_notice cfg t1 notice_to address False d3))"

definition request_email_change :: "account_config \<Rightarrow> acting \<Rightarrow> account \<Rightarrow> string \<Rightarrow> bool \<Rightarrow> account_db
    \<Rightarrow> (account_error + account) \<times> account_db" where
  "request_email_change cfg who t email quiet_if_taken d = account_atomic (request_body cfg who t email quiet_if_taken) d"

subsection \<open>Completing it\<close>

record change_claim =
  cl_user :: int
  cl_email :: string
  cl_change_to :: string
  cl_by :: "int option"
  cl_pw :: string

definition change_claim_of :: "json \<Rightarrow> change_claim option" where
  "change_claim_of payload = (case (int_of (field_of payload ''user''), str_of (field_of payload ''email''),
       str_of (field_of payload ''change_to''), str_of (field_of payload ''pw'')) of
     (Some k, Some email, Some to, Some pw) \<Rightarrow>
       (case field_of payload ''by'' of
          None \<Rightarrow> Some \<lparr>cl_user = k, cl_email = email, cl_change_to = to, cl_by = None, cl_pw = pw\<rparr>
        | Some JNull \<Rightarrow> Some \<lparr>cl_user = k, cl_email = email, cl_change_to = to, cl_by = None, cl_pw = pw\<rparr>
        | Some j \<Rightarrow> (case int_of (Some j) of None \<Rightarrow> None
            | Some by \<Rightarrow> Some \<lparr>cl_user = k, cl_email = email, cl_change_to = to, cl_by = Some by, cl_pw = pw\<rparr>))
   | _ \<Rightarrow> None)"

definition requester :: "account_db \<Rightarrow> int option \<Rightarrow> account \<Rightarrow> actor" where
  "requester d by u = (case by of None \<Rightarrow> Command
     | Some k \<Rightarrow> (case account_numbered d k of None \<Rightarrow> Account (u_id u) | Some a \<Rightarrow> Account (u_id a)))"

definition completed_account :: "account_db \<Rightarrow> string \<Rightarrow> account \<Rightarrow> account" where
  \<comment> \<open>the columns a completed change writes, the recovery address being \<open>recovery\<close>\<close>
  "completed_account d recovery u = u\<lparr>u_email := strip (a_pending_email u), a_pending_email := [],
     a_email_verified_at := Some (ad_now d), a_email_bounced_at := None, a_email_bounce_detail := [],
     a_recovery_email := recovery,
     a_recovery_until := (if recovery = [] then None else Some (ad_now d + email_change_undo_timeout)),
     a_is_demo := False\<rparr>"

definition complete_change_body :: "account_config \<Rightarrow> json \<Rightarrow> account_db \<Rightarrow> (account_error + string) \<times> account_db" where
  \<comment> \<open>answers the address the account then signs in with\<close>
  "complete_change_body cfg payload d =
     (let invalid = Inl (FieldRefused ''token'' email_verification_invalid)
      in case change_claim_of payload of
           None \<Rightarrow> (invalid, d)
         | Some claim \<Rightarrow> (case account_numbered d (cl_user claim) of
               None \<Rightarrow> (invalid, d)
             | Some u \<Rightarrow>
                 if \<not> u_is_active u then (invalid, d)
                 else if normalized_email (u_email u) = cl_change_to claim \<and> a_pending_email u = [] then (Inr (u_email u), d)
                 else if normalized_email (u_email u) \<noteq> cl_email claim
                   \<or> normalized_email (a_pending_email u) \<noteq> cl_change_to claim
                   \<or> cl_pw claim \<noteq> password_fingerprint cfg u then (invalid, d)
                 else if address_taken d (a_pending_email u) (Some (u_id u))
                 then (Inl (FieldRefused ''token'' address_taken_message), d)
                 else let k = u_id u; kept = recovery_address d u;
                          recovery = (if kept \<noteq> [] then kept else if a_email_verified_at u \<noteq> None then u_email u else []);
                          u1 = completed_account d recovery u;
                          d1 = edit_account k (\<lambda>_. u1) d;
                          d2 = raise_event (EmailAddressChanged k (u_email u))
                            (record_account_change ChangeEmail (requester d (cl_by claim) u) k [] []
                              (log_line ''account.email_verified'' (Account k) (Some k) False []
                                (log_line ''account.update'' (Account k) (Some k) False [(''fields'', ASlugs [''email''])] d1)))
                      in (Inr (u_email u1), if recovery = [] then d2
                          else send_email_change_notice cfg u1 recovery (u_email u1) True d2)))"

definition complete_email_change :: "account_config \<Rightarrow> json \<Rightarrow> account_db \<Rightarrow> (account_error + string) \<times> account_db" where
  "complete_email_change cfg payload d = account_atomic (complete_change_body cfg payload) d"

definition follow_verification_link :: "account_config \<Rightarrow> string \<Rightarrow> string \<Rightarrow> account_db
    \<Rightarrow> (account_error + string \<times> bool) \<times> account_db" where
  \<comment> \<open>the address proved, and whether the account moved to it\<close>
  "follow_verification_link cfg token raw_password d =
     (case loads cfg email_change_salt (email_verification_timeout cfg) (ad_now d) token of
        None \<Rightarrow> apfst (map_sum id (\<lambda>u. (u_email u, False))) (verify_email cfg token raw_password d)
      | Some payload \<Rightarrow> apfst (map_sum id (\<lambda>e. (e, True))) (complete_email_change cfg payload d))"

subsection \<open>Undoing it\<close>

record undo_claim =
  uc_user :: int
  uc_previous :: string
  uc_at :: moment

definition undo_claim_of :: "json \<Rightarrow> undo_claim option" where
  "undo_claim_of payload = (case (int_of (field_of payload ''user''), str_of (field_of payload ''from''), field_of payload ''at'') of
     (Some k, Some previous, Some (JInt at)) \<Rightarrow> Some \<lparr>uc_user = k, uc_previous = previous, uc_at = at\<rparr>
   | _ \<Rightarrow> None)"

definition is_spent :: "account \<Rightarrow> moment \<Rightarrow> bool" where
  "is_spent u issued_at = (case a_email_change_undone_at u of None \<Rightarrow> False | Some t \<Rightarrow> issued_at \<le> t)"

definition close_account :: "account \<Rightarrow> account_db \<Rightarrow> account_db" where
  "close_account u d =
     (let k = u_id u; who = Account k;
          d1 = edit_account k (\<lambda>r. r\<lparr>u_is_active := False, a_reactivation_blocked := True\<rparr>) d;
          d2 = (if u_is_active u
            then raise_event (AccountDeactivated k None) (record_account_change ChangeDeactivated who k [] []
              (log_line ''account.deactivate'' who (Some k) False [(''self_service'', ABool True)] d1))
            else d1)
      in record_account_change ChangeBlocked who k [] [] (log_line ''account.block'' who (Some k) False [] d2))"

definition undone_account :: "account_db \<Rightarrow> string option \<Rightarrow> string \<Rightarrow> account \<Rightarrow> account" where
  \<comment> \<open>the columns an undo writes; \<open>restored\<close> is the address put back, if one is\<close>
  "undone_account d restored unusable u =
     (let u1 = (case restored of None \<Rightarrow> u
            | Some a \<Rightarrow> u\<lparr>u_email := strip a, a_email_verified_at := Some (ad_now d), a_email_bounced_at := None,
                a_email_bounce_detail := []\<rparr>)
      in u1\<lparr>a_pending_email := [], a_recovery_email := [], a_recovery_until := None,
           a_email_change_undone_at := Some (ad_now d), a_password := unusable\<rparr>)"

definition undo_body :: "account_config \<Rightarrow> string \<Rightarrow> account_db \<Rightarrow> (account_error + account \<times> bool) \<times> account_db" where
  "undo_body cfg token d =
     (let invalid = Inl (FieldRefused ''token'' undo_invalid)
      in case Option.bind (loads cfg email_change_undo_salt email_change_undo_timeout (ad_now d) token) undo_claim_of of
           None \<Rightarrow> (invalid, d)
         | Some claim \<Rightarrow> (case account_numbered d (uc_user claim) of
               None \<Rightarrow> (invalid, d)
             | Some u \<Rightarrow>
                 let k = u_id u; previous = uc_previous claim; recovery = recovery_address d u
                 in if is_donor u \<or> is_spent u (uc_at claim) then (invalid, d)
                    else if recovery \<noteq> [] \<and> normalized_email recovery \<noteq> normalized_email previous then (invalid, d)
                    else let moved = normalized_email (u_email u) \<noteq> normalized_email previous;
                             taken = moved \<and> address_taken d previous (Some k);
                             (n, d0) = draw d;
                             u1 = undone_account d0 (if moved \<and> \<not> taken then Some previous else None) (unusable_password cfg n) u;
                             d1 = snd (end_sessions k (edit_account k (\<lambda>_. u1) d0));
                             d2 = record_account_change ChangeEmailUndone (Account k) k [] []
                               (log_line ''account.email_change_undo'' (Account k) (Some k) False
                                 [(''restored'', ABool (moved \<and> \<not> taken))] d1)
                         in (Inr (u1, taken), if taken then close_account u1 d2
                             else snd (send_password_reset_email u1 False (Some previous) d2))))"

definition undo_email_change :: "account_config \<Rightarrow> string \<Rightarrow> account_db \<Rightarrow> (account_error + account \<times> bool) \<times> account_db" where
  "undo_email_change cfg token d = account_atomic (undo_body cfg token) d"

subsection \<open>One owner for every address\<close>

definition belongs :: "account_db \<Rightarrow> string \<Rightarrow> account \<Rightarrow> bool" where
  \<comment> \<open>the account signs in with the address, or keeps it for recovery\<close>
  "belongs d a r \<longleftrightarrow> same_address (u_email r) a \<or> keeps_address d a r"

definition one_owner :: "account_db \<Rightarrow> bool" where
  "one_owner d \<longleftrightarrow> distinct (map u_id (ad_accounts d))
     \<and> (\<forall>a. \<forall>r \<in> set (ad_accounts d). \<forall>s \<in> set (ad_accounts d). belongs d a r \<longrightarrow> belongs d a s \<longrightarrow> u_id r = u_id s)"

lemma same_address_refl [simp]: "same_address a a"
  by (simp add: same_address_def)

lemma same_address_lower: "same_address a b \<longleftrightarrow> lower a = lower b"
  unfolding same_address_def by (metis lower_upper upper_lower)

lemma belongs_cong: "same_address a b \<Longrightarrow> belongs d a r = belongs d b r"
  by (simp add: belongs_def keeps_address_def same_address_def)

lemma address_taken_iff:
  "address_taken d a (Some k) \<longleftrightarrow> (\<exists>r \<in> set (ad_accounts d). u_id r \<noteq> k \<and> belongs d (strip a) r)"
  by (auto simp: address_taken_def Let_def belongs_def list_ex_iff)

lemma find_SomeD: "find P xs = Some x \<Longrightarrow> x \<in> set xs \<and> P x"
  by (induction xs) (auto split: if_splits)

lemma address_holder_None:
  "address_holder d a = None \<longleftrightarrow> (\<forall>r \<in> set (ad_accounts d). \<not> belongs d (strip a) r)"
  by (auto simp: address_holder_def Let_def belongs_def find_None_iff split: option.splits dest!: find_SomeD)

lemma belongs_now: "ad_now d' = ad_now d \<Longrightarrow> belongs d' a r = belongs d a r"
  by (simp add: belongs_def keeps_address_def cong: option.case_cong)

lemma one_owner_cong: "ad_accounts d' = ad_accounts d \<Longrightarrow> ad_now d' = ad_now d \<Longrightarrow> one_owner d' = one_owner d"
  unfolding one_owner_def using belongs_now [of d' d] by simp

lemma set_edit_account:
  assumes "distinct (map u_id (ad_accounts d))" and "get_account d k = Some u" and "r \<in> set (ad_accounts (edit_account k f d))"
  shows "r = f u \<or> (r \<in> set (ad_accounts d) \<and> u_id r \<noteq> k)"
proof -
  obtain x where x: "x \<in> set (ad_accounts d)" "r = (if u_id x = k then f x else x)"
    using assms(3) by (auto simp: edit_account_def set_rows_update)
  have "x = u" if "u_id x = k"
    using row_get_distinct [OF assms(1) x(1)] that assms(2) by (simp add: get_account_def)
  with x show ?thesis by auto
qed

text \<open>Rewriting one account keeps the owners apart when what it then owns, nobody else owned.\<close>

lemma one_owner_edit:
  assumes one: "one_owner d" and u: "get_account d k = Some u" and k: "u_id (f u) = k" "\<And>r. u_id (f r) = u_id r"
    and new: "\<And>a r. belongs d a (f u) \<Longrightarrow> r \<in> set (ad_accounts d) \<Longrightarrow> u_id r \<noteq> k \<Longrightarrow> \<not> belongs d a r"
  shows "one_owner (edit_account k f d)"
proof -
  have ids: "distinct (map u_id (ad_accounts d))" using one by (simp add: one_owner_def)
  have "map u_id (ad_accounts (edit_account k f d)) = map u_id (ad_accounts d)"
    by (simp add: edit_account_def map_key_rows_update k(2))
  moreover have "u_id r = u_id s" if r: "r \<in> set (ad_accounts (edit_account k f d))"
      and s: "s \<in> set (ad_accounts (edit_account k f d))" and b: "belongs d a r" "belongs d a s" for a r s
  proof -
    consider "r = f u" "s = f u" | "r = f u" "s \<in> set (ad_accounts d)" "u_id s \<noteq> k"
      | "s = f u" "r \<in> set (ad_accounts d)" "u_id r \<noteq> k" | "r \<in> set (ad_accounts d)" "s \<in> set (ad_accounts d)"
      using set_edit_account [OF ids u r] set_edit_account [OF ids u s] by blast
    then show ?thesis
    proof cases
      case 4
      then show ?thesis using one b unfolding one_owner_def by blast
    qed (use new b in auto)
  qed
  ultimately show ?thesis using ids belongs_now [OF edit_account_fields(2)]
    unfolding one_owner_def by metis
qed

lemma one_owner_elsewhere:
  assumes "one_owner d" and "get_account d k = Some u" and "belongs d a u" and "r \<in> set (ad_accounts d)" and "u_id r \<noteq> k"
  shows "\<not> belongs d a r"
  using assms get_account_SomeD [OF assms(2)] unfolding one_owner_def by metis

lemma recovery_keeps: "recovery_address d u \<noteq> [] \<Longrightarrow> keeps_address d (recovery_address d u) u"
  by (simp add: recovery_address_def keeps_address_def split: option.splits if_splits)

lemma account_numberedD: "account_numbered d n = Some u \<Longrightarrow> get_account d (u_id u) = Some u"
  using get_account_SomeD [of d "nat n" u] by (auto simp: account_numbered_def split: if_splits)

text \<open>What each operation does to the accounts.\<close>

lemma request_keeps [account_simps]:
  "ad_now (log_line a w t b fs d) = ad_now d" "ad_now (post m d) = ad_now d" "ad_now (raise_event e d) = ad_now d"
  "ad_now (record_account_change c w k xs ys d) = ad_now d" "ad_now (account_rollback d d') = ad_now d"
  "ad_accounts (send_email_change_link cfg u by d) = ad_accounts d" "ad_now (send_email_change_link cfg u by d) = ad_now d"
  "ad_accounts (send_email_change_notice cfg u p n cc d) = ad_accounts d"
  "ad_now (send_email_change_notice cfg u p n cc d) = ad_now d"
  by (simp_all add: log_line_def post_def raise_event_def record_account_change_def account_rollback_def
      send_email_change_link_def send_email_change_notice_def)

lemma check_account_edit_keeps:
  "check_account_edit who t ch d = (r, d') \<Longrightarrow> ad_accounts d' = ad_accounts d \<and> ad_now d' = ad_now d"
  "check_account_edit who t ch d = (Inr x, d') \<Longrightarrow> d' = d"
  by (auto simp: check_account_edit_def Let_def account_simps split: if_splits)

lemma atomic_effect:
  assumes "account_atomic f d = (r, d')" and "f d = (r1, d1)"
  shows "(ad_accounts d' = ad_accounts d \<and> ad_now d' = ad_now d \<and> (\<exists>e. r = Inl e \<and> r1 = Inl e))
    \<or> (d' = d1 \<and> r = r1 \<and> (\<exists>x. r = Inr x))"
  using assms by (auto simp: account_atomic_def account_simps split: sum.splits)

lemma request_effect:
  assumes "request_email_change cfg who t e q d = (r, d')"
  shows "ad_accounts d' = ad_accounts d \<and> ad_now d' = ad_now d
    \<or> ad_now d' = ad_now d \<and> may_edit_protected_fields d who t
      \<and> (if is_donor t
         then (q \<or> \<not> address_taken d (strip e) (Some (u_id t)))
           \<and> ad_accounts d' = ad_accounts (edit_account (u_id t) (\<lambda>r. r\<lparr>u_email := strip e\<rparr>) d)
         else ad_accounts d' = ad_accounts (edit_account (u_id t) (\<lambda>r. r\<lparr>a_pending_email := strip e\<rparr>) d))"
proof -
  obtain r1 d1 where run: "request_body cfg who t e q d = (r1, d1)" by fastforce
  show ?thesis
  proof (cases "normalized_email (strip e) = normalized_email (u_email t)")
    case True
    then show ?thesis using atomic_effect [OF assms(1) [unfolded request_email_change_def] run] run
      by (auto simp: request_body_def)
  next
    case False
    obtain c dc where c: "check_account_edit who t (no_edit\<lparr>ch_email := Some (strip e)\<rparr>) d = (c, dc)" by fastforce
    show ?thesis
    proof (cases c)
      case (Inl x)
      then show ?thesis using atomic_effect [OF assms(1) [unfolded request_email_change_def] run] run False c
        by (auto simp: request_body_def Let_def)
    next
      case (Inr x)
      have may: "may_edit_protected_fields d who t"
        using c Inr False by (auto simp: check_account_edit_def no_edit_def Let_def split: if_splits)
      have dc: "dc = d" using check_account_edit_keeps(2) c Inr by metis
      have body: "request_body cfg who t e q d = (r1, d1)" by (rule run)
      show ?thesis
        using atomic_effect [OF assms(1) [unfolded request_email_change_def] run] body may False
        by (auto simp: request_body_def Let_def c Inr dc account_simps split: if_splits)
    qed
  qed
qed

lemma complete_effect:
  assumes "complete_email_change cfg payload d = (r, d')"
  obtains "ad_accounts d' = ad_accounts d" "ad_now d' = ad_now d"
  | u claim recovery where "change_claim_of payload = Some claim" "account_numbered d (cl_user claim) = Some u" "u_is_active u"
      "cl_pw claim = password_fingerprint cfg u" "normalized_email (a_pending_email u) = cl_change_to claim"
      "\<not> address_taken d (a_pending_email u) (Some (u_id u))"
      "recovery = (if recovery_address d u \<noteq> [] then recovery_address d u
        else if a_email_verified_at u \<noteq> None then u_email u else [])"
      "ad_accounts d' = ad_accounts (edit_account (u_id u) (\<lambda>_. completed_account d recovery u) d)" "ad_now d' = ad_now d"
proof -
  obtain r1 d1 where run: "complete_change_body cfg payload d = (r1, d1)" by fastforce
  note at = atomic_effect [OF assms [unfolded complete_email_change_def] run]
  show ?thesis
  proof (cases "change_claim_of payload")
    case None
    then show ?thesis using at run that(1) by (auto simp: complete_change_body_def)
  next
    case claim: (Some claim)
    show ?thesis
    proof (cases "account_numbered d (cl_user claim)")
      case None
      then show ?thesis using at run that(1) claim by (auto simp: complete_change_body_def Let_def)
    next
      case u: (Some u)
      let ?rec = "if recovery_address d u \<noteq> [] then recovery_address d u
        else if a_email_verified_at u \<noteq> None then u_email u else []"
      consider "ad_accounts d' = ad_accounts d" "ad_now d' = ad_now d"
        | "u_is_active u" "cl_pw claim = password_fingerprint cfg u" "normalized_email (a_pending_email u) = cl_change_to claim"
          "\<not> address_taken d (a_pending_email u) (Some (u_id u))"
          "ad_accounts d' = ad_accounts (edit_account (u_id u) (\<lambda>_. completed_account d ?rec u) d)" "ad_now d' = ad_now d"
        using at run by (auto simp: complete_change_body_def claim u Let_def account_simps split: if_splits)
      then show ?thesis using that claim u by cases blast+
    qed
  qed
qed

lemma edit_account_twice:
  "u_id u = k \<Longrightarrow> ad_accounts (edit_account k g (edit_account k (\<lambda>_. u) d)) = ad_accounts (edit_account k (\<lambda>_. g u) d)"
  by (simp add: edit_account_def rows_update_def)

lemma close_account_effect:
  "ad_accounts (close_account u d) = ad_accounts (edit_account (u_id u) (\<lambda>r. r\<lparr>u_is_active := False, a_reactivation_blocked := True\<rparr>) d)"
  "ad_now (close_account u d) = ad_now d"
  by (simp_all add: close_account_def Let_def account_simps)

lemma reset_email_keeps [account_simps]:
  "ad_accounts (snd (send_password_reset_email u b a d)) = ad_accounts d"
  "ad_now (snd (send_password_reset_email u b a d)) = ad_now d" "ad_now (snd (end_sessions k d)) = ad_now d"
  by (simp_all add: send_password_reset_email_def account_simps end_sessions_def Let_def)

definition undone_row :: "account_config \<Rightarrow> account_db \<Rightarrow> undo_claim \<Rightarrow> account \<Rightarrow> bool \<Rightarrow> account" where
  \<comment> \<open>the row an undo leaves, closed when its address is taken\<close>
  "undone_row cfg d claim u taken =
     (let moved = normalized_email (u_email u) \<noteq> normalized_email (uc_previous claim);
          u1 = undone_account d (if moved \<and> \<not> taken then Some (uc_previous claim) else None) (unusable_password cfg (ad_draws d)) u
      in if taken then u1\<lparr>u_is_active := False, a_reactivation_blocked := True\<rparr> else u1)"

definition undo_allowed :: "account_config \<Rightarrow> string \<Rightarrow> account_db \<Rightarrow> undo_claim \<Rightarrow> account \<Rightarrow> bool" where
  "undo_allowed cfg token d claim u \<longleftrightarrow>
     Option.bind (loads cfg email_change_undo_salt email_change_undo_timeout (ad_now d) token) undo_claim_of = Some claim
     \<and> account_numbered d (uc_user claim) = Some u \<and> \<not> is_donor u \<and> \<not> is_spent u (uc_at claim)
     \<and> (recovery_address d u \<noteq> [] \<longrightarrow> normalized_email (recovery_address d u) = normalized_email (uc_previous claim))"

lemma undone_account_simps [account_simps]:
  "u_id (undone_account d a h u) = u_id u" "u_is_active (undone_account d a h u) = u_is_active u"
  "u_kind (undone_account d a h u) = u_kind u"
  by (simp_all add: undone_account_def Let_def split: option.splits)

lemma undone_account_now: "undone_account (d\<lparr>ad_draws := n\<rparr>) a h u = undone_account d a h u"
  by (cases a) (simp_all add: undone_account_def)

lemma undo_effect:
  assumes "undo_allowed cfg token d claim u"
  defines "taken \<equiv> normalized_email (u_email u) \<noteq> normalized_email (uc_previous claim)
      \<and> address_taken d (uc_previous claim) (Some (u_id u))"
  obtains u1 d' where "undo_email_change cfg token d = (Inr (u1, taken), d')" "u_id u1 = u_id u" "ad_now d' = ad_now d"
    "ad_accounts d' = ad_accounts (edit_account (u_id u) (\<lambda>_. undone_row cfg d claim u taken) d)"
proof -
  let ?k = "u_id u" and ?moved = "normalized_email (u_email u) \<noteq> normalized_email (uc_previous claim)"
  define d0 where "d0 = d\<lparr>ad_draws := Suc (ad_draws d)\<rparr>"
  define u1 where "u1 = undone_account d (if ?moved \<and> \<not> taken then Some (uc_previous claim) else None)
      (unusable_password cfg (ad_draws d)) u"
  define d2 where "d2 = record_account_change ChangeEmailUndone (Account ?k) ?k [] []
      (log_line ''account.email_change_undo'' (Account ?k) (Some ?k) False [(''restored'', ABool (?moved \<and> \<not> taken))]
        (snd (end_sessions ?k (edit_account ?k (\<lambda>_. u1) d0))))"
  have "undo_body cfg token d = (Inr (u1, taken), if taken then close_account u1 d2
      else snd (send_password_reset_email u1 False (Some (uc_previous claim)) d2))"
  proof -
    have *: "Option.bind (loads cfg email_change_undo_salt email_change_undo_timeout (ad_now d) token) undo_claim_of = Some claim"
      "account_numbered d (uc_user claim) = Some u" "\<not> is_donor u" "\<not> is_spent u (uc_at claim)"
      "(recovery_address d u \<noteq> [] \<and> normalized_email (recovery_address d u) \<noteq> normalized_email (uc_previous claim)) = False"
      using assms(1) by (auto simp: undo_allowed_def)
    show ?thesis
      unfolding undo_body_def Let_def * option.case d0_def [symmetric] draw_def prod.case
      by (simp add: *(3,4) taken_def u1_def d2_def d0_def undone_account_now)
  qed
  then have run: "undo_email_change cfg token d = (Inr (u1, taken), if taken then close_account u1 d2
      else snd (send_password_reset_email u1 False (Some (uc_previous claim)) d2))"
    by (simp add: undo_email_change_def account_atomic_def)
  have k: "u_id u1 = ?k" by (simp add: u1_def account_simps)
  have acc: "ad_accounts d2 = ad_accounts (edit_account ?k (\<lambda>_. u1) d)" and now: "ad_now d2 = ad_now d"
    by (simp_all add: d2_def d0_def account_simps) (simp add: edit_account_def)
  have twice: "ad_accounts (edit_account ?k g d2) = ad_accounts (edit_account ?k (\<lambda>_. g u1) d)" for g
    using edit_account_twice [OF k, of g d] acc by (simp add: edit_account_def)
  show ?thesis
  proof (cases taken)
    case True
    then show ?thesis using run that k now twice
      by (simp add: close_account_effect k undone_row_def u1_def [symmetric] Let_def)
        (simp add: undone_row_def u1_def Let_def)
  next
    case False
    then show ?thesis using run that k now acc
      by (simp add: account_simps undone_row_def u1_def Let_def)
  qed
qed

lemma undo_refused:
  assumes "\<And>claim u. \<not> undo_allowed cfg token d claim u"
  obtains d' where "undo_email_change cfg token d = (Inl (FieldRefused ''token'' undo_invalid), d')"
    "ad_accounts d' = ad_accounts d" "ad_now d' = ad_now d"
proof -
  have "undo_body cfg token d = (Inl (FieldRefused ''token'' undo_invalid), d)"
  proof (cases "Option.bind (loads cfg email_change_undo_salt email_change_undo_timeout (ad_now d) token) undo_claim_of")
    case None
    then show ?thesis by (simp add: undo_body_def)
  next
    case claim: (Some claim)
    show ?thesis
    proof (cases "account_numbered d (uc_user claim)")
      case None
      then show ?thesis unfolding undo_body_def Let_def claim by simp
    next
      case (Some u)
      then have "(is_donor u \<or> is_spent u (uc_at claim))
          \<or> recovery_address d u \<noteq> [] \<and> normalized_email (recovery_address d u) \<noteq> normalized_email (uc_previous claim)"
        using assms [of claim u] claim by (auto simp: undo_allowed_def)
      then show ?thesis unfolding undo_body_def Let_def claim Some option.case by (metis (no_types, lifting))
    qed
  qed
  then show ?thesis using that by (simp add: undo_email_change_def account_atomic_def account_simps)
qed

subsection \<open>Requests one after another\<close>

inductive address_request :: "account_config \<Rightarrow> account_db \<Rightarrow> account_db \<Rightarrow> bool" for cfg where
  ask: "get_account d (u_id t) = Some t \<Longrightarrow> request_email_change cfg who t e q d = (r, d')
    \<Longrightarrow> q \<longrightarrow> \<not> is_donor t \<Longrightarrow> address_request cfg d d'"
| complete: "complete_email_change cfg payload d = (x, d') \<Longrightarrow> address_request cfg d d'"
| register: "address_holder d e = None \<Longrightarrow> ad_next_pk d \<notin> u_id ` set (ad_accounts d)
    \<Longrightarrow> create_account cfg e pw f l kind d = (r, d') \<Longrightarrow> address_request cfg d d'"
| wait: "ad_now d \<le> t \<Longrightarrow> address_request cfg d (d\<lparr>ad_now := t\<rparr>)"

inductive address_step :: "account_config \<Rightarrow> account_db \<Rightarrow> account_db \<Rightarrow> bool" for cfg where
  request: "address_request cfg d d' \<Longrightarrow> address_step cfg d d'"
| undo: "undo_email_change cfg token d = (y, d') \<Longrightarrow> address_step cfg d d'"

lemma create_effect:
  assumes "create_account cfg e pw f l kind d = (r, d')"
  shows "(ad_accounts d' = ad_accounts d \<and> ad_now d' = ad_now d)
    \<or> (\<exists>u. ad_accounts d' = ad_accounts d @ [u] \<and> ad_now d' = ad_now d \<and> u_id u = ad_next_pk d
        \<and> u_email u = strip (strip (normalize_domain cfg e)) \<and> a_recovery_until u = None)"
  using assms by (auto simp: create_account_def Let_def draw_def spelled_account_def add_role_def split: if_splits)

lemma space_upper_char [simp]: "space_char (upper_char c) = space_char c"
  by (metis lower_upper_char space_lower_char)

lemma strip_upper: "strip (upper s) = upper (strip s)"
proof -
  have "dropWhile space_char (upper t) = upper (dropWhile space_char t)" for t
    by (simp add: upper_def dropWhile_map comp_def)
  moreover have "rev (upper t) = upper (rev t)" for t by (simp add: upper_def rev_map)
  ultimately show ?thesis by (simp add: strip_def lstrip_where_def rstrip_where_def)
qed

lemma same_address_strip: "same_address s t \<Longrightarrow> same_address (strip s) (strip t)"
  unfolding same_address_def by (metis strip_upper)

definition keeps_domain :: "account_config \<Rightarrow> bool" where
  \<comment> \<open>normalizing an address changes the case of its domain at most\<close>
  "keeps_domain cfg \<longleftrightarrow> (\<forall>a. same_address (normalize_domain cfg a) a)"

lemma one_owner_complete:
  assumes one: "one_owner d" and u: "get_account d k = Some u" and free: "\<not> address_taken d (a_pending_email u) (Some k)"
    and rec: "recovery = (if recovery_address d u \<noteq> [] then recovery_address d u
        else if a_email_verified_at u \<noteq> None then u_email u else [])"
  shows "one_owner (edit_account k (\<lambda>_. completed_account d recovery u) d)"
proof -
  let ?f = "\<lambda>r. (completed_account d recovery u)\<lparr>u_id := u_id r\<rparr>"
  have k: "u_id u = k" using get_account_SomeD [OF u] by simp
  have eq: "edit_account k (\<lambda>_. completed_account d recovery u) d = edit_account k ?f d"
    by (auto simp: edit_account_def rows_update_def completed_account_def k intro!: map_cong)
  have "one_owner (edit_account k ?f d)"
  proof (rule one_owner_edit [OF one u])
    fix a r
    assume b: "belongs d a (?f u)" and r: "r \<in> set (ad_accounts d)" "u_id r \<noteq> k"
    consider "same_address (strip (a_pending_email u)) a" | "recovery \<noteq> []" "same_address recovery a"
      using b by (auto simp: belongs_def keeps_address_def completed_account_def split: if_splits)
    then show "\<not> belongs d a r"
    proof cases
      case 1
      then show ?thesis using free r belongs_cong [OF 1] by (auto simp: address_taken_iff)
    next
      case 2
      have "belongs d recovery u"
        using 2(1) rec recovery_keeps [of d u] by (auto simp: belongs_def split: if_splits)
      then show ?thesis using one_owner_elsewhere [OF one u _ r] belongs_cong [OF 2(2)] by blast
    qed
  qed (simp_all add: completed_account_def k)
  then show ?thesis by (simp add: eq)
qed

lemma one_owner_undo:
  assumes one: "one_owner d" and u: "get_account d k = Some u"
    and taken: "taken = (normalized_email (u_email u) \<noteq> normalized_email (uc_previous claim)
      \<and> address_taken d (uc_previous claim) (Some k))"
  shows "one_owner (edit_account k (\<lambda>_. undone_row cfg d claim u taken) d)"
proof -
  let ?f = "\<lambda>r. (undone_row cfg d claim u taken)\<lparr>u_id := u_id r\<rparr>"
  have k: "u_id u = k" using get_account_SomeD [OF u] by simp
  have id: "u_id (undone_row cfg d claim u taken) = k"
    by (simp add: undone_row_def Let_def account_simps k)
  have eq: "edit_account k (\<lambda>_. undone_row cfg d claim u taken) d = edit_account k ?f d"
    by (auto simp: edit_account_def rows_update_def id intro!: map_cong)
  have "one_owner (edit_account k ?f d)"
  proof (rule one_owner_edit [OF one u])
    fix a r
    assume b: "belongs d a (?f u)" and r: "r \<in> set (ad_accounts d)" "u_id r \<noteq> k"
    have "same_address (u_email (undone_row cfg d claim u taken)) a"
      using b by (auto simp: belongs_def keeps_address_def undone_row_def undone_account_def Let_def
          split: option.splits if_splits)
    then consider "same_address (u_email u) a"
      | "same_address (strip (uc_previous claim)) a" "\<not> address_taken d (uc_previous claim) (Some k)"
      using taken by (auto simp: undone_row_def undone_account_def Let_def split: if_splits)
    then show "\<not> belongs d a r"
    proof cases
      case 1
      then show ?thesis using one_owner_elsewhere [OF one u _ r, of a] by (simp add: belongs_def)
    next
      case 2
      then show ?thesis using r belongs_cong [OF 2(1)] by (auto simp: address_taken_iff)
    qed
  qed (simp_all add: id k)
  then show ?thesis by (simp add: eq)
qed

lemma one_owner_ask:
  assumes one: "one_owner d" and t: "get_account d (u_id t) = Some t"
    and run: "request_email_change cfg who t e q d = (r, d')" and q: "q \<longrightarrow> \<not> is_donor t"
  shows "one_owner d'"
proof -
  let ?k = "u_id t"
  have "one_owner (edit_account ?k (\<lambda>r. r\<lparr>a_pending_email := strip e\<rparr>) d)"
  proof (rule one_owner_edit [OF one t])
    fix a r
    assume "belongs d a (t\<lparr>a_pending_email := strip e\<rparr>)" and r: "r \<in> set (ad_accounts d)" "u_id r \<noteq> ?k"
    then have "belongs d a t" by (simp add: belongs_def keeps_address_def)
    then show "\<not> belongs d a r" by (rule one_owner_elsewhere [OF one t _ r])
  qed simp_all
  moreover have "one_owner (edit_account ?k (\<lambda>r. r\<lparr>u_email := strip e\<rparr>) d)"
    if free: "\<not> address_taken d (strip e) (Some ?k)"
  proof (rule one_owner_edit [OF one t])
    fix a r
    assume b: "belongs d a (t\<lparr>u_email := strip e\<rparr>)" and r: "r \<in> set (ad_accounts d)" "u_id r \<noteq> ?k"
    consider "same_address (strip e) a" | "belongs d a t"
      using b by (auto simp: belongs_def keeps_address_def)
    then show "\<not> belongs d a r"
    proof cases
      case 1
      then show ?thesis using free r belongs_cong [OF 1] by (auto simp: address_taken_iff strip_strip)
    next
      case 2
      then show ?thesis by (rule one_owner_elsewhere [OF one t _ r])
    qed
  qed simp_all
  ultimately show ?thesis
    using request_effect [OF run] one q one_owner_cong [of d' d]
      one_owner_cong [of d' "edit_account ?k (\<lambda>r. r\<lparr>a_pending_email := strip e\<rparr>) d"]
      one_owner_cong [of d' "edit_account ?k (\<lambda>r. r\<lparr>u_email := strip e\<rparr>) d"]
    by (auto simp: edit_account_fields split: if_splits)
qed

lemma one_owner_register:
  assumes one: "one_owner d" and free: "address_holder d e = None" and fresh: "ad_next_pk d \<notin> u_id ` set (ad_accounts d)"
    and run: "create_account cfg e pw f l kind d = (r, d')" and dom: "keeps_domain cfg"
  shows "one_owner d'"
proof -
  consider "ad_accounts d' = ad_accounts d" "ad_now d' = ad_now d"
    | u where "ad_accounts d' = ad_accounts d @ [u]" "ad_now d' = ad_now d" "u_id u = ad_next_pk d"
        "u_email u = strip (strip (normalize_domain cfg e))" "a_recovery_until u = None"
    using create_effect [OF run] by blast
  then show ?thesis
  proof cases
    case 1
    then show ?thesis using one one_owner_cong by blast
  next
    case (2 u)
    have "same_address (u_email u) (strip e)"
      using dom same_address_strip [of "normalize_domain cfg e" e] by (simp add: 2(4) strip_strip keeps_domain_def)
    then have new: "\<not> belongs d a r" if "belongs d a u" "r \<in> set (ad_accounts d)" for a r
      using free that 2(5) belongs_cong [of "strip e" a]
      by (auto simp: address_holder_None belongs_def keeps_address_def same_address_def)
    have old: "u_id r = u_id s"
      if "r \<in> set (ad_accounts d)" "s \<in> set (ad_accounts d)" "belongs d a r" "belongs d a s" for a r s
      using one that unfolding one_owner_def by blast
    have "u_id r = u_id s" if "r \<in> insert u (set (ad_accounts d))" "s \<in> insert u (set (ad_accounts d))"
      "belongs d a r" "belongs d a s" for a r s
      using that old [of r s a] new [of a s] new [of a r] by (cases "r = u"; cases "s = u") simp_all
    moreover have "set (ad_accounts d') = insert u (set (ad_accounts d))" by (simp add: 2(1))
    ultimately have "u_id r = u_id s" if "r \<in> set (ad_accounts d')" "s \<in> set (ad_accounts d')"
      "belongs d' a r" "belongs d' a s" for a r s
      using that unfolding belongs_now [OF 2(2)] by blast
    moreover have "distinct (map u_id (ad_accounts d'))" using one fresh 2(3) by (simp add: one_owner_def 2(1))
    ultimately show ?thesis unfolding one_owner_def by blast
  qed
qed

lemma one_owner_step:
  assumes "address_step cfg d d'" and one: "one_owner d" and dom: "keeps_domain cfg"
  shows "one_owner d'"
  using assms(1)
proof cases
  case request
  then show ?thesis
  proof cases
    case ask
    then show ?thesis using one_owner_ask one by blast
  next
    case (complete payload x)
    from complete(1) show ?thesis
    proof (rule complete_effect)
      assume "ad_accounts d' = ad_accounts d" "ad_now d' = ad_now d"
      then show ?thesis using one one_owner_cong by blast
    next
      fix u claim recovery
      assume u: "account_numbered d (cl_user claim) = Some u" "\<not> address_taken d (a_pending_email u) (Some (u_id u))"
        "recovery = (if recovery_address d u \<noteq> [] then recovery_address d u
          else if a_email_verified_at u \<noteq> None then u_email u else [])"
        and d': "ad_accounts d' = ad_accounts (edit_account (u_id u) (\<lambda>_. completed_account d recovery u) d)" "ad_now d' = ad_now d"
      have "one_owner (edit_account (u_id u) (\<lambda>_. completed_account d recovery u) d)"
        using one_owner_complete [OF one account_numberedD [OF u(1)] u(2,3)] by simp
      then show ?thesis using one_owner_cong [OF d'(1)] d'(2) by (simp add: edit_account_fields)
    qed
  next
    case register
    then show ?thesis using one_owner_register one dom by blast
  next
    case (wait t)
    then have "keeps_address d' a r \<Longrightarrow> keeps_address d a r" for a r
      by (auto simp: keeps_address_def split: option.splits)
    then have "belongs d' a r \<Longrightarrow> belongs d a r" for a r by (auto simp: belongs_def)
    then show ?thesis using one wait(1) unfolding one_owner_def by auto blast
  qed
next
  case (undo token y)
  show ?thesis
  proof (cases "\<exists>claim u. undo_allowed cfg token d claim u")
    case True
    then obtain claim u where a: "undo_allowed cfg token d claim u" by blast
    then have u: "get_account d (u_id u) = Some u" by (auto simp: undo_allowed_def dest: account_numberedD)
    from a show ?thesis
    proof (rule undo_effect)
      fix u1 d1
      let ?taken = "normalized_email (u_email u) \<noteq> normalized_email (uc_previous claim)
        \<and> address_taken d (uc_previous claim) (Some (u_id u))"
      assume r: "undo_email_change cfg token d = (Inr (u1, ?taken), d1)" "ad_now d1 = ad_now d"
        "ad_accounts d1 = ad_accounts (edit_account (u_id u) (\<lambda>_. undone_row cfg d claim u ?taken) d)"
      have "one_owner d1"
        using one_owner_undo [OF one u refl, of cfg claim] one_owner_cong [OF r(3)] r(2) by (simp add: edit_account_fields)
      then show ?thesis using undo r(1) by simp
    qed
  next
    case False
    then obtain d1 where r: "undo_email_change cfg token d = (Inl (FieldRefused ''token'' undo_invalid), d1)"
      and same: "ad_accounts d1 = ad_accounts d" "ad_now d1 = ad_now d" using undo_refused by blast
    have "one_owner d1" using one one_owner_cong [OF same] by blast
    then show ?thesis using undo r by simp
  qed
qed


subsection \<open>The owner of the old address\<close>

lemma row_get_rows_set:
  "u_id u1 = k \<Longrightarrow> row_get u_id (rows_update (\<lambda>r. u_id r = k) (\<lambda>_. u1) t) j
    = (if j = k then map_option (\<lambda>_. u1) (row_get u_id t k) else row_get u_id t j)"
  by (induction t) auto

lemma get_account_edit_row:
  "u_id u1 = k \<Longrightarrow> get_account (edit_account k (\<lambda>_. u1) d) j
    = (if j = k then map_option (\<lambda>_. u1) (get_account d k) else get_account d j)"
  by (simp add: get_account_def edit_account_def row_get_rows_set)

definition kept_for :: "account_db \<Rightarrow> pk \<Rightarrow> string \<Rightarrow> moment \<Rightarrow> moment option \<Rightarrow> bool" where
  \<comment> \<open>the account keeps the address for recovery until the moment or later, last undone at \<open>undone\<close>\<close>
  "kept_for d k a until undone \<longleftrightarrow> (\<exists>u t. get_account d k = Some u \<and> \<not> is_donor u \<and> a_recovery_email u = a
     \<and> a_recovery_until u = Some t \<and> until \<le> t \<and> a_email_change_undone_at u = undone)"

lemma kept_for_cong: "ad_accounts d' = ad_accounts d \<Longrightarrow> kept_for d' k a x y = kept_for d k a x y"
  by (simp add: kept_for_def get_account_def)

lemma kept_for_request:
  assumes "address_request cfg d d'" and kept: "kept_for d k a until undone"
    and now: "ad_now d' < until" and span: "until \<le> ad_now d + email_change_undo_timeout" and a: "a \<noteq> []"
  shows "kept_for d' k a until undone \<and> ad_now d \<le> ad_now d'"
  using assms(1)
proof cases
  case (ask t who e q r)
  have edit: "kept_for (edit_account (u_id t) f d) k a until undone"
    if "\<And>r. u_id (f r) = u_id r" "\<And>r. u_kind (f r) = u_kind r" "\<And>r. a_recovery_email (f r) = a_recovery_email r"
      "\<And>r. a_recovery_until (f r) = a_recovery_until r" "\<And>r. a_email_change_undone_at (f r) = a_email_change_undone_at r" for f
    using kept that by (auto simp: kept_for_def get_edit_account is_donor_def)
  have pending: "kept_for (edit_account (u_id t) (\<lambda>r. r\<lparr>a_pending_email := strip e\<rparr>) d) k a until undone"
    and moved: "kept_for (edit_account (u_id t) (\<lambda>r. r\<lparr>u_email := strip e\<rparr>) d) k a until undone"
    by (rule edit; simp)+
  consider "ad_accounts d' = ad_accounts d" "ad_now d' = ad_now d"
    | "ad_accounts d' = ad_accounts (edit_account (u_id t) (\<lambda>r. r\<lparr>a_pending_email := strip e\<rparr>) d)" "ad_now d' = ad_now d"
    | "ad_accounts d' = ad_accounts (edit_account (u_id t) (\<lambda>r. r\<lparr>u_email := strip e\<rparr>) d)" "ad_now d' = ad_now d"
    using request_effect [OF ask(2)] by presburger
  then show ?thesis
  proof cases
    case 1
    then show ?thesis using kept kept_for_cong [OF 1(1)] by simp
  next
    case 2
    then show ?thesis using pending kept_for_cong [OF 2(1)] by simp
  next
    case 3
    then show ?thesis using moved kept_for_cong [OF 3(1)] by simp
  qed
next
  case (complete payload x)
  from complete(1) show ?thesis
  proof (rule complete_effect)
    assume same: "ad_accounts d' = ad_accounts d" "ad_now d' = ad_now d"
    then show ?thesis using kept kept_for_cong [OF same(1)] by simp
  next
    fix u claim recovery
    assume u: "account_numbered d (cl_user claim) = Some u"
      and rec: "recovery = (if recovery_address d u \<noteq> [] then recovery_address d u
          else if a_email_verified_at u \<noteq> None then u_email u else [])"
      and d': "ad_accounts d' = ad_accounts (edit_account (u_id u) (\<lambda>_. completed_account d recovery u) d)" "ad_now d' = ad_now d"
    have row: "u_id (completed_account d recovery u) = u_id u" by (simp add: completed_account_def)
    have get: "get_account d (u_id u) = Some u" by (rule account_numberedD [OF u])
    have "kept_for (edit_account (u_id u) (\<lambda>_. completed_account d recovery u) d) k a until undone"
    proof (cases "u_id u = k")
      case True
      obtain t where t: "a_recovery_email u = a" "a_recovery_until u = Some t" "until \<le> t" "\<not> is_donor u"
          "a_email_change_undone_at u = undone"
        using kept get True by (auto simp: kept_for_def)
      then have "recovery_address d u = a" using now d'(2) a by (simp add: recovery_address_def)
      then have "recovery = a" using rec a by simp
      then have "completed_account d recovery u = completed_account d a u" by simp
      moreover have "get_account (edit_account (u_id u) (\<lambda>_. completed_account d recovery u) d) k = Some (completed_account d recovery u)"
        using get True by (simp add: get_account_edit_row [OF row [unfolded True]])
      ultimately show ?thesis unfolding kept_for_def
        using t a span by (intro exI [of _ "completed_account d a u"]) (simp add: completed_account_def is_donor_def)
    next
      case False
      then show ?thesis using kept by (simp add: kept_for_def get_account_edit_row [OF row])
    qed
    then show ?thesis using kept_for_cong [OF d'(1)] d'(2) by simp
  qed
next
  case (register e pw f l kind r)
  from create_effect [OF register(3)] show ?thesis
    using kept by (auto simp: kept_for_def get_account_def row_get_append split: option.splits)
next
  case (wait t)
  then show ?thesis using kept by (simp add: kept_for_def get_account_def)
qed

lemma kept_for_requests:
  assumes "(address_request cfg)\<^sup>*\<^sup>* d d'" and "kept_for d k a until undone" and "ad_now d' < until"
    and "until \<le> ad_now d + email_change_undo_timeout" and "a \<noteq> []"
  shows "kept_for d' k a until undone \<and> ad_now d \<le> ad_now d'"
  using assms(1,3)
proof (induction rule: rtranclp_induct)
  case base
  then show ?case using assms(2) by simp
next
  case (step d1 d2)
  have "ad_now d1 \<le> ad_now d2" using step.hyps(2)
  proof cases
    case (ask t who e q r)
    then show ?thesis using request_effect [OF ask(2)] by auto
  next
    case (complete payload x)
    from complete(1) show ?thesis by (rule complete_effect) simp_all
  next
    case (register e pw f l kind r)
    then show ?thesis using create_effect [OF register(3)] by auto
  qed simp
  with step.prems step.IH have ih: "kept_for d1 k a until undone" "ad_now d \<le> ad_now d1" by auto
  then show ?case using kept_for_request [OF step.hyps(2) ih(1) step.prems] assms(4,5) by simp
qed

text \<open>C18: while an account keeps an address for recovery, whatever is requested, completed and registered
  meanwhile, the undo link mailed to that address works: the account signs in with that address again,
  no change is waiting, and its password is one nobody knows.\<close>

theorem owner_takes_account_back:
  assumes "(address_request cfg)\<^sup>*\<^sup>* d d'" and "one_owner d" and "keeps_domain cfg"
    and "get_account d k = Some u" and "\<not> is_donor u" and "a_recovery_email u = a" and "a \<noteq> []" and "strip a = a"
    and "a_recovery_until u = Some until" and "until \<le> ad_now d + email_change_undo_timeout" and "ad_now d' < until"
    and "Option.bind (loads cfg email_change_undo_salt email_change_undo_timeout (ad_now d') token) undo_claim_of
      = Some \<lparr>uc_user = int k, uc_previous = previous, uc_at = issued\<rparr>"
    and "normalized_email previous = normalized_email a" and "\<not> is_spent u issued"
  shows "\<exists>u1 d'' r n. undo_email_change cfg token d' = (Inr (u1, False), d'') \<and> get_account d'' k = Some r
    \<and> normalized_email (u_email r) = normalized_email a \<and> a_pending_email r = [] \<and> a_password r = unusable_password cfg n"
proof -
  let ?claim = "\<lparr>uc_user = int k, uc_previous = previous, uc_at = issued\<rparr>"
  have "kept_for d k a until (a_email_change_undone_at u)"
    using assms(4,5,6,9) by (simp add: kept_for_def)
  then have "kept_for d' k a until (a_email_change_undone_at u)"
    using kept_for_requests [OF assms(1) _ assms(11,10,7)] by blast
  then obtain v t where v: "get_account d' k = Some v" "\<not> is_donor v" "a_recovery_email v = a"
      "a_recovery_until v = Some t" "until \<le> t" "a_email_change_undone_at v = a_email_change_undone_at u"
    by (auto simp: kept_for_def)
  have k: "u_id v = k" using get_account_SomeD [OF v(1)] by simp
  have rec: "recovery_address d' v = a" using v assms(7,11) by (simp add: recovery_address_def)
  have allowed: "undo_allowed cfg token d' ?claim v"
    using assms(12,13,14) v rec by (simp add: undo_allowed_def account_numbered_def is_spent_def)
  have "(address_step cfg)\<^sup>*\<^sup>* d d'"
    using assms(1) by (rule rtranclp_mono [THEN predicate2D, rotated]) (auto intro: address_step.request)
  then have one: "one_owner d'" using assms(2,3)
  proof (induction rule: rtranclp_induct)
    case (step d1 d2)
    then show ?case using one_owner_step by blast
  qed
  have "same_address a (strip previous)"
    using assms(8,13) by (simp add: same_address_lower normalized_email_def)
  then have "belongs d' (strip previous) v"
    using v assms(11) by (simp add: belongs_def keeps_address_def)
  then have free: "\<not> address_taken d' previous (Some k)"
    using one_owner_elsewhere [OF one v(1)] by (auto simp: address_taken_iff)
  from allowed show ?thesis
  proof (rule undo_effect)
    fix u1 d2
    assume r: "undo_email_change cfg token d' = (Inr (u1, normalized_email (u_email v) \<noteq> normalized_email (uc_previous ?claim)
        \<and> address_taken d' (uc_previous ?claim) (Some (u_id v))), d2)"
      "ad_accounts d2 = ad_accounts (edit_account (u_id v) (\<lambda>_. undone_row cfg d' ?claim v (normalized_email (u_email v)
        \<noteq> normalized_email (uc_previous ?claim) \<and> address_taken d' (uc_previous ?claim) (Some (u_id v)))) d')"
    let ?row = "undone_row cfg d' ?claim v False"
    have id: "u_id ?row = k" by (simp add: undone_row_def Let_def account_simps k)
    have run: "undo_email_change cfg token d' = (Inr (u1, False), d2)" using r(1) free k by simp
    have "get_account d2 k = get_account (edit_account k (\<lambda>_. ?row) d') k"
      by (rule get_account_cong) (use r(2) free k in simp)
    then have "get_account d2 k = Some ?row" using v(1) by (simp add: get_account_edit_row [OF id])
    moreover have "normalized_email (u_email ?row) = normalized_email a"
      using assms(13) by (simp add: undone_row_def undone_account_def normalized_email_def strip_strip Let_def split: option.splits)
    moreover have "a_pending_email ?row = []" "a_password ?row = unusable_password cfg (ad_draws d')"
      by (simp_all add: undone_row_def undone_account_def Let_def)
    ultimately show ?thesis using run by blast
  qed
qed

subsection \<open>A link undoes once\<close>

definition undone_since :: "account_db \<Rightarrow> pk \<Rightarrow> moment \<Rightarrow> bool" where
  \<comment> \<open>the account had a change undone at the moment or later, and the clock has reached it\<close>
  "undone_since d k x \<longleftrightarrow> x \<le> ad_now d \<and> (\<exists>u t. get_account d k = Some u \<and> a_email_change_undone_at u = Some t \<and> x \<le> t)"

lemma undone_since_cong: "ad_accounts d' = ad_accounts d \<Longrightarrow> ad_now d' = ad_now d \<Longrightarrow> undone_since d' k x = undone_since d k x"
  by (simp add: undone_since_def get_account_def)

lemma undone_since_row:
  assumes "undone_since d k x" and "get_account d (u_id v) = Some v" and "u_id w = u_id v"
    and "a_email_change_undone_at w = a_email_change_undone_at v \<or> a_email_change_undone_at w = Some (ad_now d)"
  shows "undone_since (edit_account (u_id v) (\<lambda>_. w) d) k x"
proof (cases "k = u_id v")
  case True
  then have "get_account (edit_account (u_id v) (\<lambda>_. w) d) k = Some w"
    using assms(2) by (simp add: get_account_edit_row [OF assms(3)])
  then show ?thesis using assms(1,2,4) True by (auto simp: undone_since_def account_simps)
next
  case False
  then show ?thesis using assms(1) by (simp add: undone_since_def get_account_edit_row [OF assms(3)] account_simps)
qed

lemma undone_since_request:
  assumes "address_request cfg d d'" and since: "undone_since d k x"
  shows "undone_since d' k x"
  using assms(1)
proof cases
  case (ask t who e q r)
  have edit: "undone_since (edit_account (u_id t) f d) k x"
    if "\<And>r. u_id (f r) = u_id r" "\<And>r. a_email_change_undone_at (f r) = a_email_change_undone_at r" for f
    using since that by (auto simp: undone_since_def get_edit_account account_simps)
  have pending: "undone_since (edit_account (u_id t) (\<lambda>r. r\<lparr>a_pending_email := strip e\<rparr>) d) k x"
    and moved: "undone_since (edit_account (u_id t) (\<lambda>r. r\<lparr>u_email := strip e\<rparr>) d) k x"
    by (rule edit; simp)+
  consider "ad_accounts d' = ad_accounts d" "ad_now d' = ad_now d"
    | "ad_accounts d' = ad_accounts (edit_account (u_id t) (\<lambda>r. r\<lparr>a_pending_email := strip e\<rparr>) d)" "ad_now d' = ad_now d"
    | "ad_accounts d' = ad_accounts (edit_account (u_id t) (\<lambda>r. r\<lparr>u_email := strip e\<rparr>) d)" "ad_now d' = ad_now d"
    using request_effect [OF ask(2)] by presburger
  then show ?thesis
  proof cases
    case 1
    then show ?thesis using since undone_since_cong by blast
  next
    case 2
    then show ?thesis using pending undone_since_cong [OF 2(1)] by (simp add: account_simps)
  next
    case 3
    then show ?thesis using moved undone_since_cong [OF 3(1)] by (simp add: account_simps)
  qed
next
  case (complete payload r)
  from complete(1) show ?thesis
  proof (rule complete_effect)
    assume "ad_accounts d' = ad_accounts d" "ad_now d' = ad_now d"
    then show ?thesis using since undone_since_cong by blast
  next
    fix u claim recovery
    assume u: "account_numbered d (cl_user claim) = Some u"
      and d': "ad_accounts d' = ad_accounts (edit_account (u_id u) (\<lambda>_. completed_account d recovery u) d)" "ad_now d' = ad_now d"
    have "undone_since (edit_account (u_id u) (\<lambda>_. completed_account d recovery u) d) k x"
      by (rule undone_since_row [OF since account_numberedD [OF u]]) (simp_all add: completed_account_def)
    then show ?thesis using undone_since_cong [OF d'(1)] d'(2) by (simp add: account_simps)
  qed
next
  case (register e pw f l kind r)
  from create_effect [OF register(3)] show ?thesis
    using since by (auto simp: undone_since_def get_account_def row_get_append split: option.splits)
next
  case (wait t)
  then show ?thesis using since by (auto simp: undone_since_def get_account_def)
qed

lemma undone_row_writes:
  "u_id (undone_row cfg d claim u taken) = u_id u"
  "a_email_change_undone_at (undone_row cfg d claim u taken) = Some (ad_now d)"
  by (simp_all add: undone_row_def undone_account_def Let_def split: option.splits)

lemma undone_since_step:
  assumes "address_step cfg d d'" and since: "undone_since d k x"
  shows "undone_since d' k x"
  using assms(1)
proof cases
  case request
  then show ?thesis using undone_since_request since by blast
next
  case (undo token y)
  show ?thesis
  proof (cases "\<exists>claim u. undo_allowed cfg token d claim u")
    case True
    then obtain claim u where a: "undo_allowed cfg token d claim u" by blast
    then have u: "get_account d (u_id u) = Some u" by (auto simp: undo_allowed_def dest: account_numberedD)
    from a show ?thesis
    proof (rule undo_effect)
      fix u1 d1
      let ?taken = "normalized_email (u_email u) \<noteq> normalized_email (uc_previous claim)
        \<and> address_taken d (uc_previous claim) (Some (u_id u))"
      assume r: "undo_email_change cfg token d = (Inr (u1, ?taken), d1)" "ad_now d1 = ad_now d"
        "ad_accounts d1 = ad_accounts (edit_account (u_id u) (\<lambda>_. undone_row cfg d claim u ?taken) d)"
      have "undone_since (edit_account (u_id u) (\<lambda>_. undone_row cfg d claim u ?taken) d) k x"
        by (rule undone_since_row [OF since u]) (simp_all add: undone_row_writes)
      then have "undone_since d1 k x" using undone_since_cong [OF r(3)] r(2) by (simp add: account_simps)
      then show ?thesis using undo r(1) by simp
    qed
  next
    case False
    then obtain d1 where r: "undo_email_change cfg token d = (Inl (FieldRefused ''token'' undo_invalid), d1)"
      and same: "ad_accounts d1 = ad_accounts d" "ad_now d1 = ad_now d" using undo_refused by blast
    then have "undone_since d1 k x" using since undone_since_cong by blast
    then show ?thesis using undo r by simp
  qed
qed

lemma undone_after_undo:
  assumes "undo_email_change cfg token d = (Inr (u1, closed), d1)"
  shows "undone_since d1 (u_id u1) (ad_now d)"
proof -
  obtain claim u where a: "undo_allowed cfg token d claim u"
    using undo_refused [of cfg token d] assms by (metis Inl_Inr_False prod.inject)
  then have u: "get_account d (u_id u) = Some u" by (auto simp: undo_allowed_def dest: account_numberedD)
  from a show ?thesis
  proof (rule undo_effect)
    fix v d2
    let ?taken = "normalized_email (u_email u) \<noteq> normalized_email (uc_previous claim)
      \<and> address_taken d (uc_previous claim) (Some (u_id u))"
    assume r: "undo_email_change cfg token d = (Inr (v, ?taken), d2)" "ad_now d2 = ad_now d"
      "ad_accounts d2 = ad_accounts (edit_account (u_id u) (\<lambda>_. undone_row cfg d claim u ?taken) d)" "u_id v = u_id u"
    have "get_account d2 (u_id u) = Some (undone_row cfg d claim u ?taken)"
      using get_account_cong [OF r(3)] u by (simp add: get_account_edit_row [OF undone_row_writes(1)])
    then show ?thesis using assms r(1,2,4) by (simp add: undone_since_def undone_row_writes)
  qed
qed

text \<open>C19: once a link has undone a change, no link issued until then undoes anything for that account again,
  whatever is requested, completed, registered and undone in between.\<close>

theorem undo_works_once:
  assumes "undo_email_change cfg token d = (Inr (u, closed), d1)" and "(address_step cfg)\<^sup>*\<^sup>* d1 d2"
    and "Option.bind (loads cfg email_change_undo_salt email_change_undo_timeout (ad_now d2) token') undo_claim_of
      = Some \<lparr>uc_user = int (u_id u), uc_previous = previous, uc_at = issued\<rparr>"
    and "issued \<le> ad_now d"
  shows "\<exists>d3. undo_email_change cfg token' d2 = (Inl (FieldRefused ''token'' undo_invalid), d3)
    \<and> ad_accounts d3 = ad_accounts d2"
proof -
  have "undone_since d2 (u_id u) (ad_now d)"
    using assms(2) undone_after_undo [OF assms(1)]
  proof (induction rule: rtranclp_induct)
    case (step d3 d4)
    then show ?case using undone_since_step by blast
  qed
  then have "\<not> undo_allowed cfg token' d2 claim v" for claim v
    using assms(3,4) by (auto simp: undo_allowed_def account_numbered_def undone_since_def is_spent_def)
  then show ?thesis using undo_refused by metis
qed

subsection \<open>Requests to run\<close>

definition undo_link_config :: account_config where
  \<comment> \<open>every undo link asks to put account 3 back to its old address, as of moment 900\<close>
  "undo_link_config = sample_account_config\<lparr>loads := (\<lambda>salt age now token. if salt = email_change_undo_salt
     then Some (JObj [(''user'', JInt 3), (''from'', JStr ''old@x.org''), (''at'', JInt 900)]) else None)\<rparr>"

definition moved_account :: account where
  \<comment> \<open>an account that moved to a new address, its old one kept\<close>
  "moved_account = (sample_account 3 ''new@x.org'')\<lparr>a_recovery_email := ''old@x.org'', a_recovery_until := Some 2000\<rparr>"

definition moved_accounts :: account_db where
  "moved_accounts = sample_accounts\<lparr>ad_accounts := [sample_account 2 ''tom@x.org'', moved_account]\<rparr>"

lemmas moved_defs = moved_accounts_def moved_account_def sample_account_defs

lemma undo_link_claim:
  "Option.bind (loads undo_link_config email_change_undo_salt email_change_undo_timeout t token) undo_claim_of
    = Some \<lparr>uc_user = 3, uc_previous = ''old@x.org'', uc_at = 900\<rparr>"
  by (simp add: undo_link_config_def undo_claim_of_def field_of_def int_of_def str_of_def)

definition owned :: "account_db \<Rightarrow> account \<Rightarrow> string list" where
  "owned d r = u_email r # (case a_recovery_until r of None \<Rightarrow> [] | Some t \<Rightarrow> if t > ad_now d then [a_recovery_email r] else [])"

lemma belongs_owned: "belongs d a r \<longleftrightarrow> (\<exists>b \<in> set (owned d r). upper b = upper a)"
  by (auto simp: belongs_def keeps_address_def owned_def same_address_def split: option.splits)

lemma one_ownerI:
  assumes "distinct (map u_id (ad_accounts d))"
    and "\<And>r s. r \<in> set (ad_accounts d) \<Longrightarrow> s \<in> set (ad_accounts d) \<Longrightarrow> u_id r < u_id s
      \<Longrightarrow> upper ` set (owned d r) \<inter> upper ` set (owned d s) = {}"
  shows "one_owner d"
proof -
  have "\<not> (belongs d a r \<and> belongs d a s)"
    if "r \<in> set (ad_accounts d)" "s \<in> set (ad_accounts d)" "u_id r < u_id s" for a r s
    using assms(2) [OF that] by (auto simp: belongs_owned disjoint_iff) (metis imageI)
  then have "u_id r = u_id s"
    if "r \<in> set (ad_accounts d)" "s \<in> set (ad_accounts d)" "belongs d a r" "belongs d a s" for a r s
    using that by (cases "u_id r" "u_id s" rule: linorder_cases) blast+
  then show ?thesis using assms(1) unfolding one_owner_def by blast
qed

lemma upper_samples:
  "upper ''admin@x.org'' = ''ADMIN@X.ORG''" "upper ''tom@x.org'' = ''TOM@X.ORG''" "upper ''ann@x.org'' = ''ANN@X.ORG''"
  "upper ''new@x.org'' = ''NEW@X.ORG''" "upper ''old@x.org'' = ''OLD@X.ORG''" "strip ''old@x.org'' = ''old@x.org''"
  by (simp_all add: upper_def upper_char_def is_lower_def code_of_def char_of_def bit_Suc_0_iff
      strip_def lstrip_where_def rstrip_where_def space_char_def)

lemma sample_one_owner: "one_owner sample_accounts" "one_owner moved_accounts"
  by (rule one_ownerI; auto simp: moved_defs owned_def upper_samples)+

lemma sample_keeps_domain [simp]: "keeps_domain sample_account_config" "keeps_domain undo_link_config"
  by (simp_all add: keeps_domain_def sample_account_config_def undo_link_config_def)


lemma moved_row [simp]: "get_account moved_accounts 3 = Some moved_account"
  by (simp add: get_account_def moved_defs)

lemma owner_takes_account_back_witness:
  "\<exists>u1 d r n. undo_email_change undo_link_config [] moved_accounts = (Inr (u1, False), d) \<and> get_account d 3 = Some r
    \<and> normalized_email (u_email r) = normalized_email ''old@x.org'' \<and> a_pending_email r = []
    \<and> a_password r = unusable_password undo_link_config n"
  using owner_takes_account_back [OF rtranclp.rtrancl_refl sample_one_owner(2) sample_keeps_domain(2) moved_row,
      of "''old@x.org''" 2000 "[]" "''old@x.org''" 900]
  by (simp add: undo_link_claim) (simp add: moved_defs is_donor_def is_spent_def email_change_undo_timeout_def
      strip_def lstrip_where_def rstrip_where_def space_char_def)

lemma undo_works_once_witness:
  "\<exists>u d1 d3. undo_email_change undo_link_config ''a'' moved_accounts = (Inr (u, False), d1)
    \<and> undo_email_change undo_link_config ''b'' d1 = (Inl (FieldRefused ''token'' undo_invalid), d3)"
proof -
  let ?c = "\<lparr>uc_user = 3, uc_previous = ''old@x.org'', uc_at = 900\<rparr>"
  have "undo_allowed undo_link_config ''a'' moved_accounts ?c moved_account"
    using undo_link_claim [of "ad_now moved_accounts" "''a''"]
    by (simp add: undo_allowed_def account_numbered_def)
      (simp add: moved_defs is_donor_def is_spent_def recovery_address_def)
  then obtain u d1 where run: "undo_email_change undo_link_config ''a'' moved_accounts = (Inr (u, False), d1)" "u_id u = 3"
  proof (rule undo_effect)
    fix u1 d'
    let ?taken = "normalized_email (u_email moved_account) \<noteq> normalized_email (uc_previous ?c)
      \<and> address_taken moved_accounts (uc_previous ?c) (Some (u_id moved_account))"
    assume r: "undo_email_change undo_link_config ''a'' moved_accounts = (Inr (u1, ?taken), d')" "u_id u1 = u_id moved_account"
    have "\<not> address_taken moved_accounts (uc_previous ?c) (Some (u_id moved_account))"
      by (auto simp: address_taken_iff belongs_owned moved_defs owned_def upper_samples)
    then show thesis using r that by (simp add: moved_account_def)
  qed
  show ?thesis
    using undo_works_once [OF run(1) rtranclp.rtrancl_refl, of "''b''" "''old@x.org''" 900] run undo_link_claim
    by (auto simp: moved_accounts_def sample_accounts_def)
qed

end
