(* ===== verification/Portal.thy ===== *)
theory Portal
  imports Payments TwoFactor
begin

text \<open>
  Where an account meets its money and its membership: closing an account and opening it again
  (\<open>deactivate\<close> and \<open>reactivate\<close> of \<open>apps/accounts/api/views.py\<close>, \<open>apps/accounts/api/account_actions.py\<close>),
  and registering and deleting a person (\<open>apps/members/services.py\<close>).

  The database here is the tables of \<open>Accounts\<close> beside those of \<open>Store\<close>.  The row of a person is one row
  for both, so every write of accounts is carried over to the rows \<open>Store\<close> reads (\<open>on_accounts\<close>), and every
  write of kinds the other way (\<open>on_members\<close>).  Columns and tables neither models (the stamp of the
  profile, aircraft, opt-outs, statements) are left out.

  Proved: closing an account, by whichever way, withdraws every authority to charge it, ends its coverage
  and opening it brings the coverage back; deleting a person changes no amount in the books, and what
  was still pending can never buy the deleted person a term.
\<close>

subsection \<open>One database\<close>

record portal =
  po_accounts :: account_db
  po_members :: db

datatype portal_error = AccountError account_error | MemberError error | NoSuchAccount

definition account_user :: "account \<Rightarrow> user" where
  "account_user = user.truncate"

definition share_rows :: "account_db \<Rightarrow> db \<Rightarrow> db" where
  "share_rows d m = m\<lparr>users := map account_user (ad_accounts d)\<rparr>"

definition own_columns :: "account \<Rightarrow> user \<Rightarrow> account" where
  "own_columns a r = a\<lparr>u_email := u_email r, u_first_name := u_first_name r, u_last_name := u_last_name r,
     u_is_active := u_is_active r, u_kind := u_kind r, u_friend_on := u_friend_on r\<rparr>"

definition return_rows :: "db \<Rightarrow> account_db \<Rightarrow> account_db" where
  "return_rows m d = d\<lparr>ad_accounts := map (\<lambda>a. case get_user m (u_id a) of None \<Rightarrow> a | Some r \<Rightarrow> own_columns a r) (ad_accounts d)\<rparr>"

definition on_accounts :: "(account_db \<Rightarrow> (account_error + 'a) \<times> account_db) \<Rightarrow> portal \<Rightarrow> (portal_error + 'a) \<times> portal" where
  "on_accounts f p = (case f (po_accounts p) of (r, d) \<Rightarrow>
     (map_sum AccountError id r, \<lparr>po_accounts = d, po_members = share_rows d (po_members p)\<rparr>))"

definition on_members :: "(db \<Rightarrow> (error + 'a) \<times> db) \<Rightarrow> portal \<Rightarrow> (portal_error + 'a) \<times> portal" where
  "on_members f p = (case f (po_members p) of (r, m) \<Rightarrow>
     (map_sum MemberError id r, \<lparr>po_accounts = return_rows m (po_accounts p), po_members = m\<rparr>))"

definition members_only :: "(db \<Rightarrow> db) \<Rightarrow> portal \<Rightarrow> portal" where
  \<comment> \<open>a service that writes no row of an account\<close>
  "members_only f p = p\<lparr>po_members := f (po_members p)\<rparr>"

definition portal_atomic :: "(portal \<Rightarrow> (portal_error + 'a) \<times> portal) \<Rightarrow> portal \<Rightarrow> (portal_error + 'a) \<times> portal" where
  "portal_atomic f p = (case f p of
     (Inl e, p') \<Rightarrow> (Inl e, \<lparr>po_accounts = account_rollback (po_accounts p) (po_accounts p'),
       po_members = rollback (po_members p) (po_members p')\<rparr>)
   | (Inr x, p') \<Rightarrow> (Inr x, p'))"

definition locked_account :: "pk \<Rightarrow> portal \<Rightarrow> account option" where
  \<comment> \<open>\<open>_locked\<close>: the row read afresh\<close>
  "locked_account k p = get_account (po_accounts p) k"

subsection \<open>Closing an account and opening it\<close>

definition withdraw :: "config \<Rightarrow> account \<Rightarrow> pk option \<Rightarrow> db \<Rightarrow> db" where
  \<comment> \<open>\<open>cancel_all_mandates\<close>, then \<open>suspend_terms\<close>\<close>
  "withdraw cfg u actor m = snd (suspend_terms cfg (account_user u) actor None (cancel_all_mandates (u_id u) actor m))"

definition deactivate :: "config \<Rightarrow> account \<Rightarrow> portal \<Rightarrow> (portal_error + unit) \<times> portal" where
  "deactivate cfg u = portal_atomic (\<lambda>p. case locked_account (u_id u) p of
     None \<Rightarrow> (Inl NoSuchAccount, p)
   | Some locked \<Rightarrow>
       if \<not> u_is_active locked then (Inr (), p)
       else case on_accounts (deactivate_own_account locked) p of
           (Inl e, p1) \<Rightarrow> (Inl e, p1)
         | (Inr _, p1) \<Rightarrow> (Inr (), members_only (withdraw cfg locked None) p1))"

definition reactivate :: "account_config \<Rightarrow> config \<Rightarrow> account \<Rightarrow> portal \<Rightarrow> (portal_error + bool) \<times> portal" where
  "reactivate acfg cfg u = portal_atomic (\<lambda>p. case locked_account (u_id u) p of
     None \<Rightarrow> (Inl NoSuchAccount, p)
   | Some locked \<Rightarrow>
       if u_is_active locked then (Inr False, p)
       else case on_accounts (reactivate_own_account acfg locked) p of
           (Inl e, p1) \<Rightarrow> (Inl e, p1)
         | (Inr _, p1) \<Rightarrow> (Inr True, members_only (\<lambda>m. snd (restore_terms cfg (account_user locked) None None m)) p1))"

definition deactivate_for :: "config \<Rightarrow> account \<Rightarrow> pk \<Rightarrow> portal \<Rightarrow> (portal_error + unit) \<times> portal" where
  "deactivate_for cfg who k = portal_atomic (\<lambda>p. case locked_account k p of
     None \<Rightarrow> (Inl NoSuchAccount, p)
   | Some locked \<Rightarrow> (case on_accounts (deactivate_account who locked) p of
         (Inl e, p1) \<Rightarrow> (Inl e, p1)
       | (Inr _, p1) \<Rightarrow> (Inr (), members_only (withdraw cfg locked (Some (u_id who))) p1)))"

definition reactivate_for :: "account_config \<Rightarrow> config \<Rightarrow> account \<Rightarrow> pk \<Rightarrow> portal \<Rightarrow> (portal_error + unit) \<times> portal" where
  "reactivate_for acfg cfg who k = portal_atomic (\<lambda>p. case locked_account k p of
     None \<Rightarrow> (Inl NoSuchAccount, p)
   | Some locked \<Rightarrow> (case on_accounts (reactivate_account acfg who locked) p of
         (Inl e, p1) \<Rightarrow> (Inl e, p1)
       | (Inr _, p1) \<Rightarrow> (Inr (), members_only
           (\<lambda>m. snd (restore_terms cfg (account_user locked) (Some (u_id who)) None m)) p1)))"

definition make_friend_for :: "config \<Rightarrow> account \<Rightarrow> pk \<Rightarrow> bool option \<Rightarrow> portal \<Rightarrow> (portal_error + user) \<times> portal" where
  "make_friend_for cfg who k keep = on_members (switch_to_friend cfg k keep (Some (u_id who)))"

definition block_for :: "config \<Rightarrow> account \<Rightarrow> pk \<Rightarrow> portal \<Rightarrow> (portal_error + bool) \<times> portal" where
  "block_for cfg who k = portal_atomic (\<lambda>p. case locked_account k p of
     None \<Rightarrow> (Inl NoSuchAccount, p)
   | Some locked \<Rightarrow> (case on_accounts (check_block who locked True) p of
         (Inl e, p1) \<Rightarrow> (Inl e, p1)
       | (Inr _, p1) \<Rightarrow>
           if \<not> u_is_active locked then on_accounts (set_reactivation_blocked who locked True) p1
           else case on_accounts (deactivate_account who locked) p1 of
               (Inl e, p2) \<Rightarrow> (Inl e, p2)
             | (Inr _, p2) \<Rightarrow>
                 on_accounts (set_reactivation_blocked who (locked\<lparr>u_is_active := False, a_pending_email := []\<rparr>) True)
                   (members_only (withdraw cfg locked (Some (u_id who))) p2)))"

definition unblock_for :: "account \<Rightarrow> pk \<Rightarrow> portal \<Rightarrow> (portal_error + bool) \<times> portal" where
  "unblock_for who k = portal_atomic (\<lambda>p. case locked_account k p of
     None \<Rightarrow> (Inl NoSuchAccount, p)
   | Some locked \<Rightarrow> on_accounts (set_reactivation_blocked who locked False) p)"

definition donor_credential_refused :: string where
  "donor_credential_refused = ''A donor cannot sign in, so there isn't a password to replace.''"
definition self_credential_refused :: string where
  "self_credential_refused = ''You cannot require a new password for your own account. Use '' @ [CHR 0x22] @ ''Change password''
     @ [CHR 0x22] @ '' instead.''"
definition credential_roles_refused :: string where
  "credential_roles_refused = ''You cannot require a new password for an account that holds administrative roles you do not hold.''"

definition require_new_password :: "account_config \<Rightarrow> account \<Rightarrow> account \<Rightarrow> account_db \<Rightarrow> (account_error + unit) \<times> account_db" where
  \<comment> \<open>what \<open>require_new_password_for\<close> does with the locked row\<close>
  "require_new_password acfg who t d =
     (if Accounts.is_donor t then (Inl (Refused donor_credential_refused), refuse_status ''account.new_password'' who t ''donor_account'' d)
      else if u_id t = u_id who then (Inl (Refused self_credential_refused), refuse_status ''account.new_password'' who t ''own_account'' d)
      else if \<not> may_edit_protected_fields d (Person who) t
      then (Inl (Refused credential_roles_refused), refuse_status ''account.new_password'' who t ''roles_not_held'' d)
      else (Inr (), record_account_change ChangeNewPassword (Account (u_id who)) (u_id t) [] []
        (log_line ''account.new_password'' (Account (u_id who)) (Some (u_id t)) False []
          (snd (clear_password_and_end_sessions acfg t d)))))"

definition require_new_password_for :: "account_config \<Rightarrow> account \<Rightarrow> pk \<Rightarrow> portal \<Rightarrow> (portal_error + unit) \<times> portal" where
  "require_new_password_for acfg who k = portal_atomic (\<lambda>p. case locked_account k p of
     None \<Rightarrow> (Inl NoSuchAccount, p)
   | Some locked \<Rightarrow> on_accounts (require_new_password acfg who locked) p)"

definition reset_two_factor_for :: "account \<Rightarrow> pk \<Rightarrow> portal \<Rightarrow> (portal_error + unit) \<times> portal" where
  "reset_two_factor_for who k = portal_atomic (\<lambda>p. case locked_account k p of
     None \<Rightarrow> (Inl NoSuchAccount, p)
   | Some locked \<Rightarrow> (case on_members (refuse_tombstone_change (u_id who) (account_user locked) ''account.mfa_reset'') p of
         (Inl e, p1) \<Rightarrow> (Inl e, p1)
       | (Inr _, p1) \<Rightarrow> on_accounts (reset_two_factor (Person who) locked) p1))"

subsection \<open>Registering\<close>

datatype registration_mail =
  \<comment> \<open>what \<open>Registration.send\<close> mails\<close>
    OpenDonor account donor_upgrade | AccountExists account string | VerifyNew account

definition own_profile_row :: "pk \<Rightarrow> db \<Rightarrow> db" where
  "own_profile_row k m = m\<lparr>profiles := own_profile k (profiles m)\<rparr>"

definition register_body :: "account_config \<Rightarrow> string \<Rightarrow> string \<Rightarrow> string \<Rightarrow> string \<Rightarrow> person_kind \<Rightarrow> portal
    \<Rightarrow> (portal_error + account \<times> registration_mail) \<times> portal" where
  "register_body acfg email raw first_name last_name kind p =
     (let (n, d0) = draw (po_accounts p); hashed = make_password acfg raw n; address = strip email;
          p0 = p\<lparr>po_accounts := d0\<rparr>
      in case address_holder d0 address of
           Some existing \<Rightarrow>
             if Accounts.is_donor existing
             then (Inr (existing, OpenDonor existing \<lparr>du_first_name = strip first_name, du_last_name = strip last_name, du_kind = kind\<rparr>),
                   members_only (own_profile_row (u_id existing)) p0)
             else (Inr (existing, AccountExists existing address), p0)
         | None \<Rightarrow> (case on_accounts (account_atomic (create_account acfg address [] first_name last_name kind)) p0 of
             (Inr u, p1) \<Rightarrow>
               let d2 = edit_account (u_id u) (\<lambda>r. r\<lparr>a_password := hashed\<rparr>) (po_accounts p1); u1 = u\<lparr>a_password := hashed\<rparr>
               in (Inr (u1, VerifyNew u1), members_only (own_profile_row (u_id u)) (p1\<lparr>po_accounts := d2\<rparr>))
           | (Inl e, p1) \<Rightarrow>
               if e = AccountError AddressClash
               then (case address_holder (po_accounts p1) address of
                   None \<Rightarrow> (Inl e, p1) | Some holder \<Rightarrow> (Inr (holder, AccountExists holder address), p1))
               else (Inl e, p1)))"

definition register_member :: "account_config \<Rightarrow> string \<Rightarrow> string \<Rightarrow> string \<Rightarrow> string \<Rightarrow> person_kind \<Rightarrow> portal
    \<Rightarrow> (portal_error + account \<times> registration_mail) \<times> portal" where
  "register_member acfg email raw first_name last_name kind =
     portal_atomic (register_body acfg email raw first_name last_name kind)"

definition send_account_exists_notice :: "account \<Rightarrow> string \<Rightarrow> account_db \<Rightarrow> account_db" where
  "send_account_exists_notice u to d = post (Notice ''account_exists'' (u_id u) (if to = [] then u_email u else to) None) d"

definition send_registration :: "account_config \<Rightarrow> registration_mail \<Rightarrow> account_db \<Rightarrow> account_db" where
  "send_registration acfg mail d = (case mail of
     OpenDonor u upgrade \<Rightarrow> send_email_verification acfg u (Some upgrade) d
   | AccountExists u address \<Rightarrow> send_account_exists_notice u address d
   | VerifyNew u \<Rightarrow> send_email_verification acfg u None d)"

subsection \<open>Deleting a person\<close>

definition tombstone_domain :: string where "tombstone_domain = ''deleted.invalid''"
definition self_delete_refused :: string where "self_delete_refused = ''You cannot delete your own account.''"
definition system_admin_delete_refused :: string where
  "system_admin_delete_refused = ''Only a system administrator can delete a system administrator.''"
definition roles_not_held_delete_refused :: string where
  "roles_not_held_delete_refused = ''You cannot delete an account that holds administrative roles you do not hold.''"

definition create_account_named :: "account_config \<Rightarrow> account \<Rightarrow> string \<Rightarrow> account_db \<Rightarrow> (account_error + account) \<times> account_db" where
  "create_account_named acfg t email = create_account acfg email [] tombstone_first_name (digits (int (u_id t))) Donor"

definition create_tombstone_account :: "account_config \<Rightarrow> account \<Rightarrow> account_db \<Rightarrow> (account_error + account) \<times> account_db" where
  "create_tombstone_account acfg t d =
     (case account_atomic (create_account_named acfg t (''deleted-'' @ digits (int (u_id t)) @ ''@'' @ tombstone_domain)) d of
        (Inr u, d1) \<Rightarrow> (Inr u, d1)
      | (Inl AddressClash, d1) \<Rightarrow> (let (n, d2) = draw d1
          in create_account_named acfg t (''deleted-'' @ digits (int (u_id t)) @ ''-'' @ draw_text acfg ''0123456789abcdef'' 8 n
               @ ''@'' @ tombstone_domain) d2)
      | (Inl e, d1) \<Rightarrow> (Inl e, d1))"

definition tombstone_for :: "account_config \<Rightarrow> account \<Rightarrow> portal \<Rightarrow> (portal_error + account) \<times> portal" where
  "tombstone_for acfg t p = (case on_accounts (create_tombstone_account acfg t) p of
     (Inl e, p1) \<Rightarrow> (Inl e, p1)
   | (Inr u, p1) \<Rightarrow>
       let d2 = edit_account (u_id u) (\<lambda>r. r\<lparr>u_is_active := False\<rparr>) (po_accounts p1)
       in (Inr (u\<lparr>u_is_active := False\<rparr>), members_only (own_profile_row (u_id u))
            \<lparr>po_accounts = d2, po_members = share_rows d2 (po_members p1)\<rparr>))"

definition end_mandates :: "account \<Rightarrow> account \<Rightarrow> db \<Rightarrow> db" where
  \<comment> \<open>the automatic payments of an account about to go\<close>
  "end_mandates who t m =
     (let standing = filter (\<lambda>r. rm_user r = u_id t \<and> rm_status r \<in> {MandateActive, MandatePaused}) (mandates m)
      in discard_pending_mandate (u_id t)
           (fold (\<lambda>r d. snd (cancel_mandate r (Some (u_id who)) (Some OffDeleted) (Some ''member.delete'') d)) standing m))"

definition hand_over_payments :: "account_config \<Rightarrow> account \<Rightarrow> account \<Rightarrow> portal
    \<Rightarrow> (portal_error + (string \<times> audit_value) list) \<times> portal" where
  "hand_over_payments acfg who t = portal_atomic (\<lambda>p.
     let p1 = members_only (end_mandates who t) p; mine = (\<lambda>r. p_user r = u_id t);
         n = rows_matched mine (payments (po_members p1))
     in if n = 0 then (Inr [], p1)
        else case tombstone_for acfg t p1 of
            (Inl e, p2) \<Rightarrow> (Inl e, p2)
          | (Inr owner, p2) \<Rightarrow>
              (Inr [(''payments'', AInt (int n)), (''owner'', AInt (int (u_id owner)))],
               members_only (\<lambda>m. m\<lparr>payments := rows_update mine (\<lambda>r. r\<lparr>p_user := u_id owner, p_donor_fields := []\<rparr>)
                 (payments m)\<rparr>) p2))"

definition clear_key :: "pk \<Rightarrow> pk option \<Rightarrow> pk option" where
  \<comment> \<open>\<open>on_delete=SET_NULL\<close>\<close>
  "clear_key k x = (if x = Some k then None else x)"

definition delete_terms :: "(membership \<Rightarrow> bool) \<Rightarrow> db \<Rightarrow> db" where
  \<comment> \<open>the attempts and the reminders of a term go with it\<close>
  "delete_terms P m =
     (let gone = map m_id (filter P (terms m));
          attempt_gone = (\<lambda>a. case ra_membership a of None \<Rightarrow> False | Some k \<Rightarrow> k \<in> set gone);
          lost = map ra_id (filter attempt_gone (attempts m))
      in m\<lparr>terms := rows_delete P (terms m),
           attempts := map (\<lambda>a. if (case ra_retry_of a of None \<Rightarrow> False | Some k \<Rightarrow> k \<in> set lost) then a\<lparr>ra_retry_of := None\<rparr> else a)
             (rows_delete attempt_gone (attempts m)),
           reminder_logs := rows_delete (\<lambda>l. rl_membership l \<in> set gone) (reminder_logs m)\<rparr>)"

definition delete_rows_of :: "pk \<Rightarrow> db \<Rightarrow> db" where
  \<comment> \<open>what \<open>user.delete()\<close> takes with it and what it forgets, in the tables of \<open>Store\<close>\<close>
  "delete_rows_of k m =
     (let m1 = delete_terms (\<lambda>t. m_user t = k) (delete_mandates (\<lambda>r. rm_user r = k) m)
      in m1\<lparr>users := rows_delete (\<lambda>u. u_id u = k) (users m1), profiles := rows_delete (\<lambda>r. pf_user r = k) (profiles m1),
           reminder_logs := rows_delete (\<lambda>l. rl_user l = k) (reminder_logs m1),
           terms := map (\<lambda>t. t\<lparr>m_granted_by := clear_key k (m_granted_by t)\<rparr>) (terms m1),
           mandates := map (\<lambda>r. r\<lparr>rm_canceled_by := clear_key k (rm_canceled_by r)\<rparr>) (mandates m1),
           refunds := map (\<lambda>r. r\<lparr>rf_requested_by := clear_key k (rf_requested_by r)\<rparr>) (refunds m1)\<rparr>)"

definition delete_account_rows :: "pk \<Rightarrow> account_db \<Rightarrow> account_db" where
  "delete_account_rows k d = d\<lparr>ad_accounts := rows_delete (\<lambda>u. u_id u = k) (ad_accounts d),
     ad_groups := filter (\<lambda>g. fst g \<noteq> k) (ad_groups d),
     ad_changes := map (\<lambda>c. c\<lparr>ac_changed_by := clear_key k (ac_changed_by c)\<rparr>) (rows_delete (\<lambda>c. ac_user c = k) (ad_changes d)),
     ad_devices := rows_delete (\<lambda>t. td_user t = k) (ad_devices d), ad_codes := rows_delete (\<lambda>r. rc_user r = k) (ad_codes d)\<rparr>"

definition delete_user :: "pk \<Rightarrow> portal \<Rightarrow> (portal_error + unit) \<times> portal" where
  \<comment> \<open>\<open>target.delete()\<close>: a payment still on the account protects it\<close>
  "delete_user k p =
     (if list_ex (\<lambda>r. p_user r = k) (payments (po_members p)) then (Inl (MemberError IntegrityError), p)
      else (Inr (), \<lparr>po_accounts = delete_account_rows k (po_accounts p), po_members = delete_rows_of k (po_members p)\<rparr>))"

definition delete_refusal :: "account \<Rightarrow> account \<Rightarrow> account_db \<Rightarrow> (string \<times> string) option" where
  "delete_refusal who t d =
     (if u_id t = u_id who then Some (''self_delete'', self_delete_refused)
      else if ''system_admin'' \<in> effective_roles d (Person t) \<and> ''system_admin'' \<notin> effective_roles d (Person who)
      then Some (''system_admin_target'', system_admin_delete_refused)
      else if \<not> may_edit_protected_fields d (Person who) t then Some (''roles_not_held'', roles_not_held_delete_refused)
      else None)"

definition delete_member :: "account_config \<Rightarrow> account \<Rightarrow> account \<Rightarrow> portal \<Rightarrow> (portal_error + unit) \<times> portal" where
  "delete_member acfg who t = portal_atomic (\<lambda>p.
     case on_members (refuse_tombstone_change (u_id who) (account_user t) ''member.delete'') p of
       (Inl e, p1) \<Rightarrow> (Inl e, p1)
     | (Inr _, p1) \<Rightarrow> (case delete_refusal who t (po_accounts p1) of
           Some (reason, message) \<Rightarrow> on_accounts (\<lambda>d. (Inl (PermissionRefused message), refuse_status ''member.delete'' who t reason d)) p1
         | None \<Rightarrow> (case hand_over_payments acfg who t p1 of
               (Inl e, p2) \<Rightarrow> (Inl e, p2)
             | (Inr fs, p2) \<Rightarrow> (case delete_user (u_id t) p2 of
                   (Inl e, p3) \<Rightarrow> (Inl e, p3)
                 | (Inr _, p3) \<Rightarrow> on_accounts (\<lambda>d. (Inr (), log_line ''member.delete'' (Account (u_id who)) (Some (u_id t)) False fs d)) p3))))"

subsection \<open>What withdrawing leaves\<close>

lemma clock_cancel [table_simps]: "clock (snd (cancel_mandate r who how reason m)) = clock m"
  by (simp add: cancel_mandate_def Let_def side_effect_defs edit_mandate_def)

lemma terms_cancel [table_simps]: "terms (snd (cancel_mandate r who how reason m)) = terms m"
  by (simp add: cancel_mandate_def Let_def side_effect_defs edit_mandate_def)

lemma payments_cancel [table_simps]: "payments (snd (cancel_mandate r who how reason m)) = payments m"
  "refunds (snd (cancel_mandate r who how reason m)) = refunds m"
  by (simp_all add: cancel_mandate_def Let_def side_effect_defs edit_mandate_def)

lemma fold_keeps: "(\<And>x m. g (f x m) = g m) \<Longrightarrow> g (fold f xs m) = g m"
  by (induction xs arbitrary: m) simp_all

lemma fold_cancel [table_simps]:
  "clock (fold (\<lambda>r d. snd (cancel_mandate r who how reason d)) rs m) = clock m"
  "terms (fold (\<lambda>r d. snd (cancel_mandate r who how reason d)) rs m) = terms m"
  "payments (fold (\<lambda>r d. snd (cancel_mandate r who how reason d)) rs m) = payments m"
  "refunds (fold (\<lambda>r d. snd (cancel_mandate r who how reason d)) rs m) = refunds m"
  by (rule fold_keeps, simp add: table_simps)+

lemma discard_frame [table_simps]:
  "clock (discard_pending_mandate k m) = clock m" "terms (discard_pending_mandate k m) = terms m"
  "payments (discard_pending_mandate k m) = payments m" "refunds (discard_pending_mandate k m) = refunds m"
proof -
  have call: "clock (fold (\<lambda>r. call_provider (h r)) rs m) = clock m" "terms (fold (\<lambda>r. call_provider (h r)) rs m) = terms m"
    "payments (fold (\<lambda>r. call_provider (h r)) rs m) = payments m" "refunds (fold (\<lambda>r. call_provider (h r)) rs m) = refunds m"
    for h :: "mandate \<Rightarrow> provider_call" and rs
    by (rule fold_keeps, simp add: call_provider_def)+
  show "clock (discard_pending_mandate k m) = clock m" "terms (discard_pending_mandate k m) = terms m"
    "payments (discard_pending_mandate k m) = payments m" "refunds (discard_pending_mandate k m) = refunds m"
    by (simp_all add: discard_pending_mandate_def delete_mandates_def Let_def call)
qed

lemma cancel_all_frame [table_simps]:
  "clock (cancel_all_mandates k who m) = clock m" "terms (cancel_all_mandates k who m) = terms m"
  by (simp_all add: cancel_all_mandates_def Let_def table_simps)

lemma suspend_frame [table_simps]:
  "mandates (snd (suspend_terms cfg u a t m)) = mandates m" "attempts (snd (suspend_terms cfg u a t m)) = attempts m"
  "clock (snd (suspend_terms cfg u a t m)) = clock m"
  by (simp_all add: suspend_terms_def Let_def, rule fold_keeps,
      simp_all add: fold_keeps set_term_status_def audit_record_def edit_term_def)

lemma restore_frame [table_simps]:
  "mandates (snd (restore_terms cfg u a t m)) = mandates m" "clock (snd (restore_terms cfg u a t m)) = clock m"
  by (simp_all add: restore_terms_def Let_def, rule fold_keeps,
      simp_all add: fold_keeps set_term_status_def audit_record_def edit_term_def)

lemma today_none: "suspend_terms cfg u a None m = suspend_terms cfg u a (Some (local_today cfg m)) m"
  "restore_terms cfg u a None m = restore_terms cfg u a (Some (local_today cfg m)) m"
  by (simp_all add: suspend_terms_def restore_terms_def)

subsection \<open>Closing withdraws, opening brings back\<close>

definition withdrawn :: "config \<Rightarrow> pk \<Rightarrow> portal \<Rightarrow> portal \<Rightarrow> bool" where
  \<comment> \<open>the tables of money and membership are those \<open>withdraw\<close> left, and the account is inactive\<close>
  "withdrawn cfg k p p' \<longleftrightarrow> (\<exists>locked actor d1. u_id locked = k
     \<and> terms (po_members p') = terms (withdraw cfg locked actor (share_rows d1 (po_members p)))
     \<and> mandates (po_members p') = mandates (withdraw cfg locked actor (share_rows d1 (po_members p)))
     \<and> attempts (po_members p') = attempts (withdraw cfg locked actor (share_rows d1 (po_members p))))
   \<and> (\<exists>b. standing (po_accounts p') k = Some (False, b))"

lemma share_frame [simp]:
  "terms (share_rows d m) = terms m" "mandates (share_rows d m) = mandates m" "attempts (share_rows d m) = attempts m"
  "clock (share_rows d m) = clock m" "payments (share_rows d m) = payments m" "refunds (share_rows d m) = refunds m"
  by (simp_all add: share_rows_def)

lemma deactivate_standing:
  assumes "get_account d (u_id t) = Some t"
  shows "deactivate_account who t d = (Inr x, d') \<Longrightarrow> \<exists>b. standing d' (u_id t) = Some (False, b)"
    and "deactivate_own_account t d = (Inr x, d') \<Longrightarrow> \<exists>b. standing d' (u_id t) = Some (False, b)"
proof -
  have "standing d (u_id t) = Some (u_is_active t, a_reactivation_blocked t)" using assms by (simp add: standing_def)
  then show "deactivate_account who t d = (Inr x, d') \<Longrightarrow> \<exists>b. standing d' (u_id t) = Some (False, b)"
    and "deactivate_own_account t d = (Inr x, d') \<Longrightarrow> \<exists>b. standing d' (u_id t) = Some (False, b)"
    by (auto simp: deactivate_account_def deactivate_own_account_def account_simps split: if_splits)
qed

definition closes :: "config \<Rightarrow> pk \<Rightarrow> portal \<Rightarrow> portal \<Rightarrow> bool" where
  \<comment> \<open>an active account is deactivated by its owner or an administrator, or blocked\<close>
  "closes cfg k p p' \<longleftrightarrow> (\<exists>t. locked_account k p = Some t \<and> u_is_active t
     \<and> (deactivate cfg t p = (Inr (), p') \<or> (\<exists>who. deactivate_for cfg who k p = (Inr (), p'))
        \<or> (\<exists>who b. block_for cfg who k p = (Inr b, p'))))"

lemma portal_atomic_Inr: "portal_atomic f p = (Inr x, p') \<longleftrightarrow> f p = (Inr x, p')"
  by (auto simp: portal_atomic_def split: prod.splits sum.splits)

lemma on_accounts_Inr: "on_accounts f p = (Inr x, p') \<longleftrightarrow> (\<exists>d. f (po_accounts p) = (Inr x, d)
    \<and> p' = \<lparr>po_accounts = d, po_members = share_rows d (po_members p)\<rparr>)"
proof -
  obtain r d where "f (po_accounts p) = (r, d)" by fastforce
  then show ?thesis by (cases r) (auto simp: on_accounts_def)
qed

lemma closes_withdrawn:
  assumes "closes cfg k p p'"
  shows "withdrawn cfg k p p'"
proof -
  obtain t where t: "get_account (po_accounts p) k = Some t" "u_is_active t" and
    how: "deactivate cfg t p = (Inr (), p') \<or> (\<exists>who. deactivate_for cfg who k p = (Inr (), p')) \<or> (\<exists>who b. block_for cfg who k p = (Inr b, p'))"
    using assms by (auto simp: closes_def locked_account_def)
  have k: "u_id t = k" using t(1) by (auto simp: get_account_def dest: row_get_SomeD)
  have shape: "withdrawn cfg k p \<lparr>po_accounts = d', po_members = share_rows d' (withdraw cfg t actor (share_rows d1 (po_members p)))\<rparr>"
    "withdrawn cfg k p \<lparr>po_accounts = d', po_members = withdraw cfg t actor (share_rows d1 (po_members p))\<rparr>"
    if "\<exists>b. standing d' k = Some (False, b)" for d1 d' actor
    using that k by (auto simp: withdrawn_def)
  from how show ?thesis
  proof (elim disjE exE)
    assume "deactivate cfg t p = (Inr (), p')"
    then obtain d1 where d1: "deactivate_own_account t (po_accounts p) = (Inr (), d1)"
      "p' = \<lparr>po_accounts = d1, po_members = withdraw cfg t None (share_rows d1 (po_members p))\<rparr>"
      using t k by (auto simp: deactivate_def portal_atomic_Inr locked_account_def members_only_def on_accounts_Inr split: prod.splits sum.splits)
    show ?thesis using deactivate_standing(2) [OF _ d1(1)] t(1) k shape(2) d1(2) by blast
  next
    fix who assume "deactivate_for cfg who k p = (Inr (), p')"
    then obtain d1 where d1: "deactivate_account who t (po_accounts p) = (Inr (), d1)"
      "p' = \<lparr>po_accounts = d1, po_members = withdraw cfg t (Some (u_id who)) (share_rows d1 (po_members p))\<rparr>"
      using t k by (auto simp: deactivate_for_def portal_atomic_Inr locked_account_def members_only_def on_accounts_Inr split: prod.splits sum.splits)
    show ?thesis using deactivate_standing(1) [OF _ d1(1)] t(1) k shape(2) d1(2) by blast
  next
    fix who b assume "block_for cfg who k p = (Inr b, p')"
    then obtain d0 d1 d2 where d: "check_block who t True (po_accounts p) = (Inr (), d0)" "deactivate_account who t d0 = (Inr (), d1)"
      "set_reactivation_blocked who (t\<lparr>u_is_active := False, a_pending_email := []\<rparr>) True d1 = (Inr b, d2)"
      "p' = \<lparr>po_accounts = d2, po_members = share_rows d2 (withdraw cfg t (Some (u_id who)) (share_rows d1 (share_rows d0 (po_members p))))\<rparr>"
      using t k by (auto simp: block_for_def portal_atomic_Inr locked_account_def members_only_def on_accounts_Inr split: prod.splits sum.splits)
    have "d0 = po_accounts p" using d(1) by (auto simp: check_block_def Let_def split: if_splits)
    then obtain b1 where "standing d1 k = Some (False, b1)" using deactivate_standing(1) [OF _ d(2)] t(1) k by auto
    then have "\<exists>b. standing d2 k = Some (False, b)"
      using block_effect(2) [OF d(3), of k] by (cases "standing d2 k = standing d1 k") auto
    moreover have "share_rows d1 (share_rows d0 (po_members p)) = share_rows d1 (po_members p)" by (simp add: share_rows_def)
    ultimately show ?thesis using shape(1) d(4) by simp
  qed
qed

lemma covered_terms: "terms m = terms m' \<Longrightarrow> covered m u x = covered m' u x"
  by (simp add: covered_def set_memberships)

lemma covered_user: "u_id u = u_id v \<Longrightarrow> covered m u x = covered m v x"
  by (simp add: covered_def set_memberships)

lemma withdraw_tables:
  "terms (withdraw cfg t actor m) = terms (snd (suspend_terms cfg (account_user t) actor (Some (local_today cfg m))
     (cancel_all_mandates (u_id t) actor m)))"
  "mandates (withdraw cfg t actor m) = mandates (cancel_all_mandates (u_id t) actor m)"
  "attempts (withdraw cfg t actor m) = attempts (cancel_all_mandates (u_id t) actor m)"
  by (simp_all add: withdraw_def today_none local_today_def table_simps)

lemma account_user_id [simp]: "u_id (account_user t) = u_id t"
  by (simp add: account_user_def user.defs)

lemma local_today_share [simp]: "local_today cfg (share_rows d m) = local_today cfg m"
  by (simp add: local_today_def)


definition reopens :: "account_config \<Rightarrow> config \<Rightarrow> pk \<Rightarrow> portal \<Rightarrow> portal \<Rightarrow> bool" where
  \<comment> \<open>a closed account is reactivated by its owner or by an administrator\<close>
  "reopens acfg cfg k p p' \<longleftrightarrow> (\<exists>u. u_id u = k \<and> reactivate acfg cfg u p = (Inr True, p'))
     \<or> (\<exists>who. reactivate_for acfg cfg who k p = (Inr (), p'))"

lemma reopens_tables:
  assumes "reopens acfg cfg k p p'"
  shows "\<exists>t actor d1. u_id t = k \<and> po_members p'
    = snd (restore_terms cfg (account_user t) actor (Some (local_today cfg (po_members p))) (share_rows d1 (po_members p)))"
proof -
  have row: "u_id t = k" if "get_account (po_accounts p) k = Some t" for t
    using that by (auto simp: get_account_def dest: row_get_SomeD)
  from assms show ?thesis
    unfolding reopens_def reactivate_def reactivate_for_def portal_atomic_Inr locked_account_def
  proof (elim disjE exE conjE)
    fix u assume k: "u_id u = k" and "(case get_account (po_accounts p) (u_id u) of None \<Rightarrow> (Inl NoSuchAccount, p)
        | Some locked \<Rightarrow> if u_is_active locked then (Inr False, p)
          else case on_accounts (reactivate_own_account acfg locked) p of (Inl e, p1) \<Rightarrow> (Inl e, p1)
             | (Inr _, p1) \<Rightarrow> (Inr True, members_only (\<lambda>m. snd (restore_terms cfg (account_user locked) None None m)) p1)) = (Inr True, p')"
    then obtain t d1 where "get_account (po_accounts p) k = Some t"
      "p' = members_only (\<lambda>m. snd (restore_terms cfg (account_user t) None None m)) \<lparr>po_accounts = d1, po_members = share_rows d1 (po_members p)\<rparr>"
      by (auto simp: on_accounts_Inr split: option.splits if_splits prod.splits sum.splits)
    then show ?thesis using row by (auto simp: members_only_def today_none)
  next
    fix who assume "(case get_account (po_accounts p) k of None \<Rightarrow> (Inl NoSuchAccount, p)
        | Some locked \<Rightarrow> (case on_accounts (reactivate_account acfg who locked) p of (Inl e, p1) \<Rightarrow> (Inl e, p1)
             | (Inr _, p1) \<Rightarrow> (Inr (), members_only (\<lambda>m. snd (restore_terms cfg (account_user locked) (Some (u_id who)) None m)) p1))) = (Inr (), p')"
    then obtain t d1 where "get_account (po_accounts p) k = Some t"
      "p' = members_only (\<lambda>m. snd (restore_terms cfg (account_user t) (Some (u_id who)) None m)) \<lparr>po_accounts = d1, po_members = share_rows d1 (po_members p)\<rparr>"
      by (auto simp: on_accounts_Inr split: option.splits prod.splits sum.splits)
    then show ?thesis using row by (auto simp: members_only_def today_none)
  qed
qed

definition later :: "moment \<Rightarrow> portal \<Rightarrow> portal" where
  "later now p = p\<lparr>po_members := (po_members p)\<lparr>clock := now\<rparr>\<rparr>"

text \<open>C39: an account that is closed and later opened again has every term it had as it was, except that one
  which ran out meanwhile is expired; nobody else's term moves, and no authority to charge comes back.\<close>

theorem reopening_restores:
  assumes "closes cfg k p p1" and "reopens acfg cfg k (later now p1) p2"
    and "local_today cfg (po_members p) \<le> localdate cfg now" and "distinct (map m_id (terms (po_members p)))"
    and "\<forall>m \<in> set (terms (po_members p)). m_user m = k \<longrightarrow> m_status m \<noteq> TermSuspended"
  shows "terms (po_members p2) = map (\<lambda>r. if m_user r = k \<and> m_status r = TermActive \<and> runs_on (local_today cfg (po_members p)) r
        \<and> \<not> runs_on (localdate cfg now) r then r\<lparr>m_status := TermExpired\<rparr> else r) (terms (po_members p))
    \<and> mandates (po_members p2) = mandates (po_members p1)"
proof -
  let ?t = "local_today cfg (po_members p)" and ?now = "localdate cfg now"
  obtain t actor d1 where t: "u_id t = k" and closed:
    "terms (po_members p1) = terms (withdraw cfg t actor (share_rows d1 (po_members p)))"
    using closes_withdrawn [OF assms(1)] by (auto simp: withdrawn_def)
  obtain v actor' d2 where v: "u_id v = k" and opened: "po_members p2 = snd (restore_terms cfg (account_user v) actor'
      (Some ?now) (share_rows d2 (po_members (later now p1))))"
    using reopens_tables [OF assms(2)] by (auto simp: later_def local_today_def)
  let ?d = "cancel_all_mandates k actor (share_rows d1 (po_members p))"
  have ids: "distinct (map m_id (terms ?d))" using assms(4) by (simp add: table_simps)
  have s: "terms (po_members p1) = map (\<lambda>r. if m_user r = k \<and> m_status r = TermActive \<and> runs_on ?t r
      then r\<lparr>m_status := TermSuspended\<rparr> else r) (terms (po_members p))"
    using closed t by (simp add: withdraw_tables terms_suspend [OF ids] table_simps)
  have ids1: "distinct (map m_id (terms (share_rows d2 (po_members (later now p1)))))"
  proof -
    have "map m_id (terms (po_members p1)) = map m_id (terms (po_members p))" by (simp add: s)
    with assms(4) show ?thesis by (simp add: later_def)
  qed
  have "terms (po_members p2) = map (\<lambda>r. if m_user r = k \<and> m_status r = TermSuspended
      then r\<lparr>m_status := resumed_status ?now r\<rparr> else r) (terms (po_members p1))"
    using opened v by (simp add: terms_restore [OF ids1]) (simp add: later_def)
  then show ?thesis
    using assms(3,5) opened by (auto simp: s resumed_status_def runs_on_def table_simps later_def split: option.splits)
qed

subsection \<open>Deleting a person\<close>

definition keeps_tombstone_domain :: "account_config \<Rightarrow> bool" where
  \<comment> \<open>normalizing an address leaves a domain in lower case alone\<close>
  "keeps_tombstone_domain acfg \<longleftrightarrow> (\<forall>s. normalize_domain acfg (s @ ''@deleted.invalid'') = s @ ''@deleted.invalid'')"

definition fresh_keys :: "account_db \<Rightarrow> bool" where
  "fresh_keys d \<longleftrightarrow> (\<forall>u \<in> set (ad_accounts d). u_id u < ad_next_pk d)"

lemma strip_tombstone: "strip (''deleted-'' @ s @ ''@deleted.invalid'') = ''deleted-'' @ s @ ''@deleted.invalid''"
  by (rule strip_tidy) (simp_all add: space_char_def)

lemma create_named:
  assumes "create_account_named acfg t (''deleted-'' @ s @ ''@deleted.invalid'') d = (Inr u, d')" and "keeps_tombstone_domain acfg"
  shows "ad_accounts d' = ad_accounts d @ [u]" and "u_id u = ad_next_pk d" and "ad_next_pk d' = Suc (ad_next_pk d)"
    and "is_tombstone (account_user (u\<lparr>u_is_active := False\<rparr>))"
proof -
  have name: "person_name (strip tombstone_first_name) = tombstone_first_name" by code_simp
  have address: "strip (strip (normalize_domain acfg (''deleted-'' @ s @ ''@deleted.invalid''))) = ''deleted-'' @ s @ ''@deleted.invalid''"
    using assms(2) strip_tombstone by (metis append.assoc keeps_tombstone_domain_def)
  have ends: "ends_with (''deleted-'' @ s @ ''@deleted.invalid'') ''@deleted.invalid''"
    using ends_with_append [of "''deleted-'' @ s" "''@deleted.invalid''"] by (simp only: append.assoc)
  note made = assms(1) [unfolded create_account_named_def create_account_def]
  show "ad_accounts d' = ad_accounts d @ [u]" "u_id u = ad_next_pk d" "ad_next_pk d' = Suc (ad_next_pk d)"
    using made by (auto simp: Let_def draw_def spelled_account_def split: if_splits)
  have "u_kind u = Donor" "u_first_name u = tombstone_first_name" "u_email u = ''deleted-'' @ s @ ''@deleted.invalid''"
    using made name address by (auto simp: Let_def draw_def spelled_account_def split: if_splits)
  then show "is_tombstone (account_user (u\<lparr>u_is_active := False\<rparr>))"
    using ends by (simp add: is_tombstone_def account_user_def user.defs)
qed

lemma tombstone_made:
  assumes "create_tombstone_account acfg t d = (Inr u, d')" and "keeps_tombstone_domain acfg"
  shows "ad_accounts d' = ad_accounts d @ [u] \<and> u_id u = ad_next_pk d
    \<and> is_tombstone (account_user (u\<lparr>u_is_active := False\<rparr>))"
proof -
  let ?plain = "''deleted-'' @ digits (int (u_id t)) @ ''@'' @ tombstone_domain"
  have plain: "?plain = ''deleted-'' @ digits (int (u_id t)) @ ''@deleted.invalid''" by (simp add: tombstone_domain_def)
  show ?thesis
  proof (cases "create_account_named acfg t ?plain d")
    case (Pair r d1)
    show ?thesis
    proof (cases r)
      case (Inr v)
      then have "u = v" "d' = d1" using assms(1) Pair by (simp_all add: create_tombstone_account_def account_atomic_def)
      then show ?thesis using create_named [OF Pair [unfolded plain Inr] assms(2)] by simp
    next
      case (Inl e)
      define d2 where "d2 = (account_rollback d d1)\<lparr>ad_draws := Suc (ad_draws (account_rollback d d1))\<rparr>"
      define n where "n = ad_draws (account_rollback d d1)"
      have d2: "ad_accounts d2 = ad_accounts d" "ad_next_pk d2 = ad_next_pk d" by (simp_all add: d2_def account_rollback_def)
      have run: "create_account_named acfg t (''deleted-'' @ digits (int (u_id t)) @ ''-'' @ draw_text acfg ''0123456789abcdef'' 8 n
          @ ''@'' @ tombstone_domain) d2 = (Inr u, d')"
        using assms(1) Pair Inl by (cases e) (simp_all add: create_tombstone_account_def account_atomic_def draw_def Let_def d2_def n_def)
      have "''deleted-'' @ digits (int (u_id t)) @ ''-'' @ draw_text acfg ''0123456789abcdef'' 8 n @ ''@'' @ tombstone_domain
          = ''deleted-'' @ (digits (int (u_id t)) @ ''-'' @ draw_text acfg ''0123456789abcdef'' 8 n) @ ''@deleted.invalid''"
        by (simp add: tombstone_domain_def)
      from create_named [OF run [unfolded this] assms(2)] show ?thesis using d2 by simp
    qed
  qed
qed

lemma money_frames [simp]:
  "payments (end_mandates who t m) = payments m" "refunds (end_mandates who t m) = refunds m"
  "payments (own_profile_row k m) = payments m" "refunds (own_profile_row k m) = refunds m"
  by (simp_all add: end_mandates_def own_profile_row_def Let_def table_simps)

lemma delete_rows_frame [simp]:
  "payments (delete_rows_of k m) = payments m"
  "refunds (delete_rows_of k m) = map (\<lambda>r. r\<lparr>rf_requested_by := clear_key k (rf_requested_by r)\<rparr>) (refunds m)"
  by (simp_all add: delete_rows_of_def delete_terms_def delete_mandates_def Let_def)

lemma delete_rows_gone:
  "x \<in> set (terms (delete_rows_of k m)) \<Longrightarrow> m_user x \<noteq> k" "y \<in> set (mandates (delete_rows_of k m)) \<Longrightarrow> rm_user y \<noteq> k"
  by (auto simp: delete_rows_of_def delete_terms_def delete_mandates_def Let_def rows_delete_def)

lemma handed_over:
  assumes "hand_over_payments acfg who t p = (Inr fs, p')" and "keeps_tombstone_domain acfg"
  shows "refunds (po_members p') = refunds (po_members p) \<and> (\<exists>owner.
    payments (po_members p') = rows_update (\<lambda>r. p_user r = u_id t) (\<lambda>r. r\<lparr>p_user := owner, p_donor_fields := []\<rparr>) (payments (po_members p))
    \<and> ((\<exists>r \<in> set (payments (po_members p)). p_user r = u_id t) \<longrightarrow> owner = ad_next_pk (po_accounts p)
      \<and> (\<exists>u. is_tombstone (account_user u) \<and> u_id u = owner \<and> ad_accounts (po_accounts p') =
         rows_update (\<lambda>r. u_id r = owner) (\<lambda>r. r\<lparr>u_is_active := False\<rparr>) (ad_accounts (po_accounts p)) @ [u])))"
proof -
  let ?mine = "\<lambda>r. p_user r = u_id t"
  show ?thesis
  proof (cases "rows_matched ?mine (payments (po_members p)) = 0")
    case True
    then have none: "\<not> (\<exists>r \<in> set (payments (po_members p)). p_user r = u_id t)"
      by (auto simp: rows_matched_def filter_empty_conv)
    have "p' = members_only (end_mandates who t) p"
      using assms(1) True by (simp add: hand_over_payments_def portal_atomic_Inr members_only_def Let_def)
    moreover have "rows_update ?mine f (payments (po_members p)) = payments (po_members p)" for f
      using none by (intro rows_update_none) auto
    ultimately show ?thesis using none by (simp add: members_only_def)
  next
    case False
    then obtain u d1 where made: "create_tombstone_account acfg t (po_accounts p) = (Inr u, d1)"
      and p': "po_accounts p' = edit_account (u_id u) (\<lambda>r. r\<lparr>u_is_active := False\<rparr>) d1"
        "payments (po_members p') = rows_update ?mine (\<lambda>r. r\<lparr>p_user := u_id u, p_donor_fields := []\<rparr>) (payments (po_members p))"
        "refunds (po_members p') = refunds (po_members p)"
      using assms(1) by (auto simp: hand_over_payments_def portal_atomic_Inr members_only_def Let_def tombstone_for_def on_accounts_Inr
          split: prod.splits sum.splits)
    note tomb = tombstone_made [OF made assms(2)]
    have "ad_accounts (po_accounts p') = rows_update (\<lambda>r. u_id r = u_id u) (\<lambda>r. r\<lparr>u_is_active := False\<rparr>) (ad_accounts (po_accounts p))
        @ [u\<lparr>u_is_active := False\<rparr>]"
      using tomb p'(1) by (simp add: edit_account_def rows_update_def)
    then show ?thesis using p'(2,3) tomb
      by (intro conjI exI [of _ "u_id u"] impI exI [of _ "u\<lparr>u_is_active := False\<rparr>"]) simp_all
  qed
qed

lemma return_rows_keys: "map u_id (ad_accounts (return_rows m d)) = map u_id (ad_accounts d)" "ad_next_pk (return_rows m d) = ad_next_pk d"
  by (auto simp: return_rows_def own_columns_def split: option.split)

lemma fresh_return: "fresh_keys d \<Longrightarrow> fresh_keys (return_rows m d)"
proof -
  have keys: "fresh_keys d = (\<forall>k \<in> u_id ` set (ad_accounts d). k < ad_next_pk d)" for d by (simp add: fresh_keys_def)
  have "u_id ` set (ad_accounts (return_rows m d)) = u_id ` set (ad_accounts d)"
    unfolding set_map [symmetric] return_rows_keys(1) ..
  then show "fresh_keys d \<Longrightarrow> fresh_keys (return_rows m d)" by (simp only: keys return_rows_keys(2))
qed

lemma on_members_Inr: "on_members f p = (Inr x, p') \<longleftrightarrow> (\<exists>m. f (po_members p) = (Inr x, m)
    \<and> p' = \<lparr>po_accounts = return_rows m (po_accounts p), po_members = m\<rparr>)"
proof -
  obtain r m where "f (po_members p) = (r, m)" by fastforce
  then show ?thesis by (cases r) (auto simp: on_members_def)
qed

lemma delete_member_steps:
  assumes "delete_member acfg who t p = (Inr (), p')"
  shows "\<exists>fs p2 d. hand_over_payments acfg who t \<lparr>po_accounts = return_rows (po_members p) (po_accounts p), po_members = po_members p\<rparr>
      = (Inr fs, p2) \<and> \<not> list_ex (\<lambda>r. p_user r = u_id t) (payments (po_members p2))
    \<and> ad_accounts d = rows_delete (\<lambda>u. u_id u = u_id t) (ad_accounts (po_accounts p2))
    \<and> p' = \<lparr>po_accounts = d, po_members = share_rows d (delete_rows_of (u_id t) (po_members p2))\<rparr>"
proof -
  let ?p1 = "\<lparr>po_accounts = return_rows (po_members p) (po_accounts p), po_members = po_members p\<rparr>"
  have refuse: "m = po_members p" if "refuse_tombstone_change a u s (po_members p) = (Inr x, m)" for a u s x m
    using that by (auto simp: refuse_tombstone_change_def split: if_splits)
  obtain fs p2 p3 where steps: "hand_over_payments acfg who t ?p1 = (Inr fs, p2)" "delete_user (u_id t) p2 = (Inr (), p3)"
    "on_accounts (\<lambda>d. (Inr (), log_line ''member.delete'' (Account (u_id who)) (Some (u_id t)) False fs d)) p3 = (Inr (), p')"
    using assms unfolding delete_member_def portal_atomic_Inr
    by (auto simp: on_members_Inr on_accounts_Inr dest!: refuse split: prod.splits sum.splits option.splits)
  then show ?thesis
    by (intro exI [of _ fs] exI [of _ p2] exI [of _ "po_accounts p'"])
      (auto simp: on_accounts_Inr delete_user_def delete_account_rows_def log_line_def split: if_splits)
qed

text \<open>C21: deleting a person leaves the books as they were: every payment stays with its amount and status and
  every refund with its own, the payments of the deleted account now on a tombstone; nothing of the
  person is left to charge or to cover; and a payment that was still pending, should it succeed, changes
  nothing but its own row.\<close>

theorem deletion_keeps_books:
  assumes "delete_member acfg who t p = (Inr (), p')" and "keeps_tombstone_domain acfg" and "fresh_keys (po_accounts p)"
  shows "get_account (po_accounts p') (u_id t) = None
    \<and> (\<forall>x \<in> set (terms (po_members p')). m_user x \<noteq> u_id t) \<and> (\<forall>y \<in> set (mandates (po_members p')). rm_user y \<noteq> u_id t)
    \<and> map (\<lambda>r. r\<lparr>rf_requested_by := None\<rparr>) (refunds (po_members p')) = map (\<lambda>r. r\<lparr>rf_requested_by := None\<rparr>) (refunds (po_members p))
    \<and> (\<exists>owner. payments (po_members p')
          = rows_update (\<lambda>r. p_user r = u_id t) (\<lambda>r. r\<lparr>p_user := owner, p_donor_fields := []\<rparr>) (payments (po_members p))
        \<and> ((\<exists>r \<in> set (payments (po_members p)). p_user r = u_id t) \<longrightarrow>
            (\<forall>q k cfg method_of s. get_payment (po_members p') k = Some q \<and> p_user q = owner \<and> p_status q \<notin> set settled_statuses
              \<longrightarrow> (\<exists>x ps. mark_succeeded cfg method_of k s (po_members p') = (Inr x, (po_members p')\<lparr>payments := ps\<rparr>)))))"
proof -
  let ?p1 = "\<lparr>po_accounts = return_rows (po_members p) (po_accounts p), po_members = po_members p\<rparr>"
  from delete_member_steps [OF assms(1)] obtain fs p2 d where
    over: "hand_over_payments acfg who t ?p1 = (Inr fs, p2)" and free: "\<not> list_ex (\<lambda>r. p_user r = u_id t) (payments (po_members p2))"
    and d: "ad_accounts d = rows_delete (\<lambda>u. u_id u = u_id t) (ad_accounts (po_accounts p2))"
    and p': "p' = \<lparr>po_accounts = d, po_members = share_rows d (delete_rows_of (u_id t) (po_members p2))\<rparr>" by blast
  from handed_over [OF over assms(2)] obtain owner where refunds: "refunds (po_members p2) = refunds (po_members p)"
    and pay: "payments (po_members p2) = rows_update (\<lambda>r. p_user r = u_id t) (\<lambda>r. r\<lparr>p_user := owner, p_donor_fields := []\<rparr>) (payments (po_members p))"
    and tomb: "(\<exists>r \<in> set (payments (po_members p)). p_user r = u_id t) \<Longrightarrow> owner = ad_next_pk (po_accounts ?p1)
      \<and> (\<exists>u. is_tombstone (account_user u) \<and> u_id u = owner \<and> ad_accounts (po_accounts p2) =
         rows_update (\<lambda>r. u_id r = owner) (\<lambda>r. r\<lparr>u_is_active := False\<rparr>) (ad_accounts (po_accounts ?p1)) @ [u])" by auto
  have gone: "get_account d (u_id t) = None"
    by (simp add: get_account_def row_get_None_iff d rows_delete_def image_iff)
  have owned: "\<exists>u. get_user (po_members p') owner = Some u \<and> is_tombstone u" if some: "\<exists>r \<in> set (payments (po_members p)). p_user r = u_id t"
  proof -
    from tomb [OF some] obtain u where u: "owner = ad_next_pk (po_accounts ?p1)" "is_tombstone (account_user u)" "u_id u = owner"
      "ad_accounts (po_accounts p2) = rows_update (\<lambda>r. u_id r = owner) (\<lambda>r. r\<lparr>u_is_active := False\<rparr>) (ad_accounts (po_accounts ?p1)) @ [u]"
      by blast
    have ne: "owner \<noteq> u_id t"
    proof
      assume o: "owner = u_id t"
      from some obtain r where "r \<in> set (payments (po_members p))" "p_user r = u_id t" by blast
      then have "r\<lparr>p_user := owner, p_donor_fields := []\<rparr> \<in> set (payments (po_members p2))"
        unfolding pay rows_update_def set_map by (intro image_eqI [of _ _ r]) simp_all
      then show False using free o by (auto simp: list_ex_iff)
    qed
    have "fresh_keys (return_rows (po_members p) (po_accounts p))" by (rule fresh_return [OF assms(3)])
    then have new: "owner \<notin> u_id ` set (ad_accounts (po_accounts ?p1))" using u(1) by (auto simp: fresh_keys_def)
    have "ad_accounts d = rows_delete (\<lambda>u. u_id u = u_id t) (ad_accounts (po_accounts ?p1)) @ [u]"
    proof -
      have "rows_update (\<lambda>r. u_id r = owner) (\<lambda>r. r\<lparr>u_is_active := False\<rparr>) (ad_accounts (po_accounts ?p1)) = ad_accounts (po_accounts ?p1)"
        using new by (intro rows_update_none) auto
      then show ?thesis using d u(3,4) ne by (simp add: rows_delete_def)
    qed
    moreover have "row_get u_id (map account_user (rows_delete (\<lambda>u. u_id u = u_id t) (ad_accounts (po_accounts ?p1)))) owner = None"
      using new by (auto simp: row_get_None_iff rows_delete_def)
    ultimately show ?thesis using u(2,3) by (simp add: p' get_user_def share_rows_def row_get_append)
  qed
  have settle: "\<exists>x ps. mark_succeeded cfg method_of k s (po_members p') = (Inr x, (po_members p')\<lparr>payments := ps\<rparr>)"
    if "\<exists>r \<in> set (payments (po_members p)). p_user r = u_id t"
      and q: "get_payment (po_members p') k = Some q" "p_user q = owner" "p_status q \<notin> set settled_statuses" for q k cfg method_of s
    using tombstone_buys_nothing [OF q(1,3)] owned [OF that(1)] q(2) by blast
  have books: "payments (po_members p') = rows_update (\<lambda>r. p_user r = u_id t) (\<lambda>r. r\<lparr>p_user := owner, p_donor_fields := []\<rparr>)
      (payments (po_members p))" by (simp add: p' pay)
  have lent: "map (\<lambda>r. r\<lparr>rf_requested_by := None\<rparr>) (refunds (po_members p')) = map (\<lambda>r. r\<lparr>rf_requested_by := None\<rparr>) (refunds (po_members p))"
    by (simp add: p' refunds)
  have left: "\<forall>x \<in> set (terms (po_members p')). m_user x \<noteq> u_id t" "\<forall>y \<in> set (mandates (po_members p')). rm_user y \<noteq> u_id t"
    using delete_rows_gone [of _ "u_id t" "po_members p2"] by (auto simp: p')
  have rest: "(\<exists>r \<in> set (payments (po_members p)). p_user r = u_id t) \<longrightarrow>
      (\<forall>q k cfg method_of s. get_payment (po_members p') k = Some q \<and> p_user q = owner \<and> p_status q \<notin> set settled_statuses
        \<longrightarrow> (\<exists>x ps. mark_succeeded cfg method_of k s (po_members p') = (Inr x, (po_members p')\<lparr>payments := ps\<rparr>)))"
    by (intro impI allI) (elim conjE, rule settle)
  have none: "get_account (po_accounts p') (u_id t) = None" using gone by (simp add: p')
  show ?thesis by (intro conjI exI [of _ owner]) (rule none left lent books rest)+
qed

subsection \<open>On concrete rows\<close>

definition closing_portal :: portal where
  \<comment> \<open>a member with a running term, a canceled renewal and a recurring donation\<close>
  "closing_portal = \<lparr>po_accounts = sample_accounts\<lparr>ad_groups := [(2, ''system_admin''), (1, ''member'')]\<rparr>,
     po_members = share_rows sample_accounts canceled_beside_donation\<rparr>"

lemma owner_may_leave:
  assumes "get_account (po_accounts p) (u_id t) = Some t" and "u_is_active t" and "\<not> Accounts.is_donor t"
    and "''system_admin'' \<notin> effective_roles (po_accounts p) (Person t)"
  shows "\<exists>p'. deactivate cfg t p = (Inr (), p') \<and> standing (po_accounts p') (u_id t) = Some (False, a_reactivation_blocked t)"
proof -
  obtain r d where run: "deactivate_own_account t (po_accounts p) = (r, d)" by fastforce
  then have "r = Inr ()" "standing d (u_id t) = Some (False, a_reactivation_blocked t)"
    using assms by (auto simp: deactivate_own_account_def account_simps standing_def [of "po_accounts p"])
  then show ?thesis using run assms(1,2)
    by (simp add: deactivate_def portal_atomic_def locked_account_def on_accounts_def members_only_def)
qed

lemma owner_may_return:
  assumes "standing (po_accounts p) (u_id u) = Some (False, False)"
  shows "\<exists>p'. reactivate acfg cfg u p = (Inr True, p')"
proof -
  obtain t where "get_account (po_accounts p) (u_id u) = Some t" "\<not> u_is_active t" "\<not> a_reactivation_blocked t"
    using assms by (auto simp: standing_def)
  then show ?thesis
    by (simp add: reactivate_def portal_atomic_def locked_account_def on_accounts_def members_only_def reactivate_own_account_def)
qed

lemma sample_closes: "\<exists>p'. closes sample_config 1 closing_portal p' \<and> standing (po_accounts p') 1 = Some (False, False)"
proof -
  let ?t = "sample_account 1 ''admin@x.org''"
  have t: "get_account (po_accounts closing_portal) (u_id ?t) = Some ?t" "u_is_active ?t" "\<not> Accounts.is_donor ?t"
    "''system_admin'' \<notin> effective_roles (po_accounts closing_portal) (Person ?t)" "\<not> a_reactivation_blocked ?t"
    by (simp_all add: closing_portal_def get_account_def Accounts.is_donor_def effective_roles_def roles_def role_slugs_def
        sample_account_defs)
  from owner_may_leave [OF t(1-4)] obtain p' where "deactivate sample_config ?t closing_portal = (Inr (), p')"
    "standing (po_accounts p') 1 = Some (False, False)" using t(5) by auto
  then show ?thesis using t by (intro exI [of _ p']) (auto simp: closes_def locked_account_def)
qed

lemma sample_terms: "distinct (map m_id (terms (po_members closing_portal)))"
  "list_all (\<lambda>m. m_status m \<noteq> TermSuspended) (terms (po_members closing_portal))"
  "map rm_status (mandates (po_members closing_portal)) = [MandateCanceled, MandateActive]"
  by (simp_all add: closing_portal_def canceled_beside_donation_def renewing_member_def sample_defs)


lemma reopening_restores_witness:
  "\<exists>p1 p2. closes sample_config 1 closing_portal p1 \<and> reopens sample_account_config sample_config 1 (later 116726400 p1) p2
    \<and> mandates (po_members p2) = mandates (po_members p1)"
proof -
  obtain p1 where p1: "closes sample_config 1 closing_portal p1" "standing (po_accounts p1) 1 = Some (False, False)"
    using sample_closes by blast
  then have "standing (po_accounts (later 116726400 p1)) (u_id (sample_account 1 ''admin@x.org'')) = Some (False, False)"
    by (simp add: later_def)
  from owner_may_return [OF this] obtain p2 where "reactivate sample_account_config sample_config (sample_account 1 ''admin@x.org'')
      (later 116726400 p1) = (Inr True, p2)" by blast
  then have p2: "reopens sample_account_config sample_config 1 (later 116726400 p1) p2"
    unfolding reopens_def by (intro disjI1 exI [of _ "sample_account 1 ''admin@x.org''"]) simp
  have today: "local_today sample_config (po_members closing_portal) \<le> localdate sample_config 116726400" by code_simp
  from reopening_restores [OF p1(1) p2 today sample_terms(1)] sample_terms(2) p1(1) p2 show ?thesis
    by (auto simp: list_all_iff)
qed

definition deleting_portal :: portal where
  \<comment> \<open>a member who left a payment pending\<close>
  "deleting_portal = \<lparr>po_accounts = sample_accounts, po_members = share_rows sample_accounts
     (empty_db\<lparr>plans := [sample_plan 1 ''Annual'' (Some 365)], payments := [sample_payment 7 3 (Some 1) 4500]\<rparr>)\<rparr>"

lemma deletion_keeps_books_witness:
  "\<exists>p'. delete_member sample_account_config (sample_account 1 ''admin@x.org'') (sample_account 3 ''ann@x.org'') deleting_portal = (Inr (), p')
    \<and> map (\<lambda>r. (p_id r, p_user r, p_amount_cents r)) (payments (po_members p')) = [(7, 10, 4500)]
    \<and> get_account (po_accounts p') 3 = None"
proof -
  let ?run = "delete_member sample_account_config (sample_account 1 ''admin@x.org'') (sample_account 3 ''ann@x.org'') deleting_portal"
  have "case ?run of (r, p') \<Rightarrow> r = Inr () \<and> map (\<lambda>r. (p_id r, p_user r, p_amount_cents r)) (payments (po_members p')) = [(7, 10, 4500)]"
    by code_simp
  then obtain p' where run: "?run = (Inr (), p')"
    and pay: "map (\<lambda>r. (p_id r, p_user r, p_amount_cents r)) (payments (po_members p')) = [(7, 10, 4500)]" by (cases ?run) simp
  have cfg: "keeps_tombstone_domain sample_account_config" by (simp add: keeps_tombstone_domain_def sample_account_config_def)
  have keys: "fresh_keys (po_accounts deleting_portal)"
    by (simp add: fresh_keys_def deleting_portal_def sample_accounts_def sample_account_def)
  from conjunct1 [OF deletion_keeps_books [OF run cfg keys]] run pay show ?thesis by simp
qed

end
