(* ===== verification/Mailings.thy ===== *)
theory Mailings
  imports Accounts Charge "HOL-Library.List_Lexorder"
begin

text \<open>
  Bulk email: its tables (\<open>apps/bulk_email/models.py\<close>, \<open>apps/mail/models.py\<close>), the types of email and
  who has turned one off (\<open>apps/mail/types.py\<close>), who may send and to whom
  (\<open>apps/bulk_email/senders.py\<close>), and the batch of an email being written
  (\<open>apps/bulk_email/batch.py\<close>).

  The accounts, their roles, the clock and the audit log are those of \<open>Accounts\<close>, held in
  \<open>md_people\<close>.  The kind and the DART's name a recipient row shows, the widths of columns, and the
  CSV documents are left out; so is the choice of people by the member list's filters, whose answer
  is an argument.  The checks of a message's text (\<open>render.py\<close>, \<open>richtext.py\<close>, \<open>checks.py\<close>) are
  functions of the configuration.

  Proved: the rows of a batch rated as receiving go to different addresses, each of an active account
  that may be written to.
\<close>

subsection \<open>Tables\<close>

record email_type =
  et_id :: pk
  et_name :: string
  et_slug :: string
  et_description :: string
  et_allow_opt_out :: bool
  et_sender_roles :: "string list"
  et_position :: nat

datatype opt_out_source = FromProfile | FromUnsubscribe | FromAdmin

record opt_out =
  oo_user :: pk
  oo_type :: pk
  oo_source :: opt_out_source

datatype bulk_status = DraftEmail | QueuedEmail | SendingEmail | SentEmail | StoppedEmail

record bulk_email =
  be_id :: pk
  be_subject :: string
  be_body :: string
  be_status :: bulk_status
  be_sender :: "pk option"
  be_type :: "pk option"
  be_dart :: "pk option"
  be_reply_to :: string
  be_start_at :: "moment option"
  be_scheduled :: bool
  be_not_sent_reason :: string
  be_confirm_count :: "int option"
  be_started_at :: "moment option"
  be_sent_at :: "moment option"
  be_stopped_at :: "moment option"
  be_stopped_by :: "pk option"
  be_stop_requested :: bool
  be_sent_count :: int
  be_failed_count :: int
  be_skipped_count :: int
  be_bounced_count :: int
  be_hidden :: bool
  be_is_callout :: bool

datatype copy_status = Batched | CopyPending | CopySent | CopyFailed | CopySkipped | CopyStopped | CopyBounced

text \<open>A \<open>Message-ID\<close> is the number of the random draw that made it; \<open>None\<close> stands for the blank one.\<close>

record copy =
  \<comment> \<open>\<open>BulkEmailRecipient\<close>\<close>
  cp_id :: pk
  cp_bulk :: pk
  cp_user :: "pk option"
  cp_name :: string
  cp_email :: string
  cp_added_by :: "pk option"
  cp_round :: nat
  cp_status :: copy_status
  cp_reason :: string
  cp_message :: "nat option"
  cp_tried_at :: "moment option"

record batch_add =
  ba_id :: pk
  ba_bulk :: pk
  ba_filters :: "(string \<times> string) list"
  ba_label :: string
  ba_added :: nat
  ba_already :: nat

record retry =
  rt_id :: pk
  rt_bulk :: pk
  rt_by :: "pk option"
  rt_at :: moment
  rt_count :: nat

record callout =
  co_id :: pk
  co_bulk :: pk
  co_closes_at :: moment
  co_closed_at :: "moment option"
  co_closed_by :: "pk option"
  co_reminded_at :: "moment option"

datatype answer_kind = Available | Limited | Unavailable

record callout_answer =
  an_callout :: pk
  an_user :: pk
  an_answer :: answer_kind
  an_note :: string
  an_at :: moment

datatype mail_status = LogSent | LogFailed | LogBounced

record mail_entry =
  \<comment> \<open>\<open>EmailLog\<close>\<close>
  me_to :: string
  me_purpose :: string
  me_status :: mail_status
  me_message :: "nat option"
  me_bounce_detail :: string

record mail_db =
  md_people :: account_db
  md_profiles :: "(pk \<times> pk option) list"
  md_types :: "email_type list"
  md_opt_outs :: "opt_out list"
  md_emails :: "bulk_email list"
  md_adds :: "batch_add list"
  md_copies :: "copy list"
  md_retries :: "retry list"
  md_callouts :: "callout list"
  md_answers :: "callout_answer list"
  md_entries :: "mail_entry list"
  md_next_pk :: pk
  md_draws :: nat
  md_taken :: "(pk \<times> string) list" \<comment> \<open>what the mail server took: the copy, and the address it went to\<close>
  md_raised :: "(pk \<times> pk \<times> answer_kind) list" \<comment> \<open>the \<open>callout_answer\<close> events: the email, the person, the answer\<close>

text \<open>
  \<open>text_order\<close> is the database's collation as a sort key, \<open>valid_address\<close> Django's \<open>validate_email\<close>,
  \<open>slug_of\<close> its \<open>slugify\<close>; \<open>plain_text\<close> the text a body reads as once sanitized, \<open>message_problem\<close> the field and the
  sentence a subject and body are refused with that cannot be filled in, and \<open>text_errors\<close> whether
  the report of the checks holds an error.
\<close>

record mail_config =
  text_order :: "string \<Rightarrow> nat list"
  valid_address :: "string \<Rightarrow> bool"
  slug_of :: "string \<Rightarrow> string"
  plain_text :: "string \<Rightarrow> string"
  message_problem :: "string \<Rightarrow> string \<Rightarrow> (string \<times> string) option"
  text_errors :: "bulk_email \<Rightarrow> bool"
  confirm_above :: int
  undo_seconds :: int
  reply_to_setting :: string
  from_address :: string

datatype mail_error = Domain string | FieldError string string | NotPermitted string | NoSuchRow | ChecksFailed

definition mail_rollback :: "mail_db \<Rightarrow> mail_db \<Rightarrow> mail_db" where
  "mail_rollback before after = before\<lparr>md_people := (md_people before)\<lparr>ad_audit := ad_audit (md_people after)\<rparr>\<rparr>"

definition mail_atomic :: "(mail_db \<Rightarrow> (mail_error + 'a) \<times> mail_db) \<Rightarrow> mail_db \<Rightarrow> (mail_error + 'a) \<times> mail_db" where
  "mail_atomic f d = (case f d of (Inl e, d') \<Rightarrow> (Inl e, mail_rollback d d') | (Inr x, d') \<Rightarrow> (Inr x, d'))"

definition get_email :: "mail_db \<Rightarrow> pk \<Rightarrow> bulk_email option" where
  "get_email d k = row_get be_id (md_emails d) k"

definition edit_email :: "pk \<Rightarrow> (bulk_email \<Rightarrow> bulk_email) \<Rightarrow> mail_db \<Rightarrow> mail_db" where
  "edit_email k f d = d\<lparr>md_emails := rows_update (\<lambda>r. be_id r = k) f (md_emails d)\<rparr>"

definition get_copy :: "mail_db \<Rightarrow> pk \<Rightarrow> copy option" where
  "get_copy d k = row_get cp_id (md_copies d) k"

definition edit_copy :: "pk \<Rightarrow> (copy \<Rightarrow> copy) \<Rightarrow> mail_db \<Rightarrow> mail_db" where
  "edit_copy k f d = d\<lparr>md_copies := rows_update (\<lambda>r. cp_id r = k) f (md_copies d)\<rparr>"

interpretation email_row: editable_table get_email edit_email be_id
  by unfold_locales (simp_all add: get_email_def edit_email_def row_get_rows_edit rows_edit_missing)

interpretation copy_row: editable_table get_copy edit_copy cp_id
  by unfold_locales (simp_all add: get_copy_def edit_copy_def row_get_rows_edit rows_edit_missing)

definition put_copies :: "copy list \<Rightarrow> mail_db \<Rightarrow> mail_db" where
  \<comment> \<open>\<open>bulk_update\<close>: the rows as given, each in its place\<close>
  "put_copies rows d = d\<lparr>md_copies := map (\<lambda>r. case row_get cp_id rows (cp_id r) of None \<Rightarrow> r | Some s \<Rightarrow> s) (md_copies d)\<rparr>"

definition mail_log :: "string \<Rightarrow> actor \<Rightarrow> pk option \<Rightarrow> bool \<Rightarrow> (string \<times> audit_value) list \<Rightarrow> mail_db \<Rightarrow> mail_db" where
  "mail_log action who target refused fs d = d\<lparr>md_people := log_line action who target refused fs (md_people d)\<rparr>"

definition mail_now :: "mail_db \<Rightarrow> moment" where
  "mail_now d = ad_now (md_people d)"

definition person :: "mail_db \<Rightarrow> pk option \<Rightarrow> account option" where
  \<comment> \<open>the account behind a foreign key, which is null once the account is deleted\<close>
  "person d k = Option.bind k (get_account (md_people d))"

definition account_name :: "account \<Rightarrow> string" where
  "account_name u = display_name (user.truncate u)"

definition actor_or_command :: "account option \<Rightarrow> actor" where
  "actor_or_command u = (case u of None \<Rightarrow> Command | Some a \<Rightarrow> Account (u_id a))"

definition can_edit :: "bulk_email \<Rightarrow> bool" where
  "can_edit b \<longleftrightarrow> be_status b \<in> {DraftEmail, QueuedEmail} \<and> be_started_at b = None"

subsection \<open>Types of email, and who has turned one off\<close>

definition user_has_any_role :: "mail_db \<Rightarrow> account option \<Rightarrow> string list \<Rightarrow> bool" where
  "user_has_any_role d u slugs = (case u of None \<Rightarrow> False
     | Some a \<Rightarrow> a_is_superuser a \<or> ''system_admin'' \<in> set (roles (md_people d) (u_id a))
         \<or> set (roles (md_people d) (u_id a)) \<inter> set slugs \<noteq> {})"

definition type_sender_roles :: "string list" where "type_sender_roles = [''dart_leader'', ''management'']"
definition mission_slug :: string where "mission_slug = ''mission''"
definition is_mission :: "email_type \<Rightarrow> bool" where "is_mission t \<longleftrightarrow> et_slug t = mission_slug"

definition type_in_use :: "string \<Rightarrow> string" where
  "type_in_use name = name @ '' has been used for a bulk email, so it cannot be deleted. To keep DART ''
     @ ''leaders and CalDART management from sending it, take their roles off it instead.''"
definition name_taken :: string where "name_taken = ''Another email type already has this name.''"
definition name_needs_letters :: string where "name_needs_letters = ''Use at least one letter or digit in the name.''"
definition mission_rename_refused :: string where
  "mission_rename_refused = ''Mission is the type every mission callout goes as, so its name cannot change.''"
definition mission_delete_refused :: string where
  "mission_delete_refused = ''Mission is the type every mission callout goes as, so it cannot be deleted.''"
definition opt_out_not_allowed :: "string \<Rightarrow> string" where
  "opt_out_not_allowed name = name @ '' email cannot be turned off.''"

definition get_type :: "mail_db \<Rightarrow> pk option \<Rightarrow> email_type option" where
  "get_type d k = Option.bind k (row_get et_id (md_types d))"

definition list_types :: "mail_config \<Rightarrow> mail_db \<Rightarrow> email_type list" where
  "list_types cfg d = sort_key (\<lambda>t. (et_position t, text_order cfg (et_name t))) (md_types d)"

definition ordered_roles :: "string list \<Rightarrow> string list" where
  "ordered_roles rs = filter (\<lambda>r. r \<in> set rs) type_sender_roles"

record type_fields =
  tf_name :: string
  tf_description :: string
  tf_allow_opt_out :: bool
  tf_sender_roles :: "string list"
  tf_position :: "nat option"

definition check_type_fields :: "mail_config \<Rightarrow> type_fields \<Rightarrow> pk option \<Rightarrow> mail_db \<Rightarrow> mail_error option" where
  \<comment> \<open>\<open>_check\<close>: the refusal, if any\<close>
  "check_type_fields cfg f exclude d =
     (let others = filter (\<lambda>t. Some (et_id t) \<noteq> exclude) (md_types d); slug = slug_of cfg (tf_name f)
      in if slug = [] then Some (FieldError ''name'' name_needs_letters)
         else if list_ex (\<lambda>t. same_address (et_name t) (tf_name f)) others \<or> list_ex (\<lambda>t. et_slug t = slug) others
         then Some (FieldError ''name'' name_taken)
         else (case find (\<lambda>r. r \<notin> set type_sender_roles) (tf_sender_roles f) of
             None \<Rightarrow> None
           | Some r \<Rightarrow> Some (FieldError ''sender_roles'' (r @ '' cannot send bulk email.''))))"

definition create_type :: "mail_config \<Rightarrow> type_fields \<Rightarrow> account \<Rightarrow> mail_db \<Rightarrow> (mail_error + email_type) \<times> mail_db" where
  "create_type cfg f who d = (case check_type_fields cfg f None d of
     Some e \<Rightarrow> (Inl e, d)
   | None \<Rightarrow>
       let position = (case tf_position f of Some p \<Rightarrow> p
             | None \<Rightarrow> if md_types d = [] then 1 else Max (set (map et_position (md_types d))) + 1);
           t = \<lparr>et_id = md_next_pk d, et_name = tf_name f, et_slug = slug_of cfg (tf_name f),
             et_description = tf_description f, et_allow_opt_out = tf_allow_opt_out f,
             et_sender_roles = ordered_roles (tf_sender_roles f), et_position = position\<rparr>
       in (Inr t, mail_log ''email_type.create'' (Account (u_id who)) (Some (et_id t)) False []
            (d\<lparr>md_types := md_types d @ [t], md_next_pk := md_next_pk d + 1\<rparr>)))"

definition update_type :: "mail_config \<Rightarrow> email_type \<Rightarrow> type_fields \<Rightarrow> account \<Rightarrow> mail_db
    \<Rightarrow> (mail_error + email_type) \<times> mail_db" where
  "update_type cfg t f who d =
     (if is_mission t \<and> slug_of cfg (tf_name f) \<noteq> et_slug t then (Inl (FieldError ''name'' mission_rename_refused), d)
      else case check_type_fields cfg f (Some (et_id t)) d of
        Some e \<Rightarrow> (Inl e, d)
      | None \<Rightarrow>
          let t' = t\<lparr>et_name := tf_name f, et_slug := slug_of cfg (tf_name f), et_description := tf_description f,
                et_allow_opt_out := tf_allow_opt_out f, et_sender_roles := ordered_roles (tf_sender_roles f),
                et_position := (case tf_position f of None \<Rightarrow> et_position t | Some p \<Rightarrow> p)\<rparr>
          in (Inr t', mail_log ''email_type.update'' (Account (u_id who)) (Some (et_id t)) False []
               (d\<lparr>md_types := row_put et_id t' (md_types d)\<rparr>)))"

definition delete_type :: "email_type \<Rightarrow> account \<Rightarrow> mail_db \<Rightarrow> (mail_error + unit) \<times> mail_db" where
  "delete_type t who d =
     (if is_mission t then (Inl (Domain mission_delete_refused), d)
      else if list_ex (\<lambda>b. be_type b = Some (et_id t)) (md_emails d) then (Inl (Domain (type_in_use (et_name t))), d)
      else (Inr (), mail_log ''email_type.delete'' (Account (u_id who)) (Some (et_id t)) False []
             (d\<lparr>md_types := rows_delete (\<lambda>r. et_id r = et_id t) (md_types d),
                md_opt_outs := rows_delete (\<lambda>o'. oo_type o' = et_id t) (md_opt_outs d)\<rparr>)))"

definition sendable_types :: "mail_config \<Rightarrow> mail_db \<Rightarrow> account option \<Rightarrow> email_type list" where
  "sendable_types cfg d u = filter (\<lambda>t. user_has_any_role d u (et_sender_roles t)) (list_types cfg d)"

definition is_opted_out :: "mail_db \<Rightarrow> pk \<Rightarrow> email_type \<Rightarrow> bool" where
  "is_opted_out d k t \<longleftrightarrow> et_allow_opt_out t \<and> list_ex (\<lambda>o'. oo_user o' = k \<and> oo_type o' = et_id t) (md_opt_outs d)"

definition opted_out_user_ids :: "mail_db \<Rightarrow> email_type \<Rightarrow> pk list" where
  "opted_out_user_ids d t = (if et_allow_opt_out t
     then map oo_user (filter (\<lambda>o'. oo_type o' = et_id t) (md_opt_outs d)) else [])"

definition set_opt_out :: "pk \<Rightarrow> email_type \<Rightarrow> bool \<Rightarrow> opt_out_source \<Rightarrow> account \<Rightarrow> mail_db
    \<Rightarrow> (mail_error + bool) \<times> mail_db" where
  "set_opt_out k t opted_out source who d =
     (if \<not> et_allow_opt_out t then (Inl (FieldError ''email_type'' (opt_out_not_allowed (et_name t))), d)
      else let held = list_ex (\<lambda>o'. oo_user o' = k \<and> oo_type o' = et_id t) (md_opt_outs d);
               changed = (opted_out \<noteq> held);
               d1 = (if opted_out
                 then (if held then d else d\<lparr>md_opt_outs := md_opt_outs d @ [\<lparr>oo_user = k, oo_type = et_id t, oo_source = source\<rparr>]\<rparr>)
                 else d\<lparr>md_opt_outs := rows_delete (\<lambda>o'. oo_user o' = k \<and> oo_type o' = et_id t) (md_opt_outs d)\<rparr>)
           in (Inr changed, if changed
               then mail_log (if opted_out then ''email.opt_out'' else ''email.opt_in'') (Account (u_id who)) (Some k) False
                 [(''email_type'', AInt (int (et_id t))), (''source'', ASlug (case source of FromProfile \<Rightarrow> ''profile''
                    | FromUnsubscribe \<Rightarrow> ''unsubscribe'' | FromAdmin \<Rightarrow> ''admin''))] d1
               else d1))"

subsection \<open>Who may send, and to whom\<close>

definition no_dart_message :: string where
  "no_dart_message = ''Your profile doesn'' @ [CHR 0x27] @ ''t name a DART, so you can'' @ [CHR 0x27] @ ''t send to anybody. Set your DART on ''
     @ [CHR 0x22] @ ''My profile'' @ [CHR 0x22] @ ''.''"
definition not_your_dart_message :: string where "not_your_dart_message = ''You can only send to your own DART.''"
definition skip_not_in_dart :: string where "skip_not_in_dart = ''Not in your DART''"
definition owner_no_dart_message :: "string \<Rightarrow> string" where
  "owner_no_dart_message name = ''This email belongs to '' @ name @ '', whose profile doesn'' @ [CHR 0x27]
     @ ''t name a DART, so nobody can be added.''"

definition profile_dart_id :: "mail_db \<Rightarrow> pk \<Rightarrow> pk option" where
  "profile_dart_id d k = (case map_of (md_profiles d) k of None \<Rightarrow> None | Some dart \<Rightarrow> dart)"

record sender_context =
  sc_is_management :: bool
  sc_dart :: "pk option"

definition can_send :: "sender_context \<Rightarrow> bool" where
  "can_send c \<longleftrightarrow> sc_is_management c \<or> sc_dart c \<noteq> None"

definition sender_context :: "mail_db \<Rightarrow> account option \<Rightarrow> sender_context" where
  "sender_context d u = (case u of
     None \<Rightarrow> \<lparr>sc_is_management = False, sc_dart = None\<rparr>
   | Some a \<Rightarrow>
       if user_has_any_role d u [''management''] then \<lparr>sc_is_management = True, sc_dart = None\<rparr>
       else if \<not> user_has_any_role d u [''dart_leader''] then \<lparr>sc_is_management = False, sc_dart = None\<rparr>
       else \<lparr>sc_is_management = False, sc_dart = profile_dart_id d (u_id a)\<rparr>)"

text \<open>A limit is the one DART an email may go to, which may be none at all.\<close>

datatype dart_limit = DartLimit (limit_target: "pk option")

definition allows :: "mail_db \<Rightarrow> dart_limit \<Rightarrow> pk \<Rightarrow> bool" where
  "allows d l k = (case l of DartLimit None \<Rightarrow> False | DartLimit (Some dart) \<Rightarrow> profile_dart_id d k = Some dart)"

definition sender_limit :: "mail_db \<Rightarrow> account option \<Rightarrow> dart_limit option" where
  \<comment> \<open>the limit of an email held in memory with its sender\<close>
  "sender_limit d u = (case u of
     None \<Rightarrow> None
   | Some a \<Rightarrow> let c = sender_context d (Some a) in if sc_is_management c then None else Some (DartLimit (sc_dart c)))"

definition dart_limit :: "mail_db \<Rightarrow> bulk_email \<Rightarrow> dart_limit option" where
  "dart_limit d b = sender_limit d (person d (be_sender b))"

definition limit_dart :: "dart_limit option \<Rightarrow> pk option" where
  "limit_dart l = (case l of None \<Rightarrow> None | Some (DartLimit dart) \<Rightarrow> dart)"

definition filter_keys :: "string list" where
  "filter_keys = [''kind'', ''search'', ''status'', ''certificate'', ''medical'', ''dart'', ''county'', ''role'', ''expiring_within'']"

definition filter_value :: "string \<Rightarrow> (string \<times> string) list \<Rightarrow> string" where
  "filter_value key fs = (case map_of fs key of None \<Rightarrow> [] | Some v \<Rightarrow> v)"

definition given_filters :: "(string \<times> string) list \<Rightarrow> (string \<times> string) list" where
  "given_filters fs = map (\<lambda>key. (key, filter_value key fs)) (filter (\<lambda>key. filter_value key fs \<noteq> []) filter_keys)"

definition limited_filters :: "pk \<Rightarrow> (string \<times> string) list \<Rightarrow> (string \<times> string) list option" where
  \<comment> \<open>the \<open>ValueError\<close> is \<open>None\<close>\<close>
  "limited_filters dart fs = (let wanted = digits (int dart); given = strip (filter_value ''dart'' fs)
     in if given \<noteq> [] \<and> given \<noteq> wanted then None else Some (AList.update ''dart'' wanted fs))"

definition sender_name :: "mail_db \<Rightarrow> bulk_email \<Rightarrow> string" where
  "sender_name d b = (case person d (be_sender b) of None \<Rightarrow> [] | Some a \<Rightarrow> account_name a)"

definition sender_notice :: "mail_db \<Rightarrow> bulk_email \<Rightarrow> string" where
  "sender_notice d b = (case person d (be_sender b) of
     None \<Rightarrow> []
   | Some a \<Rightarrow> if \<not> can_edit b then []
       else (case dart_limit d b of Some (DartLimit None) \<Rightarrow> owner_no_dart_message (account_name a) | _ \<Rightarrow> []))"

definition readable_by :: "mail_db \<Rightarrow> account \<Rightarrow> bulk_email list" where
  "readable_by d u =
     (let k = u_id u; mine = (\<lambda>b. be_sender b = Some k)
      in if user_has_any_role d (Some u) [''management''] then md_emails d
         else if user_has_any_role d (Some u) [''dart_leader''] \<and> profile_dart_id d k \<noteq> None
         then filter (\<lambda>b. mine b \<or> (be_dart b = profile_dart_id d k \<and> be_started_at b \<noteq> None)) (md_emails d)
         else filter mine (md_emails d))"

definition visible_to :: "mail_db \<Rightarrow> account \<Rightarrow> bulk_email list" where
  "visible_to d u = (if user_has_any_role d (Some u) [''management''] then md_emails d
     else filter (\<lambda>b. be_sender b = Some (u_id u)) (md_emails d))"

subsection \<open>Where a reply goes\<close>

definition default_reply_to :: "mail_config \<Rightarrow> account option \<Rightarrow> string" where
  "default_reply_to cfg u = (let configured = strip (reply_to_setting cfg)
     in if configured \<noteq> [] then configured else case u of None \<Rightarrow> [] | Some a \<Rightarrow> u_email a)"

definition reply_to_for :: "mail_config \<Rightarrow> mail_db \<Rightarrow> bulk_email \<Rightarrow> string" where
  "reply_to_for cfg d b = (if be_reply_to b \<noteq> [] then be_reply_to b else default_reply_to cfg (person d (be_sender b)))"

definition claimed_reply_to :: "mail_config \<Rightarrow> mail_db \<Rightarrow> bulk_email \<Rightarrow> string" where
  "claimed_reply_to cfg d b = (let address = reply_to_for cfg d b
     in if address \<noteq> [] \<and> valid_address cfg address then address else from_address cfg)"

subsection \<open>Why a person is sent no copy\<close>

definition skip_deleted :: string where "skip_deleted = ''Account deleted''"
definition skip_deactivated :: string where "skip_deactivated = ''Account deactivated''"
definition skip_no_address :: string where "skip_no_address = ''No email address''"
definition skip_invalid :: string where "skip_invalid = ''Invalid email address''"
definition skip_bounced :: string where "skip_bounced = ''Address bounced''"
definition skip_duplicate :: string where "skip_duplicate = ''Duplicate address''"
definition skip_opted_out :: "string \<Rightarrow> string" where "skip_opted_out name = ''Opted out of '' @ name"

definition folded :: "string \<Rightarrow> string" where
  "folded address = lower (strip address)"

record type_opt_outs =
  to_name :: string
  to_user_ids :: "pk list"

definition type_opt_outs :: "mail_db \<Rightarrow> bulk_email \<Rightarrow> type_opt_outs option" where
  "type_opt_outs d b = (case get_type d (be_type b) of None \<Rightarrow> None
     | Some t \<Rightarrow> Some \<lparr>to_name = et_name t, to_user_ids = opted_out_user_ids d t\<rparr>)"

definition copy_skip_reason :: "mail_config \<Rightarrow> mail_db \<Rightarrow> account option \<Rightarrow> string list \<Rightarrow> type_opt_outs option
    \<Rightarrow> dart_limit option \<Rightarrow> string" where
  "copy_skip_reason cfg d account seen opt_outs limit = (case account of
     None \<Rightarrow> skip_deleted
   | Some a \<Rightarrow>
       let address = strip (u_email a)
       in if limit \<noteq> None \<and> \<not> allows d (the limit) (u_id a) then skip_not_in_dart
          else if \<not> u_is_active a then skip_deactivated
          else if address = [] then skip_no_address
          else if \<not> valid_address cfg address then skip_invalid
          else if a_email_bounced_at a \<noteq> None then skip_bounced
          else if opt_outs \<noteq> None \<and> u_id a \<in> set (to_user_ids (the opt_outs)) then skip_opted_out (to_name (the opt_outs))
          else if folded address \<in> set seen then skip_duplicate
          else [])"

lemmas skip_texts = skip_deleted_def skip_deactivated_def skip_no_address_def skip_invalid_def skip_bounced_def
  skip_duplicate_def skip_opted_out_def skip_not_in_dart_def

lemma copy_skip_reason_Nil:
  "copy_skip_reason cfg d account seen oo lim = [] \<longleftrightarrow> (\<exists>a. account = Some a \<and> (\<forall>l. lim = Some l \<longrightarrow> allows d l (u_id a))
     \<and> u_is_active a \<and> strip (u_email a) \<noteq> [] \<and> valid_address cfg (strip (u_email a)) \<and> a_email_bounced_at a = None
     \<and> (\<forall>os. oo = Some os \<longrightarrow> u_id a \<notin> set (to_user_ids os)) \<and> folded (u_email a) \<notin> set seen)"
  by (cases account) (auto simp: copy_skip_reason_def skip_texts folded_def strip_strip Let_def)

subsection \<open>The batch\<close>

definition not_receiving :: "copy_status list" where
  "not_receiving = [CopySkipped, CopyFailed, CopyStopped, CopyBounced]"

record batch_row =
  br_copy :: copy
  br_account :: "account option"
  br_reason :: string

definition will_receive :: "batch_row \<Rightarrow> bool" where
  "will_receive r \<longleftrightarrow> br_reason r = []"

definition surname_order :: "mail_config \<Rightarrow> mail_db \<Rightarrow> copy list \<Rightarrow> copy list" where
  "surname_order cfg d rows = sort_key (\<lambda>r. case person d (cp_user r) of
       None \<Rightarrow> (1 :: nat, [], [], text_order cfg (cp_name r), text_order cfg (cp_email r), cp_id r)
     | Some a \<Rightarrow> (0, text_order cfg (u_last_name a), text_order cfg (u_first_name a), text_order cfg (cp_name r),
         text_order cfg (cp_email r), cp_id r)) rows"

definition batch_queryset :: "mail_db \<Rightarrow> pk \<Rightarrow> copy list" where
  "batch_queryset d k = filter (\<lambda>r. cp_bulk r = k \<and> cp_round r = 0) (md_copies d)"

fun rate_rows :: "mail_config \<Rightarrow> mail_db \<Rightarrow> type_opt_outs option \<Rightarrow> dart_limit option \<Rightarrow> string list \<Rightarrow> copy list
    \<Rightarrow> batch_row list" where
  "rate_rows cfg d oo lim seen [] = []"
| "rate_rows cfg d oo lim seen (r # rows) =
     (let account = person d (cp_user r);
          reason = (if cp_status r = Batched then copy_skip_reason cfg d account seen oo lim
            else if cp_status r \<in> set not_receiving then cp_reason r else []);
          seen' = (case account of None \<Rightarrow> seen
            | Some a \<Rightarrow> if cp_status r = Batched \<and> reason = [] then folded (u_email a) # seen else seen)
      in \<lparr>br_copy = r, br_account = account, br_reason = reason\<rparr> # rate_rows cfg d oo lim seen' rows)"

definition batch_rows :: "mail_config \<Rightarrow> mail_db \<Rightarrow> bulk_email \<Rightarrow> batch_row list" where
  "batch_rows cfg d b = rate_rows cfg d (type_opt_outs d b) (dart_limit d b) []
     (surname_order cfg d (batch_queryset d (be_id b)))"

definition batch_counts :: "batch_row list \<Rightarrow> nat \<times> nat \<times> nat" where
  \<comment> \<open>how many there are, receive a copy, and do not\<close>
  "batch_counts rows = (let receiving = length (filter will_receive rows)
     in (length rows, receiving, length rows - receiving))"

subsection \<open>Changing the batch\<close>

definition not_editable_message :: string where
  "not_editable_message = ''This email has been sent and cannot be changed.''"

definition locked_for_edit :: "mail_db \<Rightarrow> pk \<Rightarrow> mail_error + bulk_email" where
  "locked_for_edit d k = (case get_email d k of None \<Rightarrow> Inl NoSuchRow
     | Some b \<Rightarrow> if can_edit b then Inr b else Inl (Domain not_editable_message))"

definition back_to_draft :: "bulk_email \<Rightarrow> account \<Rightarrow> string \<Rightarrow> mail_db \<Rightarrow> mail_db" where
  "back_to_draft locked who reason d =
     (if be_status locked \<noteq> QueuedEmail then d
      else mail_log ''bulk_email.cancel'' (Account (u_id who)) (Some (be_id locked)) False [(''reason'', ASlug reason)]
        (edit_email (be_id locked) (\<lambda>r. r\<lparr>be_status := DraftEmail, be_start_at := None, be_scheduled := False,
           be_confirm_count := None\<rparr>) d))"

definition record_limit :: "mail_db \<Rightarrow> bulk_email \<Rightarrow> (mail_error + dart_limit option) \<times> mail_db" where
  "record_limit d locked = (case dart_limit d locked of
     None \<Rightarrow> (Inr None, d)
   | Some (DartLimit None) \<Rightarrow> (Inl (Domain (owner_no_dart_message (sender_name d locked))), d)
   | Some (DartLimit (Some dart)) \<Rightarrow> (Inr (Some (DartLimit (Some dart))),
       if be_dart locked \<noteq> Some dart then edit_email (be_id locked) (\<lambda>r. r\<lparr>be_dart := Some dart\<rparr>) d else d))"

definition forced_filters :: "dart_limit option \<Rightarrow> (string \<times> string) list \<Rightarrow> mail_error + (string \<times> string) list" where
  "forced_filters l fs = (case l of
     Some (DartLimit (Some dart)) \<Rightarrow> (case limited_filters dart fs of
         None \<Rightarrow> Inl (FieldError ''filters'' not_your_dart_message) | Some fs' \<Rightarrow> Inr fs')
   | _ \<Rightarrow> Inr fs)"

definition snapshot :: "account \<Rightarrow> copy \<Rightarrow> copy" where
  "snapshot a r = r\<lparr>cp_name := account_name a, cp_email := u_email a\<rparr>"

definition fresh_copy :: "pk \<Rightarrow> pk \<Rightarrow> account \<Rightarrow> copy" where
  "fresh_copy k bulk a = snapshot a \<lparr>cp_id = k, cp_bulk = bulk, cp_user = Some (u_id a), cp_name = [], cp_email = [],
     cp_added_by = None, cp_round = 0, cp_status = Batched, cp_reason = [], cp_message = None, cp_tried_at = None\<rparr>"

record add_result =
  ar_added :: nat
  ar_already_present :: nat
  ar_count :: nat

definition add_body :: "pk \<Rightarrow> account list \<Rightarrow> account \<Rightarrow> (string \<times> string) list \<Rightarrow> string \<Rightarrow> mail_db
    \<Rightarrow> (mail_error + add_result) \<times> mail_db" where
  \<comment> \<open>\<open>chosen\<close> names no account twice, as an answer of the database does not\<close>
  "add_body k chosen who fs label d = (case locked_for_edit d k of
     Inl e \<Rightarrow> (Inl e, d)
   | Inr locked \<Rightarrow> (case record_limit d locked of
       (Inl e, d1) \<Rightarrow> (Inl e, d1)
     | (Inr _, d1) \<Rightarrow>
         let present = map cp_user (batch_queryset d1 k);
             joining = filter (\<lambda>a. Some (u_id a) \<notin> set present) chosen;
             already = length chosen - length joining;
             n = md_next_pk d1;
             add = \<lparr>ba_id = n, ba_bulk = k, ba_filters = fs, ba_label = label, ba_added = length joining, ba_already = already\<rparr>;
             new = map (\<lambda>(i, a). (fresh_copy (n + 1 + i) k a)\<lparr>cp_added_by := Some n\<rparr>) (List.enumerate 0 joining);
             d2 = d1\<lparr>md_adds := md_adds d1 @ [add], md_copies := md_copies d1 @ new, md_next_pk := n + 1 + length joining\<rparr>;
             d3 = back_to_draft locked who ''batch_changed'' d2
         in (Inr \<lparr>ar_added = length joining, ar_already_present = already, ar_count = length (batch_queryset d3 k)\<rparr>, d3)))"

definition add_accounts :: "pk \<Rightarrow> account list \<Rightarrow> account \<Rightarrow> (string \<times> string) list \<Rightarrow> string \<Rightarrow> mail_db
    \<Rightarrow> (mail_error + add_result) \<times> mail_db" where
  "add_accounts k chosen who fs label d = mail_atomic (add_body k chosen who fs label) d"

definition add_filters :: "((string \<times> string) list \<Rightarrow> account list) \<Rightarrow> pk \<Rightarrow> (string \<times> string) list \<Rightarrow> account \<Rightarrow> mail_db
    \<Rightarrow> (mail_error + add_result) \<times> mail_db" where
  \<comment> \<open>\<open>selected\<close> is what the member list's filters choose\<close>
  "add_filters selected k fs who d = mail_atomic (\<lambda>d. case locked_for_edit d k of
       Inl e \<Rightarrow> (Inl e, d)
     | Inr locked \<Rightarrow> (case record_limit d locked of
         (Inl e, d1) \<Rightarrow> (Inl e, d1)
       | (Inr l, d1) \<Rightarrow> (case forced_filters l fs of
           Inl e \<Rightarrow> (Inl e, d1)
         | Inr forced \<Rightarrow> let given = given_filters forced
             in add_body k (selected given) who given [] d1))) d"

definition matching_people :: "mail_config \<Rightarrow> ((string \<times> string) list \<Rightarrow> account list) \<Rightarrow> bulk_email \<Rightarrow> (string \<times> string) list
    \<Rightarrow> mail_db \<Rightarrow> mail_error + batch_row list" where
  "matching_people cfg selected b fs d =
     (let limit = dart_limit d b
      in if limit = Some (DartLimit None) then Inl (Domain (owner_no_dart_message (sender_name d b)))
         else case forced_filters limit fs of
           Inl e \<Rightarrow> Inl e
         | Inr forced \<Rightarrow> Inr (rate_rows cfg d (type_opt_outs d b) limit []
             (map (fresh_copy 0 (be_id b)) (selected (given_filters forced)))))"

definition remove_copy :: "pk \<Rightarrow> pk \<Rightarrow> account \<Rightarrow> mail_db \<Rightarrow> (mail_error + unit) \<times> mail_db" where
  \<comment> \<open>\<open>remove\<close>\<close>
  "remove_copy k recipient_id who d = mail_atomic (\<lambda>d. case locked_for_edit d k of
       Inl e \<Rightarrow> (Inl e, d)
     | Inr locked \<Rightarrow> (case row_get cp_id (batch_queryset d k) recipient_id of
         None \<Rightarrow> (Inl NoSuchRow, d)
       | Some r \<Rightarrow> (Inr (), back_to_draft locked who ''batch_changed''
           (d\<lparr>md_copies := rows_delete (\<lambda>x. cp_id x = cp_id r) (md_copies d)\<rparr>)))) d"

definition clear_batch :: "pk \<Rightarrow> account \<Rightarrow> mail_db \<Rightarrow> (mail_error + nat) \<times> mail_db" where
  \<comment> \<open>\<open>clear\<close>\<close>
  "clear_batch k who d = mail_atomic (\<lambda>d. case locked_for_edit d k of
       Inl e \<Rightarrow> (Inl e, d)
     | Inr locked \<Rightarrow> (Inr (length (batch_queryset d k)), back_to_draft locked who ''batch_changed''
         (d\<lparr>md_copies := rows_delete (\<lambda>x. cp_bulk x = k \<and> cp_round x = 0) (md_copies d),
            md_adds := rows_delete (\<lambda>a. ba_bulk a = k) (md_adds d)\<rparr>))) d"

subsection \<open>One copy for an address\<close>

lemma rate_rows_copies [simp]: "map br_copy (rate_rows cfg d oo lim seen rows) = rows"
  by (induction cfg d oo lim seen rows rule: rate_rows.induct) (simp_all add: Let_def)

lemma rate_rows_account: "r \<in> set (rate_rows cfg d oo lim seen rows) \<Longrightarrow> br_account r = person d (cp_user (br_copy r))"
  by (induction cfg d oo lim seen rows rule: rate_rows.induct) (auto simp: Let_def)

lemma skip_text_not_Nil: "copy_skip_reason cfg d None seen oo lim \<noteq> []"
  by (simp add: copy_skip_reason_def skip_texts)

definition receiving_addresses :: "batch_row list \<Rightarrow> string list" where
  \<comment> \<open>where the copies of the rows not yet frozen would go\<close>
  "receiving_addresses rows = map (\<lambda>r. folded (u_email (the (br_account r))))
     (filter (\<lambda>r. cp_status (br_copy r) = Batched \<and> will_receive r) rows)"

lemma receiving_account:
  "r \<in> set (rate_rows cfg d oo lim seen rows) \<Longrightarrow> cp_status (br_copy r) = Batched \<Longrightarrow> will_receive r \<Longrightarrow>
    \<exists>a. br_account r = Some a \<and> person d (cp_user (br_copy r)) = Some a \<and> u_is_active a
      \<and> valid_address cfg (strip (u_email a)) \<and> a_email_bounced_at a = None
      \<and> (\<forall>l. lim = Some l \<longrightarrow> allows d l (u_id a)) \<and> (\<forall>os. oo = Some os \<longrightarrow> u_id a \<notin> set (to_user_ids os))"
proof (induction cfg d oo lim seen rows rule: rate_rows.induct)
  case (2 cfg d oo lim seen x rows)
  let ?account = "person d (cp_user x)"
  let ?reason = "if cp_status x = Batched then copy_skip_reason cfg d ?account seen oo lim
    else if cp_status x \<in> set not_receiving then cp_reason x else []"
  consider "r = \<lparr>br_copy = x, br_account = ?account, br_reason = ?reason\<rparr>"
    | seen' where "r \<in> set (rate_rows cfg d oo lim seen' rows)"
      "seen' = (case ?account of None \<Rightarrow> seen
            | Some a \<Rightarrow> if cp_status x = Batched \<and> ?reason = [] then folded (u_email a) # seen else seen)"
    using 2(2) by (auto simp: Let_def)
  then show ?case
  proof cases
    case 1
    then show ?thesis using 2(3,4) by (auto simp: will_receive_def copy_skip_reason_Nil)
  next
    case 2
    from "2.IH" [OF refl refl this(2) this(1) "2.prems"(2,3)] show ?thesis .
  qed
qed simp

lemma receiving_distinct:
  "distinct (receiving_addresses (rate_rows cfg d oo lim seen rows))
    \<and> set (receiving_addresses (rate_rows cfg d oo lim seen rows)) \<inter> set seen = {}"
proof (induction cfg d oo lim seen rows rule: rate_rows.induct)
  case (2 cfg d oo lim seen x rows)
  let ?account = "person d (cp_user x)"
  let ?reason = "if cp_status x = Batched then copy_skip_reason cfg d ?account seen oo lim
    else if cp_status x \<in> set not_receiving then cp_reason x else []"
  let ?seen = "case ?account of None \<Rightarrow> seen
    | Some a \<Rightarrow> if cp_status x = Batched \<and> ?reason = [] then folded (u_email a) # seen else seen"
  note ih = "2.IH" [OF refl refl refl]
  show ?case
  proof (cases "cp_status x = Batched \<and> ?reason = []")
    case True
    then obtain a where a: "?account = Some a" "folded (u_email a) \<notin> set seen" by (auto simp: copy_skip_reason_Nil)
    with True have b: "cp_status x = Batched" "copy_skip_reason cfg d (Some a) seen oo lim = []" by auto
    let ?rest = "receiving_addresses (rate_rows cfg d oo lim (folded (u_email a) # seen) rows)"
    have "receiving_addresses (rate_rows cfg d oo lim seen (x # rows)) = folded (u_email a) # ?rest"
      using b a by (simp add: receiving_addresses_def will_receive_def Let_def)
    moreover have "distinct ?rest \<and> set ?rest \<inter> set (folded (u_email a) # seen) = {}" using ih b a by simp
    ultimately show ?thesis using a(2) by auto
  next
    case False
    then have "?seen = seen" by (auto split: option.splits)
    then show ?thesis using False ih by (auto simp: receiving_addresses_def will_receive_def Let_def)
  qed
qed (simp add: receiving_addresses_def)

end
