(* ===== verification/Callouts.thy ===== *)
theory Callouts
  imports Mailings
begin

text \<open>
  Mission callouts (\<open>apps/bulk_email/callouts.py\<close>): a bulk email that asks each recipient whether they
  can fly.  Until when answers are taken, the answers, closing early, and the rounds of reminders to
  those who have not answered.

  The screens that show a callout's people, with the member check and the aircraft of each, are left
  out, and so are the CSV of the answers and the page a link opens.

  \<open>MailRules\<close> proves whom a round of reminders goes to.
\<close>

subsection \<open>When answers close\<close>

definition closes_past_message :: string where "closes_past_message = ''Choose a time in the future.''"
definition closes_before_send_message :: string where
  "closes_before_send_message = ''Answers would close before the email goes out. Choose a later time under Answers close.''"
definition closed_message :: string where "closed_message = ''This callout has closed.''"
definition inactive_message :: string where "inactive_message = ''This link no longer works.''"
definition closed_text :: string where \<comment> \<open>\<open>CLOSED_REASON\<close>\<close> "closed_text = ''Callout closed''"
definition callout_not_sent :: string where "callout_not_sent = ''This callout has not been sent.''"
definition callout_still_sending :: string where
  "callout_still_sending = ''This callout is still sending. Remind the others once it has finished.''"
definition callout_stopped :: string where
  "callout_stopped = ''This callout was stopped. Send the rest first, then remind the others.''"
definition everybody_answered :: string where "everybody_answered = ''Everybody has answered, so nobody is left to remind.''"
definition nobody_to_remind :: string where
  "nobody_to_remind = ''Nobody who has not answered can be sent a reminder now: each would be skipped, ''
     @ ''as the delivery report shows why.''"
definition note_max_length :: nat where "note_max_length = 500"
definition reason_max_length :: nat where "reason_max_length = 200"
definition default_open_hours :: int where "default_open_hours = 48"
definition round_to_minutes :: int where "round_to_minutes = 30"

definition reached_statuses :: "copy_status list" where "reached_statuses = [CopySent, CopyBounced]"

definition callout_of :: "mail_db \<Rightarrow> bulk_email \<Rightarrow> callout option" where
  "callout_of d b = (if be_is_callout b then find (\<lambda>c. co_bulk c = be_id b) (md_callouts d) else None)"

definition is_open :: "callout \<Rightarrow> moment \<Rightarrow> bool" where
  "is_open c t \<longleftrightarrow> co_closed_at c = None \<and> t < co_closes_at c"

definition closed_moment :: "callout \<Rightarrow> moment" where
  "closed_moment c = (case co_closed_at c of Some t \<Rightarrow> t | None \<Rightarrow> co_closes_at c)"

definition default_closes_at :: "moment \<Rightarrow> moment" where
  "default_closes_at t = (let moment = t + default_open_hours * 3600; step = round_to_minutes * 60
     in - (- moment div step) * step)"

definition mission_type :: "mail_config \<Rightarrow> mail_db \<Rightarrow> account \<Rightarrow> email_type option" where
  "mission_type cfg d u = find is_mission (sendable_types cfg d (Some u))"

definition apply_settings :: "mail_config \<Rightarrow> bulk_email \<Rightarrow> bool option \<Rightarrow> moment option \<Rightarrow> account option \<Rightarrow> mail_db
    \<Rightarrow> (mail_error + bulk_email) \<times> mail_db" where
  \<comment> \<open>answers the email as changed in memory\<close>
  "apply_settings cfg locked is_callout closes_at who d =
     (if closes_at \<noteq> None \<and> the closes_at \<le> mail_now d then (Inl (FieldError ''closes_at'' closes_past_message), d)
      else if is_callout = Some True \<and> \<not> be_is_callout locked then
        let closes = (case closes_at of Some t \<Rightarrow> t | None \<Rightarrow> default_closes_at (mail_now d));
            held = list_ex (\<lambda>c. co_bulk c = be_id locked) (md_callouts d);
            d1 = (if held then d\<lparr>md_callouts := rows_update (\<lambda>c. co_bulk c = be_id locked) (\<lambda>c. c\<lparr>co_closes_at := closes\<rparr>) (md_callouts d)\<rparr>
              else d\<lparr>md_callouts := md_callouts d @ [\<lparr>co_id = md_next_pk d, co_bulk = be_id locked, co_closes_at = closes,
                 co_closed_at = None, co_closed_by = None, co_reminded_at = None\<rparr>], md_next_pk := md_next_pk d + 1\<rparr>);
            mission = (case who of None \<Rightarrow> None | Some u \<Rightarrow> mission_type cfg d1 u);
            chosen = (case mission of
                Some m \<Rightarrow> Some (et_id m)
              | None \<Rightarrow> (case get_type d1 (be_type locked) of
                  Some t \<Rightarrow> if is_mission t then be_type locked else None | None \<Rightarrow> be_type locked))
        in (Inr (locked\<lparr>be_is_callout := True, be_type := chosen\<rparr>), d1)
      else if is_callout = Some False \<and> be_is_callout locked then
        (Inr (locked\<lparr>be_is_callout := False\<rparr>), d\<lparr>md_callouts := rows_delete (\<lambda>c. co_bulk c = be_id locked) (md_callouts d)\<rparr>)
      else (Inr locked, if closes_at \<noteq> None \<and> be_is_callout locked
        then d\<lparr>md_callouts := rows_update (\<lambda>c. co_bulk c = be_id locked) (\<lambda>c. c\<lparr>co_closes_at := the closes_at\<rparr>) (md_callouts d)\<rparr>
        else d))"

definition check_for_send :: "mail_db \<Rightarrow> bulk_email \<Rightarrow> moment \<Rightarrow> mail_error option" where
  "check_for_send d b start_at = (case callout_of d b of
     None \<Rightarrow> None
   | Some c \<Rightarrow> if co_closes_at c \<le> start_at then Some (FieldError ''closes_at'' closes_before_send_message) else None)"

definition closed_reason :: "mail_db \<Rightarrow> bulk_email \<Rightarrow> string" where
  "closed_reason d b = (case callout_of d b of None \<Rightarrow> [] | Some c \<Rightarrow> if is_open c (mail_now d) then [] else closed_text)"

definition skip_pending :: "pk \<Rightarrow> mail_db \<Rightarrow> nat \<times> mail_db" where
  "skip_pending k d = (let P = (\<lambda>r. cp_bulk r = k \<and> cp_status r = CopyPending)
     in (rows_matched P (md_copies d),
         d\<lparr>md_copies := rows_update P (\<lambda>r. r\<lparr>cp_status := CopySkipped, cp_reason := closed_text\<rparr>) (md_copies d)\<rparr>))"

subsection \<open>Answering\<close>

definition save_answer :: "pk \<Rightarrow> account \<Rightarrow> answer_kind \<Rightarrow> string \<Rightarrow> mail_db \<Rightarrow> (mail_error + callout_answer) \<times> mail_db" where
  "save_answer callout_id u answer written d =
     (if \<not> u_is_active u then (Inl (Domain inactive_message), d)
      else case find (\<lambda>c. co_id c = callout_id) (md_callouts d) of
        None \<Rightarrow> (Inl NoSuchRow, d)
      | Some c \<Rightarrow>
          if \<not> is_open c (mail_now d) then (Inl (Domain closed_message), d)
          else let clean_note = take note_max_length (strip written);
                   mine = (\<lambda>a. an_callout a = co_id c \<and> an_user a = u_id u);
                   existing = find mine (md_answers d);
                   new = \<lparr>an_callout = co_id c, an_user = u_id u, an_answer = answer, an_note = clean_note, an_at = mail_now d\<rparr>;
                   d1 = (if existing = None then d\<lparr>md_answers := md_answers d @ [new]\<rparr>
                     else d\<lparr>md_answers := rows_update mine (\<lambda>_. new) (md_answers d)\<rparr>);
                   d2 = (mail_log ''callout.answer'' (Account (u_id u)) (Some (co_bulk c)) False
                     [(''answer'', ASlug (case answer of Available \<Rightarrow> ''available'' | Limited \<Rightarrow> ''limited'' | Unavailable \<Rightarrow> ''unavailable''))] d1)
                       \<lparr>md_raised := md_raised d1 @ [(co_bulk c, u_id u, answer)]\<rparr>
               in (case existing of
                     None \<Rightarrow> (Inr new, d2)
                   | Some e \<Rightarrow> if an_answer e = answer \<and> an_note e = clean_note then (Inr e, d)
                       else if an_answer e \<noteq> answer then (Inr new, d2) else (Inr new, d1)))"

subsection \<open>The sender's actions\<close>

definition close_body :: "pk \<Rightarrow> account \<Rightarrow> mail_db \<Rightarrow> (mail_error + callout) \<times> mail_db" where
  "close_body k who d = (case get_email d k of
     None \<Rightarrow> (Inl NoSuchRow, d)
   | Some locked \<Rightarrow> (case find (\<lambda>c. co_bulk c = k) (md_callouts d) of
       None \<Rightarrow> (Inl NoSuchRow, d)
     | Some c \<Rightarrow>
         if be_started_at locked = None then (Inl (Domain callout_not_sent), d)
         else if \<not> is_open c (mail_now d) then (Inl (Domain closed_message), d)
         else let now = mail_now d;
                  c' = c\<lparr>co_closed_at := Some now, co_closed_by := Some (u_id who)\<rparr>;
                  d1 = d\<lparr>md_callouts := rows_update (\<lambda>x. co_id x = co_id c)
                    (\<lambda>x. x\<lparr>co_closed_at := Some now, co_closed_by := Some (u_id who)\<rparr>) (md_callouts d)\<rparr>;
                  (n, d2) = skip_pending k d1;
                  d3 = (if be_status locked = QueuedEmail
                    then edit_email k (\<lambda>r. r\<lparr>be_skipped_count := be_skipped_count locked + int n, be_status := SentEmail,
                      be_sent_at := (case be_sent_at locked of None \<Rightarrow> Some now | Some t \<Rightarrow> Some t)\<rparr>) d2
                    else d1)
              in (Inr c', mail_log ''callout.close'' (Account (u_id who)) (Some k) False [] d3)))"

definition close_callout :: "pk \<Rightarrow> account \<Rightarrow> mail_db \<Rightarrow> (mail_error + callout) \<times> mail_db" where
  "close_callout k who d = mail_atomic (close_body k who) d"

definition answered_users :: "mail_db \<Rightarrow> pk \<Rightarrow> pk list" where
  \<comment> \<open>who has answered the callout of an email, if it is one\<close>
  "answered_users d k = map an_user (filter (\<lambda>a. list_ex (\<lambda>c. co_id c = an_callout a \<and> co_bulk c = k) (md_callouts d)) (md_answers d))"

definition reached_ids :: "mail_db \<Rightarrow> pk \<Rightarrow> pk list" where
  "reached_ids d k = List.map_filter (\<lambda>r. case person d (cp_user r) of
       None \<Rightarrow> None | Some a \<Rightarrow> if u_is_active a then Some (u_id a) else None)
     (filter (\<lambda>r. cp_bulk r = k \<and> cp_status r \<in> set reached_statuses) (md_copies d))"

definition check_remind :: "bulk_email \<Rightarrow> callout \<Rightarrow> moment \<Rightarrow> mail_error option" where
  "check_remind b c t =
     (if be_started_at b = None then Some (Domain callout_not_sent)
      else if be_status b = StoppedEmail then Some (Domain callout_stopped)
      else if be_status b \<noteq> SentEmail then Some (Domain callout_still_sending)
      else if \<not> is_open c t then Some (Domain closed_message)
      else None)"

fun reminder_rows :: "mail_config \<Rightarrow> mail_db \<Rightarrow> type_opt_outs option \<Rightarrow> dart_limit option \<Rightarrow> pk \<Rightarrow> nat \<Rightarrow> string list \<Rightarrow> pk
    \<Rightarrow> account list \<Rightarrow> copy list" where
  \<comment> \<open>the rows of a round, numbered from \<open>n\<close>\<close>
  "reminder_rows cfg d oo lim k rnd seen n [] = []"
| "reminder_rows cfg d oo lim k rnd seen n (a # waiting) =
     (let reason = copy_skip_reason cfg d (Some a) seen oo lim;
          r = (fresh_copy n k a)\<lparr>cp_round := rnd, cp_reason := take reason_max_length reason,
            cp_status := (if reason = [] then CopyPending else CopySkipped)\<rparr>;
          seen' = (if reason = [] \<or> reason = skip_duplicate then folded (u_email a) # seen else seen)
      in r # reminder_rows cfg d oo lim k rnd seen' (n + 1) waiting)"

definition top_round :: "mail_db \<Rightarrow> pk \<Rightarrow> nat" where
  "top_round d k = (case map cp_round (filter (\<lambda>r. cp_bulk r = k) (md_copies d)) of [] \<Rightarrow> 0 | rs \<Rightarrow> Max (set rs))"

definition remind_body :: "mail_config \<Rightarrow> pk \<Rightarrow> account \<Rightarrow> mail_db \<Rightarrow> (mail_error + nat \<times> nat) \<times> mail_db" where
  \<comment> \<open>answers the number of the round and the reminders queued\<close>
  "remind_body cfg k who d = (case get_email d k of
     None \<Rightarrow> (Inl NoSuchRow, d)
   | Some locked \<Rightarrow> (case find (\<lambda>c. co_bulk c = k) (md_callouts d) of
       None \<Rightarrow> (Inl NoSuchRow, d)
     | Some c \<Rightarrow> (case check_remind locked c (mail_now d) of
         Some e \<Rightarrow> (Inl e, d)
       | None \<Rightarrow>
           let answered = map an_user (filter (\<lambda>a. an_callout a = co_id c) (md_answers d));
               waiting = sort_key (\<lambda>a. (text_order cfg (u_last_name a), text_order cfg (u_first_name a), text_order cfg (u_email a), u_id a))
                 (filter (\<lambda>a. u_id a \<in> set (reached_ids d k) \<and> u_is_active a \<and> u_id a \<notin> set answered) (ad_accounts (md_people d)));
               rnd = top_round d k + 1;
               seen = map (\<lambda>a. folded (u_email a)) (filter (\<lambda>a. u_id a \<in> set answered) (ad_accounts (md_people d)));
               rows = reminder_rows cfg d (type_opt_outs d locked) (dart_limit d locked) k rnd seen (md_next_pk d) waiting;
               queued = length (filter (\<lambda>r. cp_status r = CopyPending) rows);
               skipped = length rows - queued
           in if waiting = [] then (Inl (Domain everybody_answered), d)
              else if queued = 0 then (Inl (Domain nobody_to_remind), d)
              else (Inr (rnd, queued), mail_log ''callout.remind'' (Account (u_id who)) (Some k) False
                [(''round'', AInt (int rnd)), (''recipients'', AInt (int queued)), (''skipped'', AInt (int skipped))]
                (edit_email k (\<lambda>r. r\<lparr>be_skipped_count := be_skipped_count locked + int skipped, be_status := QueuedEmail,
                    be_start_at := Some (mail_now d), be_scheduled := False\<rparr>)
                  (d\<lparr>md_copies := md_copies d @ rows, md_next_pk := md_next_pk d + length rows,
                     md_callouts := rows_update (\<lambda>x. co_id x = co_id c) (\<lambda>x. x\<lparr>co_reminded_at := Some (mail_now d)\<rparr>) (md_callouts d)\<rparr>))))))"

definition remind_callout :: "mail_config \<Rightarrow> pk \<Rightarrow> account \<Rightarrow> mail_db \<Rightarrow> (mail_error + nat \<times> nat) \<times> mail_db" where
  "remind_callout cfg k who d = mail_atomic (remind_body cfg k who) d"

definition latest_retry :: "mail_db \<Rightarrow> pk \<Rightarrow> retry option" where
  "latest_retry d k = max_by (\<lambda>r. (rt_at r, rt_id r)) (filter (\<lambda>r. rt_bulk r = k) (md_retries d))"

definition is_reminder_finish :: "mail_db \<Rightarrow> bulk_email \<Rightarrow> bool" where
  "is_reminder_finish d b = (case callout_of d b of
     None \<Rightarrow> False
   | Some c \<Rightarrow> (case co_reminded_at c of
       None \<Rightarrow> False
     | Some t \<Rightarrow> (case latest_retry d (be_id b) of None \<Rightarrow> True | Some r \<Rightarrow> rt_at r < t)))"

definition reminder_finished :: "bulk_email \<Rightarrow> mail_db \<Rightarrow> mail_db" where
  "reminder_finished b d =
     (let rnd = top_round d (be_id b); tried = filter (\<lambda>r. cp_bulk r = be_id b \<and> cp_round r = rnd) (md_copies d)
      in mail_log ''callout.remind_finished'' (actor_or_command (person d (be_sender b))) (Some (be_id b)) False
        [(''round'', AInt (int rnd)), (''sent'', AInt (int (length (filter (\<lambda>r. cp_status r \<in> set reached_statuses) tried)))),
         (''failed'', AInt (int (length (filter (\<lambda>r. cp_status r = CopyFailed) tried))))] d)"

definition visible_callouts :: "mail_db \<Rightarrow> account \<Rightarrow> bulk_email list" where
  "visible_callouts d u = (if user_has_any_role d (Some u) [''management'', ''dart_leader'']
     then filter (\<lambda>b. be_is_callout b \<and> be_started_at b \<noteq> None) (readable_by d u) else [])"

definition can_see :: "mail_db \<Rightarrow> account \<Rightarrow> pk \<Rightarrow> bool" where
  "can_see d u k \<longleftrightarrow> list_ex (\<lambda>b. be_id b = k) (visible_callouts d u)"

record callout_counts =
  cc_reached :: nat
  cc_available :: nat
  cc_limited :: nat
  cc_unavailable :: nat
  cc_no_answer :: nat

definition counts_for :: "mail_db \<Rightarrow> bulk_email \<Rightarrow> callout_counts" where
  "counts_for d b =
     (let given = (case callout_of d b of
            None \<Rightarrow> []
          | Some c \<Rightarrow> filter (\<lambda>a. an_callout a = co_id c \<and> (case get_account (md_people d) (an_user a) of
              None \<Rightarrow> False | Some u \<Rightarrow> u_is_active u)) (md_answers d));
          reached = card (set (reached_ids d (be_id b)) \<union> set (map an_user given));
          counted = (\<lambda>kind. length (filter (\<lambda>a. an_answer a = kind) given))
      in \<lparr>cc_reached = reached, cc_available = counted Available, cc_limited = counted Limited,
          cc_unavailable = counted Unavailable, cc_no_answer = reached - length given\<rparr>)"

end
