(* ===== verification/Delivery.thy ===== *)
theory Delivery
  imports Callouts
begin

text \<open>
  What becomes of copies after they went (\<open>apps/bulk_email/delivery.py\<close>): bounces, the retry of failed
  copies, and the check every copy passes that is taken back to be sent again.

  Rebuilding a copy as it went, and the links of the email log, are presentation.  The bounce check
  (\<open>apps/mail/bounces.py\<close>) appears as what it does to a row of the email log.

  \<open>MailingRequests\<close> proves that the rows a check takes back go to addresses no other copy of their
  round went to, \<open>MailRules\<close> that a person is sent neither an older copy after a newer one nor a reminder of
  a callout they answered.
\<close>

subsection \<open>Bounces\<close>

definition bulk_purpose :: string where "bulk_purpose = ''bulk_email''"
definition bounced_reason :: string where "bounced_reason = ''The receiving mail server refused it''"
definition not_started_message :: string where "not_started_message = ''This email has not been sent.''"
definition still_sending_message :: string where
  "still_sending_message = ''This email is still sending. Retry the failed copies once it has finished.''"
definition stopped_message :: string where
  "stopped_message = ''This email was stopped. Send the rest first, then retry the failed copies.''"
definition nothing_failed_message :: string where "nothing_failed_message = ''No copy failed, so nothing is left to retry.''"
definition nobody_to_retry_message :: string where
  "nobody_to_retry_message = ''None of the failed copies can be sent again right now. Each is marked skipped, with the ''
     @ ''reason on their line.''"
definition skip_later_copy :: string where "skip_later_copy = ''Sent a later copy instead''"
definition skip_answered :: string where "skip_answered = ''Answered the callout''"

definition mark_bounced :: "mail_entry \<Rightarrow> mail_db \<Rightarrow> copy option \<times> mail_db" where
  "mark_bounced e d =
     (if me_status e \<noteq> LogBounced \<or> me_message e = None then (None, d)
      else case find (\<lambda>r. cp_message r = me_message e \<and> cp_status r = CopySent) (md_copies d) of
        None \<Rightarrow> (None, d)
      | Some r \<Rightarrow>
          let reason = take reason_max_length (if me_bounce_detail e \<noteq> [] then me_bounce_detail e else bounced_reason);
              change = (\<lambda>x. x\<lparr>cp_status := CopyBounced, cp_reason := reason\<rparr>)
          in (Some (change r), edit_email (cp_bulk r) (\<lambda>b. b\<lparr>be_sent_count := max (be_sent_count b - 1) 0,
                be_bounced_count := be_bounced_count b + 1\<rparr>) (edit_copy (cp_id r) change d)))"

definition on_email_log_saved :: "mail_entry \<Rightarrow> mail_db \<Rightarrow> mail_db" where
  "on_email_log_saved e d = (if me_purpose e \<noteq> bulk_purpose then d else snd (mark_bounced e d))"

definition bounce_entry :: "nat \<Rightarrow> string \<Rightarrow> mail_db \<Rightarrow> mail_db" where
  \<comment> \<open>the bounce check marks the row of a message it read a report about, and the save is heard here\<close>
  "bounce_entry m detail d =
     (case find (\<lambda>e. me_message e = Some m \<and> me_status e = LogSent) (md_entries d) of
        None \<Rightarrow> d
      | Some e \<Rightarrow>
          let change = (\<lambda>x. x\<lparr>me_status := LogBounced, me_bounce_detail := detail\<rparr>)
          in on_email_log_saved (change e)
            (d\<lparr>md_entries := rows_update (\<lambda>x. me_message x = Some m \<and> me_status x = LogSent) change (md_entries d)\<rparr>))"

subsection \<open>Sending copies again\<close>

definition went_rows :: "mail_db \<Rightarrow> pk \<Rightarrow> copy list" where
  "went_rows d k = filter (\<lambda>r. cp_bulk r = k \<and> cp_status r \<in> {CopySent, CopyBounced, CopyPending}) (md_copies d)"

definition went_later :: "copy list \<Rightarrow> pk \<Rightarrow> nat \<Rightarrow> bool" where
  \<comment> \<open>\<open>latest.get(account.pk, -1) > round\<close>\<close>
  "went_later went user rnd \<longleftrightarrow> list_ex (\<lambda>r. cp_user r = Some user \<and> cp_round r > rnd) went"

definition recheck_reason :: "mail_config \<Rightarrow> mail_db \<Rightarrow> type_opt_outs option \<Rightarrow> dart_limit option \<Rightarrow> copy list \<Rightarrow> pk list
    \<Rightarrow> string list \<Rightarrow> pk list \<Rightarrow> copy \<Rightarrow> string" where
  "recheck_reason cfg d oo lim went answered in_round queued r = (case person d (cp_user r) of
     None \<Rightarrow> copy_skip_reason cfg d None in_round oo lim
   | Some a \<Rightarrow>
       if went_later went (u_id a) (cp_round r) \<or> u_id a \<in> set queued then skip_later_copy
       else if cp_round r > 0 \<and> u_id a \<in> set answered then skip_answered
       else copy_skip_reason cfg d (Some a) in_round oo lim)"

lemma recheck_reason_Nil:
  "recheck_reason cfg d oo lim went answered in_round queued r = [] \<longleftrightarrow> (\<exists>a. person d (cp_user r) = Some a
     \<and> \<not> went_later went (u_id a) (cp_round r) \<and> u_id a \<notin> set queued \<and> \<not> (cp_round r > 0 \<and> u_id a \<in> set answered)
     \<and> copy_skip_reason cfg d (Some a) in_round oo lim = [])"
  by (auto simp: recheck_reason_def skip_text_not_Nil skip_later_copy_def skip_answered_def split: option.splits)

fun recheck_loop :: "mail_config \<Rightarrow> mail_db \<Rightarrow> type_opt_outs option \<Rightarrow> dart_limit option \<Rightarrow> copy list \<Rightarrow> pk list
    \<Rightarrow> (nat \<times> string) list \<Rightarrow> pk list \<Rightarrow> copy list \<Rightarrow> copy list" where
  \<comment> \<open>\<open>seen\<close> pairs each round with the addresses taken in it, \<open>queued\<close> are the people queued in this pass\<close>
  "recheck_loop cfg d oo lim went answered seen queued [] = []"
| "recheck_loop cfg d oo lim went answered seen queued (r # rows) =
     (let account = person d (cp_user r);
          in_round = map snd (filter (\<lambda>p. fst p = cp_round r) seen);
          reason = recheck_reason cfg d oo lim went answered in_round queued r;
          r1 = (case account of None \<Rightarrow> r | Some a \<Rightarrow> snapshot a r)\<lparr>cp_reason := take reason_max_length reason\<rparr>
      in if reason = []
         then r1\<lparr>cp_status := CopyPending\<rparr> # recheck_loop cfg d oo lim went answered
           ((cp_round r, folded (cp_email r1)) # seen) (case account of None \<Rightarrow> queued | Some a \<Rightarrow> u_id a # queued) rows
         else r1\<lparr>cp_status := CopySkipped\<rparr> # recheck_loop cfg d oo lim went answered seen queued rows)"

definition recheck_rows :: "mail_config \<Rightarrow> mail_db \<Rightarrow> bulk_email \<Rightarrow> copy list \<Rightarrow> copy list \<times> nat \<times> nat" where
  \<comment> \<open>the rows as changed, how many go again, and how many are skipped\<close>
  "recheck_rows cfg d b rows =
     (let went = went_rows d (be_id b);
          answered = (if list_ex (\<lambda>r. cp_round r > 0) rows then answered_users d (be_id b) else []);
          checked = recheck_loop cfg d (type_opt_outs d b) (dart_limit d b) went answered
            (map (\<lambda>r. (cp_round r, folded (cp_email r))) went) [] (sort_key (\<lambda>r. - int (cp_round r)) rows);
          retried = length (filter (\<lambda>r. cp_status r = CopyPending) checked)
      in (checked, retried, length rows - retried))"

definition check_retry :: "bulk_email \<Rightarrow> mail_error option" where
  "check_retry b =
     (if be_started_at b = None then Some (Domain not_started_message)
      else if be_status b = StoppedEmail then Some (Domain stopped_message)
      else if be_status b \<noteq> SentEmail then Some (Domain still_sending_message)
      else None)"

definition retry_body :: "mail_config \<Rightarrow> pk \<Rightarrow> account \<Rightarrow> mail_db \<Rightarrow> (mail_error + retry option \<times> nat \<times> nat) \<times> mail_db" where
  "retry_body cfg k who d = (case get_email d k of
     None \<Rightarrow> (Inl NoSuchRow, d)
   | Some locked \<Rightarrow> (case check_retry locked of
       Some e \<Rightarrow> (Inl e, d)
     | None \<Rightarrow>
         let failed = surname_order cfg d (filter (\<lambda>r. cp_bulk r = k \<and> cp_status r = CopyFailed) (md_copies d));
             (checked, retried, skipped) = recheck_rows cfg d locked failed;
             new = \<lparr>rt_id = md_next_pk d, rt_bulk = k, rt_by = Some (u_id who), rt_at = mail_now d, rt_count = retried\<rparr>;
             d1 = put_copies checked d;
             d2 = edit_email k (\<lambda>r. r\<lparr>be_failed_count := max (be_failed_count locked - int (length failed)) 0,
               be_skipped_count := be_skipped_count locked + int skipped\<rparr>) d1
         in if failed = [] then (Inl (Domain nothing_failed_message), d)
            else if retried > 0
            then (Inr (Some new, retried, skipped),
              edit_email k (\<lambda>r. r\<lparr>be_status := QueuedEmail, be_start_at := Some (mail_now d), be_scheduled := False\<rparr>)
                (d2\<lparr>md_retries := md_retries d2 @ [new], md_next_pk := md_next_pk d2 + 1\<rparr>))
            else (Inr (None, retried, skipped), d2)))"

definition retry_failed :: "mail_config \<Rightarrow> pk \<Rightarrow> account \<Rightarrow> mail_db \<Rightarrow> (mail_error + retry) \<times> mail_db" where
  \<comment> \<open>when nobody can be sent a copy again the skips stand, and the refusal says so\<close>
  "retry_failed cfg k who d = (case mail_atomic (retry_body cfg k who) d of
     (Inl e, d1) \<Rightarrow> (Inl e, d1)
   | (Inr (new, retried, skipped), d1) \<Rightarrow>
       let d2 = mail_log ''bulk_email.retry'' (Account (u_id who)) (Some k) False
             [(''recipients'', AInt (int retried)), (''skipped'', AInt (int skipped))] d1
       in (case new of None \<Rightarrow> (Inl (Domain nobody_to_retry_message), d2) | Some r \<Rightarrow> (Inr r, d2)))"

definition retried_count :: "mail_db \<Rightarrow> pk \<Rightarrow> nat" where
  "retried_count d k = sum_list (map rt_count (filter (\<lambda>r. rt_bulk r = k) (md_retries d)))"

definition set_hidden :: "pk \<Rightarrow> bool \<Rightarrow> account \<Rightarrow> mail_db \<Rightarrow> (mail_error + unit) \<times> mail_db" where
  "set_hidden k hidden who d = (case get_email d k of
     None \<Rightarrow> (Inl NoSuchRow, d)
   | Some locked \<Rightarrow>
       if be_started_at locked = None then (Inl (Domain not_started_message), d)
       else if be_hidden locked = hidden then (Inr (), d)
       else (Inr (), mail_log ''bulk_email.hide'' (Account (u_id who)) (Some k) False [(''hidden'', ABool hidden)]
         (edit_email k (\<lambda>r. r\<lparr>be_hidden := hidden\<rparr>) d)))"

end
