(* ===== verification/Sender.thy ===== *)
theory Sender
  imports Delivery
begin

text \<open>
  The background sender (\<open>apps/bulk_email/job.py\<close>): it claims each queued email whose time has come,
  freezes its batch, and sends the pending copies one by one.

  A run is a machine: its state is the point the code has reached with what it holds in memory there,
  and a step does what the code does up to its next write that other transactions can see.  Between
  two steps requests of people happen, and a run may die at any point.  The clock of the time budget and
  the mail server answer each step.  The pause between copies and the connections to the server
  leave no trace in the database and are no steps of their own; \<open>recover_logged_copies\<close> and \<open>finish_email\<close> are one
  step each.

  \<open>SenderEnds\<close> proves that a run ends and leaves no email queued whose time had come, \<open>SenderSafety\<close> that
  each of its steps keeps the invariant of \<open>MailingSafety\<close>.
\<close>

subsection \<open>What a run holds\<close>

definition temporary_codes :: "int list" where "temporary_codes = [421, 450, 451, 452]"
definition retry_delays :: "int list" where "retry_delays = [5, 15, 45]"
definition failed_reason :: string where "failed_reason = ''Refused by the mail server''"
definition gave_up_reason :: string where
  "gave_up_reason = ''Temporarily refused, gave up after '' @ digits (int (length retry_delays)) @ '' retries''"
definition unexpected_reason :: string where "unexpected_reason = ''Unexpected error''"
definition unknown_stopper :: string where "unknown_stopper = ''a deleted account''"
definition not_sent_type :: "string \<Rightarrow> string" where
  "not_sent_type name = ''This email wasn'' @ [CHR 0x27] @ ''t sent, because you can'' @ [CHR 0x27] @ ''t send '' @ name
     @ '' email anymore. Choose another type and send again.''"
definition not_sent_sender_deleted :: string where
  "not_sent_sender_deleted = ''This email was not sent: the account that sent it has been deleted. Send it again ''
     @ ''from your own account.''"
definition not_sent_no_type :: string where
  "not_sent_no_type = ''This email was not sent: it doesn'' @ [CHR 0x27] @ ''t have a type. Choose a type and send again.''"
definition not_sent_dart_changed :: string where
  "not_sent_dart_changed = ''Your DART changed, so this email was not sent. Add the people again and send when it is ready.''"
definition not_sent_no_dart :: string where
  "not_sent_no_dart = ''This email was not sent: your profile doesn'' @ [CHR 0x27] @ ''t name a DART, so you can'' @ [CHR 0x27]
     @ ''t send to anybody. Set your DART on '' @ [CHR 0x22] @ ''My profile'' @ [CHR 0x22] @ '' and send again.''"

datatype server_answer = Taken | RefusedWith "int option" | Broke

record attempt_result =
  \<comment> \<open>\<open>_Attempt\<close>\<close>
  ts_status :: copy_status
  ts_reason :: string
  ts_message :: "nat option"

record held_email =
  \<comment> \<open>an email in memory, with the type and the sender its instance keeps\<close>
  he_email :: bulk_email
  he_type :: "email_type option"
  he_sender :: "account option"

record sender_counts =
  \<comment> \<open>\<open>SenderRun\<close>\<close>
  sn_busy :: bool
  sn_emails :: nat
  sn_sent :: nat
  sn_failed :: nat
  sn_skipped :: nat
  sn_out_of_time :: bool
  sn_remaining :: nat
  sn_actions :: "run_action list"
  sn_tallies :: "(pk \<times> nat \<times> nat) list"

datatype point =
    NextEmail
  | Opened bulk_email
  | NextCopy held_email "copy list"
  | Paced held_email copy "copy list"
  | Trying held_email copy "copy list" nat
  | Handing held_email copy "copy list" nat
  | Answered held_email copy "copy list" attempt_result
  | Counting held_email copy "copy list" attempt_result
  | Finished

record sender_run =
  sr_moment :: moment
  sr_unfinished :: "bulk_email list"
  sr_point :: point
  sr_counts :: sender_counts

subsection \<open>Claiming an email\<close>

definition due_emails :: "moment \<Rightarrow> mail_db \<Rightarrow> bulk_email list" where
  "due_emails now d = sort_key (\<lambda>b. (the (be_start_at b), be_id b))
     (filter (\<lambda>b. be_status b = QueuedEmail \<and> (case be_start_at b of None \<Rightarrow> False | Some t \<Rightarrow> t \<le> now)) (md_emails d))"

record refusal =
  rf_slug :: string
  rf_message :: string

definition limit_leaves_nobody :: "mail_config \<Rightarrow> mail_db \<Rightarrow> bulk_email \<Rightarrow> dart_limit \<Rightarrow> bool" where
  "limit_leaves_nobody cfg d b l =
     (let accounts = List.map_filter br_account (batch_rows cfg d b)
      in accounts \<noteq> [] \<and> \<not> list_ex (\<lambda>a. allows d l (u_id a)) accounts)"

definition sender_refusal :: "mail_config \<Rightarrow> mail_db \<Rightarrow> bulk_email \<Rightarrow> refusal option" where
  "sender_refusal cfg d b = (case get_type d (be_type b) of
     None \<Rightarrow> Some \<lparr>rf_slug = ''no_type'', rf_message = not_sent_no_type\<rparr>
   | Some t \<Rightarrow> (case person d (be_sender b) of
       None \<Rightarrow> Some \<lparr>rf_slug = ''sender_deleted'', rf_message = not_sent_sender_deleted\<rparr>
     | Some u \<Rightarrow>
         if t \<notin> set (sendable_types cfg d (Some u))
         then Some \<lparr>rf_slug = ''type_not_sendable'', rf_message = not_sent_type (et_name t)\<rparr>
         else (case dart_limit d b of
             None \<Rightarrow> None
           | Some l \<Rightarrow>
               if limit_target l = None then Some \<lparr>rf_slug = ''no_dart'', rf_message = not_sent_no_dart\<rparr>
               else if be_started_at b = None \<and> limit_leaves_nobody cfg d b l
               then Some \<lparr>rf_slug = ''dart_changed'', rf_message = not_sent_dart_changed\<rparr>
               else None)))"

definition refuse_email :: "bulk_email \<Rightarrow> refusal \<Rightarrow> mail_db \<Rightarrow> mail_db" where
  "refuse_email b r d =
     (let k = be_id b;
          d1 = (if be_started_at b = None
            then edit_email k (\<lambda>x. x\<lparr>be_status := DraftEmail, be_start_at := None, be_scheduled := False, be_confirm_count := None,
              be_not_sent_reason := rf_message r\<rparr>) d
            else edit_email k (\<lambda>x. x\<lparr>be_status := StoppedEmail, be_stopped_at := Some (mail_now d), be_not_sent_reason := rf_message r\<rparr>)
              (d\<lparr>md_copies := rows_update (\<lambda>c. cp_bulk c = k \<and> cp_status c = CopyPending)
                (\<lambda>c. c\<lparr>cp_status := CopyStopped, cp_reason := take reason_max_length (rf_message r)\<rparr>) (md_copies d)\<rparr>))
      in mail_log ''bulk_email.refused'' Command (Some k) True [(''reason'', ASlug (rf_slug r))] d1)"

definition frozen_row :: "batch_row \<Rightarrow> copy" where
  "frozen_row r = (case br_account r of None \<Rightarrow> br_copy r | Some a \<Rightarrow> snapshot a (br_copy r))
     \<lparr>cp_reason := br_reason r, cp_status := (if will_receive r then CopyPending else CopySkipped)\<rparr>"

definition freeze :: "mail_config \<Rightarrow> bulk_email \<Rightarrow> mail_db \<Rightarrow> nat \<times> mail_db" where
  "freeze cfg b d =
     (let rows = filter (\<lambda>r. cp_status (br_copy r) = Batched) (batch_rows cfg d b)
      in (length (filter (\<lambda>r. \<not> will_receive r) rows), put_copies (map frozen_row rows) d))"

definition skip_if_closed :: "bulk_email \<Rightarrow> mail_db \<Rightarrow> nat \<times> mail_db" where
  "skip_if_closed b d = (if closed_reason d b = [] then (0, d) else skip_pending (be_id b) d)"

datatype claimed = NothingDue | Returned | Claimed bulk_email nat

definition claim_one :: "mail_config \<Rightarrow> moment \<Rightarrow> mail_db \<Rightarrow> claimed \<times> mail_db" where
  \<comment> \<open>one transaction of the loop of \<open>_claim\<close>, with the number set aside\<close>
  "claim_one cfg now d = (case due_emails now d of
     [] \<Rightarrow> (NothingDue, d)
   | b # _ \<Rightarrow> (case sender_refusal cfg d b of
       Some r \<Rightarrow> (Returned, refuse_email b r d)
     | None \<Rightarrow>
         let b1 = b\<lparr>be_status := SendingEmail,
               be_started_at := (case be_started_at b of None \<Rightarrow> Some (mail_now d) | Some t \<Rightarrow> Some t),
               be_dart := (if be_started_at b = None then limit_dart (dart_limit d b) else be_dart b),
               be_reply_to := claimed_reply_to cfg d b\<rparr>;
             (n, d1) = freeze cfg b1 d;
             (m, d2) = skip_if_closed b1 d1;
             b2 = b1\<lparr>be_skipped_count := be_skipped_count b1 + int n + int m\<rparr>
         in (Claimed b2 (n + m), edit_email (be_id b) (\<lambda>x. x\<lparr>be_status := be_status b2, be_started_at := be_started_at b2,
              be_dart := be_dart b2, be_reply_to := be_reply_to b2, be_skipped_count := be_skipped_count b2\<rparr>) d2)))"

subsection \<open>Recording what became of a copy\<close>

definition record_row :: "copy \<Rightarrow> attempt_result \<Rightarrow> mail_db \<Rightarrow> mail_db" where
  "record_row r t d = edit_copy (cp_id r) (\<lambda>x. x\<lparr>cp_status := ts_status t, cp_reason := ts_reason t, cp_message := ts_message t,
     cp_tried_at := Some (mail_now d)\<rparr>) d"

definition record_count :: "bulk_email \<Rightarrow> attempt_result \<Rightarrow> mail_db \<Rightarrow> mail_db" where
  "record_count b t d = edit_email (be_id b) (\<lambda>x. if ts_status t = CopySent then x\<lparr>be_sent_count := be_sent_count x + 1\<rparr>
     else x\<lparr>be_failed_count := be_failed_count x + 1\<rparr>) d"

definition tally :: "pk \<Rightarrow> bool \<Rightarrow> (pk \<times> nat \<times> nat) list \<Rightarrow> (pk \<times> nat \<times> nat) list" where
  "tally k is_sent ts = (case map_of ts k of
     None \<Rightarrow> ts @ [(k, if is_sent then (1, 0) else (0, 1))]
   | Some (s, f) \<Rightarrow> AList.update k (if is_sent then (s + 1, f) else (s, f + 1)) ts)"

definition count_attempt :: "bulk_email \<Rightarrow> copy \<Rightarrow> attempt_result \<Rightarrow> sender_counts \<Rightarrow> sender_counts" where
  "count_attempt b r t n =
     (let is_sent = (ts_status t = CopySent)
      in n\<lparr>sn_sent := sn_sent n + (if is_sent then 1 else 0), sn_failed := sn_failed n + (if is_sent then 0 else 1),
           sn_tallies := tally (be_id b) is_sent (sn_tallies n),
           sn_actions := sn_actions n @ [\<lparr>ac_kind = (if is_sent then ''sent'' else ''failed''), ac_member = cp_name r,
             ac_email = cp_email r, ac_on = None, ac_amount_cents = None,
             ac_detail = (if ts_reason t \<noteq> [] then ts_reason t else be_subject b)\<rparr>]\<rparr>)"

definition logged_copies :: "pk \<Rightarrow> mail_db \<Rightarrow> (copy \<times> mail_entry) list" where
  \<comment> \<open>the pending copies whose try the email log shows went out\<close>
  "logged_copies k d = concat (map (\<lambda>r. map (Pair r) (filter (\<lambda>e. me_message e = cp_message r \<and> me_status e \<in> {LogSent, LogBounced})
       (md_entries d))) (filter (\<lambda>r. cp_bulk r = k \<and> cp_status r = CopyPending \<and> cp_message r \<noteq> None) (md_copies d)))"

fun recover_rows :: "bulk_email \<Rightarrow> (copy \<times> mail_entry) list \<Rightarrow> sender_counts \<Rightarrow> mail_db \<Rightarrow> sender_counts \<times> mail_db" where
  "recover_rows b [] n d = (n, d)"
| "recover_rows b ((r, e) # rest) n d =
     (let t = \<lparr>ts_status = CopySent, ts_reason = [], ts_message = me_message e\<rparr>;
          d1 = snd (mark_bounced e (record_count b t (record_row r t d)))
      in recover_rows b rest (count_attempt b r t n) d1)"

definition recover_logged_copies :: "bulk_email \<Rightarrow> sender_counts \<Rightarrow> mail_db \<Rightarrow> sender_counts \<times> mail_db" where
  "recover_logged_copies b n d = recover_rows b (logged_copies (be_id b) d) n d"

definition unsendable_reason :: "mail_db \<Rightarrow> held_email \<Rightarrow> pk \<Rightarrow> string" where
  "unsendable_reason d h k = (case sender_limit d (he_sender h) of
     Some l \<Rightarrow> if \<not> allows d l k then skip_not_in_dart
       else (case he_type h of Some t \<Rightarrow> if is_opted_out d k t then skip_opted_out (et_name t) else [] | None \<Rightarrow> [])
   | None \<Rightarrow> (case he_type h of Some t \<Rightarrow> if is_opted_out d k t then skip_opted_out (et_name t) else [] | None \<Rightarrow> []))"

definition copy_refusal :: "mail_db \<Rightarrow> held_email \<Rightarrow> copy \<Rightarrow> string" where
  \<comment> \<open>why the copy may not go now; the row's account is the one it was loaded with\<close>
  "copy_refusal d h r = (let reason = closed_reason d (he_email h)
     in if reason \<noteq> [] then reason else case cp_user r of None \<Rightarrow> [] | Some k \<Rightarrow> unsendable_reason d h k)"

definition count_status :: "mail_db \<Rightarrow> pk \<Rightarrow> copy_status \<Rightarrow> int" where
  "count_status d k s = int (length (filter (\<lambda>r. cp_bulk r = k \<and> cp_status r = s) (md_copies d)))"

definition recount :: "mail_db \<Rightarrow> pk \<Rightarrow> bulk_email \<Rightarrow> bulk_email" where
  "recount d k b = b\<lparr>be_sent_count := count_status d k CopySent, be_failed_count := count_status d k CopyFailed,
     be_skipped_count := count_status d k CopySkipped, be_bounced_count := count_status d k CopyBounced\<rparr>"

definition apply_stop :: "bulk_email \<Rightarrow> mail_db \<Rightarrow> mail_db" where
  "apply_stop b d =
     (let k = be_id b; stopper = person d (case get_email d k of None \<Rightarrow> None | Some x \<Rightarrow> be_stopped_by x);
          reason = take reason_max_length (''Stopped by '' @ (case stopper of None \<Rightarrow> unknown_stopper | Some u \<Rightarrow> account_name u));
          P = (\<lambda>c. cp_bulk c = k \<and> cp_status c = CopyPending);
          stopped = rows_matched P (md_copies d);
          d1 = d\<lparr>md_copies := rows_update P (\<lambda>c. c\<lparr>cp_status := CopyStopped, cp_reason := reason\<rparr>) (md_copies d)\<rparr>;
          d2 = edit_email k (\<lambda>x. recount d1 k (x\<lparr>be_status := StoppedEmail, be_stopped_at := Some (mail_now d),
            be_stop_requested := False\<rparr>)) d1
      in mail_log ''bulk_email.stop'' (actor_or_command stopper) (Some k) False [(''recipients'', AInt (int stopped))] d2)"

definition retry_finished :: "bulk_email \<Rightarrow> mail_db \<Rightarrow> mail_db" where
  "retry_finished b d = (case latest_retry d (be_id b) of
     None \<Rightarrow> d
   | Some t \<Rightarrow>
       let tried = filter (\<lambda>r. cp_bulk r = be_id b \<and> (case cp_tried_at r of None \<Rightarrow> False | Some x \<Rightarrow> rt_at t \<le> x)) (md_copies d)
       in mail_log ''bulk_email.retry_finished'' (actor_or_command (person d (rt_by t))) (Some (be_id b)) False
         [(''recipients'', AInt (int (rt_count t))),
          (''sent'', AInt (int (length (filter (\<lambda>r. cp_status r \<in> {CopySent, CopyBounced}) tried)))),
          (''failed'', AInt (int (length (filter (\<lambda>r. cp_status r = CopyFailed) tried))))] d)"

definition finish_email :: "held_email \<Rightarrow> mail_db \<Rightarrow> mail_db" where
  "finish_email h d =
     (let b = he_email h; k = be_id b
      in if list_ex (\<lambda>r. cp_bulk r = k \<and> cp_status r = CopyPending) (md_copies d) then d
         else let is_retry = (be_sent_at b \<noteq> None);
                  d1 = edit_email k (\<lambda>x. recount d k (x\<lparr>be_status := SentEmail,
                    be_sent_at := (if is_retry then be_sent_at b else Some (mail_now d)),
                    be_stop_requested := False, be_stopped_by := None\<rparr>)) d
              in if is_retry \<and> is_reminder_finish d1 b then reminder_finished b d1
                 else if is_retry then retry_finished b d1
                 else mail_log ''bulk_email.send'' (actor_or_command (he_sender h)) (Some k) False
                   [(''sent'', AInt (count_status d k CopySent)), (''skipped'', AInt (count_status d k CopySkipped)),
                    (''failed'', AInt (count_status d k CopyFailed))] d1)"

subsection \<open>The steps of a run\<close>

definition still_out :: "sender_run \<Rightarrow> sender_run" where
  \<comment> \<open>the time budget is spent: the run ends here\<close>
  "still_out s = s\<lparr>sr_point := Finished, sr_counts := (sr_counts s)\<lparr>sn_out_of_time := True\<rparr>\<rparr>"

definition is_stop_requested :: "mail_db \<Rightarrow> pk \<Rightarrow> bool" where
  "is_stop_requested d k \<longleftrightarrow> (case get_email d k of None \<Rightarrow> False | Some b \<Rightarrow> be_stop_requested b)"

definition next_email :: "mail_config \<Rightarrow> sender_run \<Rightarrow> mail_db \<Rightarrow> sender_run \<times> mail_db" where
  "next_email cfg s d = (case sr_unfinished s of
     b # rest \<Rightarrow> (s\<lparr>sr_unfinished := rest, sr_point := Opened b\<rparr>, d)
   | [] \<Rightarrow> (case claim_one cfg (sr_moment s) d of
       (NothingDue, d1) \<Rightarrow> (s\<lparr>sr_point := Finished\<rparr>, d1)
     | (Returned, d1) \<Rightarrow> (s, d1)
     | (Claimed b n, d1) \<Rightarrow> (s\<lparr>sr_point := Opened b, sr_counts := (sr_counts s)\<lparr>sn_skipped := sn_skipped (sr_counts s) + n\<rparr>\<rparr>, d1)))"

definition open_email :: "mail_config \<Rightarrow> bulk_email \<Rightarrow> sender_run \<Rightarrow> mail_db \<Rightarrow> sender_run \<times> mail_db" where
  "open_email cfg b s d =
     (let h = \<lparr>he_email = b, he_type = get_type d (be_type b), he_sender = person d (be_sender b)\<rparr>;
          n = (sr_counts s)\<lparr>sn_emails := sn_emails (sr_counts s) + 1\<rparr>;
          (n1, d1) = recover_logged_copies b n d
      in (s\<lparr>sr_counts := n1, sr_point := NextCopy h (surname_order cfg d1
            (filter (\<lambda>r. cp_bulk r = be_id b \<and> cp_status r = CopyPending) (md_copies d1)))\<rparr>, d1))"

definition before_copy :: "bool \<Rightarrow> held_email \<Rightarrow> copy \<Rightarrow> copy list \<Rightarrow> sender_run \<Rightarrow> mail_db \<Rightarrow> sender_run \<times> mail_db" where
  \<comment> \<open>the checks before the pause\<close>
  "before_copy spent h r rows s d =
     (if spent then (still_out s, d)
      else if is_stop_requested d (be_id (he_email h)) then (s\<lparr>sr_point := NextEmail\<rparr>, apply_stop (he_email h) d)
      else (s\<lparr>sr_point := Paced h r rows\<rparr>, d))"

definition skip_unsendable :: "held_email \<Rightarrow> copy \<Rightarrow> string \<Rightarrow> mail_db \<Rightarrow> held_email \<times> mail_db" where
  \<comment> \<open>\<open>_skip_if_unsendable\<close> of a copy with a reason\<close>
  "skip_unsendable h r reason d =
     (let b = he_email h; n = be_skipped_count b + 1
      in (h\<lparr>he_email := b\<lparr>be_skipped_count := n\<rparr>\<rparr>,
          edit_email (be_id b) (\<lambda>x. x\<lparr>be_skipped_count := n\<rparr>)
            (edit_copy (cp_id r) (\<lambda>x. x\<lparr>cp_status := CopySkipped, cp_reason := reason\<rparr>) d)))"

definition after_pause :: "bool \<Rightarrow> held_email \<Rightarrow> copy \<Rightarrow> copy list \<Rightarrow> sender_run \<Rightarrow> mail_db \<Rightarrow> sender_run \<times> mail_db" where
  "after_pause spent h r rows s d =
     (if spent then (still_out s, d)
      else if is_stop_requested d (be_id (he_email h)) then (s\<lparr>sr_point := NextEmail\<rparr>, apply_stop (he_email h) d)
      else let reason = copy_refusal d h r
           in if reason = [] then (s\<lparr>sr_point := Trying h r rows 0\<rparr>, d)
              else let (h', d1) = skip_unsendable h r reason d
                   in (s\<lparr>sr_point := NextCopy h' rows, sr_counts := (sr_counts s)\<lparr>sn_skipped := sn_skipped (sr_counts s) + 1\<rparr>\<rparr>, d1))"

definition save_message_id :: "bool \<Rightarrow> held_email \<Rightarrow> copy \<Rightarrow> copy list \<Rightarrow> nat \<Rightarrow> sender_run \<Rightarrow> mail_db
    \<Rightarrow> sender_run \<times> mail_db" where
  \<comment> \<open>the start of the \<open>n\<close>-th try: a fresh \<open>Message-ID\<close> on the row\<close>
  "save_message_id spent h r rows n s d =
     (if n > 0 \<and> spent then (still_out s, d)
      else let m = md_draws d; r' = r\<lparr>cp_message := Some m\<rparr>
           in (s\<lparr>sr_point := Handing h r' rows n\<rparr>,
               edit_copy (cp_id r) (\<lambda>x. x\<lparr>cp_message := Some m\<rparr>) (d\<lparr>md_draws := m + 1\<rparr>)))"

definition log_entry :: "copy \<Rightarrow> mail_status \<Rightarrow> mail_db \<Rightarrow> mail_db" where
  "log_entry r status d = d\<lparr>md_entries := md_entries d @ [\<lparr>me_to = cp_email r, me_purpose = bulk_purpose, me_status = status,
     me_message = cp_message r, me_bounce_detail = []\<rparr>]\<rparr>"

definition hand_copy_over :: "server_answer \<Rightarrow> held_email \<Rightarrow> copy \<Rightarrow> copy list \<Rightarrow> nat \<Rightarrow> sender_run \<Rightarrow> mail_db
    \<Rightarrow> sender_run \<times> mail_db" where
  "hand_copy_over answer h r rows n s d = (case answer of
     Taken \<Rightarrow> (s\<lparr>sr_point := Answered h r rows \<lparr>ts_status = CopySent, ts_reason = [], ts_message = cp_message r\<rparr>\<rparr>,
       (log_entry r LogSent d)\<lparr>md_taken := md_taken d @ [(cp_id r, cp_email r)]\<rparr>)
   | RefusedWith code \<Rightarrow>
       (if code = None \<or> the code \<notin> set temporary_codes
        then s\<lparr>sr_point := Answered h r rows \<lparr>ts_status = CopyFailed, ts_reason = failed_reason, ts_message = None\<rparr>\<rparr>
        else if n < length retry_delays then s\<lparr>sr_point := Trying h r rows (n + 1)\<rparr>
        else s\<lparr>sr_point := Answered h r rows \<lparr>ts_status = CopyFailed, ts_reason = gave_up_reason, ts_message = None\<rparr>\<rparr>,
        log_entry r LogFailed d)
   | Broke \<Rightarrow> (s\<lparr>sr_point := Answered h r rows \<lparr>ts_status = CopyFailed, ts_reason = unexpected_reason, ts_message = None\<rparr>\<rparr>,
        log_entry r LogFailed d))"

definition after_answer :: "held_email \<Rightarrow> copy \<Rightarrow> copy list \<Rightarrow> attempt_result \<Rightarrow> sender_run \<Rightarrow> mail_db \<Rightarrow> sender_run \<times> mail_db" where
  \<comment> \<open>the email is left when the copy failed unexpectedly\<close>
  "after_answer h r rows t s d =
     (s\<lparr>sr_point := (if ts_reason t = unexpected_reason then NextEmail else NextCopy h rows),
        sr_counts := count_attempt (he_email h) r t (sr_counts s)\<rparr>, record_count (he_email h) t d)"

definition sender_step :: "mail_config \<Rightarrow> bool \<Rightarrow> server_answer \<Rightarrow> sender_run \<Rightarrow> mail_db \<Rightarrow> sender_run \<times> mail_db" where
  \<comment> \<open>\<open>spent\<close> says whether the time budget is spent, \<open>answer\<close> what the mail server answers\<close>
  "sender_step cfg spent answer s d = (case sr_point s of
     NextEmail \<Rightarrow> next_email cfg s d
   | Opened b \<Rightarrow> open_email cfg b s d
   | NextCopy h [] \<Rightarrow> (s\<lparr>sr_point := NextEmail\<rparr>, finish_email h d)
   | NextCopy h (r # rows) \<Rightarrow> before_copy spent h r rows s d
   | Paced h r rows \<Rightarrow> after_pause spent h r rows s d
   | Trying h r rows n \<Rightarrow> save_message_id spent h r rows n s d
   | Handing h r rows n \<Rightarrow> hand_copy_over answer h r rows n s d
   | Answered h r rows t \<Rightarrow> (s\<lparr>sr_point := Counting h r rows t\<rparr>, record_row r t d)
   | Counting h r rows t \<Rightarrow> after_answer h r rows t s d
   | Finished \<Rightarrow> (s, d))"

definition start_run :: "moment \<Rightarrow> mail_db \<Rightarrow> sender_run" where
  \<comment> \<open>the run of a process that took the lock\<close>
  "start_run now d = \<lparr>sr_moment = now,
     sr_unfinished = sort_key (\<lambda>b. (case be_started_at b of None \<Rightarrow> (1 :: nat, 0) | Some t \<Rightarrow> (0, t), be_id b))
       (filter (\<lambda>b. be_status b = SendingEmail) (md_emails d)),
     sr_point = NextEmail,
     sr_counts = \<lparr>sn_busy = False, sn_emails = 0, sn_sent = 0, sn_failed = 0, sn_skipped = 0, sn_out_of_time = False,
       sn_remaining = 0, sn_actions = [], sn_tallies = []\<rparr>\<rparr>"

primrec run_steps :: "nat \<Rightarrow> mail_config \<Rightarrow> (nat \<Rightarrow> bool) \<Rightarrow> (nat \<Rightarrow> server_answer) \<Rightarrow> sender_run \<Rightarrow> mail_db
    \<Rightarrow> sender_run \<times> mail_db" where
  \<comment> \<open>the first steps of a run nothing comes between\<close>
  "run_steps 0 cfg spent answers s d = (s, d)"
| "run_steps (Suc n) cfg spent answers s d =
     (let (s', d') = run_steps n cfg spent answers s d in sender_step cfg (spent n) (answers n) s' d')"

definition run_result :: "sender_run \<Rightarrow> mail_db \<Rightarrow> sender_counts" where
  \<comment> \<open>what a run that ended answers\<close>
  "run_result s d = (let n = sr_counts s in if sn_out_of_time n
     then n\<lparr>sn_remaining := length (filter (\<lambda>r. cp_status r = CopyPending
       \<and> (case get_email d (cp_bulk r) of None \<Rightarrow> False | Some b \<Rightarrow> be_status b = SendingEmail)) (md_copies d))\<rparr>
     else n)"

definition busy_run :: sender_counts where
  \<comment> \<open>the answer of a run that finds the lock taken\<close>
  "busy_run = \<lparr>sn_busy = True, sn_emails = 0, sn_sent = 0, sn_failed = 0, sn_skipped = 0, sn_out_of_time = False,
     sn_remaining = 0, sn_actions = [], sn_tallies = []\<rparr>"

end
