(* ===== verification/Drafts.thy ===== *)
theory Drafts
  imports Sender
begin

text \<open>
  A bulk email from its draft to the moment the sender takes it (\<open>apps/bulk_email/drafts.py\<close>): the draft
  a sender is handed, its changes, queueing it, canceling it, asking a send to stop, and sending the
  rest of a stopped one.

  What sanitizing a message, filling it in, and the report of its checks say are fields of the
  configuration.

  \<open>MailRules\<close> proves what Send checks, and that an email that has started is never edited again.
\<close>

definition no_type_message :: string where "no_type_message = ''Choose a type.''"
definition not_sendable_message :: "string \<Rightarrow> string" where
  "not_sendable_message name = ''You cannot send '' @ name @ '' email. Choose another type.''"
definition not_mission_message :: string where "not_mission_message = ''A mission callout goes as the Mission type.''"
definition nobody_message :: string where
  "nobody_message = ''Nobody on the recipient list can receive this email. Add people to the recipient list.''"
definition confirm_missing_message :: string where
  "confirm_missing_message = ''Type the number of people this email goes to.''"
definition past_message :: string where "past_message = ''Choose a time in the future.''"
definition too_far_message :: string where "too_far_message = ''Choose a time within a year.''"
definition started_message :: string where "started_message = ''This email has started sending.''"
definition not_a_draft_message :: string where
  "not_a_draft_message = ''Only a draft can be deleted. Cancel the send first.''"
definition not_sending_message :: string where "not_sending_message = ''This email is not sending.''"
definition not_stopped_message :: string where "not_stopped_message = ''Only a stopped email can send the rest.''"
definition max_schedule_ahead :: int where "max_schedule_ahead = 365 * 86400"

definition confirm_message :: "nat \<Rightarrow> string" where
  "confirm_message receiving = ''The recipient list has changed: it now has ''
     @ (if receiving = 1 then ''1 person'' else digits (int receiving) @ '' people'') @ ''. Type the new count.''"

definition no_subject_message :: string where "no_subject_message = ''Write a subject.''"
definition no_body_message :: string where "no_body_message = ''Write the message.''"

definition check_content :: "mail_config \<Rightarrow> bulk_email \<Rightarrow> mail_error option" where
  "check_content cfg b =
     (if strip (be_subject b) = [] then Some (FieldError ''subject'' no_subject_message)
      else if strip (plain_text cfg (be_body b)) = [] then Some (FieldError ''body'' no_body_message)
      else (case message_problem cfg (be_subject b) (be_body b) of
          None \<Rightarrow> None | Some (name, problem) \<Rightarrow> Some (FieldError name problem)))"

definition new_draft :: "mail_config \<Rightarrow> account \<Rightarrow> pk option \<Rightarrow> pk \<Rightarrow> bulk_email" where
  "new_draft cfg u dart k = \<lparr>be_id = k, be_subject = [], be_body = [], be_status = DraftEmail, be_sender = Some (u_id u),
     be_type = None, be_dart = dart, be_reply_to = default_reply_to cfg (Some u), be_start_at = None, be_scheduled = False,
     be_not_sent_reason = [], be_confirm_count = None, be_started_at = None, be_sent_at = None, be_stopped_at = None,
     be_stopped_by = None, be_stop_requested = False, be_sent_count = 0, be_failed_count = 0, be_skipped_count = 0,
     be_bounced_count = 0, be_hidden = False, be_is_callout = False\<rparr>"

definition open_draft :: "mail_config \<Rightarrow> account \<Rightarrow> mail_db \<Rightarrow> (mail_error + bulk_email \<times> bool) \<times> mail_db" where
  \<comment> \<open>the draft, and whether it was made now\<close>
  "open_draft cfg u d =
     (let c = sender_context d (Some u)
      in if \<not> can_send c then (Inl (NotPermitted no_dart_message), d)
         else case first_of (sort_key be_id (filter (\<lambda>b. be_sender b = Some (u_id u) \<and> be_status b = DraftEmail \<and> be_subject b = []
             \<and> be_body b = [] \<and> \<not> list_ex (\<lambda>r. cp_bulk r = be_id b) (md_copies d)) (md_emails d))) of
           Some b \<Rightarrow> (Inr (b\<lparr>be_dart := sc_dart c\<rparr>, False),
             if be_dart b \<noteq> sc_dart c then edit_email (be_id b) (\<lambda>r. r\<lparr>be_dart := sc_dart c\<rparr>) d else d)
         | None \<Rightarrow> let b = new_draft cfg u (sc_dart c) (md_next_pk d)
             in (Inr (b, True), d\<lparr>md_emails := md_emails d @ [b], md_next_pk := md_next_pk d + 1\<rparr>))"

record draft_edit =
  \<comment> \<open>the fields of a change; one left out is \<open>None\<close>\<close>
  de_subject :: "string option"
  de_body :: "string option"
  de_type :: "pk option option"
  de_reply_to :: "string option"
  de_is_callout :: "bool option"
  de_closes_at :: "moment option"

definition apply_edit :: "draft_edit \<Rightarrow> bulk_email \<Rightarrow> bulk_email" where
  "apply_edit e b = b\<lparr>be_subject := (case de_subject e of None \<Rightarrow> be_subject b | Some x \<Rightarrow> x),
     be_body := (case de_body e of None \<Rightarrow> be_body b | Some x \<Rightarrow> x),
     be_type := (case de_type e of None \<Rightarrow> be_type b | Some x \<Rightarrow> x),
     be_reply_to := (case de_reply_to e of None \<Rightarrow> be_reply_to b | Some x \<Rightarrow> x)\<rparr>"

definition is_mission_email :: "mail_db \<Rightarrow> bulk_email \<Rightarrow> bool" where
  "is_mission_email d b = (case get_type d (be_type b) of None \<Rightarrow> True | Some t \<Rightarrow> is_mission t)"

definition write_edit_columns :: "bulk_email \<Rightarrow> mail_db \<Rightarrow> mail_db" where
  "write_edit_columns b d = edit_email (be_id b) (\<lambda>r. r\<lparr>be_subject := be_subject b, be_body := be_body b, be_type := be_type b,
     be_reply_to := be_reply_to b, be_is_callout := be_is_callout b\<rparr>) d"

definition update_draft_body :: "mail_config \<Rightarrow> pk \<Rightarrow> draft_edit \<Rightarrow> account \<Rightarrow> mail_db \<Rightarrow> (mail_error + bulk_email) \<times> mail_db" where
  "update_draft_body cfg k e who d = (case locked_for_edit d k of
     Inl err \<Rightarrow> (Inl err, d)
   | Inr locked \<Rightarrow> (case apply_settings cfg (apply_edit e locked) (de_is_callout e) (de_closes_at e) (Some who) d of
       (Inl err, d1) \<Rightarrow> (Inl err, d1)
     | (Inr b, d1) \<Rightarrow>
         let type_change = (be_type b \<noteq> be_type locked);
             d2 = write_edit_columns b d1;
             checked = be_status b = QueuedEmail \<and> \<not> type_change
         in if de_type e \<noteq> None \<and> be_is_callout b \<and> \<not> is_mission_email d1 b
            then (Inl (FieldError ''email_type'' not_mission_message), d1)
            else if checked \<and> check_content cfg b \<noteq> None then (Inl (the (check_content cfg b)), d1)
            else if checked \<and> be_start_at b \<noteq> None \<and> check_for_send d1 b (the (be_start_at b)) \<noteq> None
            then (Inl (the (check_for_send d1 b (the (be_start_at b)))), d1)
            else (Inr b, if type_change then back_to_draft b who ''type_changed'' d2 else d2)))"

definition update_draft :: "mail_config \<Rightarrow> pk \<Rightarrow> draft_edit \<Rightarrow> account \<Rightarrow> mail_db \<Rightarrow> (mail_error + bulk_email) \<times> mail_db" where
  \<comment> \<open>\<open>update\<close>\<close>
  "update_draft cfg k e who d = mail_atomic (update_draft_body cfg k e who) d"

definition delete_draft :: "pk \<Rightarrow> mail_db \<Rightarrow> (mail_error + unit) \<times> mail_db" where
  "delete_draft k d = (case locked_for_edit d k of
     Inl e \<Rightarrow> (Inl e, d)
   | Inr locked \<Rightarrow> if be_status locked \<noteq> DraftEmail then (Inl (Domain not_a_draft_message), d)
       else (Inr (), d\<lparr>md_emails := rows_delete (\<lambda>b. be_id b = k) (md_emails d),
         md_copies := rows_delete (\<lambda>r. cp_bulk r = k) (md_copies d), md_adds := rows_delete (\<lambda>a. ba_bulk a = k) (md_adds d),
         md_callouts := rows_delete (\<lambda>c. co_bulk c = k) (md_callouts d)\<rparr>))"

subsection \<open>Send\<close>

definition check_type :: "mail_config \<Rightarrow> mail_db \<Rightarrow> bulk_email \<Rightarrow> account \<Rightarrow> mail_error option" where
  "check_type cfg d b who = (case get_type d (be_type b) of
     None \<Rightarrow> Some (FieldError ''email_type'' no_type_message)
   | Some t \<Rightarrow> if t \<notin> set (sendable_types cfg d (Some who))
       then Some (FieldError ''email_type'' (not_sendable_message (et_name t))) else None)"

definition check_confirm_count :: "int option \<Rightarrow> nat \<Rightarrow> mail_error option" where
  "check_confirm_count typed receiving = (case typed of
     None \<Rightarrow> Some (FieldError ''confirm_count'' confirm_missing_message)
   | Some n \<Rightarrow> if n \<noteq> int receiving then Some (FieldError ''confirm_count'' (confirm_message receiving)) else None)"

definition check_schedule :: "moment \<Rightarrow> moment \<Rightarrow> mail_error option" where
  "check_schedule start_at now = (if start_at \<le> now then Some (FieldError ''start_at'' past_message)
     else if start_at > now + max_schedule_ahead then Some (FieldError ''start_at'' too_far_message) else None)"

definition queue_refusal :: "mail_config \<Rightarrow> mail_db \<Rightarrow> bulk_email \<Rightarrow> nat \<Rightarrow> int option \<Rightarrow> moment option \<Rightarrow> account \<Rightarrow> mail_error option" where
  \<comment> \<open>the first check that fails\<close>
  "queue_refusal cfg d locked receiving typed start_at who =
     (let begins = (case start_at of Some t \<Rightarrow> t | None \<Rightarrow> mail_now d + undo_seconds cfg)
      in if check_content cfg locked \<noteq> None then check_content cfg locked
         else if check_type cfg d locked who \<noteq> None then check_type cfg d locked who
         else if text_errors cfg locked then Some ChecksFailed
         else if sender_notice d locked \<noteq> [] then Some (FieldError ''batch'' (sender_notice d locked))
         else if receiving = 0 then Some (FieldError ''batch'' nobody_message)
         else if int receiving > confirm_above cfg \<and> check_confirm_count typed receiving \<noteq> None
         then check_confirm_count typed receiving
         else if start_at \<noteq> None \<and> check_schedule (the start_at) (mail_now d) \<noteq> None
         then check_schedule (the start_at) (mail_now d)
         else check_for_send d locked begins)"

definition queue_body :: "mail_config \<Rightarrow> pk \<Rightarrow> int option \<Rightarrow> moment option \<Rightarrow> account \<Rightarrow> mail_db \<Rightarrow> (mail_error + bulk_email) \<times> mail_db" where
  "queue_body cfg k typed start_at who d = (case locked_for_edit d k of
     Inl e \<Rightarrow> (Inl e, d)
   | Inr locked \<Rightarrow>
       let receiving = fst (snd (batch_counts (batch_rows cfg d locked)));
           change = (\<lambda>r. r\<lparr>be_status := QueuedEmail, be_scheduled := start_at \<noteq> None,
             be_start_at := Some (case start_at of Some t \<Rightarrow> t | None \<Rightarrow> mail_now d + undo_seconds cfg),
             be_confirm_count := (if int receiving > confirm_above cfg then typed else None), be_not_sent_reason := [],
             be_dart := limit_dart (dart_limit d locked), be_reply_to := reply_to_for cfg d locked\<rparr>)
       in case queue_refusal cfg d locked receiving typed start_at who of
            Some e \<Rightarrow> (Inl e, d)
          | None \<Rightarrow> (Inr (change locked), mail_log ''bulk_email.queue'' (Account (u_id who)) (Some k) False
              [(''recipients'', AInt (int receiving)), (''scheduled'', ABool (start_at \<noteq> None))] (edit_email k change d)))"

definition queue_email :: "mail_config \<Rightarrow> pk \<Rightarrow> int option \<Rightarrow> moment option \<Rightarrow> account \<Rightarrow> mail_db \<Rightarrow> (mail_error + bulk_email) \<times> mail_db" where
  "queue_email cfg k typed start_at who d = mail_atomic (queue_body cfg k typed start_at who) d"

definition cancel_email :: "pk \<Rightarrow> account \<Rightarrow> mail_db \<Rightarrow> (mail_error + unit) \<times> mail_db" where
  "cancel_email k who d = (case get_email d k of
     None \<Rightarrow> (Inl NoSuchRow, d)
   | Some locked \<Rightarrow>
       if be_started_at locked \<noteq> None then (Inl (Domain started_message), d)
       else if be_status locked = DraftEmail then (Inr (), d)
       else if be_status locked \<noteq> QueuedEmail then (Inl (Domain started_message), d)
       else (Inr (), mail_log ''bulk_email.cancel'' (Account (u_id who)) (Some k) False []
         (edit_email k (\<lambda>r. r\<lparr>be_status := DraftEmail, be_start_at := None, be_scheduled := False, be_confirm_count := None\<rparr>) d)))"

definition stop_email :: "pk \<Rightarrow> account \<Rightarrow> mail_db \<Rightarrow> (mail_error + unit) \<times> mail_db" where
  "stop_email k who d = (case get_email d k of
     None \<Rightarrow> (Inl NoSuchRow, d)
   | Some locked \<Rightarrow>
       let resumed = be_status locked = QueuedEmail \<and> be_started_at locked \<noteq> None
       in if be_status locked \<noteq> SendingEmail \<and> \<not> resumed then (Inl (Domain not_sending_message), d)
          else if resumed then (Inr (), apply_stop locked (edit_email k (\<lambda>r. r\<lparr>be_stopped_by := Some (u_id who)\<rparr>) d))
          else (Inr (), edit_email k (\<lambda>r. r\<lparr>be_stop_requested := True, be_stopped_by := Some (u_id who)\<rparr>) d))"

definition resume_email :: "mail_config \<Rightarrow> pk \<Rightarrow> account \<Rightarrow> mail_db \<Rightarrow> (mail_error + unit) \<times> mail_db" where
  "resume_email cfg k who d = (case get_email d k of
     None \<Rightarrow> (Inl NoSuchRow, d)
   | Some locked \<Rightarrow>
       if be_status locked \<noteq> StoppedEmail then (Inl (Domain not_stopped_message), d)
       else let stopped = surname_order cfg d (filter (\<lambda>r. cp_bulk r = k \<and> cp_status r = CopyStopped) (md_copies d));
                (checked, resumed, skipped) = recheck_rows cfg d locked stopped
            in (Inr (), mail_log ''bulk_email.resume'' (Account (u_id who)) (Some k) False
                 [(''recipients'', AInt (int resumed)), (''skipped'', AInt (int skipped))]
                 (edit_email k (\<lambda>r. r\<lparr>be_skipped_count := be_skipped_count locked + int skipped, be_status := QueuedEmail,
                   be_start_at := Some (mail_now d), be_scheduled := False, be_stop_requested := False, be_stopped_at := None,
                   be_stopped_by := None\<rparr>) (put_copies checked d))))"

end
