(* ===== verification/MailingSafety.thy ===== *)
theory MailingSafety
  imports Drafts
begin

text \<open>
  What holds of the tables of bulk email and of a run of the background sender between any two steps
  (\<open>mail_inv\<close>, \<open>run_ok\<close>), when a change of the tables keeps both (\<open>harmless\<close>), and that the changes of
  drafts, batches and the queue do.  \<open>MailingRequests\<close> goes on with the requests that take copies back,
  \<open>SenderSafety\<close> with the steps of a run, \<open>MailWorld\<close> puts them together.

  The mail server's taking a copy and the row of the email log that says so are one step, so a run
  does not die between the two.
\<close>

subsection \<open>What holds between any two steps\<close>

definition live :: "copy \<Rightarrow> bool" where
  "live c \<longleftrightarrow> cp_status c = CopyPending \<or> cp_status c = CopySent \<or> cp_status c = CopyBounced"

definition arrived :: "copy \<Rightarrow> bool" where
  "arrived c \<longleftrightarrow> cp_status c = CopySent \<or> cp_status c = CopyBounced"

definition sending :: "mail_db \<Rightarrow> pk \<Rightarrow> bool" where
  "sending d k \<longleftrightarrow> (\<exists>b. get_email d k = Some b \<and> be_status b = SendingEmail)"

definition accepted :: "mail_db \<Rightarrow> nat \<Rightarrow> bool" where
  \<comment> \<open>the email log shows the message went out\<close>
  "accepted d m \<longleftrightarrow> (\<exists>e \<in> set (md_entries d). me_message e = Some m \<and> (me_status e = LogSent \<or> me_status e = LogBounced))"

definition address_key :: "copy \<Rightarrow> pk \<times> nat \<times> string" where
  "address_key c = (cp_bulk c, cp_round c, folded (cp_email c))"

definition taken_ids :: "mail_db \<Rightarrow> pk set" where
  "taken_ids d = fst ` set (md_taken d)"

definition rows_ok :: "mail_db \<Rightarrow> bool" where
  "rows_ok d \<longleftrightarrow> distinct (map cp_id (md_copies d)) \<and> (\<forall>c \<in> set (md_copies d). cp_id c < md_next_pk d)
     \<and> distinct (map be_id (md_emails d)) \<and> (\<forall>b \<in> set (md_emails d). be_id b < md_next_pk d)"

definition stage_ok :: "bulk_email \<Rightarrow> copy \<Rightarrow> bool" where
  \<comment> \<open>where a copy can stand, given its email\<close>
  "stage_ok b c \<longleftrightarrow> (cp_status c = Batched \<longleftrightarrow> be_started_at b = None) \<and> (cp_status c = Batched \<longrightarrow> cp_round c = 0)
     \<and> (cp_status c = CopyPending \<longrightarrow> be_status b = QueuedEmail \<or> be_status b = SendingEmail)"

definition stages_ok :: "mail_db \<Rightarrow> bool" where
  "stages_ok d \<longleftrightarrow> (\<forall>c \<in> set (md_copies d). \<exists>b. get_email d (cp_bulk c) = Some b \<and> stage_ok b c)
     \<and> (\<forall>b \<in> set (md_emails d). be_status b = SendingEmail \<longrightarrow> be_started_at b \<noteq> None)"

definition one_copy :: "mail_db \<Rightarrow> bool" where
  "one_copy d \<longleftrightarrow> (\<forall>c \<in> set (md_copies d). \<forall>c' \<in> set (md_copies d).
     live c \<longrightarrow> live c' \<longrightarrow> address_key c = address_key c' \<longrightarrow> cp_id c = cp_id c')"

definition messages_ok :: "mail_db \<Rightarrow> bool" where
  "messages_ok d \<longleftrightarrow> (\<forall>c \<in> set (md_copies d). \<forall>m. cp_message c = Some m \<longrightarrow> m < md_draws d)
     \<and> (\<forall>m. accepted d m \<longrightarrow> m < md_draws d)
     \<and> (\<forall>c \<in> set (md_copies d). \<forall>c' \<in> set (md_copies d). \<forall>m. cp_message c = Some m \<longrightarrow> cp_message c' = Some m \<longrightarrow> cp_id c = cp_id c')"

definition went_out :: "mail_db \<Rightarrow> copy \<Rightarrow> bool" where
  "went_out d c \<longleftrightarrow> (\<exists>m. cp_message c = Some m \<and> accepted d m)"

definition taken_ok :: "mail_db \<Rightarrow> bool" where
  "taken_ok d \<longleftrightarrow> distinct (map fst (md_taken d))
     \<and> (\<forall>k a. (k, a) \<in> set (md_taken d) \<longrightarrow> (\<exists>c \<in> set (md_copies d). cp_id c = k \<and> cp_email c = a
         \<and> (arrived c \<or> cp_status c = CopyPending \<and> sending d (cp_bulk c) \<and> went_out d c)))
     \<and> (\<forall>c \<in> set (md_copies d). arrived c \<or> went_out d c \<longrightarrow> cp_id c \<in> taken_ids d)"

definition mail_inv :: "mail_db \<Rightarrow> bool" where
  "mail_inv d \<longleftrightarrow> rows_ok d \<and> stages_ok d \<and> one_copy d \<and> messages_ok d \<and> taken_ok d"

lemma copy_row: "rows_ok d \<Longrightarrow> c \<in> set (md_copies d) \<Longrightarrow> get_copy d (cp_id c) = Some c"
  by (auto simp: rows_ok_def get_copy_def intro: row_get_distinct)

lemma copy_unique: "rows_ok d \<Longrightarrow> c \<in> set (md_copies d) \<Longrightarrow> c' \<in> set (md_copies d) \<Longrightarrow> cp_id c' = cp_id c \<Longrightarrow> c' = c"
  using copy_row by (metis option.inject)

lemma rows_okI:
  "distinct (map cp_id (md_copies d)) \<Longrightarrow> (\<And>c. c \<in> set (md_copies d) \<Longrightarrow> cp_id c < md_next_pk d)
    \<Longrightarrow> distinct (map be_id (md_emails d)) \<Longrightarrow> (\<And>b. b \<in> set (md_emails d) \<Longrightarrow> be_id b < md_next_pk d) \<Longrightarrow> rows_ok d"
  by (simp add: rows_ok_def)

lemma rows_okD:
  assumes "rows_ok d"
  shows "distinct (map cp_id (md_copies d))" "c \<in> set (md_copies d) \<Longrightarrow> cp_id c < md_next_pk d"
    "distinct (map be_id (md_emails d))" "b \<in> set (md_emails d) \<Longrightarrow> be_id b < md_next_pk d"
  using assms by (simp_all add: rows_ok_def)

lemma rows_ok_same_keys:
  assumes "rows_ok d" and "map cp_id (md_copies d') = map cp_id (md_copies d)" and "map be_id (md_emails d') = map be_id (md_emails d)"
    and "md_next_pk d \<le> md_next_pk d'"
  shows "rows_ok d'"
proof -
  have "cp_id c < md_next_pk d'" if "c \<in> set (md_copies d')" for c
  proof -
    have "cp_id c \<in> set (map cp_id (md_copies d))" using that assms(2) by (metis image_eqI list.set_map)
    then show ?thesis using rows_okD(2) [OF assms(1)] assms(4) by fastforce
  qed
  moreover have "be_id b < md_next_pk d'" if "b \<in> set (md_emails d')" for b
  proof -
    have "be_id b \<in> set (map be_id (md_emails d))" using that assms(3) by (metis image_eqI list.set_map)
    then show ?thesis using rows_okD(4) [OF assms(1)] assms(4) by fastforce
  qed
  ultimately show ?thesis using rows_okD(1,3) [OF assms(1)] assms(2,3) by (simp add: rows_ok_def)
qed

lemma one_copyD: "one_copy d \<Longrightarrow> c \<in> set (md_copies d) \<Longrightarrow> c' \<in> set (md_copies d) \<Longrightarrow> live c \<Longrightarrow> live c'
    \<Longrightarrow> address_key c = address_key c' \<Longrightarrow> cp_id c = cp_id c'"
  unfolding one_copy_def by blast

lemma one_copy_cong: "md_copies d' = md_copies d \<Longrightarrow> one_copy d' = one_copy d"
  by (simp only: one_copy_def)

lemma mail_invD:
  assumes "mail_inv d"
  shows "rows_ok d" "stages_ok d" "one_copy d" "messages_ok d" "taken_ok d"
  using assms unfolding mail_inv_def by blast+

lemma get_copy_SomeD: "get_copy d k = Some c \<Longrightarrow> c \<in> set (md_copies d) \<and> cp_id c = k"
  by (auto simp: get_copy_def dest: row_get_SomeD)

lemma get_email_SomeD: "get_email d k = Some b \<Longrightarrow> b \<in> set (md_emails d) \<and> be_id b = k"
  by (auto simp: get_email_def dest: row_get_SomeD)

lemma get_email_row: "rows_ok d \<Longrightarrow> b \<in> set (md_emails d) \<Longrightarrow> get_email d (be_id b) = Some b"
  by (auto simp: rows_ok_def get_email_def intro: row_get_distinct)

subsection \<open>What requests leave alone\<close>

definition moved :: "mail_db \<Rightarrow> copy \<Rightarrow> copy \<Rightarrow> bool" where
  \<comment> \<open>what a request may make of a copy\<close>
  "moved d c c' \<longleftrightarrow> cp_id c' = cp_id c \<and> cp_bulk c' = cp_bulk c \<and> cp_round c' = cp_round c \<and> cp_message c' = cp_message c
     \<and> (cp_email c' = cp_email c \<and> cp_status c' = cp_status c
       \<or> cp_email c' = cp_email c \<and> cp_status c = CopySent \<and> cp_status c' = CopyBounced
       \<or> \<not> sending d (cp_bulk c) \<and> cp_email c' = cp_email c \<and> cp_status c = CopyPending \<and> (cp_status c' = CopySkipped \<or> cp_status c' = CopyStopped)
       \<or> (cp_status c = CopyFailed \<or> cp_status c = CopyStopped) \<and> (cp_status c' = CopyPending \<or> cp_status c' = CopySkipped))"

definition undisturbed :: "mail_db \<Rightarrow> mail_db \<Rightarrow> bool" where
  "undisturbed d d' \<longleftrightarrow> md_taken d' = md_taken d \<and> md_draws d' = md_draws d \<and> md_next_pk d \<le> md_next_pk d'
     \<and> (\<forall>m. accepted d' m = accepted d m) \<and> (\<forall>k. sending d' k = sending d k)"

definition evolves :: "mail_db \<Rightarrow> mail_db \<Rightarrow> bool" where
  "evolves d d' \<longleftrightarrow> undisturbed d d'
     \<and> (\<forall>c \<in> set (md_copies d). cp_status c \<noteq> Batched \<longrightarrow> (\<exists>c' \<in> set (md_copies d'). moved d c c'))
     \<and> (\<forall>c' \<in> set (md_copies d'). (\<exists>c \<in> set (md_copies d). moved d c c')
          \<or> cp_message c' = None \<and> \<not> arrived c' \<and> md_next_pk d \<le> cp_id c')"

lemma evolves_undisturbed: "evolves d d' \<Longrightarrow> undisturbed d d'"
  by (simp add: evolves_def)

lemma evolves_keeps: "evolves d d' \<Longrightarrow> c \<in> set (md_copies d) \<Longrightarrow> cp_status c \<noteq> Batched \<Longrightarrow> \<exists>c' \<in> set (md_copies d'). moved d c c'"
  by (simp add: evolves_def)

lemma evolves_from: "evolves d d' \<Longrightarrow> c' \<in> set (md_copies d') \<Longrightarrow> (\<exists>c \<in> set (md_copies d). moved d c c')
    \<or> cp_message c' = None \<and> \<not> arrived c' \<and> md_next_pk d \<le> cp_id c'"
  by (simp add: evolves_def)

lemma moved_refl [simp, intro]: "moved d c c"
  by (simp add: moved_def)

lemma moved_arrived: "moved d c c' \<Longrightarrow> arrived c \<Longrightarrow> arrived c' \<and> cp_email c' = cp_email c"
  by (auto simp: moved_def arrived_def)

lemma moved_arrived_back: "moved d c c' \<Longrightarrow> arrived c' \<Longrightarrow> arrived c \<and> cp_email c' = cp_email c"
  by (auto simp: moved_def arrived_def)

lemma moved_sending: "moved d c c' \<Longrightarrow> cp_status c = CopyPending \<Longrightarrow> sending d (cp_bulk c) \<Longrightarrow>
    cp_status c' = CopyPending \<and> cp_email c' = cp_email c"
  by (auto simp: moved_def)

lemma moved_same: "moved d c c' \<Longrightarrow> cp_id c' = cp_id c \<and> cp_bulk c' = cp_bulk c \<and> cp_message c' = cp_message c"
  by (simp add: moved_def)

lemma went_out_moved: "undisturbed d d' \<Longrightarrow> moved d c c' \<Longrightarrow> went_out d' c' = went_out d c"
  by (simp add: went_out_def undisturbed_def moved_def)

lemma messages_okI:
  "(\<And>c n. c \<in> set (md_copies d) \<Longrightarrow> cp_message c = Some n \<Longrightarrow> n < md_draws d)
    \<Longrightarrow> (\<And>c c' n. c \<in> set (md_copies d) \<Longrightarrow> c' \<in> set (md_copies d) \<Longrightarrow> cp_message c = Some n \<Longrightarrow> cp_message c' = Some n
      \<Longrightarrow> cp_id c = cp_id c')
    \<Longrightarrow> (\<And>n. accepted d n \<Longrightarrow> n < md_draws d) \<Longrightarrow> messages_ok d"
  unfolding messages_ok_def by blast

lemma taken_okI:
  "distinct (map fst (md_taken d))
    \<Longrightarrow> (\<And>k a. (k, a) \<in> set (md_taken d) \<Longrightarrow> \<exists>c \<in> set (md_copies d). cp_id c = k \<and> cp_email c = a
         \<and> (arrived c \<or> cp_status c = CopyPending \<and> sending d (cp_bulk c) \<and> went_out d c))
    \<Longrightarrow> (\<And>c. c \<in> set (md_copies d) \<Longrightarrow> arrived c \<or> went_out d c \<Longrightarrow> cp_id c \<in> taken_ids d) \<Longrightarrow> taken_ok d"
  unfolding taken_ok_def by blast

lemma taken_okD:
  assumes "taken_ok d"
  shows "distinct (map fst (md_taken d))"
    and "(k, a) \<in> set (md_taken d) \<Longrightarrow> \<exists>c \<in> set (md_copies d). cp_id c = k \<and> cp_email c = a
         \<and> (arrived c \<or> cp_status c = CopyPending \<and> sending d (cp_bulk c) \<and> went_out d c)"
    and "c \<in> set (md_copies d) \<Longrightarrow> arrived c \<or> went_out d c \<Longrightarrow> cp_id c \<in> taken_ids d"
  using assms unfolding taken_ok_def by (blast, blast, blast)

lemma evolves_inv:
  assumes inv: "mail_inv d" and ev: "evolves d d'" and "rows_ok d'" and "stages_ok d'" and "one_copy d'"
  shows "mail_inv d'"
proof -
  have un: "undisturbed d d'" using ev by (simp add: evolves_def)
  have kept: "\<exists>c' \<in> set (md_copies d'). moved d c c'" if "c \<in> set (md_copies d)" "cp_status c \<noteq> Batched" for c
    using evolves_keeps [OF ev that] .
  have from_old: "(\<exists>c \<in> set (md_copies d). moved d c c') \<or> cp_message c' = None \<and> \<not> arrived c' \<and> md_next_pk d \<le> cp_id c'"
    if "c' \<in> set (md_copies d')" for c' using evolves_from [OF ev that] .
  have m: "messages_ok d" and t: "taken_ok d" using inv by (simp_all add: mail_inv_def)
  have "messages_ok d'"
  proof -
    have old: "\<exists>c \<in> set (md_copies d). moved d c c' \<and> cp_message c = Some n"
      if "c' \<in> set (md_copies d')" "cp_message c' = Some n" for c' n
      using from_old [OF that(1)] that(2) by (auto simp: moved_def)
    have "n < md_draws d'" if "c' \<in> set (md_copies d')" "cp_message c' = Some n" for c' n
      using old [OF that] m un by (auto simp: messages_ok_def undisturbed_def)
    moreover have "cp_id c = cp_id c'"
      if c: "c \<in> set (md_copies d')" "c' \<in> set (md_copies d')" "cp_message c = Some n" "cp_message c' = Some n" for c c' n
    proof -
      obtain x x' where x: "x \<in> set (md_copies d)" "moved d x c" "cp_message x = Some n"
        and x': "x' \<in> set (md_copies d)" "moved d x' c'" "cp_message x' = Some n"
        using old [OF c(1,3)] old [OF c(2,4)] by blast
      have "cp_id x = cp_id x'" using m x(1,3) x'(1,3) unfolding messages_ok_def by blast
      then show ?thesis using moved_same [OF x(2)] moved_same [OF x'(2)] by simp
    qed
    moreover have "n < md_draws d'" if "accepted d' n" for n
      using that m un by (simp add: messages_ok_def undisturbed_def)
    ultimately show ?thesis by (rule messages_okI)
  qed
  moreover have "taken_ok d'"
  proof -
    have "\<exists>c' \<in> set (md_copies d'). cp_id c' = k \<and> cp_email c' = a
        \<and> (arrived c' \<or> cp_status c' = CopyPending \<and> sending d' (cp_bulk c') \<and> went_out d' c')"
      if "(k, a) \<in> set (md_taken d')" for k a
    proof -
      have "(k, a) \<in> set (md_taken d)" using that un by (simp add: undisturbed_def)
      from taken_okD(2) [OF t this] obtain c where c: "c \<in> set (md_copies d)" "cp_id c = k" "cp_email c = a"
          "arrived c \<or> cp_status c = CopyPending \<and> sending d (cp_bulk c) \<and> went_out d c" by blast
      then have "cp_status c \<noteq> Batched" by (auto simp: arrived_def)
      then obtain c' where c': "c' \<in> set (md_copies d')" "moved d c c'" using kept c(1) by blast
      have same: "cp_id c' = k" "sending d' (cp_bulk c') = sending d (cp_bulk c)" "went_out d' c' = went_out d c"
        using c(2) un went_out_moved [OF un c'(2)] moved_same [OF c'(2)] by (simp_all add: undisturbed_def)
      from c(4) show ?thesis
      proof
        assume "arrived c"
        then show ?thesis using moved_arrived [OF c'(2)] c(3) c'(1) same(1) by blast
      next
        assume p: "cp_status c = CopyPending \<and> sending d (cp_bulk c) \<and> went_out d c"
        then have "cp_status c' = CopyPending \<and> cp_email c' = cp_email c" using moved_sending [OF c'(2)] by blast
        then show ?thesis using p c(3) c'(1) same by blast
      qed
    qed
    moreover have "cp_id c' \<in> taken_ids d'" if c': "c' \<in> set (md_copies d')" "arrived c' \<or> went_out d' c'" for c'
    proof -
      have "\<not> (cp_message c' = None \<and> \<not> arrived c')" using c'(2) by (auto simp: went_out_def)
      then obtain c where c: "c \<in> set (md_copies d)" "moved d c c'" using from_old [OF c'(1)] by blast
      then have "arrived c \<or> went_out d c" using c'(2) moved_arrived_back [OF c(2)] went_out_moved [OF un c(2)] by blast
      then have "cp_id c \<in> taken_ids d" by (rule taken_okD(3) [OF t c(1)])
      then show ?thesis using moved_same [OF c(2)] un by (simp add: taken_ids_def undisturbed_def)
    qed
    moreover have "distinct (map fst (md_taken d'))" using taken_okD(1) [OF t] un by (simp add: undisturbed_def)
    ultimately show ?thesis by (intro taken_okI) 
  qed
  ultimately show ?thesis using assms(3-5) by (simp add: mail_inv_def)
qed

subsection \<open>What a run may rely on\<close>

definition waiting :: "mail_db \<Rightarrow> pk \<Rightarrow> copy \<Rightarrow> bool" where
  \<comment> \<open>a row held in memory that still is to be sent\<close>
  "waiting d k x \<longleftrightarrow> (\<exists>y \<in> set (md_copies d). cp_id y = cp_id x \<and> cp_status y = CopyPending \<and> cp_bulk y = k
     \<and> cp_email y = cp_email x \<and> \<not> went_out d y)"

definition all_waiting :: "mail_db \<Rightarrow> held_email \<Rightarrow> copy list \<Rightarrow> bool" where
  "all_waiting d h rows \<longleftrightarrow> sending d (be_id (he_email h)) \<and> distinct (map cp_id rows) \<and> (\<forall>x \<in> set rows. waiting d (be_id (he_email h)) x)"

definition settled :: "mail_db \<Rightarrow> pk \<Rightarrow> bool" where
  \<comment> \<open>no pending copy of the email has gone out\<close>
  "settled d k \<longleftrightarrow> (\<forall>y \<in> set (md_copies d). cp_bulk y = k \<longrightarrow> cp_status y = CopyPending \<longrightarrow> \<not> went_out d y)"

definition settled_but :: "mail_db \<Rightarrow> pk \<Rightarrow> pk \<Rightarrow> bool" where
  "settled_but d k i \<longleftrightarrow> (\<forall>y \<in> set (md_copies d). cp_bulk y = k \<longrightarrow> cp_status y = CopyPending \<longrightarrow> cp_id y \<noteq> i \<longrightarrow> \<not> went_out d y)"

fun point_ok :: "mail_db \<Rightarrow> point \<Rightarrow> bool" where
  "point_ok d NextEmail = True"
| "point_ok d (Opened b) = sending d (be_id b)"
| "point_ok d (NextCopy h rows) = (settled d (be_id (he_email h)) \<and> all_waiting d h rows)"
| "point_ok d (Paced h r rows) = (settled d (be_id (he_email h)) \<and> all_waiting d h (r # rows))"
| "point_ok d (Trying h r rows n) = (settled d (be_id (he_email h)) \<and> all_waiting d h (r # rows))"
| "point_ok d (Handing h r rows n) = (settled d (be_id (he_email h)) \<and> all_waiting d h rows \<and> cp_id r \<notin> cp_id ` set rows \<and> cp_message r \<noteq> None
     \<and> (\<exists>y \<in> set (md_copies d). cp_id y = cp_id r \<and> cp_status y = CopyPending \<and> cp_bulk y = be_id (he_email h)
       \<and> cp_email y = cp_email r \<and> cp_message y = cp_message r \<and> \<not> went_out d y))"
| "point_ok d (Answered h r rows t) = (settled_but d (be_id (he_email h)) (cp_id r) \<and> all_waiting d h rows \<and> cp_id r \<notin> cp_id ` set rows
     \<and> (\<exists>y \<in> set (md_copies d). cp_id y = cp_id r \<and> cp_status y = CopyPending \<and> cp_bulk y = be_id (he_email h)
       \<and> cp_email y = cp_email r
       \<and> (ts_status t = CopySent \<and> ts_message t = cp_message y \<and> went_out d y
         \<or> ts_status t = CopyFailed \<and> ts_message t = None \<and> \<not> went_out d y)))"
| "point_ok d (Counting h r rows t) = (settled d (be_id (he_email h)) \<and> all_waiting d h rows)"
| "point_ok d Finished = True"

fun point_bulk :: "point \<Rightarrow> pk list" where
  \<comment> \<open>the email a run is working on\<close>
  "point_bulk (Opened b) = [be_id b]"
| "point_bulk (NextCopy h rows) = [be_id (he_email h)]"
| "point_bulk (Paced h r rows) = [be_id (he_email h)]"
| "point_bulk (Trying h r rows n) = [be_id (he_email h)]"
| "point_bulk (Handing h r rows n) = [be_id (he_email h)]"
| "point_bulk (Answered h r rows t) = [be_id (he_email h)]"
| "point_bulk (Counting h r rows t) = [be_id (he_email h)]"
| "point_bulk p = []"

definition run_ok :: "sender_run \<Rightarrow> mail_db \<Rightarrow> bool" where
  "run_ok s d \<longleftrightarrow> point_ok d (sr_point s) \<and> distinct (point_bulk (sr_point s) @ map be_id (sr_unfinished s))
     \<and> (\<forall>b \<in> set (sr_unfinished s). sending d (be_id b))"

lemma waiting_evolves:
  assumes "evolves d d'" and "waiting d k x" and "sending d k"
  shows "waiting d' k x"
proof -
  obtain y where y: "y \<in> set (md_copies d)" "cp_id y = cp_id x" "cp_status y = CopyPending" "cp_bulk y = k"
      "cp_email y = cp_email x" "\<not> went_out d y" using assms(2) by (auto simp: waiting_def)
  then obtain y' where y': "y' \<in> set (md_copies d')" "moved d y y'" using evolves_keeps [OF assms(1) y(1)] by auto
  have "undisturbed d d'" by (rule evolves_undisturbed [OF assms(1)])
  then have "\<not> went_out d' y'" using y(6) went_out_moved y'(2) by blast
  then show ?thesis using y y' moved_sending [OF y'(2) y(3)] moved_same [OF y'(2)] assms(3) by (auto simp: waiting_def)
qed

lemma all_waiting_evolves: "evolves d d' \<Longrightarrow> all_waiting d h rows \<Longrightarrow> all_waiting d' h rows"
  using waiting_evolves [of d d'] evolves_undisturbed [of d d'] unfolding all_waiting_def undisturbed_def by blast

lemma pending_evolves:
  assumes ev: "evolves d d'" and y: "y \<in> set (md_copies d)" "cp_status y = CopyPending" "sending d (cp_bulk y)"
  obtains y' where "y' \<in> set (md_copies d')" "cp_id y' = cp_id y" "cp_status y' = CopyPending" "cp_bulk y' = cp_bulk y"
    "cp_email y' = cp_email y" "cp_message y' = cp_message y" "went_out d' y' = went_out d y"
proof -
  obtain y' where y': "y' \<in> set (md_copies d')" "moved d y y'" using evolves_keeps [OF ev y(1)] y(2) by auto
  show ?thesis
    using that [OF y'(1)] moved_sending [OF y'(2) y(2,3)] moved_same [OF y'(2)]
      went_out_moved [OF evolves_undisturbed [OF ev] y'(2)] by blast
qed

lemma went_out_status:
  assumes inv: "mail_inv d" and c: "c \<in> set (md_copies d)" and "went_out d c"
  shows "arrived c \<or> cp_status c = CopyPending \<and> sending d (cp_bulk c)"
proof -
  have "cp_id c \<in> taken_ids d" using taken_okD(3) [OF mail_invD(5) [OF inv] c] assms(3) by blast
  then obtain a where "(cp_id c, a) \<in> set (md_taken d)" by (auto simp: taken_ids_def)
  from taken_okD(2) [OF mail_invD(5) [OF inv] this] obtain x where x: "x \<in> set (md_copies d)" "cp_id x = cp_id c"
    "arrived x \<or> cp_status x = CopyPending \<and> sending d (cp_bulk x) \<and> went_out d x" by blast
  have "x = c" by (rule copy_unique [OF mail_invD(1) [OF inv] c x(1,2)])
  then show ?thesis using x(3) by blast
qed

lemma settled_but_evolves:
  assumes inv: "mail_inv d" and ev: "evolves d d'" and s: "settled_but d k i"
  shows "settled_but d' k i"
  unfolding settled_but_def
proof (intro ballI impI)
  fix y' assume y': "y' \<in> set (md_copies d')" "cp_bulk y' = k" "cp_status y' = CopyPending" "cp_id y' \<noteq> i"
  from evolves_from [OF ev y'(1)] show "\<not> went_out d' y'"
  proof
    assume "\<exists>y \<in> set (md_copies d). moved d y y'"
    then obtain y where y: "y \<in> set (md_copies d)" "moved d y y'" by blast
    have "\<not> went_out d y"
    proof (cases "cp_status y = CopyPending")
      case True
      then show ?thesis using s y(1) y'(2,4) moved_same [OF y(2)] unfolding settled_but_def by metis
    next
      case False
      then have "\<not> arrived y" using y(2) y'(3) by (auto simp: moved_def arrived_def)
      then show ?thesis using went_out_status [OF inv y(1)] False by blast
    qed
    then show ?thesis using went_out_moved [OF evolves_undisturbed [OF ev] y(2)] by simp
  qed (simp add: went_out_def)
qed

lemma settled_evolves: "mail_inv d \<Longrightarrow> evolves d d' \<Longrightarrow> settled d k \<Longrightarrow> settled d' k"
proof -
  assume a: "mail_inv d" "evolves d d'" "settled d k"
  have "settled_but d' k i" for i
    by (rule settled_but_evolves [OF a(1,2)]) (use a(3) in \<open>auto simp: settled_def settled_but_def\<close>)
  then show ?thesis unfolding settled_def settled_but_def by (metis n_not_Suc_n)
qed

lemma point_evolves:
  assumes inv: "mail_inv d" and ev: "evolves d d'" and "point_ok d p"
  shows "point_ok d' p"
proof -
  have un: "sending d' k = sending d k" for k using evolves_undisturbed [OF ev] by (simp add: undisturbed_def)
  show ?thesis
  proof (cases p)
    case (Handing h r rows n)
    with assms(3) obtain y where w: "all_waiting d h rows" "cp_id r \<notin> cp_id ` set rows" "cp_message r \<noteq> None"
      and y: "y \<in> set (md_copies d)" "cp_id y = cp_id r" "cp_status y = CopyPending" "cp_bulk y = be_id (he_email h)"
        "cp_email y = cp_email r" "cp_message y = cp_message r" "\<not> went_out d y" by auto
    have "sending d (cp_bulk y)" using w(1) y(4) by (simp add: all_waiting_def)
    from pending_evolves [OF ev y(1,3) this] obtain y' where "y' \<in> set (md_copies d')" "cp_id y' = cp_id y"
        "cp_status y' = CopyPending" "cp_bulk y' = cp_bulk y" "cp_email y' = cp_email y" "cp_message y' = cp_message y"
        "went_out d' y' = went_out d y" by blast
    moreover have "settled d' (be_id (he_email h))" using Handing assms(3) settled_evolves [OF inv ev] by simp
    ultimately show ?thesis using Handing y w all_waiting_evolves [OF ev w(1)] by auto
  next
    case (Answered h r rows t)
    with assms(3) obtain y where w: "all_waiting d h rows" "cp_id r \<notin> cp_id ` set rows"
      and y: "y \<in> set (md_copies d)" "cp_id y = cp_id r" "cp_status y = CopyPending" "cp_bulk y = be_id (he_email h)"
        "cp_email y = cp_email r" "ts_status t = CopySent \<and> ts_message t = cp_message y \<and> went_out d y
         \<or> ts_status t = CopyFailed \<and> ts_message t = None \<and> \<not> went_out d y" by auto
    have "sending d (cp_bulk y)" using w(1) y(4) by (simp add: all_waiting_def)
    from pending_evolves [OF ev y(1,3) this] obtain y' where "y' \<in> set (md_copies d')" "cp_id y' = cp_id y"
        "cp_status y' = CopyPending" "cp_bulk y' = cp_bulk y" "cp_email y' = cp_email y" "cp_message y' = cp_message y"
        "went_out d' y' = went_out d y" by blast
    moreover have "settled_but d' (be_id (he_email h)) (cp_id r)" using Answered assms(3) settled_but_evolves [OF inv ev] by simp
    ultimately show ?thesis using Answered y w all_waiting_evolves [OF ev w(1)] by auto
  qed (use assms(3) all_waiting_evolves [OF ev] settled_evolves [OF inv ev] un in auto)
qed

lemma run_evolves: "mail_inv d \<Longrightarrow> evolves d d' \<Longrightarrow> run_ok s d \<Longrightarrow> run_ok s d'"
  using point_evolves evolves_undisturbed [of d d'] by (simp add: run_ok_def undisturbed_def)

subsection \<open>Requests are harmless\<close>

definition harmless :: "mail_db \<Rightarrow> mail_db \<Rightarrow> bool" where
  "harmless d d' \<longleftrightarrow> (mail_inv d \<longrightarrow> mail_inv d' \<and> (\<forall>s. run_ok s d \<longrightarrow> run_ok s d'))"

named_theorems harmless_intros \<open>changes that disturb neither the invariant nor a run\<close>

lemma harmless_refl [simp, harmless_intros]: "harmless d d"
  by (simp add: harmless_def)

lemma harmless_trans: "harmless d d1 \<Longrightarrow> harmless d1 d2 \<Longrightarrow> harmless d d2"
  by (simp add: harmless_def)

lemma harmless_evolves:
  "(mail_inv d \<Longrightarrow> evolves d d' \<and> rows_ok d' \<and> stages_ok d' \<and> one_copy d') \<Longrightarrow> harmless d d'"
  unfolding harmless_def using evolves_inv run_evolves by blast

text \<open>The tables that the invariant does not read may change in any way.\<close>

lemma harmless_cong:
  assumes "md_copies d' = md_copies d" "md_emails d' = md_emails d" "md_taken d' = md_taken d" "md_draws d' = md_draws d"
    "md_entries d' = md_entries d" "md_next_pk d \<le> md_next_pk d'"
  shows "harmless d d'"
proof (rule harmless_evolves)
  assume inv: "mail_inv d"
  have same: "get_email d' k = get_email d k" "sending d' k = sending d k" "accepted d' m = accepted d m" for k m
    using assms by (simp_all add: get_email_def sending_def accepted_def)
  have "rows_ok d'"
    using rows_ok_same_keys [OF mail_invD(1) [OF inv] _ _ assms(6)] assms(1,2) by simp
  moreover have "stages_ok d'" using mail_invD(2) [OF inv] assms(1,2) same by (simp add: stages_ok_def)
  moreover have "one_copy d'" using mail_invD(3) [OF inv] one_copy_cong [OF assms(1)] by simp
  moreover have "evolves d d'" using assms same by (auto simp: evolves_def undisturbed_def)
  ultimately show "evolves d d' \<and> rows_ok d' \<and> stages_ok d' \<and> one_copy d'" by blast
qed

lemma harmless_log [harmless_intros]: "harmless d (mail_log a w t b fs d)"
  by (rule harmless_cong) (simp_all add: mail_log_def)

lemma harmless_rollback [harmless_intros]: "harmless d (mail_rollback d d')"
  by (rule harmless_cong) (simp_all add: mail_rollback_def)

lemma harmless_atomic: "(\<And>x. f d = (Inr x, snd (f d)) \<Longrightarrow> harmless d (snd (f d))) \<Longrightarrow> harmless d (snd (mail_atomic f d))"
  by (cases "f d"; cases "fst (f d)") (auto simp: mail_atomic_def harmless_rollback)

text \<open>Rewriting the copies in their places, and the row of one email.\<close>

definition edit_ok :: "bulk_email \<Rightarrow> bulk_email \<Rightarrow> bool" where
  \<comment> \<open>what a request may make of an email, its copies left as they are\<close>
  "edit_ok b b' \<longleftrightarrow> (be_status b' = SendingEmail \<longleftrightarrow> be_status b = SendingEmail) \<and> be_started_at b' = be_started_at b"

lemma get_email_edit:
  "(\<And>b. be_id (f b) = be_id b) \<Longrightarrow> get_email (edit_email k f d) j = (if j = k then map_option f (get_email d j) else get_email d j)"
  by (rule email_row.get_edit)

lemma harmless_map:
  assumes copies: "md_copies d' = map g (md_copies d)"
    and emails: "md_emails d' = rows_update (\<lambda>r. be_id r = k) f (md_emails d)"
    and rest: "md_taken d' = md_taken d" "md_draws d' = md_draws d" "\<And>m. accepted d' m = accepted d m" "md_next_pk d \<le> md_next_pk d'"
    and f: "\<And>b. be_id (f b) = be_id b" "\<And>b. mail_inv d \<Longrightarrow> get_email d k = Some b \<Longrightarrow> edit_ok b (f b)"
    and g: "\<And>c. mail_inv d \<Longrightarrow> c \<in> set (md_copies d) \<Longrightarrow> moved d c (g c)"
      "\<And>c. mail_inv d \<Longrightarrow> c \<in> set (md_copies d) \<Longrightarrow> cp_bulk c \<noteq> k \<Longrightarrow> cp_status (g c) = cp_status c"
      "\<And>c b. mail_inv d \<Longrightarrow> c \<in> set (md_copies d) \<Longrightarrow> cp_bulk c = k \<Longrightarrow> get_email d k = Some b \<Longrightarrow> stage_ok b c \<Longrightarrow> stage_ok (f b) (g c)"
    and one: "mail_inv d \<Longrightarrow> one_copy d'"
  shows "harmless d d'"
proof (rule harmless_evolves)
  assume inv: "mail_inv d"
  then have rows: "rows_ok d" and stages: "stages_ok d" by (rule mail_invD)+
  note g1 = g(1) [OF inv]
  have get: "get_email d' j = (if j = k then map_option f (get_email d j) else get_email d j)" for j
    using get_email_edit [of f k d j, OF f(1)] emails by (simp add: get_email_def edit_email_def)
  have sending: "sending d' j = sending d j" for j
    using f(2) [OF inv] by (auto simp: sending_def get edit_ok_def split: if_splits)
  have "map cp_id (md_copies d') = map cp_id (md_copies d)" using g1 by (auto simp: copies moved_def)
  moreover have ids: "map be_id (md_emails d') = map be_id (md_emails d)"
    unfolding emails by (rule map_key_rows_update) (rule f(1))
  ultimately have "rows_ok d'" using rows_ok_same_keys [OF rows] rest(4) by blast
  moreover have "stages_ok d'"
    unfolding stages_ok_def
  proof (intro conjI ballI impI)
    fix c' assume "c' \<in> set (md_copies d')"
    then obtain c where c: "c \<in> set (md_copies d)" "c' = g c" by (auto simp: copies)
    then obtain b where b: "get_email d (cp_bulk c) = Some b" "stage_ok b c" using stages by (auto simp: stages_ok_def)
    show "\<exists>b. get_email d' (cp_bulk c') = Some b \<and> stage_ok b c'"
    proof (cases "cp_bulk c = k")
      case True
      then show ?thesis using g(3) [OF inv c(1) True] b moved_same [OF g1 [OF c(1)]] c(2) get by auto
    next
      case False
      then have "stage_ok b (g c)" using b(2) g(2) [OF inv c(1) False] g1 [OF c(1)] by (simp add: stage_ok_def moved_def)
      then show ?thesis using False b(1) moved_same [OF g1 [OF c(1)]] c(2) get by auto
    qed
  next
    fix b' assume b': "b' \<in> set (md_emails d')" "be_status b' = SendingEmail"
    then obtain b where b: "b \<in> set (md_emails d)" "b' = (if be_id b = k then f b else b)" by (auto simp: emails set_rows_update)
    then show "be_started_at b' \<noteq> None"
      using stages b'(2) f(2) [OF inv] get_email_row [OF rows b(1)] by (auto simp: stages_ok_def edit_ok_def split: if_splits)
  qed
  moreover have "evolves d d'"
    unfolding evolves_def undisturbed_def using rest sending g1 by (auto simp: copies)
  ultimately show "evolves d d' \<and> rows_ok d' \<and> stages_ok d' \<and> one_copy d'" using one [OF inv] by blast
qed

lemma one_copy_map:
  assumes "one_copy d" and "md_copies d' = map g (md_copies d)"
    and "\<And>c. c \<in> set (md_copies d) \<Longrightarrow> cp_id (g c) = cp_id c \<and> cp_bulk (g c) = cp_bulk c \<and> cp_round (g c) = cp_round c"
    and "\<And>c. c \<in> set (md_copies d) \<Longrightarrow> live (g c) \<Longrightarrow> live c \<and> cp_email (g c) = cp_email c"
  shows "one_copy d'"
  unfolding one_copy_def
proof (intro ballI impI)
  fix x y assume x: "x \<in> set (md_copies d')" and y: "y \<in> set (md_copies d')" and l: "live x" "live y" and k: "address_key x = address_key y"
  obtain c e where c: "c \<in> set (md_copies d)" "x = g c" and e: "e \<in> set (md_copies d)" "y = g e"
    using x y by (auto simp: assms(2))
  have "address_key c = address_key x" "address_key e = address_key y" "live c" "live e"
    using assms(3,4) c e l by (auto simp: address_key_def)
  then show "cp_id x = cp_id y" using assms(1,3) c e k unfolding one_copy_def by metis
qed

lemma harmless_edit:
  assumes "\<And>b. be_id (f b) = be_id b" and "\<And>b. mail_inv d \<Longrightarrow> get_email d k = Some b \<Longrightarrow> edit_ok b (f b)
      \<and> (be_status b = QueuedEmail \<longrightarrow> be_status (f b) = QueuedEmail \<or> be_started_at b = None)"
  shows "harmless d (edit_email k f d)"
proof (rule harmless_map [where g = "\<lambda>c. c" and k = k and f = f])
  fix c b
  assume "mail_inv d" "get_email d k = Some b" "stage_ok b c"
  with assms(2) [of b] show "stage_ok (f b) c" by (auto simp: stage_ok_def edit_ok_def)
next
  assume "mail_inv d"
  then have "one_copy d" by (rule mail_invD(3))
  then show "one_copy (edit_email k f d)" using one_copy_cong [of "edit_email k f d" d] by (simp add: edit_email_def)
next
  fix b assume "mail_inv d" "get_email d k = Some b"
  then show "edit_ok b (f b)" using assms(2) by blast
qed (simp_all add: edit_email_def accepted_def assms(1))

lemma harmless_append:
  assumes copies: "md_copies d' = md_copies d @ new" and emails: "md_emails d' = md_emails d"
    and rest: "md_taken d' = md_taken d" "md_draws d' = md_draws d" "md_entries d' = md_entries d" "md_next_pk d \<le> md_next_pk d'"
    and ids: "distinct (map cp_id new)" "\<And>c. c \<in> set new \<Longrightarrow> md_next_pk d \<le> cp_id c \<and> cp_id c < md_next_pk d'"
    and new: "\<And>c. c \<in> set new \<Longrightarrow> cp_message c = None \<and> \<not> arrived c"
    and stage: "\<And>c. mail_inv d \<Longrightarrow> c \<in> set new \<Longrightarrow> \<exists>b. get_email d (cp_bulk c) = Some b \<and> stage_ok b c"
    and fresh: "\<And>c c'. mail_inv d \<Longrightarrow> c \<in> set new \<Longrightarrow> c' \<in> set (md_copies d @ new) \<Longrightarrow> live c \<Longrightarrow> live c'
      \<Longrightarrow> address_key c = address_key c' \<Longrightarrow> c = c'"
  shows "harmless d d'"
proof (rule harmless_evolves)
  assume inv: "mail_inv d"
  have get: "get_email d' j = get_email d j" "sending d' j = sending d j" "accepted d' m = accepted d m" for j m
    using emails rest(3) by (simp_all add: get_email_def sending_def accepted_def)
  note rows = rows_okD [OF mail_invD(1) [OF inv]]
  have "cp_id c \<noteq> cp_id x" if "c \<in> set (md_copies d)" "x \<in> set new" for c x
    using rows(2) [OF that(1)] ids(2) [OF that(2)] by simp
  then have "distinct (map cp_id (md_copies d'))" using rows(1) ids(1) by (auto simp: copies)
  moreover have "cp_id c < md_next_pk d'" if "c \<in> set (md_copies d')" for c
    using that rows(2) ids(2) rest(4) by (fastforce simp: copies)
  moreover have "be_id b < md_next_pk d'" if "b \<in> set (md_emails d')" for b
    using that rows(4) rest(4) by (fastforce simp: emails)
  ultimately have "rows_ok d'" using rows(3) emails by (intro rows_okI) simp_all
  moreover have "stages_ok d'"
    using mail_invD(2) [OF inv] stage [OF inv] by (auto simp: stages_ok_def copies emails get)
  moreover have "one_copy d'"
    unfolding one_copy_def
  proof (intro ballI impI)
    fix c c' assume c: "c \<in> set (md_copies d')" "c' \<in> set (md_copies d')" "live c" "live c'" "address_key c = address_key c'"
    show "cp_id c = cp_id c'"
    proof (cases "c \<in> set new \<or> c' \<in> set new")
      case True
      then show ?thesis using fresh [OF inv, of c c'] fresh [OF inv, of c' c] c copies by auto
    next
      case False
      then have "c \<in> set (md_copies d)" "c' \<in> set (md_copies d)" using c(1,2) copies by auto
      then show ?thesis using one_copyD [OF mail_invD(3) [OF inv]] c(3-5) by blast
    qed
  qed
  moreover have "evolves d d'"
    unfolding evolves_def undisturbed_def using rest get new ids by (auto simp: copies)
  ultimately show "evolves d d' \<and> rows_ok d' \<and> stages_ok d' \<and> one_copy d'" by blast
qed

lemma harmless_delete:
  assumes copies: "md_copies d' = filter P (md_copies d)" and emails: "md_emails d' = filter Q (md_emails d)"
    and rest: "md_taken d' = md_taken d" "md_draws d' = md_draws d" "md_entries d' = md_entries d" "md_next_pk d' = md_next_pk d"
    and P: "\<And>c. mail_inv d \<Longrightarrow> c \<in> set (md_copies d) \<Longrightarrow> \<not> P c \<Longrightarrow> cp_status c = Batched"
    and Q: "\<And>b. mail_inv d \<Longrightarrow> b \<in> set (md_emails d) \<Longrightarrow> \<not> Q b \<Longrightarrow> be_status b \<noteq> SendingEmail"
      "\<And>b c. b \<in> set (md_emails d) \<Longrightarrow> \<not> Q b \<Longrightarrow> P c \<Longrightarrow> cp_bulk c \<noteq> be_id b"
  shows "harmless d d'"
proof (rule harmless_evolves)
  assume inv: "mail_inv d"
  note r = mail_invD(1) [OF inv]
  have get: "get_email d' j = Some b \<longleftrightarrow> get_email d j = Some b \<and> Q b" for j b
  proof
    assume "get_email d' j = Some b"
    then have "b \<in> set (md_emails d)" "Q b" "be_id b = j" using get_email_SomeD [of d' j b] by (auto simp: emails)
    then show "get_email d j = Some b \<and> Q b" using get_email_row [OF r] by blast
  next
    assume "get_email d j = Some b \<and> Q b"
    then have b: "b \<in> set (md_emails d')" "be_id b = j" using get_email_SomeD [of d j b] by (auto simp: emails)
    have "distinct (map be_id (md_emails d'))" using rows_okD(3) [OF r] by (simp add: emails distinct_map_filter)
    then show "get_email d' j = Some b" using b row_get_distinct by (fastforce simp: get_email_def)
  qed
  have sending: "sending d' j = sending d j" for j
    using Q(1) [OF inv] get_email_SomeD [of d j] unfolding sending_def get by blast
  have "rows_ok d'"
    using rows_okD [OF r] by (intro rows_okI) (auto simp: copies emails rest(4) distinct_map_filter)
  moreover have "stages_ok d'"
    unfolding stages_ok_def
  proof (intro conjI ballI impI)
    fix c assume "c \<in> set (md_copies d')"
    then have c: "c \<in> set (md_copies d)" "P c" by (auto simp: copies)
    then obtain b where b: "get_email d (cp_bulk c) = Some b" "stage_ok b c"
      using mail_invD(2) [OF inv] by (auto simp: stages_ok_def)
    then have "Q b" using Q(2) [of b c] c(2) get_email_SomeD [OF b(1)] by auto
    then show "\<exists>b. get_email d' (cp_bulk c) = Some b \<and> stage_ok b c" using b get by blast
  next
    fix b assume "b \<in> set (md_emails d')" "be_status b = SendingEmail"
    then show "be_started_at b \<noteq> None" using mail_invD(2) [OF inv] by (auto simp: stages_ok_def emails)
  qed
  moreover have "one_copy d'"
    using mail_invD(3) [OF inv] unfolding one_copy_def copies set_filter by blast
  moreover have "evolves d d'"
    unfolding evolves_def undisturbed_def using rest sending P [OF inv] by (auto simp: copies accepted_def)
  ultimately show "evolves d d' \<and> rows_ok d' \<and> stages_ok d' \<and> one_copy d'" by blast
qed

subsection \<open>The batch and the draft\<close>

lemma locked_for_edit_Inr: "locked_for_edit d k = Inr b \<longleftrightarrow> get_email d k = Some b \<and> can_edit b"
  by (auto simp: locked_for_edit_def split: option.splits)

lemma harmless_back_to_draft:
  assumes "get_email d (be_id b) = Some b0" and "be_status b = be_status b0" and "be_started_at b0 = None"
  shows "harmless d (back_to_draft b who reason d)"
proof -
  have "harmless d (edit_email (be_id b) (\<lambda>r. r\<lparr>be_status := DraftEmail, be_start_at := None, be_scheduled := False,
      be_confirm_count := None\<rparr>) d)" if "be_status b = QueuedEmail"
    by (rule harmless_edit) (use assms that in \<open>auto simp: edit_ok_def\<close>)
  then show ?thesis unfolding back_to_draft_def by (auto intro: harmless_trans [OF _ harmless_log])
qed

lemma record_limit_effect:
  assumes "record_limit d b = (r, d')" and "get_email d (be_id b) = Some b"
  shows "harmless d d'" and "\<exists>b'. get_email d' (be_id b) = Some b' \<and> be_status b' = be_status b \<and> be_started_at b' = be_started_at b"
    and "md_copies d' = md_copies d" "md_emails d' = md_emails d \<or> (\<exists>x. d' = edit_email (be_id b) (\<lambda>r. r\<lparr>be_dart := x\<rparr>) d)"
proof -
  have "d' = d \<or> (\<exists>x. d' = edit_email (be_id b) (\<lambda>r. r\<lparr>be_dart := x\<rparr>) d)"
    using assms(1) by (auto simp: record_limit_def split: option.splits dart_limit.splits if_splits)
  moreover have "harmless d (edit_email (be_id b) (\<lambda>r. r\<lparr>be_dart := x\<rparr>) d)" for x
    by (rule harmless_edit) (auto simp: edit_ok_def)
  ultimately show "harmless d d'" "md_copies d' = md_copies d"
    "\<exists>b'. get_email d' (be_id b) = Some b' \<and> be_status b' = be_status b \<and> be_started_at b' = be_started_at b"
    "md_emails d' = md_emails d \<or> (\<exists>x. d' = edit_email (be_id b) (\<lambda>r. r\<lparr>be_dart := x\<rparr>) d)"
    using assms(2) by (auto simp: edit_email_def get_email_edit [unfolded edit_email_def])
qed

lemma fresh_copy_simps [simp]:
  "cp_id (fresh_copy n k a) = n" "cp_bulk (fresh_copy n k a) = k" "cp_status (fresh_copy n k a) = Batched"
  "cp_message (fresh_copy n k a) = None" "cp_round (fresh_copy n k a) = 0" "cp_email (fresh_copy n k a) = u_email a"
  "cp_user (fresh_copy n k a) = Some (u_id a)"
  by (simp_all add: fresh_copy_def snapshot_def)

lemma snapshot_simps [simp]:
  "cp_id (snapshot a r) = cp_id r" "cp_bulk (snapshot a r) = cp_bulk r" "cp_status (snapshot a r) = cp_status r"
  "cp_message (snapshot a r) = cp_message r" "cp_round (snapshot a r) = cp_round r" "cp_email (snapshot a r) = u_email a"
  "cp_user (snapshot a r) = cp_user r"
  by (simp_all add: snapshot_def)

lemma map_enumerate: "map (\<lambda>(i, a). g i) (List.enumerate m xs) = map g [m..<m + length xs]"
proof (induction xs arbitrary: m)
  case (Cons x xs)
  have "[m..<m + length (x # xs)] = m # [Suc m..<Suc m + length xs]" by (simp add: upt_conv_Cons del: upt_Suc)
  then show ?case using Cons.IH [of "Suc m"] by simp
qed simp

lemma harmless_add_body: "harmless d (snd (add_body k chosen who fs label d))"
proof (cases "locked_for_edit d k")
  case (Inr b)
  then have b: "get_email d k = Some b" "be_started_at b = None" by (auto simp: locked_for_edit_Inr can_edit_def)
  then have k: "be_id b = k" using get_email_SomeD by blast
  obtain r d1 where rec: "record_limit d b = (r, d1)" by fastforce
  note eff = record_limit_effect [OF rec, unfolded k, OF b(1)]
  show ?thesis
  proof (cases r)
    case (Inl e)
    then show ?thesis using eff(1) by (simp add: add_body_def Inr rec)
  next
    case r: (Inr l)
    let ?present = "map cp_user (batch_queryset d1 k)"
    let ?joining = "filter (\<lambda>a. Some (u_id a) \<notin> set ?present) chosen"
    let ?n = "md_next_pk d1"
    let ?new = "map (\<lambda>(i, a). (fresh_copy (?n + 1 + i) k a)\<lparr>cp_added_by := Some ?n\<rparr>) (List.enumerate 0 ?joining)"
    define d2 where "d2 = d1\<lparr>md_adds := md_adds d1 @ [\<lparr>ba_id = ?n, ba_bulk = k, ba_filters = fs, ba_label = label,
        ba_added = length ?joining, ba_already = length chosen - length ?joining\<rparr>],
      md_copies := md_copies d1 @ ?new, md_next_pk := ?n + 1 + length ?joining\<rparr>"
    obtain b' where b': "get_email d1 k = Some b'" "be_status b' = be_status b" "be_started_at b' = be_started_at b"
      using eff(2) k by auto
    have ids: "map cp_id ?new = map (\<lambda>i. ?n + 1 + i) [0..<length ?joining]"
      using map_enumerate [of "\<lambda>i. ?n + 1 + i" 0 ?joining] by (simp add: comp_def case_prod_unfold)
    have "harmless d1 d2"
    proof (rule harmless_append [where new = ?new])
      show "distinct (map cp_id ?new)" unfolding ids by (simp add: distinct_map inj_on_def)
      show "md_next_pk d1 \<le> cp_id c \<and> cp_id c < md_next_pk d2" if "c \<in> set ?new" for c
        using that by (auto simp: d2_def in_set_enumerate_eq)
      show "\<exists>b. get_email d1 (cp_bulk c) = Some b \<and> stage_ok b c" if "c \<in> set ?new" for c
        using that b' b(2) by (auto simp: stage_ok_def)
      show "c = c'" if "c \<in> set ?new" "live c" for c c'
        using that by (auto simp: live_def)
    qed (auto simp: d2_def arrived_def)
    moreover have "get_email d2 k = Some b'" using b'(1) by (simp add: d2_def get_email_def)
    then have "harmless d2 (back_to_draft b who ''batch_changed'' d2)"
      using harmless_back_to_draft [of d2 b b'] b' b(2) k by simp
    ultimately have "harmless d (back_to_draft b who ''batch_changed'' d2)"
      using eff(1) harmless_trans by blast
    then show ?thesis by (simp add: add_body_def Inr rec r Let_def d2_def)
  qed
qed (simp add: add_body_def)

lemma harmless_add_accounts [harmless_intros]: "harmless d (snd (add_accounts k chosen who fs label d))"
  unfolding add_accounts_def by (rule harmless_atomic) (rule harmless_add_body)

lemma harmless_add_filters [harmless_intros]: "harmless d (snd (add_filters selected k fs who d))"
  unfolding add_filters_def
proof (rule harmless_atomic)
  let ?f = "\<lambda>d. case locked_for_edit d k of Inl e \<Rightarrow> (Inl e, d)
     | Inr locked \<Rightarrow> (case record_limit d locked of (Inl e, d1) \<Rightarrow> (Inl e, d1)
       | (Inr l, d1) \<Rightarrow> (case forced_filters l fs of Inl e \<Rightarrow> (Inl e, d1)
         | Inr forced \<Rightarrow> let given = given_filters forced in add_body k (selected given) who given [] d1))"
  show "harmless d (snd (?f d))"
  proof (cases "locked_for_edit d k")
    case (Inr b)
    then have b: "get_email d k = Some b" by (simp add: locked_for_edit_Inr)
    have k: "be_id b = k" using get_email_SomeD [OF b] by simp
    obtain r d1 where rec: "record_limit d b = (r, d1)" by fastforce
    have "harmless d d1" using record_limit_effect(1) [OF rec] b k by simp
    then show ?thesis using harmless_trans [OF _ harmless_add_body]
      by (simp add: Inr rec Let_def split: sum.splits)
  qed simp
qed

lemma batch_of_unstarted:
  assumes "mail_inv d" and "get_email d k = Some b" and "be_started_at b = None" and "c \<in> set (md_copies d)" and "cp_bulk c = k"
  shows "cp_status c = Batched"
  using mail_invD(2) [OF assms(1)] assms(2-5) by (force simp: stages_ok_def stage_ok_def)

lemma harmless_remove [harmless_intros]: "harmless d (snd (remove_copy k r who d))"
  unfolding remove_copy_def
proof (rule harmless_atomic)
  let ?f = "\<lambda>d. case locked_for_edit d k of Inl e \<Rightarrow> (Inl e, d)
     | Inr locked \<Rightarrow> (case row_get cp_id (batch_queryset d k) r of None \<Rightarrow> (Inl NoSuchRow, d)
       | Some r \<Rightarrow> (Inr (), back_to_draft locked who ''batch_changed''
           (d\<lparr>md_copies := rows_delete (\<lambda>x. cp_id x = cp_id r) (md_copies d)\<rparr>)))"
  show "harmless d (snd (?f d))"
  proof (cases "locked_for_edit d k")
    case (Inr b)
    then have b: "get_email d k = Some b" "be_started_at b = None" by (auto simp: locked_for_edit_Inr can_edit_def)
    have k: "be_id b = k" using get_email_SomeD [OF b(1)] by simp
    show ?thesis
    proof (cases "row_get cp_id (batch_queryset d k) r")
      case (Some c)
      then have c: "c \<in> set (md_copies d)" "cp_bulk c = k" using row_get_SomeD(1) [OF Some] by (auto simp: batch_queryset_def)
      let ?d1 = "d\<lparr>md_copies := rows_delete (\<lambda>x. cp_id x = cp_id c) (md_copies d)\<rparr>"
      have "harmless d ?d1"
      proof (rule harmless_delete [where P = "\<lambda>x. \<not> cp_id x = cp_id c" and Q = "\<lambda>_. True"])
        fix x assume inv: "mail_inv d" and x: "x \<in> set (md_copies d)" "\<not> \<not> cp_id x = cp_id c"
        then have "x = c" using copy_unique [OF mail_invD(1) [OF inv] c(1)] by simp
        then show "cp_status x = Batched" using batch_of_unstarted [OF inv b c] by simp
      qed (simp_all add: rows_delete_def)
      moreover have "harmless ?d1 (back_to_draft b who ''batch_changed'' ?d1)"
        by (rule harmless_back_to_draft [where b0 = b]) (use b k in \<open>simp_all add: get_email_def\<close>)
      ultimately show ?thesis using harmless_trans by (simp add: Inr Some)
    qed (simp add: Inr)
  qed simp
qed

lemma harmless_clear [harmless_intros]: "harmless d (snd (clear_batch k who d))"
  unfolding clear_batch_def
proof (rule harmless_atomic)
  let ?f = "\<lambda>d. case locked_for_edit d k of Inl e \<Rightarrow> (Inl e, d)
     | Inr locked \<Rightarrow> (Inr (length (batch_queryset d k)), back_to_draft locked who ''batch_changed''
         (d\<lparr>md_copies := rows_delete (\<lambda>x. cp_bulk x = k \<and> cp_round x = 0) (md_copies d),
            md_adds := rows_delete (\<lambda>a. ba_bulk a = k) (md_adds d)\<rparr>))"
  show "harmless d (snd (?f d))"
  proof (cases "locked_for_edit d k")
    case (Inr b)
    then have b: "get_email d k = Some b" "be_started_at b = None" by (auto simp: locked_for_edit_Inr can_edit_def)
    have k: "be_id b = k" using get_email_SomeD [OF b(1)] by simp
    let ?d1 = "d\<lparr>md_copies := rows_delete (\<lambda>x. cp_bulk x = k \<and> cp_round x = 0) (md_copies d),
            md_adds := rows_delete (\<lambda>a. ba_bulk a = k) (md_adds d)\<rparr>"
    have "harmless d ?d1"
      by (rule harmless_delete [where P = "\<lambda>x. \<not> (cp_bulk x = k \<and> cp_round x = 0)" and Q = "\<lambda>_. True"])
        (simp_all add: rows_delete_def, metis b batch_of_unstarted)
    moreover have "harmless ?d1 (back_to_draft b who ''batch_changed'' ?d1)"
      by (rule harmless_back_to_draft [where b0 = b]) (use b k in \<open>simp_all add: get_email_def\<close>)
    ultimately show ?thesis using harmless_trans by (simp add: Inr)
  qed simp
qed

lemma harmless_new_email:
  assumes "be_id b = md_next_pk d" and "be_status b \<noteq> SendingEmail"
    and d': "d' = d\<lparr>md_emails := md_emails d @ [b], md_next_pk := md_next_pk d + 1\<rparr>"
  shows "harmless d d'"
proof (rule harmless_evolves)
  assume inv: "mail_inv d"
  note r = rows_okD [OF mail_invD(1) [OF inv]]
  have none: "get_email d (md_next_pk d) = None"
    using r(4) get_email_SomeD [of d "md_next_pk d"] by (cases "get_email d (md_next_pk d)") fastforce+
  have parts: "md_emails d' = md_emails d @ [b]" "md_next_pk d' = Suc (md_next_pk d)" "md_copies d' = md_copies d"
    "md_taken d' = md_taken d" "md_draws d' = md_draws d" "md_entries d' = md_entries d" by (simp_all add: d')
  have get: "get_email d' j = (if j = md_next_pk d then Some b else get_email d j)" for j
    using none assms(1) by (auto simp: get_email_def parts row_get_append split: option.splits)
  have sending: "sending d' j = sending d j" for j using none assms(2) by (auto simp: sending_def get)
  have "be_id x < Suc (md_next_pk d)" if "x \<in> set (md_emails d @ [b])" for x using that r(4) assms(1) by fastforce
  moreover have "md_next_pk d \<notin> be_id ` set (md_emails d)" using r(4) by fastforce
  ultimately have "rows_ok d'" using r assms(1) by (intro rows_okI) (auto simp: parts intro: less_SucI)
  moreover have "stages_ok d'"
    using mail_invD(2) [OF inv] none assms(2) by (force simp: stages_ok_def get parts)
  moreover have "one_copy d'" using mail_invD(3) [OF inv] one_copy_cong [of d' d] by (simp add: parts)
  moreover have "evolves d d'" using sending by (auto simp: evolves_def undisturbed_def accepted_def parts)
  ultimately show "evolves d d' \<and> rows_ok d' \<and> stages_ok d' \<and> one_copy d'" by blast
qed

lemma harmless_open_draft [harmless_intros]: "harmless d (snd (open_draft cfg u d))"
proof -
  have "harmless d (edit_email k (\<lambda>r. r\<lparr>be_dart := x\<rparr>) d)" for k x
    by (rule harmless_edit) (auto simp: edit_ok_def)
  then show ?thesis
    using harmless_new_email [of "new_draft cfg u (sc_dart (sender_context d (Some u))) (md_next_pk d)" d, OF _ _ refl]
    by (auto simp: open_draft_def Let_def new_draft_def split: option.splits)
qed

lemma apply_settings_effect:
  assumes "apply_settings cfg b ic ca who d = (r, d')"
  shows "md_copies d' = md_copies d" "md_emails d' = md_emails d" "md_taken d' = md_taken d" "md_draws d' = md_draws d"
    "md_entries d' = md_entries d" "md_next_pk d \<le> md_next_pk d'"
    "r = Inr b' \<Longrightarrow> be_id b' = be_id b \<and> be_status b' = be_status b \<and> be_started_at b' = be_started_at b"
  using assms by (auto simp: apply_settings_def Let_def split: if_splits option.splits)

lemma harmless_update_draft [harmless_intros]: "harmless d (snd (update_draft cfg k e who d))"
  unfolding update_draft_def
proof (rule harmless_atomic)
  show "harmless d (snd (update_draft_body cfg k e who d))"
  proof (cases "locked_for_edit d k")
    case (Inr b)
    then have b: "get_email d k = Some b" "be_started_at b = None" by (auto simp: locked_for_edit_Inr can_edit_def)
    have k: "be_id b = k" using get_email_SomeD [OF b(1)] by simp
    obtain r d1 where s: "apply_settings cfg (apply_edit e b) (de_is_callout e) (de_closes_at e) (Some who) d = (r, d1)" by fastforce
    note eff = apply_settings_effect [OF s]
    have h: "harmless d d1" by (rule harmless_cong [OF eff(1-6)])
    show ?thesis
    proof (cases r)
      case (Inl err)
      then show ?thesis using h by (simp add: update_draft_body_def Inr s)
    next
      case r: (Inr b')
      let ?d2 = "write_edit_columns b' d1"
      have b': "be_id b' = k" "be_status b' = be_status b" "be_started_at b' = be_started_at b"
        using eff(7) [OF r] k by (simp_all add: apply_edit_def)
      have get1: "get_email d1 k = Some b" using eff(2) b(1) by (simp add: get_email_def)
      have h2: "harmless d1 ?d2"
        unfolding write_edit_columns_def by (rule harmless_edit) (auto simp: edit_ok_def)
      have "\<exists>b0. get_email ?d2 k = Some b0 \<and> be_status b0 = be_status b \<and> be_started_at b0 = None"
        using get1 b b' by (simp add: write_edit_columns_def get_email_edit)
      then have "harmless ?d2 (back_to_draft b' who ''type_changed'' ?d2)"
        using harmless_back_to_draft [of ?d2 b'] b' by metis
      then have "harmless d (back_to_draft b' who ''type_changed'' ?d2)" "harmless d ?d2"
        using h h2 harmless_trans by blast+
      then show ?thesis using h by (simp add: update_draft_body_def Inr s r Let_def)
    qed
  qed (simp add: update_draft_body_def)
qed

lemma harmless_delete_draft [harmless_intros]: "harmless d (snd (delete_draft k d))"
proof (cases "\<exists>b. locked_for_edit d k = Inr b \<and> be_status b = DraftEmail")
  case True
  then obtain b where l: "locked_for_edit d k = Inr b" "be_status b = DraftEmail" by blast
  then have b: "get_email d k = Some b" "be_started_at b = None" by (auto simp: locked_for_edit_Inr can_edit_def)
  let ?d' = "d\<lparr>md_emails := rows_delete (\<lambda>b. be_id b = k) (md_emails d),
         md_copies := rows_delete (\<lambda>r. cp_bulk r = k) (md_copies d), md_adds := rows_delete (\<lambda>a. ba_bulk a = k) (md_adds d),
         md_callouts := rows_delete (\<lambda>c. co_bulk c = k) (md_callouts d)\<rparr>"
  have "harmless d ?d'"
  proof (rule harmless_delete [where P = "\<lambda>x. \<not> cp_bulk x = k" and Q = "\<lambda>x. \<not> be_id x = k"])
    fix x assume "mail_inv d" "x \<in> set (md_emails d)" "\<not> \<not> be_id x = k"
    then show "be_status x \<noteq> SendingEmail" using get_email_row [OF mail_invD(1), of d x] b(1) l(2) by auto
  next
    fix c assume "mail_inv d" "c \<in> set (md_copies d)" "\<not> \<not> cp_bulk c = k"
    then show "cp_status c = Batched" using batch_of_unstarted b by blast
  qed (auto simp: rows_delete_def)
  then show ?thesis using l by (simp add: delete_draft_def)
next
  case False
  then show ?thesis by (auto simp: delete_draft_def split: sum.splits)
qed

lemma harmless_queue [harmless_intros]: "harmless d (snd (queue_email cfg k typed start_at who d))"
  unfolding queue_email_def
proof (rule harmless_atomic)
  show "harmless d (snd (queue_body cfg k typed start_at who d))"
  proof (cases "locked_for_edit d k")
    case (Inr b)
    then have b: "get_email d k = Some b" "be_status b = DraftEmail \<or> be_status b = QueuedEmail"
      by (auto simp: locked_for_edit_Inr can_edit_def)
    have "harmless d (edit_email k f d)" if "\<And>r. be_id (f r) = be_id r" "\<And>r. be_status (f r) = QueuedEmail"
        "\<And>r. be_started_at (f r) = be_started_at r" for f
      by (rule harmless_edit) (use b that in \<open>auto simp: edit_ok_def\<close>)
    then show ?thesis
      by (auto simp: queue_body_def Inr Let_def split: option.splits intro!: harmless_trans [OF _ harmless_log])
  qed (simp add: queue_body_def)
qed

lemma harmless_cancel [harmless_intros]: "harmless d (snd (cancel_email k who d))"
proof (cases "get_email d k")
  case (Some b)
  have "harmless d (edit_email k (\<lambda>r. r\<lparr>be_status := DraftEmail, be_start_at := None, be_scheduled := False,
      be_confirm_count := None\<rparr>) d)" if "be_status b = QueuedEmail" "be_started_at b = None"
    by (rule harmless_edit) (use that Some in \<open>auto simp: edit_ok_def\<close>)
  then show ?thesis by (auto simp: cancel_email_def Some intro: harmless_trans [OF _ harmless_log])
qed (simp add: cancel_email_def)

lemma harmless_hidden [harmless_intros]: "harmless d (snd (set_hidden k hidden who d))"
proof -
  have "harmless d (edit_email k (\<lambda>r. r\<lparr>be_hidden := hidden\<rparr>) d)"
    by (rule harmless_edit) (auto simp: edit_ok_def)
  then show ?thesis by (auto simp: set_hidden_def split: option.splits intro: harmless_trans [OF _ harmless_log])
qed

lemma harmless_answer [harmless_intros]: "harmless d (snd (save_answer c u a n d))"
  by (rule harmless_cong) (auto simp: save_answer_def mail_log_def Let_def split: option.splits)

subsection \<open>Bounces, and copies taken back\<close>

lemma accepted_bounce:
  assumes "md_entries d' = rows_update (\<lambda>x. me_message x = Some m \<and> me_status x = LogSent)
      (\<lambda>x. x\<lparr>me_status := LogBounced, me_bounce_detail := t\<rparr>) (md_entries d)"
  shows "accepted d' n = accepted d n"
proof
  assume "accepted d' n"
  then obtain x where "x \<in> set (md_entries d)" "me_message x = Some n" "me_status x = LogSent \<or> me_status x = LogBounced"
    by (auto simp: accepted_def assms set_rows_update split: if_splits)
  then show "accepted d n" by (auto simp: accepted_def)
next
  assume "accepted d n"
  then obtain x where x: "x \<in> set (md_entries d)" "me_message x = Some n" "me_status x = LogSent \<or> me_status x = LogBounced"
    by (auto simp: accepted_def)
  let ?y = "if me_message x = Some m \<and> me_status x = LogSent then x\<lparr>me_status := LogBounced, me_bounce_detail := t\<rparr> else x"
  have "?y \<in> set (md_entries d')" using x(1) by (auto simp: assms set_rows_update)
  moreover have "me_message ?y = Some n" "me_status ?y = LogSent \<or> me_status ?y = LogBounced" using x by auto
  ultimately show "accepted d' n" unfolding accepted_def by blast
qed

lemma harmless_mark_bounced: "harmless d (snd (mark_bounced e d))"
proof (cases "me_status e \<noteq> LogBounced \<or> me_message e = None
    \<or> find (\<lambda>r. cp_message r = me_message e \<and> cp_status r = CopySent) (md_copies d) = None")
  case True
  then show ?thesis by (auto simp: mark_bounced_def)
next
  case False
  then obtain r where r: "find (\<lambda>r. cp_message r = me_message e \<and> cp_status r = CopySent) (md_copies d) = Some r"
    and e: "me_status e = LogBounced" "me_message e \<noteq> None" by blast
  then have row: "r \<in> set (md_copies d)" "cp_status r = CopySent" by (auto simp: find_Some_iff)
  define change :: "copy \<Rightarrow> copy" where "change = (\<lambda>x. x\<lparr>cp_status := CopyBounced,
    cp_reason := take reason_max_length (if me_bounce_detail e \<noteq> [] then me_bounce_detail e else bounced_reason)\<rparr>)"
  let ?f = "\<lambda>b. b\<lparr>be_sent_count := max (be_sent_count b - 1) 0, be_bounced_count := be_bounced_count b + 1\<rparr>"
  let ?g = "\<lambda>c. if cp_id c = cp_id r then change c else c"
  have g: "c = r" if "mail_inv d" "c \<in> set (md_copies d)" "cp_id c = cp_id r" for c
    using copy_unique [OF mail_invD(1) [OF that(1)] row(1) that(2,3)] .
  have "snd (mark_bounced e d) = edit_email (cp_bulk r) ?f (edit_copy (cp_id r) change d)"
    by (simp add: mark_bounced_def e r change_def Let_def)
  moreover have "harmless d (edit_email (cp_bulk r) ?f (edit_copy (cp_id r) change d))"
  proof (rule harmless_map [where g = ?g and f = ?f and k = "cp_bulk r"])
    fix c assume c: "mail_inv d" "c \<in> set (md_copies d)"
    show "moved d c (?g c)" using g [OF c] row(2) by (auto simp: moved_def change_def)
    show "cp_status (?g c) = cp_status c" if "cp_bulk c \<noteq> cp_bulk r" using g [OF c] that by auto
    show "stage_ok (?f b) (?g c)" if "stage_ok b c" for b
      using g [OF c] row(2) that by (auto simp: stage_ok_def change_def)
  next
    assume inv: "mail_inv d"
    show "one_copy (edit_email (cp_bulk r) ?f (edit_copy (cp_id r) change d))"
      by (rule one_copy_map [where g = ?g, OF mail_invD(3) [OF inv]])
        (use g [OF inv] row(2) in \<open>auto simp: edit_email_def edit_copy_def rows_update_def change_def live_def split: if_splits\<close>)
  qed (auto simp: edit_email_def edit_copy_def rows_update_def accepted_def edit_ok_def)
  ultimately show ?thesis by simp
qed

lemma harmless_bounce [harmless_intros]: "harmless d (bounce_entry m t d)"
proof (cases "find (\<lambda>e. me_message e = Some m \<and> me_status e = LogSent) (md_entries d)")
  case (Some e)
  let ?d1 = "d\<lparr>md_entries := rows_update (\<lambda>x. me_message x = Some m \<and> me_status x = LogSent)
      (\<lambda>x. x\<lparr>me_status := LogBounced, me_bounce_detail := t\<rparr>) (md_entries d)\<rparr>"
  have "harmless d ?d1"
  proof (rule harmless_map [where g = "\<lambda>c. c" and f = "\<lambda>b. b" and k = 0])
    show "accepted ?d1 n = accepted d n" for n by (rule accepted_bounce) simp
    show "mail_inv d \<Longrightarrow> one_copy ?d1" using mail_invD(3) one_copy_cong [of ?d1 d] by simp
  qed (auto simp: rows_update_def edit_ok_def)
  moreover have "harmless ?d1 (on_email_log_saved x ?d1)" for x
    by (simp add: on_email_log_saved_def harmless_mark_bounced)
  ultimately show ?thesis using harmless_trans by (simp add: bounce_entry_def Some Let_def)
qed (simp add: bounce_entry_def)

text \<open>The check of copies taken back.\<close>

lemma recheck_ids: "map cp_id (recheck_loop cfg d oo lim went ans seen q rows) = map cp_id rows"
  by (induction cfg d oo lim went ans seen q rows rule: recheck_loop.induct) (auto simp: Let_def split: option.splits)

lemma recheck_row:
  "s \<in> set (recheck_loop cfg d oo lim went ans seen q rows) \<Longrightarrow> \<exists>r \<in> set rows. cp_id s = cp_id r \<and> cp_bulk s = cp_bulk r
    \<and> cp_round s = cp_round r \<and> cp_message s = cp_message r \<and> cp_user s = cp_user r
    \<and> (cp_status s = CopyPending \<or> cp_status s = CopySkipped)"
  by (induction cfg d oo lim went ans seen q rows rule: recheck_loop.induct)
    (auto simp: Let_def split: option.splits if_splits)

definition round_key :: "copy \<Rightarrow> nat \<times> string" where
  "round_key c = (cp_round c, folded (cp_email c))"

lemma recheck_addresses:
  "distinct (map round_key (filter (\<lambda>s. cp_status s = CopyPending) (recheck_loop cfg d oo lim went ans seen q rows)))
    \<and> round_key ` {s \<in> set (recheck_loop cfg d oo lim went ans seen q rows). cp_status s = CopyPending} \<inter> set seen = {}"
proof (induction cfg d oo lim went ans seen q rows rule: recheck_loop.induct)
  case (2 cfg d oo lim went ans seen q r rows)
  let ?in_round = "map snd (filter (\<lambda>p. fst p = cp_round r) seen)"
  let ?reason = "recheck_reason cfg d oo lim went ans ?in_round q r"
  show ?case
  proof (cases "?reason = []")
    case True
    then obtain a where a: "person d (cp_user r) = Some a" "copy_skip_reason cfg d (Some a) ?in_round oo lim = []"
      by (auto simp: recheck_reason_Nil)
    let ?key = "(cp_round r, folded (u_email a))"
    let ?rest = "recheck_loop cfg d oo lim went ans (?key # seen) (u_id a # q) rows"
    have new: "?key \<notin> set seen" using a(2) by (force simp: copy_skip_reason_Nil)
    have eq: "recheck_loop cfg d oo lim went ans seen q (r # rows)
        = (snapshot a r)\<lparr>cp_reason := take reason_max_length [], cp_status := CopyPending\<rparr> # ?rest"
      using True a(1) by (simp add: Let_def)
    have "distinct (map round_key (filter (\<lambda>s. cp_status s = CopyPending) ?rest))
        \<and> round_key ` {s \<in> set ?rest. cp_status s = CopyPending} \<inter> set (?key # seen) = {}"
      using "2.IH"(1) [OF refl refl refl refl True] a(1) by simp
    moreover have "round_key ((snapshot a r)\<lparr>cp_reason := take reason_max_length [], cp_status := CopyPending\<rparr>) = ?key"
      by (simp add: round_key_def)
    ultimately show ?thesis unfolding eq using new by auto
  next
    case False
    have "distinct (map round_key (filter (\<lambda>s. cp_status s = CopyPending) (recheck_loop cfg d oo lim went ans seen q rows)))
        \<and> round_key ` {s \<in> set (recheck_loop cfg d oo lim went ans seen q rows). cp_status s = CopyPending} \<inter> set seen = {}"
      using "2.IH"(2) [OF refl refl refl refl False] .
    then show ?thesis using False by (auto simp: Let_def)
  qed
qed simp

end
