(* ===== verification/MailingRequests.thy ===== *)
theory MailingRequests
  imports MailingSafety
begin

text \<open>
  The requests that queue copies again, add rounds of reminders or set copies aside, and the changes of
  people behind the rows: none disturbs the invariant of \<open>MailingSafety\<close> or a run under way.
\<close>

subsection \<open>Copies taken back, and rounds of reminders\<close>

lemma rows_update_twice:
  "(\<And>r. key (f r) = key r) \<Longrightarrow> rows_update (\<lambda>r. key r = k) g (rows_update (\<lambda>r. key r = k) f t) = rows_update (\<lambda>r. key r = k) (\<lambda>r. g (f r)) t"
  by (simp add: rows_update_def comp_def)

lemma edit_email_twice:
  "(\<And>b. be_id (f b) = be_id b) \<Longrightarrow> md_emails (edit_email k g (edit_email k f d)) = rows_update (\<lambda>r. be_id r = k) (\<lambda>r. g (f r)) (md_emails d)"
  by (simp add: edit_email_def rows_update_twice)

lemma checked_rows:
  assumes "checked = fst (recheck_rows cfg d b rows)" and "s \<in> set checked"
  shows "\<exists>r \<in> set rows. cp_id s = cp_id r \<and> cp_bulk s = cp_bulk r \<and> cp_round s = cp_round r \<and> cp_message s = cp_message r
    \<and> (cp_status s = CopyPending \<or> cp_status s = CopySkipped)"
  using assms recheck_row [of s] by (fastforce simp: recheck_rows_def Let_def)

lemma checked_addresses:
  assumes "checked = fst (recheck_rows cfg d b rows)"
  shows "s \<in> set checked \<Longrightarrow> s' \<in> set checked \<Longrightarrow> cp_status s = CopyPending \<Longrightarrow> cp_status s' = CopyPending
      \<Longrightarrow> round_key s = round_key s' \<Longrightarrow> s = s'"
    and "s \<in> set checked \<Longrightarrow> cp_status s = CopyPending \<Longrightarrow> x \<in> set (md_copies d) \<Longrightarrow> cp_bulk x = be_id b \<Longrightarrow> live x
      \<Longrightarrow> round_key s \<noteq> round_key x"
proof -
  obtain ans where checked: "checked = recheck_loop cfg d (type_opt_outs d b) (dart_limit d b) (went_rows d (be_id b)) ans
      (map (\<lambda>r. (cp_round r, folded (cp_email r))) (went_rows d (be_id b))) [] (sort_key (\<lambda>r. - int (cp_round r)) rows)"
    using assms by (auto simp: recheck_rows_def Let_def)
  note facts = recheck_addresses [of cfg d "type_opt_outs d b" "dart_limit d b" "went_rows d (be_id b)" ans
      "map (\<lambda>r. (cp_round r, folded (cp_email r))) (went_rows d (be_id b))" "[]" "sort_key (\<lambda>r. - int (cp_round r)) rows",
      folded checked]
  show "s = s'" if "s \<in> set checked" "s' \<in> set checked" "cp_status s = CopyPending" "cp_status s' = CopyPending"
      "round_key s = round_key s'"
  proof (rule inj_onD)
    show "inj_on round_key (set (filter (\<lambda>s. cp_status s = CopyPending) checked))"
      using conjunct1 [OF facts] by (simp only: distinct_map)
  qed (use that in auto)
  show "round_key s \<noteq> round_key x" if s: "s \<in> set checked" "cp_status s = CopyPending"
    and x: "x \<in> set (md_copies d)" "cp_bulk x = be_id b" "live x"
  proof -
    have "x \<in> set (went_rows d (be_id b))" using x by (auto simp: went_rows_def live_def)
    then have "round_key x \<in> set (map (\<lambda>r. (cp_round r, folded (cp_email r))) (went_rows d (be_id b)))"
      by (auto simp: round_key_def)
    moreover have "round_key s \<in> round_key ` {s \<in> set checked. cp_status s = CopyPending}" using s by blast
    then have "round_key s \<notin> set (map (\<lambda>r. (cp_round r, folded (cp_email r))) (went_rows d (be_id b)))"
      using disjoint_iff [THEN iffD1, OF conjunct2 [OF facts]] by blast
    ultimately show ?thesis by auto
  qed
qed

lemma harmless_recheck:
  assumes b: "get_email d k = Some b" "be_status b = SentEmail \<or> be_status b = StoppedEmail"
    and rows: "\<And>c. c \<in> set rows \<Longrightarrow> c \<in> set (md_copies d) \<and> cp_bulk c = k \<and> (cp_status c = CopyFailed \<or> cp_status c = CopyStopped)"
    and checked: "checked = fst (recheck_rows cfg d b rows)"
    and copies: "md_copies d' = md_copies (put_copies checked d)"
    and emails: "md_emails d' = rows_update (\<lambda>r. be_id r = k) f (md_emails d)"
    and rest: "md_taken d' = md_taken d" "md_draws d' = md_draws d" "md_entries d' = md_entries d" "md_next_pk d \<le> md_next_pk d'"
    and f: "\<And>b. be_id (f b) = be_id b" "edit_ok b (f b)"
      "be_status (f b) = QueuedEmail \<or> (\<forall>s \<in> set checked. cp_status s \<noteq> CopyPending)"
  shows "harmless d d'"
proof -
  let ?g = "\<lambda>c. case row_get cp_id checked (cp_id c) of None \<Rightarrow> c | Some s \<Rightarrow> s"
  have k: "be_id b = k" using get_email_SomeD [OF b(1)] by simp
  have g: "?g c = c \<or> (\<exists>s \<in> set checked. ?g c = s \<and> cp_id s = cp_id c \<and> cp_bulk c = k \<and> cp_bulk s = k \<and> cp_round s = cp_round c
      \<and> cp_message s = cp_message c \<and> (cp_status s = CopyPending \<or> cp_status s = CopySkipped)
      \<and> (cp_status c = CopyFailed \<or> cp_status c = CopyStopped))"
    if inv: "mail_inv d" and c: "c \<in> set (md_copies d)" for c
  proof (cases "row_get cp_id checked (cp_id c)")
    case (Some s)
    then have s: "s \<in> set checked" "cp_id s = cp_id c" by (auto dest: row_get_SomeD)
    from checked_rows [OF checked s(1)] obtain r where r: "r \<in> set rows" "cp_id s = cp_id r" "cp_bulk s = cp_bulk r"
        "cp_round s = cp_round r" "cp_message s = cp_message r" "cp_status s = CopyPending \<or> cp_status s = CopySkipped" by blast
    have "r = c" using copy_unique [OF mail_invD(1) [OF inv] c] rows [OF r(1)] r(2) s(2) by simp
    then show ?thesis using Some s r rows [OF r(1)] by auto
  qed simp
  show ?thesis
  proof (rule harmless_map [where g = ?g and f = f and k = k])
    show "md_copies d' = map ?g (md_copies d)" by (simp add: copies put_copies_def)
    show "moved d c (?g c)" if "mail_inv d" "c \<in> set (md_copies d)" for c
      using g [OF that] by (auto simp: moved_def)
    show "cp_status (?g c) = cp_status c" if "mail_inv d" "c \<in> set (md_copies d)" "cp_bulk c \<noteq> k" for c
      using g [OF that(1,2)] that(3) by auto
    show "stage_ok (f b') (?g c)" if a: "mail_inv d" "c \<in> set (md_copies d)" "cp_bulk c = k" "get_email d k = Some b'" "stage_ok b' c" for c b'
    proof -
      have "b' = b" using b(1) a(4) by simp
      with a(5) b(2) have st: "stage_ok b c" "cp_status c \<noteq> CopyPending" by (auto simp: stage_ok_def)
      from f(2) have e: "be_started_at (f b) = be_started_at b" by (simp add: edit_ok_def)
      from g [OF a(1,2)] show ?thesis
      proof
        assume "?g c = c"
        then show ?thesis using st e \<open>b' = b\<close> by (simp add: stage_ok_def)
      next
        assume "\<exists>s \<in> set checked. ?g c = s \<and> cp_id s = cp_id c \<and> cp_bulk c = k \<and> cp_bulk s = k \<and> cp_round s = cp_round c
          \<and> cp_message s = cp_message c \<and> (cp_status s = CopyPending \<or> cp_status s = CopySkipped)
          \<and> (cp_status c = CopyFailed \<or> cp_status c = CopyStopped)"
        then obtain s where s: "s \<in> set checked" "?g c = s" "cp_status s = CopyPending \<or> cp_status s = CopySkipped"
          "cp_status c = CopyFailed \<or> cp_status c = CopyStopped" by blast
        have "be_started_at b \<noteq> None" using st s(4) by (auto simp: stage_ok_def)
        moreover have "cp_status s = CopyPending \<Longrightarrow> be_status (f b) = QueuedEmail" using f(3) s(1) by blast
        ultimately show ?thesis using s(3) e \<open>b' = b\<close> unfolding s(2) stage_ok_def by auto
      qed
    qed
    show "edit_ok b' (f b')" if "get_email d k = Some b'" for b' using that b(1) f(2) by simp
    show "accepted d' m = accepted d m" for m by (simp add: accepted_def rest)
  next
    assume inv: "mail_inv d"
    show "one_copy d'" unfolding one_copy_def
    proof (intro ballI impI)
      fix x y assume x: "x \<in> set (md_copies d')" and y: "y \<in> set (md_copies d')" and l: "live x" "live y"
        and same: "address_key x = address_key y"
      have keys: "cp_bulk x = cp_bulk y" "round_key x = round_key y" using same by (simp_all add: address_key_def round_key_def)
      have cases': "z \<in> set (md_copies d) \<or> z \<in> set checked \<and> cp_status z = CopyPending \<and> cp_bulk z = k"
        if "z \<in> set (md_copies d')" "live z" for z
        using that g [OF inv] by (fastforce simp: copies put_copies_def live_def)
      from cases' [OF x l(1)] cases' [OF y l(2)] show "cp_id x = cp_id y"
        using one_copyD [OF mail_invD(3) [OF inv] _ _ l same] checked_addresses [OF checked, of x y]
          checked_addresses(2) [OF checked, of x y] checked_addresses(2) [OF checked, of y x] keys l k by fastforce
    qed
  qed (use rest emails f(1) in auto)
qed

lemma failed_rows:
  "c \<in> set (surname_order cfg d (filter (\<lambda>r. cp_bulk r = k \<and> cp_status r = s) (md_copies d)))
    \<Longrightarrow> c \<in> set (md_copies d) \<and> cp_bulk c = k \<and> cp_status c = s"
  by (simp add: surname_order_def)

lemma recheck_parts:
  assumes "recheck_rows cfg d b rows = (checked, retried, skipped)"
  shows "checked = fst (recheck_rows cfg d b rows)" and "retried = length (filter (\<lambda>r. cp_status r = CopyPending) checked)"
  using assms by (auto simp: recheck_rows_def Let_def)

lemma harmless_retry_body: "harmless d (snd (retry_body cfg k who d))"
proof (cases "get_email d k")
  case (Some b)
  let ?failed = "surname_order cfg d (filter (\<lambda>r. cp_bulk r = k \<and> cp_status r = CopyFailed) (md_copies d))"
  obtain checked retried skipped where r: "recheck_rows cfg d b ?failed = (checked, retried, skipped)"
    using prod_cases3 by blast
  define f1 :: "bulk_email \<Rightarrow> bulk_email" where "f1 = (\<lambda>x. x\<lparr>be_failed_count := max (be_failed_count b - int (length ?failed)) 0,
      be_skipped_count := be_skipped_count b + int skipped\<rparr>)"
  define f2 :: "bulk_email \<Rightarrow> bulk_email" where "f2 = (\<lambda>x. x\<lparr>be_status := QueuedEmail, be_start_at := Some (mail_now d), be_scheduled := False\<rparr>)"
  define d2 where "d2 = edit_email k f1 (put_copies checked d)"
  define new where "new = \<lparr>rt_id = md_next_pk d, rt_bulk = k, rt_by = Some (u_id who), rt_at = mail_now d, rt_count = retried\<rparr>"
  define d3 where "d3 = edit_email k f2 (d2\<lparr>md_retries := md_retries d2 @ [new], md_next_pk := md_next_pk d2 + 1\<rparr>)"
  have out: "snd (retry_body cfg k who d) = (if check_retry b \<noteq> None \<or> ?failed = [] then d else if retried > 0 then d3 else d2)"
    by (auto simp: retry_body_def Some r f1_def f2_def d2_def d3_def new_def Let_def split: option.splits)
  show ?thesis
  proof (cases "check_retry b = None")
    case True
    then have sent: "be_status b = SentEmail" by (auto simp: check_retry_def split: if_splits)
    have fs: "c \<in> set (md_copies d) \<and> cp_bulk c = k \<and> (cp_status c = CopyFailed \<or> cp_status c = CopyStopped)"
      if "c \<in> set ?failed" for c using failed_rows [OF that] by simp
    note parts = recheck_parts [OF r]
    have "harmless d d3"
    proof (rule harmless_recheck [OF Some _ fs parts(1), where f = "\<lambda>x. f2 (f1 x)"])
      show "md_emails d3 = rows_update (\<lambda>r. be_id r = k) (\<lambda>x. f2 (f1 x)) (md_emails d)"
        by (simp add: d3_def d2_def edit_email_def put_copies_def f1_def rows_update_twice)
    qed (use sent in \<open>auto simp: d3_def d2_def edit_email_def put_copies_def f1_def f2_def edit_ok_def\<close>)
    moreover have "harmless d d2" if "retried = 0"
    proof (rule harmless_recheck [OF Some _ fs parts(1), where f = f1])
      show "be_status (f1 b) = QueuedEmail \<or> (\<forall>s \<in> set checked. cp_status s \<noteq> CopyPending)"
        using that parts(2) by (auto simp: filter_empty_conv)
    qed (use sent in \<open>auto simp: d2_def edit_email_def put_copies_def f1_def edit_ok_def\<close>)
    ultimately show ?thesis unfolding out by simp
  qed (simp add: out)
qed (simp add: retry_body_def)

lemma harmless_retry [harmless_intros]: "harmless d (snd (retry_failed cfg k who d))"
proof -
  have "harmless d (snd (mail_atomic (retry_body cfg k who) d))"
    by (rule harmless_atomic) (rule harmless_retry_body)
  then show ?thesis
    by (auto simp: retry_failed_def Let_def split: sum.splits option.splits prod.splits intro: harmless_trans [OF _ harmless_log])
qed

lemma harmless_resume [harmless_intros]: "harmless d (snd (resume_email cfg k who d))"
proof (cases "\<exists>b. get_email d k = Some b \<and> be_status b = StoppedEmail")
  case True
  then obtain b where b: "get_email d k = Some b" "be_status b = StoppedEmail" by blast
  let ?stopped = "surname_order cfg d (filter (\<lambda>r. cp_bulk r = k \<and> cp_status r = CopyStopped) (md_copies d))"
  obtain checked resumed skipped where r: "recheck_rows cfg d b ?stopped = (checked, resumed, skipped)"
    using prod_cases3 by blast
  define f :: "bulk_email \<Rightarrow> bulk_email" where "f = (\<lambda>x. x\<lparr>be_skipped_count := be_skipped_count b + int skipped, be_status := QueuedEmail,
      be_start_at := Some (mail_now d), be_scheduled := False, be_stop_requested := False, be_stopped_at := None,
      be_stopped_by := None\<rparr>)"
  have fs: "c \<in> set (md_copies d) \<and> cp_bulk c = k \<and> (cp_status c = CopyFailed \<or> cp_status c = CopyStopped)"
    if "c \<in> set ?stopped" for c using failed_rows [OF that] by simp
  have "harmless d (edit_email k f (put_copies checked d))"
    by (rule harmless_recheck [OF b(1) _ fs recheck_parts(1) [OF r], where f = f])
      (use b in \<open>auto simp: edit_email_def put_copies_def f_def edit_ok_def\<close>)
  then show ?thesis using b r by (auto simp: resume_email_def f_def intro: harmless_trans [OF _ harmless_log])
next
  case False
  then show ?thesis by (auto simp: resume_email_def split: option.splits)
qed

lemma reminder_row:
  "c \<in> set (reminder_rows cfg d oo lim k rnd seen n ws) \<Longrightarrow> cp_bulk c = k \<and> cp_round c = rnd \<and> cp_message c = None
    \<and> (cp_status c = CopyPending \<or> cp_status c = CopySkipped)"
proof (induction cfg d oo lim k rnd seen n ws rule: reminder_rows.induct)
  case (2 cfg d oo lim k rnd seen n a ws)
  show ?case using "2.IH" [OF refl refl refl] "2.prems"
    by (cases "copy_skip_reason cfg d (Some a) seen oo lim = []") (auto simp: Let_def)
qed simp

lemma reminder_ids: "map cp_id (reminder_rows cfg d oo lim k rnd seen n ws) = [n..<n + length ws]"
proof (induction cfg d oo lim k rnd seen n ws rule: reminder_rows.induct)
  case (2 cfg d oo lim k rnd seen n a ws)
  then show ?case by (simp add: Let_def upt_conv_Cons del: upt_Suc)
qed simp

lemma reminder_addresses:
  "distinct (map (\<lambda>c. folded (cp_email c)) (filter (\<lambda>c. cp_status c = CopyPending) (reminder_rows cfg d oo lim k rnd seen n ws)))
    \<and> (\<lambda>c. folded (cp_email c)) ` {c \<in> set (reminder_rows cfg d oo lim k rnd seen n ws). cp_status c = CopyPending} \<inter> set seen = {}"
proof (induction cfg d oo lim k rnd seen n ws rule: reminder_rows.induct)
  case (2 cfg d oo lim k rnd seen n a ws)
  let ?reason = "copy_skip_reason cfg d (Some a) seen oo lim"
  let ?seen = "if ?reason = [] \<or> ?reason = skip_duplicate then folded (u_email a) # seen else seen"
  let ?rest = "reminder_rows cfg d oo lim k rnd ?seen (n + 1) ws"
  have ih: "distinct (map (\<lambda>c. folded (cp_email c)) (filter (\<lambda>c. cp_status c = CopyPending) ?rest))
    \<and> (\<lambda>c. folded (cp_email c)) ` {c \<in> set ?rest. cp_status c = CopyPending} \<inter> set ?seen = {}"
    by (rule "2.IH" [OF refl refl refl])
  show ?case
  proof (cases "?reason = []")
    case True
    then have "folded (u_email a) \<notin> set seen" by (simp add: copy_skip_reason_Nil)
    then show ?thesis using True ih by (auto simp: Let_def)
  next
    case False
    have "set seen \<subseteq> set ?seen" by auto
    then have rest: "(\<lambda>c. folded (cp_email c)) ` {c \<in> set ?rest. cp_status c = CopyPending} \<inter> set seen = {}" using ih by blast
    let ?x = "(fresh_copy n k a)\<lparr>cp_round := rnd, cp_reason := take reason_max_length ?reason, cp_status := CopySkipped\<rparr>"
    have eq: "reminder_rows cfg d oo lim k rnd seen n (a # ws) = ?x # ?rest" using False by (simp add: Let_def)
    have same: "{c \<in> set (?x # ?rest). cp_status c = CopyPending} = {c \<in> set ?rest. cp_status c = CopyPending}" by auto
    show ?thesis unfolding eq same using conjunct1 [OF ih] rest by simp
  qed
qed simp

lemma top_round_bound:
  assumes "c \<in> set (md_copies d)" and "cp_bulk c = k" shows "cp_round c \<le> top_round d k"
proof -
  let ?rs = "map cp_round (filter (\<lambda>r. cp_bulk r = k) (md_copies d))"
  have mem: "cp_round c \<in> set ?rs" using assms by auto
  then have "top_round d k = Max (set ?rs)" unfolding top_round_def by (cases ?rs) simp_all
  then show ?thesis using Max_ge [OF _ mem] by simp
qed

lemma remind_refused: "\<nexists>x. fst (remind_body cfg k who d) = Inr x \<Longrightarrow> snd (remind_body cfg k who d) = d"
proof -
  have pick: "\<nexists>x. fst (if p then (Inl e, d) else if q then (Inl e', d) else (Inr y, d')) = Inr x
    \<Longrightarrow> snd (if p then (Inl e, d) else if q then (Inl e', d) else (Inr y, d')) = d" for p q e e' y d' by (cases p; cases q; simp)
  assume none: "\<nexists>x. fst (remind_body cfg k who d) = Inr x"
  show ?thesis
  proof (cases "get_email d k")
    case b: (Some b)
    show ?thesis
    proof (cases "find (\<lambda>c. co_bulk c = k) (md_callouts d)")
      case c: (Some c)
      show ?thesis
      proof (cases "check_remind b c (mail_now d)")
        case None
        show ?thesis using none unfolding remind_body_def b c None option.case Let_def by (rule pick)
      qed (simp add: remind_body_def b c)
    qed (simp add: remind_body_def b)
  qed (simp add: remind_body_def)
qed

lemma harmless_remind_body: "harmless d (snd (remind_body cfg k who d))"
proof (cases "\<exists>x. fst (remind_body cfg k who d) = Inr x")
  case False
  then show ?thesis by (simp add: remind_refused)
next
  case True
  then obtain b c where b: "get_email d k = Some b" and c: "find (\<lambda>c. co_bulk c = k) (md_callouts d) = Some c"
    and check: "check_remind b c (mail_now d) = None"
    by (auto simp: remind_body_def split: option.splits)
  define answered where "answered = map an_user (filter (\<lambda>a. an_callout a = co_id c) (md_answers d))"
  define ws where "ws = sort_key (\<lambda>a. (text_order cfg (u_last_name a), text_order cfg (u_first_name a), text_order cfg (u_email a), u_id a))
      (filter (\<lambda>a. u_id a \<in> set (reached_ids d k) \<and> u_is_active a \<and> u_id a \<notin> set answered) (ad_accounts (md_people d)))"
  define rnd where "rnd = top_round d k + 1"
  define rows where "rows = reminder_rows cfg d (type_opt_outs d b) (dart_limit d b) k rnd
      (map (\<lambda>a. folded (u_email a)) (filter (\<lambda>a. u_id a \<in> set answered) (ad_accounts (md_people d)))) (md_next_pk d) ws"
  define queued where "queued = length (filter (\<lambda>r. cp_status r = CopyPending) rows)"
  define f :: "bulk_email \<Rightarrow> bulk_email" where "f = (\<lambda>r. r\<lparr>be_skipped_count := be_skipped_count b + int (length rows - queued),
      be_status := QueuedEmail, be_start_at := Some (mail_now d), be_scheduled := False\<rparr>)"
  define d1 where "d1 = edit_email k f d"
  define d2 where "d2 = d1\<lparr>md_copies := md_copies d1 @ rows, md_next_pk := md_next_pk d1 + length rows,
      md_callouts := rows_update (\<lambda>x. co_id x = co_id c) (\<lambda>x. x\<lparr>co_reminded_at := Some (mail_now d)\<rparr>) (md_callouts d)\<rparr>"
  have swap: "edit_email k f (d\<lparr>md_copies := md_copies d @ rows, md_next_pk := md_next_pk d + length rows,
      md_callouts := rows_update (\<lambda>x. co_id x = co_id c) (\<lambda>x. x\<lparr>co_reminded_at := Some (mail_now d)\<rparr>) (md_callouts d)\<rparr>) = d2"
    by (simp add: d1_def d2_def edit_email_def)
  have out: "snd (remind_body cfg k who d) = d \<or> (\<exists>fs. snd (remind_body cfg k who d)
      = mail_log ''callout.remind'' (Account (u_id who)) (Some k) False fs d2)"
  proof -
    have pick: "snd (if p then (Inl e, d) else if q then (Inl e', d) else (Inr y, mail_log a w t r fs d')) = d
        \<or> (\<exists>fs. snd (if p then (Inl e, d) else if q then (Inl e', d) else (Inr y, mail_log a w t r fs' d')) = mail_log a w t r fs d')"
      if "fs' = fs" for p q e e' y a w t r fs fs' d' using that by auto
    show ?thesis
      unfolding swap [symmetric] remind_body_def b c check option.case Let_def answered_def ws_def rnd_def rows_def queued_def f_def
      by (rule pick) (rule refl)
  qed
  from check have sent: "be_status b = SentEmail" "be_started_at b \<noteq> None" by (auto simp: check_remind_def split: if_splits)
  have "harmless d d1" unfolding d1_def
    by (rule harmless_edit) (use b sent in \<open>auto simp: edit_ok_def f_def\<close>)
  moreover have "harmless d1 d2"
  proof (rule harmless_append [where new = rows])
    note ids = reminder_ids [of cfg d "type_opt_outs d b" "dart_limit d b" k rnd
        "map (\<lambda>a. folded (u_email a)) (filter (\<lambda>a. u_id a \<in> set answered) (ad_accounts (md_people d)))" "md_next_pk d" ws, folded rows_def]
    have row: "cp_bulk c = k \<and> cp_round c = rnd \<and> cp_message c = None \<and> (cp_status c = CopyPending \<or> cp_status c = CopySkipped)"
      if "c \<in> set rows" for c using that unfolding rows_def by (rule reminder_row)
    have d1: "md_next_pk d1 = md_next_pk d" "md_copies d1 = md_copies d" by (simp_all add: d1_def edit_email_def)
    show "distinct (map cp_id rows)" unfolding ids by simp
    show "md_next_pk d1 \<le> cp_id c \<and> cp_id c < md_next_pk d2" if "c \<in> set rows" for c
    proof -
      have "cp_id c \<in> set [md_next_pk d..<md_next_pk d + length ws]" using that ids by (metis image_eqI list.set_map)
      moreover have "length rows = length ws" using ids by (metis length_map length_upt add_diff_cancel_left')
      ultimately show ?thesis by (simp add: d1 d2_def)
    qed
    show "cp_message c = None \<and> \<not> arrived c" if "c \<in> set rows" for c using row [OF that] by (auto simp: arrived_def)
    have "get_email d1 k = Some (f b)" using b by (simp add: d1_def get_email_edit f_def)
    then show "\<exists>b. get_email d1 (cp_bulk c) = Some b \<and> stage_ok b c" if "c \<in> set rows" for c
      using row [OF that] sent by (auto simp: stage_ok_def f_def)
    show "x = y" if x: "x \<in> set rows" and y: "y \<in> set (md_copies d1 @ rows)" and l: "live x" "live y" and key: "address_key x = address_key y"
      for x y
    proof -
      have pend: "cp_status x = CopyPending" using row [OF x] l(1) by (auto simp: live_def)
      have mem: "y \<in> set rows"
      proof (rule ccontr)
        assume "y \<notin> set rows"
        then have "y \<in> set (md_copies d)" "cp_bulk y = k" using y key row [OF x] by (auto simp: d1 address_key_def)
        then have "cp_round y \<le> top_round d k" by (rule top_round_bound)
        then show False using key row [OF x] by (simp add: address_key_def rnd_def)
      qed
      moreover have "cp_status y = CopyPending" using row [OF mem] l(2) by (auto simp: live_def)
      moreover have "distinct (map (\<lambda>c. folded (cp_email c)) (filter (\<lambda>c. cp_status c = CopyPending) rows))"
        using reminder_addresses unfolding rows_def by (rule conjunct1)
      ultimately show ?thesis using x mem pend key by (auto simp: distinct_map inj_on_def address_key_def)
    qed
  qed (simp_all add: d2_def)
  ultimately have "harmless d d2" by (rule harmless_trans)
  then show ?thesis using out harmless_trans [OF _ harmless_log] by auto
qed

lemma harmless_remind [harmless_intros]: "harmless d (snd (remind_callout cfg k who d))"
  unfolding remind_callout_def by (rule harmless_atomic) (rule harmless_remind_body)

subsection \<open>Copies set aside\<close>

lemma harmless_set_aside:
  \<comment> \<open>the pending copies of an email that is not sending are taken out of the queue\<close>
  assumes b: "get_email d k = Some b" "be_status b \<noteq> SendingEmail"
    and h: "\<And>c. cp_id (h c) = cp_id c \<and> cp_bulk (h c) = cp_bulk c \<and> cp_round (h c) = cp_round c \<and> cp_message (h c) = cp_message c
      \<and> cp_email (h c) = cp_email c \<and> (cp_status (h c) = CopySkipped \<or> cp_status (h c) = CopyStopped)"
    and copies: "md_copies d' = rows_update (\<lambda>c. cp_bulk c = k \<and> cp_status c = CopyPending) h (md_copies d)"
    and emails: "md_emails d' = rows_update (\<lambda>r. be_id r = k) f (md_emails d)"
    and rest: "md_taken d' = md_taken d" "md_draws d' = md_draws d" "md_entries d' = md_entries d" "md_next_pk d \<le> md_next_pk d'"
    and f: "\<And>b. be_id (f b) = be_id b" "edit_ok b (f b)"
  shows "harmless d d'"
proof (rule harmless_map [where g = "\<lambda>c. if cp_bulk c = k \<and> cp_status c = CopyPending then h c else c" and f = f and k = k])
  have not_sending: "\<not> sending d k" using b by (simp add: sending_def)
  show "moved d c (if cp_bulk c = k \<and> cp_status c = CopyPending then h c else c)" for c
    using not_sending h [of c] by (auto simp: moved_def)
  show "stage_ok (f x) (if cp_bulk c = k \<and> cp_status c = CopyPending then h c else c)"
    if "cp_bulk c = k" "get_email d k = Some x" "stage_ok x c" for c x
    using that b(1) f(2) h [of c] by (auto simp: stage_ok_def edit_ok_def)
  show "edit_ok x (f x)" if "get_email d k = Some x" for x using that b(1) f(2) by simp
  show "accepted d' m = accepted d m" for m by (simp add: accepted_def rest)
next
  assume inv: "mail_inv d"
  show "one_copy d'"
    by (rule one_copy_map [OF mail_invD(3) [OF inv], where g = "\<lambda>c. if cp_bulk c = k \<and> cp_status c = CopyPending then h c else c"])
      (use h in \<open>auto simp: copies rows_update_def live_def\<close>)
qed (use rest emails f(1) in \<open>auto simp: copies rows_update_def\<close>)

lemma harmless_close_body: "harmless d (snd (close_body k who d))"
proof (cases "\<exists>b c. get_email d k = Some b \<and> find (\<lambda>c. co_bulk c = k) (md_callouts d) = Some c
    \<and> be_started_at b \<noteq> None \<and> is_open c (mail_now d)")
  case False
  then have "snd (close_body k who d) = d" by (auto simp: close_body_def split: option.splits)
  then show ?thesis by simp
next
  case True
  then obtain b c where b: "get_email d k = Some b" and c: "find (\<lambda>c. co_bulk c = k) (md_callouts d) = Some c"
    "be_started_at b \<noteq> None" "is_open c (mail_now d)" by blast
  then obtain t where started: "be_started_at b = Some t" by blast
  define d1 where "d1 = d\<lparr>md_callouts := rows_update (\<lambda>x. co_id x = co_id c)
      (\<lambda>x. x\<lparr>co_closed_at := Some (mail_now d), co_closed_by := Some (u_id who)\<rparr>) (md_callouts d)\<rparr>"
  define d2 where "d2 = snd (skip_pending k d1)"
  define f :: "bulk_email \<Rightarrow> bulk_email" where "f = (\<lambda>r. r\<lparr>be_skipped_count := be_skipped_count b + int (fst (skip_pending k d1)),
      be_status := SentEmail, be_sent_at := (case be_sent_at b of None \<Rightarrow> Some (mail_now d) | Some t \<Rightarrow> Some t)\<rparr>)"
  define d3 where "d3 = (if be_status b = QueuedEmail then edit_email k f d2 else d1)"
  have out: "snd (close_body k who d) = mail_log ''callout.close'' (Account (u_id who)) (Some k) False [] d3"
    using c(1,3) started by (simp add: close_body_def b d1_def d2_def d3_def f_def Let_def case_prod_unfold)
  have h1: "harmless d d1" by (rule harmless_cong) (simp_all add: d1_def)
  have "harmless d d3"
  proof (cases "be_status b = QueuedEmail")
    case True
    have "harmless d (edit_email k f d2)"
      by (rule harmless_set_aside [OF b, where h = "\<lambda>r. r\<lparr>cp_status := CopySkipped, cp_reason := closed_text\<rparr>" and f = f])
        (use True in \<open>simp_all add: d2_def d1_def skip_pending_def Let_def edit_email_def f_def edit_ok_def\<close>)
    then show ?thesis using True by (simp add: d3_def)
  next
    case False
    then show ?thesis using h1 by (simp add: d3_def)
  qed
  then show ?thesis unfolding out by (rule harmless_trans [OF _ harmless_log])
qed

lemma harmless_close [harmless_intros]: "harmless d (snd (close_callout k who d))"
  unfolding close_callout_def by (rule harmless_atomic) (rule harmless_close_body)

lemma apply_stop_effect:
  assumes "\<And>x. be_id (f x) = be_id x" and "be_id b = k"
  shows "\<exists>reason fs actor. apply_stop b (edit_email k f d) = mail_log ''bulk_email.stop'' actor (Some k) False fs
      (edit_email k (\<lambda>x. recount (d\<lparr>md_copies := rows_update (\<lambda>c. cp_bulk c = k \<and> cp_status c = CopyPending)
          (\<lambda>c. c\<lparr>cp_status := CopyStopped, cp_reason := reason\<rparr>) (md_copies d)\<rparr>) k
          ((f x)\<lparr>be_status := StoppedEmail, be_stopped_at := Some (mail_now d), be_stop_requested := False\<rparr>))
        (d\<lparr>md_copies := rows_update (\<lambda>c. cp_bulk c = k \<and> cp_status c = CopyPending)
          (\<lambda>c. c\<lparr>cp_status := CopyStopped, cp_reason := reason\<rparr>) (md_copies d)\<rparr>))"
proof -
  let ?d = "edit_email k f d"
  let ?stopper = "person ?d (case get_email ?d k of None \<Rightarrow> None | Some x \<Rightarrow> be_stopped_by x)"
  let ?reason = "take reason_max_length (''Stopped by '' @ (case ?stopper of None \<Rightarrow> unknown_stopper | Some u \<Rightarrow> account_name u))"
  have "apply_stop b ?d = mail_log ''bulk_email.stop'' (actor_or_command ?stopper) (Some k) False
      [(''recipients'', AInt (int (rows_matched (\<lambda>c. cp_bulk c = k \<and> cp_status c = CopyPending) (md_copies d))))]
      (edit_email k (\<lambda>x. recount (d\<lparr>md_copies := rows_update (\<lambda>c. cp_bulk c = k \<and> cp_status c = CopyPending)
          (\<lambda>c. c\<lparr>cp_status := CopyStopped, cp_reason := ?reason\<rparr>) (md_copies d)\<rparr>) k
          ((f x)\<lparr>be_status := StoppedEmail, be_stopped_at := Some (mail_now d), be_stop_requested := False\<rparr>))
        (d\<lparr>md_copies := rows_update (\<lambda>c. cp_bulk c = k \<and> cp_status c = CopyPending)
          (\<lambda>c. c\<lparr>cp_status := CopyStopped, cp_reason := ?reason\<rparr>) (md_copies d)\<rparr>))"
    using assms by (simp add: apply_stop_def Let_def edit_email_def rows_update_twice recount_def count_status_def mail_now_def)
  then show ?thesis by blast
qed

lemma harmless_stop [harmless_intros]: "harmless d (snd (stop_email k who d))"
proof (cases "get_email d k")
  case (Some b)
  have k: "be_id b = k" using get_email_SomeD [OF Some] by simp
  let ?f = "\<lambda>r. r\<lparr>be_stopped_by := Some (u_id who)\<rparr>"
  have "harmless d (apply_stop b (edit_email k ?f d))" if q: "be_status b = QueuedEmail" "be_started_at b \<noteq> None"
  proof -
    obtain reason fs actor where out: "apply_stop b (edit_email k ?f d) = mail_log ''bulk_email.stop'' actor (Some k) False fs
      (edit_email k (\<lambda>x. recount (d\<lparr>md_copies := rows_update (\<lambda>c. cp_bulk c = k \<and> cp_status c = CopyPending)
          (\<lambda>c. c\<lparr>cp_status := CopyStopped, cp_reason := reason\<rparr>) (md_copies d)\<rparr>) k
          ((?f x)\<lparr>be_status := StoppedEmail, be_stopped_at := Some (mail_now d), be_stop_requested := False\<rparr>))
        (d\<lparr>md_copies := rows_update (\<lambda>c. cp_bulk c = k \<and> cp_status c = CopyPending)
          (\<lambda>c. c\<lparr>cp_status := CopyStopped, cp_reason := reason\<rparr>) (md_copies d)\<rparr>))"
      using apply_stop_effect [of ?f, OF _ k] by fastforce
    define f where "f = (\<lambda>x. recount (d\<lparr>md_copies := rows_update (\<lambda>c. cp_bulk c = k \<and> cp_status c = CopyPending)
          (\<lambda>c. c\<lparr>cp_status := CopyStopped, cp_reason := reason\<rparr>) (md_copies d)\<rparr>) k
          ((?f x)\<lparr>be_status := StoppedEmail, be_stopped_at := Some (mail_now d), be_stop_requested := False\<rparr>))"
    have f: "be_id (f x) = be_id x" "be_status (f x) = StoppedEmail" "be_started_at (f x) = be_started_at x" for x
      by (simp_all add: f_def recount_def)
    have "harmless d (edit_email k f (d\<lparr>md_copies := rows_update (\<lambda>c. cp_bulk c = k \<and> cp_status c = CopyPending)
          (\<lambda>c. c\<lparr>cp_status := CopyStopped, cp_reason := reason\<rparr>) (md_copies d)\<rparr>))"
      by (rule harmless_set_aside [OF Some, where h = "\<lambda>c. c\<lparr>cp_status := CopyStopped, cp_reason := reason\<rparr>" and f = f])
        (use q f in \<open>simp_all add: edit_email_def edit_ok_def\<close>)
    then show ?thesis unfolding out f_def by (rule harmless_trans [OF _ harmless_log])
  qed
  moreover have "harmless d (edit_email k (\<lambda>r. r\<lparr>be_stop_requested := True, be_stopped_by := Some (u_id who)\<rparr>) d)"
    by (rule harmless_edit) (auto simp: edit_ok_def)
  ultimately show ?thesis by (auto simp: stop_email_def Some Let_def)
qed (simp add: stop_email_def)

end
