(* ===== verification/SenderSafety.thy ===== *)
theory SenderSafety
  imports MailingRequests
begin

text \<open>
  The steps of the background sender (\<open>apps/bulk_email/job.py\<close>) keep the invariant of \<open>MailingSafety\<close>,
  whatever requests come between them and wherever a run dies.

  \<open>MailWorld\<close> draws the consequences for every world that can be reached.
\<close>

subsection \<open>Changes of people\<close>

lemma get_email_map:
  assumes "md_emails d' = map f (md_emails d)" and "\<And>b. be_id (f b) = be_id b"
  shows "get_email d' j = map_option f (get_email d j)"
proof -
  have "row_get be_id (map f t) j = map_option f (row_get be_id t j)" for t
    using assms(2) by (induction t) auto
  then show ?thesis by (simp add: get_email_def assms(1))
qed

lemma harmless_same_rows:
  assumes copies: "md_copies d' = map g (md_copies d)" "\<And>c. cp_id (g c) = cp_id c \<and> cp_bulk (g c) = cp_bulk c \<and> cp_round (g c) = cp_round c
      \<and> cp_message (g c) = cp_message c \<and> cp_email (g c) = cp_email c \<and> cp_status (g c) = cp_status c"
    and emails: "md_emails d' = map f (md_emails d)" "\<And>b. be_id (f b) = be_id b \<and> be_status (f b) = be_status b
      \<and> be_started_at (f b) = be_started_at b"
    and rest: "md_taken d' = md_taken d" "md_draws d' = md_draws d" "md_entries d' = md_entries d" "md_next_pk d' = md_next_pk d"
  shows "harmless d d'"
proof (rule harmless_evolves)
  assume inv: "mail_inv d"
  have get: "get_email d' j = map_option f (get_email d j)" for j
    by (rule get_email_map [OF emails(1)]) (use emails(2) in simp)
  have sending: "sending d' j = sending d j" for j using emails(2) by (auto simp: sending_def get)
  have "rows_ok d'"
    by (rule rows_ok_same_keys [OF mail_invD(1) [OF inv]]) (use copies emails rest in \<open>simp_all add: comp_def\<close>)
  moreover have "stages_ok d'"
    using mail_invD(2) [OF inv] copies emails by (fastforce simp: stages_ok_def get stage_ok_def)
  moreover have "one_copy d'"
    by (rule one_copy_map [OF mail_invD(3) [OF inv] copies(1)]) (use copies(2) in \<open>auto simp: live_def\<close>)
  moreover have "moved d c (g c)" for c using copies(2) [of c] by (simp add: moved_def)
  then have "evolves d d'" unfolding evolves_def undisturbed_def using rest sending by (auto simp: copies(1) accepted_def)
  ultimately show "evolves d d' \<and> rows_ok d' \<and> stages_ok d' \<and> one_copy d'" by blast
qed

definition forget_account :: "pk \<Rightarrow> mail_db \<Rightarrow> mail_db" where
  \<comment> \<open>what the deletion of an account does to the rows that name it\<close>
  "forget_account k d =
     (let unlink = (\<lambda>u. if u = Some k then None else u)
      in d\<lparr>md_emails := map (\<lambda>b. b\<lparr>be_sender := unlink (be_sender b), be_stopped_by := unlink (be_stopped_by b)\<rparr>) (md_emails d),
           md_copies := map (\<lambda>c. c\<lparr>cp_user := unlink (cp_user c)\<rparr>) (md_copies d),
           md_retries := map (\<lambda>r. r\<lparr>rt_by := unlink (rt_by r)\<rparr>) (md_retries d),
           md_callouts := map (\<lambda>c. c\<lparr>co_closed_by := unlink (co_closed_by c)\<rparr>) (md_callouts d),
           md_answers := filter (\<lambda>a. an_user a \<noteq> k) (md_answers d),
           md_opt_outs := filter (\<lambda>x. oo_user x \<noteq> k) (md_opt_outs d)\<rparr>)"

lemma harmless_forget [harmless_intros]: "harmless d (forget_account k d)"
  by (rule harmless_same_rows [where g = "\<lambda>c. c\<lparr>cp_user := if cp_user c = Some k then None else cp_user c\<rparr>"
        and f = "\<lambda>b. b\<lparr>be_sender := if be_sender b = Some k then None else be_sender b,
          be_stopped_by := if be_stopped_by b = Some k then None else be_stopped_by b\<rparr>"])
    (simp_all add: forget_account_def Let_def)

lemma harmless_people [harmless_intros]:
  "harmless d (d\<lparr>md_people := p, md_profiles := ps, md_types := ts, md_opt_outs := os\<rparr>)"
  by (rule harmless_cong) simp_all

subsection \<open>One row of an email being sent changes\<close>

lemma all_waiting_step:
  assumes "all_waiting d h rows"
    and "\<And>c. c \<in> set (md_copies d) \<Longrightarrow> cp_id c \<in> cp_id ` set rows \<Longrightarrow> c \<in> set (md_copies d') \<and> went_out d' c = went_out d c"
    and "sending d' (be_id (he_email h)) = sending d (be_id (he_email h))"
  shows "all_waiting d' h rows"
  unfolding all_waiting_def
proof (intro conjI ballI)
  fix x assume x: "x \<in> set rows"
  then obtain y where y: "y \<in> set (md_copies d)" "cp_id y = cp_id x" "cp_status y = CopyPending" "cp_bulk y = be_id (he_email h)"
     "cp_email y = cp_email x" "\<not> went_out d y" using assms(1) by (auto simp: all_waiting_def waiting_def)
  have "y \<in> set (md_copies d') \<and> went_out d' y = went_out d y" by (rule assms(2) [OF y(1)]) (use x y(2) in auto)
  then show "waiting d' (be_id (he_email h)) x" using y unfolding waiting_def by blast
qed (use assms(1,3) in \<open>simp_all add: all_waiting_def\<close>)

lemma row_step:
  assumes inv: "mail_inv d" and y: "y \<in> set (md_copies d)" "live y" "sending d (cp_bulk y)"
    and h: "cp_id (h y) = cp_id y" "cp_bulk (h y) = cp_bulk y" "cp_round (h y) = cp_round y" "cp_email (h y) = cp_email y"
      "cp_status (h y) \<noteq> Batched"
    and copies: "md_copies d' = map (\<lambda>c. if cp_id c = cp_id y then h c else c) (md_copies d)"
    and emails: "md_emails d' = rows_update (\<lambda>r. be_id r = k) f (md_emails d)"
    and f: "\<And>b. be_id (f b) = be_id b" "\<And>b. be_status (f b) = be_status b" "\<And>b. be_started_at (f b) = be_started_at b"
    and rest: "md_taken d' = md_taken d" "md_draws d \<le> md_draws d'" "md_entries d' = md_entries d" "md_next_pk d' = md_next_pk d"
    and message: "\<And>m. cp_message (h y) = Some m \<Longrightarrow> cp_message y = Some m \<or> md_draws d \<le> m \<and> m < md_draws d'"
    and out: "arrived (h y) \<or> went_out d (h y) \<longleftrightarrow> arrived y \<or> went_out d y"
      "went_out d (h y) \<Longrightarrow> \<not> arrived (h y) \<Longrightarrow> cp_status (h y) = CopyPending"
  shows "mail_inv d'" and "sending d' j = sending d j" and "accepted d' m = accepted d m"
proof -
  have get: "get_email d' j = (if j = k then map_option f (get_email d j) else get_email d j)" for j
    using get_email_edit [of f k d j, OF f(1)] emails by (simp add: get_email_def edit_email_def)
  show sending: "sending d' j = sending d j" for j using f by (auto simp: sending_def get)
  show acc: "accepted d' m = accepted d m" for m by (simp add: accepted_def rest)
  then have went: "went_out d' c = went_out d c" for c by (simp add: went_out_def)
  let ?g = "\<lambda>c. if cp_id c = cp_id y then h c else c"
  have g: "c = y \<and> ?g c = h y \<or> cp_id c \<noteq> cp_id y \<and> ?g c = c" if "c \<in> set (md_copies d)" for c
    using copy_unique [OF mail_invD(1) [OF inv] y(1) that] by auto
  have row: "\<exists>c \<in> set (md_copies d). x = ?g c" if "x \<in> set (md_copies d')" for x using that by (auto simp: copies)
  have hy: "h y \<in> set (md_copies d')" using y(1) by (force simp: copies)
  have keep: "c \<in> set (md_copies d')" if "c \<in> set (md_copies d)" "cp_id c \<noteq> cp_id y" for c using that by (force simp: copies)
  have "rows_ok d'"
  proof (rule rows_ok_same_keys [OF mail_invD(1) [OF inv]])
    show "map cp_id (md_copies d') = map cp_id (md_copies d)" using g h(1) by (fastforce simp: copies)
    show "map be_id (md_emails d') = map be_id (md_emails d)" unfolding emails by (rule map_key_rows_update) (rule f(1))
  qed (simp add: rest)
  moreover have "stages_ok d'"
    unfolding stages_ok_def
  proof (intro conjI ballI impI)
    fix x assume "x \<in> set (md_copies d')"
    then obtain c where c: "c \<in> set (md_copies d)" "x = ?g c" using row by blast
    obtain b where b: "get_email d (cp_bulk c) = Some b" "stage_ok b c" using mail_invD(2) [OF inv] c(1) by (auto simp: stages_ok_def)
    let ?b = "if cp_bulk c = k then f b else b"
    have "get_email d' (cp_bulk c) = Some ?b" using b(1) by (auto simp: get)
    moreover have "cp_bulk x = cp_bulk c" using g [OF c(1)] c(2) h(2) by auto
    moreover have "stage_ok ?b x"
    proof (cases "c = y")
      case True
      then have "be_status b = SendingEmail" using b(1) y(3) by (auto simp: sending_def)
      moreover have "be_started_at b \<noteq> None" using b(2) y(2) True by (auto simp: stage_ok_def live_def)
      ultimately show ?thesis using True c(2) h(5) f by (auto simp: stage_ok_def)
    next
      case False
      then show ?thesis using g [OF c(1)] c(2) b(2) f by (auto simp: stage_ok_def)
    qed
    ultimately show "\<exists>b. get_email d' (cp_bulk x) = Some b \<and> stage_ok b x" by metis
  next
    fix b' assume b': "b' \<in> set (md_emails d')" "be_status b' = SendingEmail"
    then show "be_started_at b' \<noteq> None"
      using mail_invD(2) [OF inv] f by (auto simp: emails set_rows_update stages_ok_def split: if_splits)
  qed
  moreover have "one_copy d'"
    by (rule one_copy_map [OF mail_invD(3) [OF inv] copies]) (use g h y(2) in \<open>fastforce+\<close>)
  moreover have "messages_ok d'"
  proof (rule messages_okI)
    have old: "\<exists>c \<in> set (md_copies d). cp_id x = cp_id c \<and> (cp_message c = Some m \<or> c = y \<and> md_draws d \<le> m \<and> m < md_draws d')"
      if x: "x \<in> set (md_copies d')" "cp_message x = Some m" for x m
    proof -
      obtain c where c: "c \<in> set (md_copies d)" "x = ?g c" using row [OF x(1)] by blast
      show ?thesis using g [OF c(1)] c x(2) message h(1) y(1) by metis
    qed
    show "m < md_draws d'" if "x \<in> set (md_copies d')" "cp_message x = Some m" for x m
    proof -
      from old [OF that] obtain c where c: "c \<in> set (md_copies d)" "cp_message c = Some m \<or> m < md_draws d'" by blast
      moreover have "cp_message c = Some m \<Longrightarrow> m < md_draws d" using mail_invD(4) [OF inv] c(1) unfolding messages_ok_def by blast
      ultimately show ?thesis using rest(2) by auto
    qed
    show "cp_id x = cp_id z" if a: "x \<in> set (md_copies d')" "z \<in> set (md_copies d')" "cp_message x = Some m" "cp_message z = Some m" for x z m
    proof -
      have "m < md_draws d" if "c \<in> set (md_copies d)" "cp_message c = Some m" for c
        using that mail_invD(4) [OF inv] by (simp add: messages_ok_def)
      then show ?thesis using old [OF a(1,3)] old [OF a(2,4)] mail_invD(4) [OF inv] unfolding messages_ok_def by (metis not_less)
    qed
    show "m < md_draws d'" if "accepted d' m" for m
      using that mail_invD(4) [OF inv] rest(2) unfolding acc messages_ok_def by (meson less_le_trans)
  qed
  moreover have "taken_ok d'"
  proof (rule taken_okI)
    note t = taken_okD [OF mail_invD(5) [OF inv]]
    show "distinct (map fst (md_taken d'))" using t(1) by (simp add: rest)
    show "\<exists>c \<in> set (md_copies d'). cp_id c = i \<and> cp_email c = a
         \<and> (arrived c \<or> cp_status c = CopyPending \<and> sending d' (cp_bulk c) \<and> went_out d' c)" if "(i, a) \<in> set (md_taken d')" for i a
    proof -
      have "(i, a) \<in> set (md_taken d)" using that by (simp add: rest)
      from t(2) [OF this] obtain c where c: "c \<in> set (md_copies d)" "cp_id c = i" "cp_email c = a"
         "arrived c \<or> cp_status c = CopyPending \<and> sending d (cp_bulk c) \<and> went_out d c" by blast
      from g [OF c(1)] show ?thesis
      proof
        assume "c = y \<and> ?g c = h y"
        then show ?thesis using c hy h out y(3) sending went by metis
      next
        assume "cp_id c \<noteq> cp_id y \<and> ?g c = c"
        then show ?thesis using c keep [OF c(1)] sending went by metis
      qed
    qed
    show "cp_id x \<in> taken_ids d'" if x: "x \<in> set (md_copies d')" "arrived x \<or> went_out d' x" for x
    proof -
      obtain c where c: "c \<in> set (md_copies d)" "x = ?g c" using row [OF x(1)] by blast
      then have "cp_id c = cp_id x \<and> (arrived c \<or> went_out d c)" using g [OF c(1)] x(2) out(1) h(1) went by metis
      then show ?thesis using t(3) [OF c(1)] by (simp add: taken_ids_def rest)
    qed
  qed
  ultimately show "mail_inv d'" by (simp add: mail_inv_def)
qed

subsection \<open>An email starts sending, and stops\<close>

lemma email_step:
  \<comment> \<open>one email changes where it stands, and its copies with it\<close>
  assumes inv: "mail_inv d" and b: "get_email d k = Some b"
    and copies: "md_copies d' = map g (md_copies d)"
    and emails: "md_emails d' = rows_update (\<lambda>r. be_id r = k) f (md_emails d)"
    and f: "\<And>b. be_id (f b) = be_id b" "be_status (f b) = SendingEmail \<Longrightarrow> be_started_at (f b) \<noteq> None"
    and rest: "md_taken d' = md_taken d" "md_draws d' = md_draws d" "md_entries d' = md_entries d" "md_next_pk d' = md_next_pk d"
    and g: "\<And>c. c \<in> set (md_copies d) \<Longrightarrow> cp_id (g c) = cp_id c \<and> cp_bulk (g c) = cp_bulk c \<and> cp_round (g c) = cp_round c
        \<and> cp_message (g c) = cp_message c"
      "\<And>c. c \<in> set (md_copies d) \<Longrightarrow> cp_bulk c \<noteq> k \<Longrightarrow> g c = c"
      "\<And>c. c \<in> set (md_copies d) \<Longrightarrow> cp_bulk c = k \<Longrightarrow> stage_ok b c \<Longrightarrow> stage_ok (f b) (g c)"
      "\<And>c. c \<in> set (md_copies d) \<Longrightarrow> cp_bulk c = k \<Longrightarrow> arrived c \<Longrightarrow> g c = c"
      "\<And>c. c \<in> set (md_copies d) \<Longrightarrow> cp_bulk c = k \<Longrightarrow> arrived (g c) \<Longrightarrow> arrived c"
    and settled: "sending d k \<Longrightarrow> settled d k"
    and one: "one_copy d'"
  shows "mail_inv d' \<and> (\<forall>j. j \<noteq> k \<longrightarrow> sending d' j = sending d j) \<and> (\<forall>m. accepted d' m = accepted d m)
    \<and> sending d' k = (be_status (f b) = SendingEmail)"
proof -
  have get: "get_email d' j = (if j = k then map_option f (get_email d j) else get_email d j)" for j
    using get_email_edit [of f k d j, OF f(1)] emails by (simp add: get_email_def edit_email_def)
  have acc: "accepted d' m = accepted d m" for m by (simp add: accepted_def rest)
  then have went: "went_out d' (g c) = went_out d c" if "c \<in> set (md_copies d)" for c using g(1) [OF that] by (simp add: went_out_def)
  have other: "j \<noteq> k \<Longrightarrow> sending d' j = sending d j" for j by (simp add: sending_def get)
  have here: "sending d' k = (be_status (f b) = SendingEmail)" using b by (simp add: sending_def get)
  have "rows_ok d'"
  proof (rule rows_ok_same_keys [OF mail_invD(1) [OF inv]])
    show "map cp_id (md_copies d') = map cp_id (md_copies d)" using g(1) by (simp add: copies)
    show "map be_id (md_emails d') = map be_id (md_emails d)" unfolding emails by (rule map_key_rows_update) (rule f(1))
  qed (simp add: rest)
  moreover have "stages_ok d'"
    unfolding stages_ok_def
  proof (intro conjI ballI impI)
    fix x assume "x \<in> set (md_copies d')"
    then obtain c where c: "c \<in> set (md_copies d)" "x = g c" by (auto simp: copies)
    obtain b1 where b1: "get_email d (cp_bulk c) = Some b1" "stage_ok b1 c" using mail_invD(2) [OF inv] c(1) by (auto simp: stages_ok_def)
    show "\<exists>b. get_email d' (cp_bulk x) = Some b \<and> stage_ok b x"
    proof (cases "cp_bulk c = k")
      case True
      then have "b1 = b" using b b1(1) by simp
      then show ?thesis using g(3) [OF c(1) True] b1 g(1) [OF c(1)] c(2) True by (auto simp: get)
    next
      case False
      then show ?thesis using g(2) [OF c(1) False] b1 c(2) by (auto simp: get)
    qed
  next
    fix b' assume b': "b' \<in> set (md_emails d')" "be_status b' = SendingEmail"
    then obtain b0 where b0: "b0 \<in> set (md_emails d)" "b' = (if be_id b0 = k then f b0 else b0)" by (auto simp: emails set_rows_update)
    show "be_started_at b' \<noteq> None"
    proof (cases "be_id b0 = k")
      case True
      then have "b0 = b" using get_email_row [OF mail_invD(1) [OF inv] b0(1)] b by simp
      then show ?thesis using True b0(2) b'(2) f(2) by simp
    next
      case False
      then show ?thesis using mail_invD(2) [OF inv] b0 b'(2) by (simp add: stages_ok_def)
    qed
  qed
  moreover have "messages_ok d'"
  proof (rule messages_okI)
    note m = mail_invD(4) [OF inv, unfolded messages_ok_def]
    have old: "\<exists>c \<in> set (md_copies d). cp_id x = cp_id c \<and> cp_message c = cp_message x" if "x \<in> set (md_copies d')" for x
      using that g(1) by (auto simp: copies)
    show "n < md_draws d'" if "x \<in> set (md_copies d')" "cp_message x = Some n" for x n
      using old [OF that(1)] that(2) m by (metis rest(2))
    show "cp_id x = cp_id z" if "x \<in> set (md_copies d')" "z \<in> set (md_copies d')" "cp_message x = Some n" "cp_message z = Some n" for x z n
      using old [OF that(1)] old [OF that(2)] that(3,4) m by metis
    show "n < md_draws d'" if "accepted d' n" for n using that m by (simp add: acc rest(2))
  qed
  moreover have "taken_ok d'"
  proof (rule taken_okI)
    note t = taken_okD [OF mail_invD(5) [OF inv]]
    show "distinct (map fst (md_taken d'))" using t(1) by (simp add: rest)
    show "\<exists>c \<in> set (md_copies d'). cp_id c = i \<and> cp_email c = a
         \<and> (arrived c \<or> cp_status c = CopyPending \<and> sending d' (cp_bulk c) \<and> went_out d' c)" if "(i, a) \<in> set (md_taken d')" for i a
    proof -
      have "(i, a) \<in> set (md_taken d)" using that by (simp add: rest)
      from t(2) [OF this] obtain c where c: "c \<in> set (md_copies d)" "cp_id c = i" "cp_email c = a"
         "arrived c \<or> cp_status c = CopyPending \<and> sending d (cp_bulk c) \<and> went_out d c" by blast
      have "g c = c \<and> (cp_bulk c \<noteq> k \<or> arrived c)"
        using c g(2,4) settled unfolding settled_def by metis
      moreover have "g c \<in> set (md_copies d')" using c(1) by (simp add: copies)
      ultimately show ?thesis using c other went [OF c(1)] by metis
    qed
    show "cp_id x \<in> taken_ids d'" if x: "x \<in> set (md_copies d')" "arrived x \<or> went_out d' x" for x
    proof -
      obtain c where c: "c \<in> set (md_copies d)" "x = g c" using x(1) by (auto simp: copies)
      have "arrived c \<or> went_out d c" using x(2) c g(2,5) went [OF c(1)] by metis
      then show ?thesis using t(3) [OF c(1)] g(1) [OF c(1)] c(2) by (simp add: taken_ids_def rest)
    qed
  qed
  ultimately show ?thesis using one other acc here by (simp add: mail_inv_def)
qed

lemma run_ok_leave:
  assumes "run_ok s d" and "point_bulk (sr_point s) = [k]" and "\<And>j. j \<noteq> k \<Longrightarrow> sending d' j = sending d j"
    and "sr_point s' = NextEmail" and "sr_unfinished s' = sr_unfinished s"
  shows "run_ok s' d'"
  using assms by (fastforce simp: run_ok_def)

lemma apply_stop_step:
  assumes inv: "mail_inv d" and ok: "run_ok s d" and k: "point_bulk (sr_point s) = [be_id b]"
    and at: "sending d (be_id b)" "settled d (be_id b)"
  shows "mail_inv (apply_stop b d)" and "run_ok (s\<lparr>sr_point := NextEmail\<rparr>) (apply_stop b d)"
proof -
  obtain b0 where b0: "get_email d (be_id b) = Some b0" "be_status b0 = SendingEmail" using at(1) by (auto simp: sending_def)
  have same: "edit_email (be_id b) (\<lambda>x. x) d = d" by (simp add: edit_email_def rows_update_def)
  obtain reason fs actor where out: "apply_stop b d = mail_log ''bulk_email.stop'' actor (Some (be_id b)) False fs
      (edit_email (be_id b) (\<lambda>x. recount (d\<lparr>md_copies := rows_update (\<lambda>c. cp_bulk c = be_id b \<and> cp_status c = CopyPending)
          (\<lambda>c. c\<lparr>cp_status := CopyStopped, cp_reason := reason\<rparr>) (md_copies d)\<rparr>) (be_id b)
          (x\<lparr>be_status := StoppedEmail, be_stopped_at := Some (mail_now d), be_stop_requested := False\<rparr>))
        (d\<lparr>md_copies := rows_update (\<lambda>c. cp_bulk c = be_id b \<and> cp_status c = CopyPending)
          (\<lambda>c. c\<lparr>cp_status := CopyStopped, cp_reason := reason\<rparr>) (md_copies d)\<rparr>))"
    using apply_stop_effect [of "\<lambda>x. x" b "be_id b" d, OF refl refl, unfolded same] by blast
  define f where "f = (\<lambda>x. recount (d\<lparr>md_copies := rows_update (\<lambda>c. cp_bulk c = be_id b \<and> cp_status c = CopyPending)
          (\<lambda>c. c\<lparr>cp_status := CopyStopped, cp_reason := reason\<rparr>) (md_copies d)\<rparr>) (be_id b)
          (x\<lparr>be_status := StoppedEmail, be_stopped_at := Some (mail_now d), be_stop_requested := False\<rparr>))"
  have f: "be_id (f x) = be_id x" "be_status (f x) = StoppedEmail" "be_started_at (f x) = be_started_at x" for x
    by (simp_all add: f_def recount_def)
  let ?g = "\<lambda>c. if cp_bulk c = be_id b \<and> cp_status c = CopyPending then c\<lparr>cp_status := CopyStopped, cp_reason := reason\<rparr> else c"
  let ?d = "edit_email (be_id b) f (d\<lparr>md_copies := rows_update (\<lambda>c. cp_bulk c = be_id b \<and> cp_status c = CopyPending)
          (\<lambda>c. c\<lparr>cp_status := CopyStopped, cp_reason := reason\<rparr>) (md_copies d)\<rparr>)"
  have copies: "md_copies ?d = map ?g (md_copies d)" by (simp add: edit_email_def rows_update_def)
  have one: "one_copy ?d"
    by (rule one_copy_map [OF mail_invD(3) [OF inv] copies]) (auto simp: live_def)
  have "mail_inv ?d \<and> (\<forall>j. j \<noteq> be_id b \<longrightarrow> sending ?d j = sending d j) \<and> (\<forall>m. accepted ?d m = accepted d m)
      \<and> sending ?d (be_id b) = (be_status (f b0) = SendingEmail)"
    by (rule email_step [OF inv b0(1) copies])
      (use f b0(2) at(2) one in \<open>auto simp: edit_email_def stage_ok_def arrived_def split: if_splits\<close>)
  then have step: "mail_inv ?d" "j \<noteq> be_id b \<Longrightarrow> sending ?d j = sending d j" for j by blast+
  have log: "harmless ?d (apply_stop b d)" unfolding out f_def by (rule harmless_log)
  show "mail_inv (apply_stop b d)" using log step(1) by (simp add: harmless_def)
  have "run_ok (s\<lparr>sr_point := NextEmail\<rparr>) ?d" by (rule run_ok_leave [OF ok k step(2)]) simp_all
  then show "run_ok (s\<lparr>sr_point := NextEmail\<rparr>) (apply_stop b d)" using log step(1) by (simp add: harmless_def)
qed

lemma reminder_finished_harmless: "harmless d (reminder_finished b d)"
  by (simp add: reminder_finished_def Let_def harmless_log)

lemma retry_finished_harmless: "harmless d (retry_finished b d)"
  by (simp add: retry_finished_def Let_def harmless_log split: option.split)

lemma finish_email_step:
  assumes inv: "mail_inv d" and ok: "run_ok s d" and k: "point_bulk (sr_point s) = [be_id (he_email h)]"
    and at: "sending d (be_id (he_email h))" "settled d (be_id (he_email h))"
  shows "mail_inv (finish_email h d)" and "run_ok (s\<lparr>sr_point := NextEmail\<rparr>) (finish_email h d)"
proof -
  let ?k = "be_id (he_email h)"
  obtain b0 where b0: "get_email d ?k = Some b0" "be_status b0 = SendingEmail" using at(1) by (auto simp: sending_def)
  have "mail_inv (finish_email h d) \<and> run_ok (s\<lparr>sr_point := NextEmail\<rparr>) (finish_email h d)"
  proof (cases "list_ex (\<lambda>r. cp_bulk r = ?k \<and> cp_status r = CopyPending) (md_copies d)")
    case True
    have "run_ok (s\<lparr>sr_point := NextEmail\<rparr>) d" by (rule run_ok_leave [OF ok k]) simp_all
    then show ?thesis using True inv by (simp add: finish_email_def Let_def)
  next
    case False
    then have none: "\<not> (cp_bulk c = ?k \<and> cp_status c = CopyPending)" if "c \<in> set (md_copies d)" for c using that by (auto simp: list_ex_iff)
    define f where "f = (\<lambda>x. recount d ?k (x\<lparr>be_status := SentEmail,
        be_sent_at := (if be_sent_at (he_email h) \<noteq> None then be_sent_at (he_email h) else Some (mail_now d)),
        be_stop_requested := False, be_stopped_by := None\<rparr>))"
    let ?d = "edit_email ?k f d"
    have f: "be_id (f x) = be_id x" "be_status (f x) = SentEmail" "be_started_at (f x) = be_started_at x" for x
      by (simp_all add: f_def recount_def)
    have copies: "md_copies ?d = map (\<lambda>c. c) (md_copies d)" by (simp add: edit_email_def)
    have one: "one_copy ?d" using mail_invD(3) [OF inv] one_copy_cong [of ?d d] by (simp add: edit_email_def)
    have "mail_inv ?d \<and> (\<forall>j. j \<noteq> ?k \<longrightarrow> sending ?d j = sending d j) \<and> (\<forall>m. accepted ?d m = accepted d m)
        \<and> sending ?d ?k = (be_status (f b0) = SendingEmail)"
      by (rule email_step [OF inv b0(1) copies])
        (use f b0(2) at(2) one none in \<open>auto simp: edit_email_def stage_ok_def arrived_def\<close>)
    then have step: "mail_inv ?d" "j \<noteq> ?k \<Longrightarrow> sending ?d j = sending d j" for j by blast+
    have log: "harmless ?d (finish_email h d)"
      using False by (cases "be_sent_at (he_email h)")
        (simp_all add: finish_email_def Let_def f_def harmless_log reminder_finished_harmless retry_finished_harmless)
    have "run_ok (s\<lparr>sr_point := NextEmail\<rparr>) ?d" by (rule run_ok_leave [OF ok k step(2)]) simp_all
    then show ?thesis using log step(1) by (simp add: harmless_def)
  qed
  then show "mail_inv (finish_email h d)" and "run_ok (s\<lparr>sr_point := NextEmail\<rparr>) (finish_email h d)" by simp_all
qed

subsection \<open>Claiming an email\<close>

lemma frozen_row_simps [simp]:
  "cp_id (frozen_row r) = cp_id (br_copy r)" "cp_bulk (frozen_row r) = cp_bulk (br_copy r)" "cp_round (frozen_row r) = cp_round (br_copy r)"
  "cp_message (frozen_row r) = cp_message (br_copy r)" "cp_status (frozen_row r) = (if will_receive r then CopyPending else CopySkipped)"
  by (cases "br_account r"; simp add: frozen_row_def)+

definition freezing :: "mail_config \<Rightarrow> bulk_email \<Rightarrow> mail_db \<Rightarrow> batch_row list" where
  "freezing cfg b d = filter (\<lambda>r. cp_status (br_copy r) = Batched) (batch_rows cfg d b)"

definition freeze_copy :: "mail_config \<Rightarrow> bulk_email \<Rightarrow> mail_db \<Rightarrow> copy \<Rightarrow> copy" where
  "freeze_copy cfg b d c = (case row_get cp_id (map frozen_row (freezing cfg b d)) (cp_id c) of None \<Rightarrow> c | Some s \<Rightarrow> s)"

lemma freeze_copies: "snd (freeze cfg b d) = d\<lparr>md_copies := map (freeze_copy cfg b d) (md_copies d)\<rparr>"
  by (simp add: freeze_def freezing_def freeze_copy_def put_copies_def Let_def)

lemma batch_row_copies: "br_copy ` set (batch_rows cfg d b) = {c \<in> set (md_copies d). cp_bulk c = be_id b \<and> cp_round c = 0}"
proof -
  have "br_copy ` set (batch_rows cfg d b) = set (map br_copy (batch_rows cfg d b))" by simp
  also have "\<dots> = {c \<in> set (md_copies d). cp_bulk c = be_id b \<and> cp_round c = 0}"
    by (simp only: batch_rows_def rate_rows_copies) (simp add: surname_order_def batch_queryset_def)
  finally show ?thesis .
qed

lemma frozen_copy:
  assumes inv: "mail_inv d" and c: "c \<in> set (md_copies d)"
  shows "freeze_copy cfg b d c = c \<and> \<not> (cp_bulk c = be_id b \<and> cp_status c = Batched)
    \<or> cp_bulk c = be_id b \<and> cp_status c = Batched \<and> (\<exists>r \<in> set (freezing cfg b d). br_copy r = c \<and> freeze_copy cfg b d c = frozen_row r)"
proof (cases "row_get cp_id (map frozen_row (freezing cfg b d)) (cp_id c)")
  case None
  have "\<not> (cp_bulk c = be_id b \<and> cp_status c = Batched)"
  proof
    assume a: "cp_bulk c = be_id b \<and> cp_status c = Batched"
    then have "cp_round c = 0" using mail_invD(2) [OF inv] c by (auto simp: stages_ok_def stage_ok_def)
    then have "c \<in> br_copy ` set (batch_rows cfg d b)" using a c unfolding batch_row_copies by simp
    then obtain r where r: "r \<in> set (freezing cfg b d)" "br_copy r = c" using a by (auto simp: freezing_def)
    have "cp_id (frozen_row r) \<in> cp_id ` set (map frozen_row (freezing cfg b d))" using r(1) by (simp only: set_map) blast
    then show False using None r(2) unfolding row_get_None_iff by simp
  qed
  then show ?thesis using None by (simp add: freeze_copy_def)
next
  case (Some s)
  then obtain r where r: "r \<in> set (freezing cfg b d)" "s = frozen_row r" "cp_id s = cp_id c" using row_get_SomeD [OF Some] by auto
  then have "br_copy r \<in> br_copy ` set (batch_rows cfg d b)" "cp_status (br_copy r) = Batched" by (auto simp: freezing_def)
  then have row: "br_copy r \<in> set (md_copies d)" "cp_bulk (br_copy r) = be_id b" unfolding batch_row_copies by simp_all
  have "br_copy r = c" by (rule copy_unique [OF mail_invD(1) [OF inv] c row(1)]) (use r in simp)
  then show ?thesis using r row Some \<open>cp_status (br_copy r) = Batched\<close> by (auto simp: freeze_copy_def)
qed

lemma frozen_address:
  assumes "r \<in> set (freezing cfg b d)" and "will_receive r"
  shows "folded (cp_email (frozen_row r)) = folded (u_email (the (br_account r)))"
proof -
  have "r \<in> set (batch_rows cfg d b)" "cp_status (br_copy r) = Batched" using assms(1) by (simp_all add: freezing_def)
  then obtain a where "br_account r = Some a" using receiving_account [OF _ _ assms(2)] unfolding batch_rows_def by blast
  then show ?thesis by (simp add: frozen_row_def)
qed

lemma frozen_distinct:
  assumes "r \<in> set (freezing cfg b d)" "r' \<in> set (freezing cfg b d)" "will_receive r" "will_receive r'"
    and "folded (cp_email (frozen_row r)) = folded (cp_email (frozen_row r'))"
  shows "r = r'"
proof -
  let ?rows = "filter (\<lambda>r. cp_status (br_copy r) = Batched \<and> will_receive r) (batch_rows cfg d b)"
  have "distinct (map (\<lambda>r. folded (u_email (the (br_account r)))) ?rows)"
    using receiving_distinct [THEN conjunct1] unfolding batch_rows_def receiving_addresses_def by blast
  then have "inj_on (\<lambda>r. folded (u_email (the (br_account r)))) (set ?rows)" by (simp only: distinct_map)
  moreover have "r \<in> set ?rows" "r' \<in> set ?rows" using assms(1-4) by (simp_all add: freezing_def)
  moreover have "folded (u_email (the (br_account r))) = folded (u_email (the (br_account r')))"
    using frozen_address [OF assms(1,3)] frozen_address [OF assms(2,4)] assms(5) by simp
  ultimately show ?thesis by (meson inj_onD)
qed

lemma freeze_one_copy:
  assumes inv: "mail_inv d" and copies: "md_copies d' = map (freeze_copy cfg b d) (md_copies d)"
  shows "one_copy d'"
  unfolding one_copy_def
proof (intro ballI impI)
  fix x y assume x: "x \<in> set (md_copies d')" and y: "y \<in> set (md_copies d')" and l: "live x" "live y" and key: "address_key x = address_key y"
  have frozen: "\<exists>r \<in> set (freezing cfg b d). z = frozen_row r \<and> will_receive r"
    if z: "z \<in> set (md_copies d')" "live z" "z \<notin> set (md_copies d)" for z
  proof -
    obtain c where c: "c \<in> set (md_copies d)" "z = freeze_copy cfg b d c" using z(1) by (auto simp: copies)
    then obtain r where "r \<in> set (freezing cfg b d)" "z = frozen_row r" using frozen_copy [OF inv c(1), of cfg b] z(3) by auto
    then show ?thesis using z(2) by (auto simp: live_def split: if_splits)
  qed
  have old: "\<not> (cp_bulk z = be_id b \<and> (\<exists>r \<in> set (freezing cfg b d). True))" if z: "z \<in> set (md_copies d)" "live z" for z
  proof
    assume a: "cp_bulk z = be_id b \<and> (\<exists>r \<in> set (freezing cfg b d). True)"
    then obtain r where r: "r \<in> set (freezing cfg b d)" by blast
    then have "br_copy r \<in> br_copy ` set (batch_rows cfg d b)" "cp_status (br_copy r) = Batched" by (auto simp: freezing_def)
    then have "br_copy r \<in> set (md_copies d)" "cp_bulk (br_copy r) = be_id b" "cp_status (br_copy r) = Batched"
      unfolding batch_row_copies by simp_all
    then obtain b0 where "get_email d (be_id b) = Some b0" "be_started_at b0 = None"
      using mail_invD(2) [OF inv] by (force simp: stages_ok_def stage_ok_def)
    then have "cp_status z = Batched" using batch_of_unstarted [OF inv _ _ z(1)] a by blast
    then show False using z(2) by (simp add: live_def)
  qed
  show "cp_id x = cp_id y"
  proof (cases "x \<in> set (md_copies d)")
    case True
    then have "y \<in> set (md_copies d)"
      using frozen [OF y l(2)] old [OF True l(1)] key batch_row_copies [of cfg d b] by (fastforce simp: address_key_def freezing_def)
    then show ?thesis using one_copyD [OF mail_invD(3) [OF inv] True _ l key] by blast
  next
    case False
    then obtain r where r: "r \<in> set (freezing cfg b d)" "x = frozen_row r" "will_receive r" using frozen [OF x l(1)] by blast
    have "cp_bulk x = be_id b" using r batch_row_copies [of cfg d b] by (auto simp: freezing_def)
    then have "y \<notin> set (md_copies d)" using old [OF _ l(2)] key r(1) by (auto simp: address_key_def)
    then obtain r' where r': "r' \<in> set (freezing cfg b d)" "y = frozen_row r'" "will_receive r'" using frozen [OF y l(2)] by blast
    have "r = r'" by (rule frozen_distinct [OF r(1) r'(1) r(3) r'(3)]) (use key r(2) r'(2) in \<open>simp add: address_key_def\<close>)
    then show ?thesis using r(2) r'(2) by simp
  qed
qed

definition set_aside_closed :: "mail_db \<Rightarrow> bulk_email \<Rightarrow> copy \<Rightarrow> copy" where
  "set_aside_closed d b c = (if closed_reason d b \<noteq> [] \<and> cp_bulk c = be_id b \<and> cp_status c = CopyPending
     then c\<lparr>cp_status := CopySkipped, cp_reason := closed_text\<rparr> else c)"

lemma skip_if_closed_copies: "snd (skip_if_closed b d) = d\<lparr>md_copies := map (set_aside_closed d b) (md_copies d)\<rparr>"
proof (cases "closed_reason d b = []")
  case True
  then have "set_aside_closed d b = (\<lambda>c. c)" by (simp add: set_aside_closed_def fun_eq_iff)
  then show ?thesis using True by (simp add: skip_if_closed_def)
next
  case False
  then show ?thesis by (auto simp: skip_if_closed_def skip_pending_def set_aside_closed_def rows_update_def Let_def)
qed

lemma due_email: "b \<in> set (due_emails now d) \<Longrightarrow> b \<in> set (md_emails d) \<and> be_status b = QueuedEmail"
  by (simp add: due_emails_def)

lemma refuse_harmless:
  assumes "b \<in> set (md_emails d)" and "be_status b = QueuedEmail"
  shows "harmless d (refuse_email b r d)"
proof -
  let ?f = "\<lambda>x. x\<lparr>be_status := DraftEmail, be_start_at := None, be_scheduled := False, be_confirm_count := None,
      be_not_sent_reason := rf_message r\<rparr>"
  let ?g = "\<lambda>x. x\<lparr>be_status := StoppedEmail, be_stopped_at := Some (mail_now d), be_not_sent_reason := rf_message r\<rparr>"
  let ?h = "\<lambda>c. c\<lparr>cp_status := CopyStopped, cp_reason := take reason_max_length (rf_message r)\<rparr>"
  let ?d = "edit_email (be_id b) ?g
      (d\<lparr>md_copies := rows_update (\<lambda>c. cp_bulk c = be_id b \<and> cp_status c = CopyPending) ?h (md_copies d)\<rparr>)"
  have get: "get_email d (be_id b) = Some b" if "mail_inv d" using get_email_row [OF mail_invD(1) [OF that] assms(1)] .
  have "harmless d (edit_email (be_id b) ?f d)" if "be_started_at b = None"
    by (rule harmless_edit) (use that assms(2) get in \<open>auto simp: edit_ok_def\<close>)
  moreover have "harmless d ?d"
  proof -
    have "harmless d ?d" if inv: "mail_inv d"
      by (rule harmless_set_aside [OF get [OF inv], where f = ?g and h = ?h])
        (use assms(2) in \<open>simp_all add: edit_email_def edit_ok_def\<close>)
    then show ?thesis by (auto simp: harmless_def)
  qed
  ultimately show ?thesis
    by (auto simp: refuse_email_def Let_def intro: harmless_trans [OF _ harmless_log])
qed

lemma claim_step:
  assumes inv: "mail_inv d" and ok: "run_ok s d" and at: "sr_point s = NextEmail"
  shows "claim_one cfg now d = (NothingDue, d') \<Longrightarrow> d' = d"
    and "claim_one cfg now d = (Returned, d') \<Longrightarrow> mail_inv d' \<and> run_ok s d'"
    and "claim_one cfg now d = (Claimed b' n, d') \<Longrightarrow> mail_inv d' \<and> run_ok (s\<lparr>sr_point := Opened b', sr_counts := m\<rparr>) d'"
proof -
  show "claim_one cfg now d = (NothingDue, d') \<Longrightarrow> d' = d"
    by (auto simp: claim_one_def Let_def split: list.splits option.splits prod.splits)
  have refused: "b # rest = due_emails now d \<Longrightarrow> harmless d (refuse_email b r d)" for b r rest
    using due_email [of b now d] refuse_harmless by (metis list.set_intros(1))
  show "claim_one cfg now d = (Returned, d') \<Longrightarrow> mail_inv d' \<and> run_ok s d'"
    using inv ok refused by (auto simp: claim_one_def Let_def harmless_def split: list.splits option.splits prod.splits)
  assume res: "claim_one cfg now d = (Claimed b' n, d')"
  then obtain b rest where due: "due_emails now d = b # rest" and ref: "sender_refusal cfg d b = None"
    by (auto simp: claim_one_def Let_def split: list.splits option.splits prod.splits)
  then have b: "b \<in> set (md_emails d)" "be_status b = QueuedEmail" using due_email [of b now d] by simp_all
  let ?k = "be_id b"
  define b1 where "b1 = b\<lparr>be_status := SendingEmail,
               be_started_at := (case be_started_at b of None \<Rightarrow> Some (mail_now d) | Some t \<Rightarrow> Some t),
               be_dart := (if be_started_at b = None then limit_dart (dart_limit d b) else be_dart b),
               be_reply_to := claimed_reply_to cfg d b\<rparr>"
  define d1 where "d1 = snd (freeze cfg b1 d)"
  define d2 where "d2 = snd (skip_if_closed b1 d1)"
  define b2 where "b2 = b1\<lparr>be_skipped_count := be_skipped_count b1 + int (fst (freeze cfg b1 d)) + int (fst (skip_if_closed b1 d1))\<rparr>"
  define f :: "bulk_email \<Rightarrow> bulk_email" where "f = (\<lambda>x. x\<lparr>be_status := be_status b2, be_started_at := be_started_at b2,
              be_dart := be_dart b2, be_reply_to := be_reply_to b2, be_skipped_count := be_skipped_count b2\<rparr>)"
  have "claim_one cfg now d = (Claimed b2 (fst (freeze cfg b1 d) + fst (skip_if_closed b1 d1)), edit_email ?k f d2)"
    by (simp only: claim_one_def due ref list.case option.case Let_def case_prod_unfold b1_def d1_def d2_def b2_def f_def)
  then have out: "b' = b2" "d' = edit_email ?k f d2" using res by simp_all
  have k1: "be_id b1 = ?k" "be_id b2 = ?k" "be_status b2 = SendingEmail" "be_started_at b2 \<noteq> None"
    by (auto simp: b1_def b2_def split: option.split)
  have get: "get_email d ?k = Some b" by (rule get_email_row [OF mail_invD(1) [OF inv] b(1)])
  let ?g = "\<lambda>c. set_aside_closed d1 b1 (freeze_copy cfg b1 d c)"
  have d1: "d1 = d\<lparr>md_copies := map (freeze_copy cfg b1 d) (md_copies d)\<rparr>" by (simp add: d1_def freeze_copies)
  have d2: "d2 = d\<lparr>md_copies := map ?g (md_copies d)\<rparr>" by (simp add: d2_def skip_if_closed_copies) (simp add: d1 comp_def)
  have copies: "md_copies d' = map ?g (md_copies d)" by (simp add: out d2 edit_email_def)
  have rest: "md_emails d' = rows_update (\<lambda>r. be_id r = ?k) f (md_emails d)" "md_taken d' = md_taken d" "md_draws d' = md_draws d"
    "md_entries d' = md_entries d" "md_next_pk d' = md_next_pk d" by (simp_all add: out d2 edit_email_def)
  have one1: "one_copy d1" by (rule freeze_one_copy [OF inv, of _ cfg b1]) (simp add: d1)
  have "one_copy d'"
    by (rule one_copy_map [OF one1, where g = "set_aside_closed d1 b1"]) (auto simp: copies d1 set_aside_closed_def live_def)
  note frozen = frozen_copy [OF inv, of _ cfg b1, unfolded k1]
  have fz: "freeze_copy cfg b1 d c = c \<and> (cp_bulk c \<noteq> ?k \<or> cp_status c \<noteq> Batched)
      \<or> cp_bulk c = ?k \<and> cp_status c = Batched \<and> cp_id (freeze_copy cfg b1 d c) = cp_id c \<and> cp_bulk (freeze_copy cfg b1 d c) = cp_bulk c
        \<and> cp_round (freeze_copy cfg b1 d c) = cp_round c \<and> cp_message (freeze_copy cfg b1 d c) = cp_message c
        \<and> (cp_status (freeze_copy cfg b1 d c) = CopyPending \<or> cp_status (freeze_copy cfg b1 d c) = CopySkipped)"
    if "c \<in> set (md_copies d)" for c using frozen [OF that] by (auto split: if_splits)
  have "mail_inv d' \<and> (\<forall>j. j \<noteq> ?k \<longrightarrow> sending d' j = sending d j) \<and> (\<forall>m. accepted d' m = accepted d m)
    \<and> sending d' ?k = (be_status (f b) = SendingEmail)"
  proof (rule email_step [OF inv get copies rest(1)])
    fix c assume c: "c \<in> set (md_copies d)"
    show "cp_id (?g c) = cp_id c \<and> cp_bulk (?g c) = cp_bulk c \<and> cp_round (?g c) = cp_round c \<and> cp_message (?g c) = cp_message c"
      using fz [OF c] by (auto simp: set_aside_closed_def)
    show "cp_bulk c \<noteq> ?k \<Longrightarrow> ?g c = c" using fz [OF c] k1(1) by (auto simp: set_aside_closed_def)
    show "cp_bulk c = ?k \<Longrightarrow> arrived c \<Longrightarrow> ?g c = c" using fz [OF c] by (auto simp: set_aside_closed_def arrived_def)
    show "cp_bulk c = ?k \<Longrightarrow> arrived (?g c) \<Longrightarrow> arrived c"
      using fz [OF c] by (auto simp: set_aside_closed_def arrived_def split: if_splits)
    show "cp_bulk c = ?k \<Longrightarrow> stage_ok b c \<Longrightarrow> stage_ok (f b) (?g c)"
      using fz [OF c] k1(3,4) by (auto simp: set_aside_closed_def stage_ok_def f_def)
  next
    assume "sending d ?k"
    then show "settled d ?k" using get b(2) by (simp add: sending_def)
  qed (use rest k1 \<open>one_copy d'\<close> in \<open>simp_all add: f_def\<close>)
  then have inv': "mail_inv d'" and other: "\<And>j. j \<noteq> ?k \<Longrightarrow> sending d' j = sending d j" and here: "sending d' ?k"
    using k1(3) by (auto simp: f_def)
  have "\<not> sending d ?k" using get b(2) by (simp add: sending_def)
  then have "?k \<notin> be_id ` set (sr_unfinished s)" and "\<forall>x \<in> set (sr_unfinished s). sending d' (be_id x)"
    using ok other unfolding run_ok_def by (auto, metis)
  then show "mail_inv d' \<and> run_ok (s\<lparr>sr_point := Opened b', sr_counts := m\<rparr>) d'"
    using inv' ok here k1(2) unfolding run_ok_def by (auto simp: out(1) at)
qed

lemma next_email_step:
  assumes inv: "mail_inv d" and ok: "run_ok s d" and at: "sr_point s = NextEmail" and res: "next_email cfg s d = (s', d')"
  shows "mail_inv d' \<and> run_ok s' d'"
proof (cases "sr_unfinished s")
  case (Cons b rest)
  have "be_id b \<notin> be_id ` set rest" using ok at Cons by (simp add: run_ok_def)
  then have "be_id x \<noteq> be_id b" if "x \<in> set rest" for x using that by (metis image_eqI)
  then show ?thesis using Cons res inv ok at by (auto simp: next_email_def run_ok_def)
next
  case Nil
  note c = claim_step [OF inv ok at]
  obtain x d1 where x: "claim_one cfg (sr_moment s) d = (x, d1)" by fastforce
  show ?thesis
  proof (cases x)
    case NothingDue
    then show ?thesis using res c(1) [OF x [unfolded NothingDue]] x inv ok by (auto simp: next_email_def Nil run_ok_def)
  next
    case Returned
    then show ?thesis using res c(2) [OF x [unfolded Returned]] x by (auto simp: next_email_def Nil)
  next
    case (Claimed b n)
    then show ?thesis using res c(3) [OF x [unfolded Claimed]] x by (auto simp: next_email_def Nil)
  qed
qed

subsection \<open>Copies whose try the log shows\<close>

definition recorded :: "pk set \<Rightarrow> copy \<Rightarrow> copy \<Rightarrow> bool" where
  "recorded ids c c' \<longleftrightarrow> cp_id c' = cp_id c \<and> cp_bulk c' = cp_bulk c \<and> cp_message c' = cp_message c \<and> (live c \<longrightarrow> live c')
     \<and> (cp_status c' = CopyPending \<longrightarrow> cp_status c = CopyPending \<and> cp_id c \<notin> ids)"

definition recovers :: "pk set \<Rightarrow> mail_db \<Rightarrow> mail_db \<Rightarrow> bool" where
  \<comment> \<open>copies of an email being sent are recorded as sent, those of a set all\<close>
  "recovers ids d d' \<longleftrightarrow> mail_inv d' \<and> (\<forall>j. sending d' j = sending d j) \<and> (\<forall>m. accepted d' m = accepted d m)
     \<and> (\<exists>g. md_copies d' = map g (md_copies d) \<and> (\<forall>c \<in> set (md_copies d). recorded ids c (g c)))"

lemma recoversI:
  "mail_inv d' \<Longrightarrow> (\<And>j. sending d' j = sending d j) \<Longrightarrow> (\<And>m. accepted d' m = accepted d m) \<Longrightarrow> md_copies d' = map g (md_copies d)
    \<Longrightarrow> (\<And>c. c \<in> set (md_copies d) \<Longrightarrow> recorded ids c (g c)) \<Longrightarrow> recovers ids d d'"
  unfolding recovers_def by blast

lemma recovers_rows:
  assumes "recovers ids d d'"
  obtains g where "md_copies d' = map g (md_copies d)" "\<And>c. c \<in> set (md_copies d) \<Longrightarrow> recorded ids c (g c)"
  using assms unfolding recovers_def by blast

lemma recovers_refl: "mail_inv d \<Longrightarrow> recovers {} d d"
  by (rule recoversI [where g = "\<lambda>c. c"]) (simp_all add: recorded_def)

lemma recovers_same: "recovers A d d' \<Longrightarrow> mail_inv d' \<and> sending d' j = sending d j \<and> accepted d' m = accepted d m"
  by (simp add: recovers_def)

lemma recovers_trans:
  assumes "recovers A d d1" and "recovers B d1 d2"
  shows "recovers (A \<union> B) d d2"
proof -
  from assms(1) obtain g1 where g1: "md_copies d1 = map g1 (md_copies d)" "\<And>c. c \<in> set (md_copies d) \<Longrightarrow> recorded A c (g1 c)"
    by (rule recovers_rows) blast
  from assms(2) obtain g2 where g2: "md_copies d2 = map g2 (md_copies d1)" "\<And>c. c \<in> set (md_copies d1) \<Longrightarrow> recorded B c (g2 c)"
    by (rule recovers_rows) blast
  show ?thesis
  proof (rule recoversI [where g = "\<lambda>c. g2 (g1 c)"])
    show "md_copies d2 = map (\<lambda>c. g2 (g1 c)) (md_copies d)" using g1(1) g2(1) by (simp add: comp_def)
    show "recorded (A \<union> B) c (g2 (g1 c))" if c: "c \<in> set (md_copies d)" for c
    proof -
      have "recorded A c (g1 c)" "recorded B (g1 c) (g2 (g1 c))" using g1(2) [OF c] g2(2) [of "g1 c"] c g1(1) by simp_all
      then show ?thesis unfolding recorded_def by (metis UnE)
    qed
  qed (use recovers_same [OF assms(1)] recovers_same [OF assms(2)] in simp_all)
qed

lemma mark_bounced_effect:
  "\<exists>g k f. md_copies (snd (mark_bounced e d)) = map g (md_copies d)
    \<and> md_emails (snd (mark_bounced e d)) = rows_update (\<lambda>r. be_id r = k) f (md_emails d)
    \<and> (\<forall>c. cp_id (g c) = cp_id c \<and> cp_bulk (g c) = cp_bulk c \<and> cp_message (g c) = cp_message c
        \<and> (g c = c \<or> cp_status (g c) = CopyBounced \<and> (\<exists>r \<in> set (md_copies d). cp_id r = cp_id c \<and> cp_status r = CopySent)))
    \<and> (\<forall>b. be_id (f b) = be_id b \<and> be_status (f b) = be_status b) \<and> md_entries (snd (mark_bounced e d)) = md_entries d"
proof (cases "me_status e \<noteq> LogBounced \<or> me_message e = None
    \<or> find (\<lambda>r. cp_message r = me_message e \<and> cp_status r = CopySent) (md_copies d) = None")
  case True
  then have "snd (mark_bounced e d) = d" by (auto simp: mark_bounced_def)
  then show ?thesis by (intro exI [of _ "\<lambda>c. c"] exI [of _ 0]) (simp add: rows_update_def)
next
  case False
  then obtain r where r: "find (\<lambda>r. cp_message r = me_message e \<and> cp_status r = CopySent) (md_copies d) = Some r"
    and e: "me_status e = LogBounced" "me_message e \<noteq> None" by blast
  then have row: "r \<in> set (md_copies d)" "cp_status r = CopySent" by (auto simp: find_Some_iff)
  define u where "u = take reason_max_length (if me_bounce_detail e \<noteq> [] then me_bounce_detail e else bounced_reason)"
  let ?f = "\<lambda>b. b\<lparr>be_sent_count := max (be_sent_count b - 1) 0, be_bounced_count := be_bounced_count b + 1\<rparr>"
  let ?g = "\<lambda>c. if cp_id c = cp_id r then c\<lparr>cp_status := CopyBounced, cp_reason := u\<rparr> else c"
  have "snd (mark_bounced e d) = edit_email (cp_bulk r) ?f (edit_copy (cp_id r) (\<lambda>x. x\<lparr>cp_status := CopyBounced, cp_reason := u\<rparr>) d)"
    by (simp add: mark_bounced_def e r u_def Let_def)
  then show ?thesis
    using row by (intro exI [of _ ?g] exI [of _ "cp_bulk r"] exI [of _ ?f]) (auto simp: edit_email_def edit_copy_def rows_update_def)
qed

lemma recovers_mark_bounced:
  assumes inv: "mail_inv d"
  shows "recovers {} d (snd (mark_bounced e d))"
proof -
  let ?d = "snd (mark_bounced e d)"
  obtain g k f where eff: "md_copies ?d = map g (md_copies d)" "md_emails ?d = rows_update (\<lambda>r. be_id r = k) f (md_emails d)"
    "\<forall>c. cp_id (g c) = cp_id c \<and> cp_bulk (g c) = cp_bulk c \<and> cp_message (g c) = cp_message c
        \<and> (g c = c \<or> cp_status (g c) = CopyBounced \<and> (\<exists>r \<in> set (md_copies d). cp_id r = cp_id c \<and> cp_status r = CopySent))"
    "\<forall>b. be_id (f b) = be_id b \<and> be_status (f b) = be_status b" "md_entries ?d = md_entries d"
    using mark_bounced_effect [of e d] by blast
  have get: "get_email ?d j = (if j = k then map_option f (get_email d j) else get_email d j)" for j
    using get_email_edit [of f k d j] eff(2,4) by (simp add: get_email_def edit_email_def)
  show ?thesis
  proof (rule recoversI [OF _ _ _ eff(1)])
    show "mail_inv ?d" using harmless_mark_bounced [of d e] inv by (simp add: harmless_def)
    show "sending ?d j = sending d j" for j using eff(4) by (auto simp: sending_def get)
    show "accepted ?d m = accepted d m" for m by (simp add: accepted_def eff(5))
    show "recorded {} c (g c)" for c using spec [OF eff(3), of c] by (auto simp: recorded_def live_def)
  qed
qed

lemma record_row_step:
  assumes inv: "mail_inv d" and y: "y \<in> set (md_copies d)" "live y" "sending d (cp_bulk y)" "cp_id r = cp_id y"
    and t: "ts_status t = CopySent \<and> ts_message t = cp_message y \<and> went_out d y
      \<or> ts_status t = CopyFailed \<and> ts_message t = None \<and> \<not> went_out d y \<and> \<not> arrived y"
  shows "mail_inv (record_row r t d)" and "sending (record_row r t d) j = sending d j" and "accepted (record_row r t d) m = accepted d m"
    and "md_copies (record_row r t d) = map (\<lambda>c. if cp_id c = cp_id y then c\<lparr>cp_status := ts_status t, cp_reason := ts_reason t,
        cp_message := ts_message t, cp_tried_at := Some (mail_now d)\<rparr> else c) (md_copies d)"
proof -
  let ?h = "\<lambda>x. x\<lparr>cp_status := ts_status t, cp_reason := ts_reason t, cp_message := ts_message t, cp_tried_at := Some (mail_now d)\<rparr>"
  show copies: "md_copies (record_row r t d) = map (\<lambda>c. if cp_id c = cp_id y then ?h c else c) (md_copies d)"
    using y(4) by (simp add: record_row_def edit_copy_def rows_update_def)
  have emails: "md_emails (record_row r t d) = rows_update (\<lambda>r. be_id r = 0) (\<lambda>b. b) (md_emails d)"
    by (simp add: record_row_def edit_copy_def rows_update_def)
  note step = row_step [OF inv y(1-3), of ?h, OF _ _ _ _ _ copies emails]
  show "mail_inv (record_row r t d)" "sending (record_row r t d) j = sending d j" "accepted (record_row r t d) m = accepted d m"
    by (rule step; use t in \<open>auto simp: record_row_def edit_copy_def arrived_def went_out_def\<close>)+
qed

lemma record_count_harmless: "harmless d (record_count b t d)"
  unfolding record_count_def by (rule harmless_edit) (auto simp: edit_ok_def)

lemma record_count_same:
  "sending (record_count b t d) j = sending d j" "md_copies (record_count b t d) = md_copies d"
  "accepted (record_count b t d) m = accepted d m"
proof -
  define f :: "bulk_email \<Rightarrow> bulk_email" where "f = (\<lambda>x. if ts_status t = CopySent then x\<lparr>be_sent_count := be_sent_count x + 1\<rparr>
     else x\<lparr>be_failed_count := be_failed_count x + 1\<rparr>)"
  have f: "be_id (f x) = be_id x" "be_status (f x) = be_status x" for x by (simp_all add: f_def)
  have "get_email (record_count b t d) j = (if j = be_id b then map_option f (get_email d j) else get_email d j)"
    unfolding record_count_def f_def [symmetric] by (rule get_email_edit) (rule f(1))
  then show "sending (record_count b t d) j = sending d j" using f(2) by (auto simp: sending_def)
qed (simp_all add: record_count_def accepted_def edit_email_def)

lemma recovers_record:
  assumes inv: "mail_inv d" and y: "y \<in> set (md_copies d)" "live y" "sending d (cp_bulk y)" "cp_id r = cp_id y" "went_out d y"
    and t: "t = \<lparr>ts_status = CopySent, ts_reason = [], ts_message = cp_message y\<rparr>"
  shows "recovers {cp_id y} d (record_count b t (record_row r t d))"
proof -
  have tt: "ts_status t = CopySent \<and> ts_message t = cp_message y \<and> went_out d y
      \<or> ts_status t = CopyFailed \<and> ts_message t = None \<and> \<not> went_out d y \<and> \<not> arrived y" using t y(5) by simp
  note step = record_row_step [OF inv y(1-4) tt]
  let ?g = "\<lambda>c. if cp_id c = cp_id y then c\<lparr>cp_status := ts_status t, cp_reason := ts_reason t,
        cp_message := ts_message t, cp_tried_at := Some (mail_now d)\<rparr> else c"
  let ?d2 = "record_count b t (record_row r t d)"
  show ?thesis
  proof (rule recoversI [where g = ?g])
    show "mail_inv ?d2" using record_count_harmless [of "record_row r t d" b t] step(1) by (simp add: harmless_def)
    show "md_copies ?d2 = map ?g (md_copies d)" by (simp add: record_count_same step(4))
    show "recorded {cp_id y} c (?g c)" if "c \<in> set (md_copies d)" for c
      using copy_unique [OF mail_invD(1) [OF inv] y(1) that] t by (auto simp: recorded_def live_def)
  qed (simp_all add: record_count_same step(2,3))
qed

definition in_log :: "mail_db \<Rightarrow> pk \<Rightarrow> copy \<times> mail_entry \<Rightarrow> bool" where
  "in_log d k p \<longleftrightarrow> (\<exists>y \<in> set (md_copies d). cp_id y = cp_id (fst p) \<and> cp_bulk y = k \<and> cp_message y = me_message (snd p)
     \<and> live y \<and> went_out d y)"

lemma in_log_recovers:
  assumes "recovers A d d1" and "in_log d k p"
  shows "in_log d1 k p"
proof -
  obtain y where y: "y \<in> set (md_copies d)" "cp_id y = cp_id (fst p)" "cp_bulk y = k" "cp_message y = me_message (snd p)" "live y" "went_out d y"
    using assms(2) unfolding in_log_def by blast
  from assms(1) obtain g where g: "md_copies d1 = map g (md_copies d)" "\<And>c. c \<in> set (md_copies d) \<Longrightarrow> recorded A c (g c)"
    by (rule recovers_rows) blast
  have "g y \<in> set (md_copies d1)" using y(1) g(1) by simp
  moreover have same: "cp_id (g y) = cp_id y" "cp_bulk (g y) = cp_bulk y" "cp_message (g y) = cp_message y" "live (g y)"
    using g(2) [OF y(1)] y(5) by (auto simp: recorded_def)
  moreover have "went_out d1 (g y)"
    using y(6) same(3) recovers_same [OF assms(1)] unfolding went_out_def by metis
  ultimately show ?thesis using y unfolding in_log_def by metis
qed

lemma recover_rows_step:
  assumes "mail_inv d" and "sending d (be_id b)" and "\<And>p. p \<in> set L \<Longrightarrow> in_log d (be_id b) p"
  shows "recovers (cp_id ` fst ` set L) d (snd (recover_rows b L n d))"
  using assms
proof (induction b L n d rule: recover_rows.induct)
  case (1 b n d)
  then show ?case by (simp add: recovers_refl)
next
  case (2 b r e rest n d)
  obtain y where y: "y \<in> set (md_copies d)" "cp_id y = cp_id r" "cp_bulk y = be_id b" "cp_message y = me_message e" "live y" "went_out d y"
    using "2.prems"(3) [of "(r, e)"] by (auto simp: in_log_def)
  let ?t = "\<lparr>ts_status = CopySent, ts_reason = [], ts_message = me_message e\<rparr>"
  let ?d0 = "record_count b ?t (record_row r ?t d)"
  let ?d1 = "snd (mark_bounced e ?d0)"
  have r0: "recovers {cp_id y} d ?d0"
    by (rule recovers_record [OF "2.prems"(1) y(1,5)]) (use y "2.prems"(2) in simp_all)
  then have "mail_inv ?d0" by (simp add: recovers_def)
  then have r1: "recovers {cp_id y} d ?d1" using recovers_trans [OF r0 recovers_mark_bounced] by simp
  have "recovers (cp_id ` fst ` set rest) ?d1 (snd (recover_rows b rest (count_attempt b r ?t n) ?d1))"
  proof (rule "2.IH" [OF refl refl])
    show "mail_inv ?d1" "sending ?d1 (be_id b)" using r1 "2.prems"(2) by (simp_all add: recovers_def)
    show "in_log ?d1 (be_id b) p" if "p \<in> set rest" for p using in_log_recovers [OF r1 "2.prems"(3)] that by simp
  qed
  then have "recovers ({cp_id y} \<union> cp_id ` fst ` set rest) d (snd (recover_rows b rest (count_attempt b r ?t n) ?d1))"
    by (rule recovers_trans [OF r1])
  then show ?case using y(2) by (simp add: Let_def)
qed

lemma logged_copies_in_log:
  assumes "p \<in> set (logged_copies k d)" shows "in_log d k p"
proof -
  obtain r e m where p: "p = (r, e)" "r \<in> set (md_copies d)" "cp_bulk r = k" "cp_status r = CopyPending" "cp_message r = Some m"
    "e \<in> set (md_entries d)" "me_message e = Some m" "me_status e = LogSent \<or> me_status e = LogBounced"
    using assms by (auto simp: logged_copies_def)
  then have "live r" "went_out d r" unfolding live_def went_out_def accepted_def by blast+
  then show ?thesis using p unfolding in_log_def by auto
qed

lemma logged_copies_all:
  assumes "y \<in> set (md_copies d)" "cp_bulk y = k" "cp_status y = CopyPending" "went_out d y"
  shows "cp_id y \<in> cp_id ` fst ` set (logged_copies k d)"
proof -
  obtain m e where "cp_message y = Some m" "e \<in> set (md_entries d)" "me_message e = Some m" "me_status e = LogSent \<or> me_status e = LogBounced"
    using assms(4) by (auto simp: went_out_def accepted_def)
  then have "(y, e) \<in> set (logged_copies k d)" using assms(1-3) by (auto simp: logged_copies_def)
  then show ?thesis by (metis fst_conv imageI)
qed

subsection \<open>The steps on one email\<close>

lemma open_email_step:
  assumes inv: "mail_inv d" and ok: "run_ok s d" and at: "sr_point s = Opened b"
    and res: "open_email cfg b s d = (s', d')"
  shows "mail_inv d' \<and> run_ok s' d'"
proof -
  let ?k = "be_id b"
  let ?h = "\<lparr>he_email = b, he_type = get_type d (be_type b), he_sender = person d (be_sender b)\<rparr>"
  have sending: "sending d ?k" using ok by (simp add: run_ok_def at)
  let ?n = "(sr_counts s)\<lparr>sn_emails := sn_emails (sr_counts s) + 1\<rparr>"
  have d': "d' = snd (recover_rows b (logged_copies ?k d) ?n d)"
    using res by (simp add: open_email_def recover_logged_copies_def Let_def case_prod_unfold)
  have rec: "recovers (cp_id ` fst ` set (logged_copies ?k d)) d d'"
    unfolding d' by (rule recover_rows_step [OF inv sending logged_copies_in_log])
  note same = recovers_same [OF rec]
  from rec obtain g where g: "md_copies d' = map g (md_copies d)" "\<And>c. c \<in> set (md_copies d)
      \<Longrightarrow> recorded (cp_id ` fst ` set (logged_copies ?k d)) c (g c)" by (rule recovers_rows) blast
  have settled: "settled d' ?k" unfolding settled_def
  proof (intro ballI impI)
    fix y' assume y': "y' \<in> set (md_copies d')" "cp_bulk y' = ?k" "cp_status y' = CopyPending"
    then obtain y where y: "y \<in> set (md_copies d)" "y' = g y" using g(1) by auto
    have r: "cp_bulk y = ?k" "cp_message y' = cp_message y" "cp_status y = CopyPending" "cp_id y \<notin> cp_id ` fst ` set (logged_copies ?k d)"
      using g(2) [OF y(1)] y' y(2) unfolding recorded_def by auto
    then have "\<not> went_out d y" using logged_copies_all [OF y(1) r(1,3)] by blast
    then show "\<not> went_out d' y'" using r(2) same by (simp add: went_out_def)
  qed
  let ?rows = "surname_order cfg d' (filter (\<lambda>r. cp_bulk r = ?k \<and> cp_status r = CopyPending) (md_copies d'))"
  have "all_waiting d' ?h ?rows" unfolding all_waiting_def
  proof (intro conjI ballI)
    show "sending d' (be_id (he_email ?h))" using sending same by simp
    have "distinct (map cp_id (filter (\<lambda>r. cp_bulk r = ?k \<and> cp_status r = CopyPending) (md_copies d')))"
      using mail_invD(1) [of d'] same by (simp add: rows_ok_def distinct_map_filter)
    then show "distinct (map cp_id ?rows)" by (simp add: surname_order_def distinct_map)
    show "waiting d' (be_id (he_email ?h)) x" if "x \<in> set ?rows" for x
      using that settled by (auto simp: surname_order_def waiting_def settled_def)
  qed
  then have "point_ok d' (NextCopy ?h ?rows)" using settled by simp
  moreover have "\<forall>x \<in> set (sr_unfinished s). sending d' (be_id x)" using ok same by (simp add: run_ok_def)
  moreover have "sr_point s' = NextCopy ?h ?rows" "sr_unfinished s' = sr_unfinished s"
    using res d' by (auto simp: open_email_def recover_logged_copies_def Let_def case_prod_unfold)
  ultimately show ?thesis using ok same by (simp add: run_ok_def at)
qed

lemma run_ok_point:
  assumes "run_ok s d" and "point_ok d' p" and "point_bulk p = point_bulk (sr_point s) \<or> point_bulk p = []"
    and "\<And>j. sending d' j = sending d j" and "sr_point s' = p" "sr_unfinished s' = sr_unfinished s"
  shows "run_ok s' d'"
  using assms by (auto simp: run_ok_def)

lemma waiting_row:
  assumes "all_waiting d h (r # rows)"
  obtains y where "y \<in> set (md_copies d)" "cp_id y = cp_id r" "cp_status y = CopyPending" "cp_bulk y = be_id (he_email h)"
    "cp_email y = cp_email r" "\<not> went_out d y" "sending d (cp_bulk y)" "cp_id r \<notin> cp_id ` set rows"
  using assms by (auto simp: all_waiting_def waiting_def)

lemma all_waiting_tl: "all_waiting d h (r # rows) \<Longrightarrow> all_waiting d h rows"
  by (simp add: all_waiting_def)

lemma stop_or_spent:
  assumes inv: "mail_inv d" and ok: "run_ok s d" and at: "point_bulk (sr_point s) = [be_id (he_email h)]"
    and k: "settled d (be_id (he_email h))" "sending d (be_id (he_email h))"
  shows "mail_inv d \<and> run_ok (still_out s) d"
    and "mail_inv (apply_stop (he_email h) d) \<and> run_ok (s\<lparr>sr_point := NextEmail\<rparr>) (apply_stop (he_email h) d)"
  using apply_stop_step [OF inv ok at k(2,1)] inv ok by (auto simp: run_ok_def still_out_def)

lemma skip_unsendable_step:
  assumes inv: "mail_inv d" and w: "settled d (be_id (he_email h))" "all_waiting d h (r # rows)"
    and res: "skip_unsendable h r reason d = (h', d')"
  shows "mail_inv d'" and "sending d' j = sending d j" and "settled d' (be_id (he_email h))" and "all_waiting d' h' rows"
    and "be_id (he_email h') = be_id (he_email h)"
proof -
  let ?k = "be_id (he_email h)"
  obtain y where y: "y \<in> set (md_copies d)" "cp_id y = cp_id r" "cp_status y = CopyPending" "cp_bulk y = ?k"
    "cp_email y = cp_email r" "\<not> went_out d y" "sending d (cp_bulk y)" "cp_id r \<notin> cp_id ` set rows"
    using w(2) by (rule waiting_row)
  let ?h = "\<lambda>x. x\<lparr>cp_status := CopySkipped, cp_reason := reason\<rparr>"
  let ?f = "\<lambda>x. x\<lparr>be_skipped_count := be_skipped_count (he_email h) + 1\<rparr>"
  have d': "d' = edit_email ?k ?f (edit_copy (cp_id r) ?h d)" and h': "be_id (he_email h') = ?k"
    using res by (auto simp: skip_unsendable_def Let_def)
  have copies: "md_copies d' = map (\<lambda>c. if cp_id c = cp_id y then ?h c else c) (md_copies d)"
    by (simp add: d' edit_email_def edit_copy_def rows_update_def y(2))
  have emails: "md_emails d' = rows_update (\<lambda>r. be_id r = ?k) ?f (md_emails d)" by (simp add: d' edit_email_def edit_copy_def)
  have live: "live y" using y(3) by (simp add: live_def)
  note step = row_step [OF inv y(1) live y(7), of ?h, OF _ _ _ _ _ copies emails]
  have out: "(arrived (?h y) \<or> went_out d (?h y)) = (arrived y \<or> went_out d y)" using y(3,6) by (simp add: arrived_def went_out_def)
  show inv': "mail_inv d'"
    by (rule step(1)) (use y(6) out in \<open>auto simp: d' edit_email_def edit_copy_def went_out_def\<close>)
  show sending: "sending d' j = sending d j" for j
    by (rule step(2)) (use y(6) out in \<open>auto simp: d' edit_email_def edit_copy_def went_out_def\<close>)
  have went: "went_out d' c = went_out d c" for c by (simp add: went_out_def accepted_def d' edit_email_def edit_copy_def)
  show "settled d' ?k" using w(1) by (auto simp: settled_def copies went split: if_splits)
  have "all_waiting d' h rows"
  proof (rule all_waiting_step [OF all_waiting_tl [OF w(2)]])
    fix c assume c: "c \<in> set (md_copies d)" "cp_id c \<in> cp_id ` set rows"
    then have "cp_id c \<noteq> cp_id y" using y(2,8) by metis
    then show "c \<in> set (md_copies d') \<and> went_out d' c = went_out d c" using c(1) went by (force simp: copies)
  qed (rule sending)
  then show "all_waiting d' h' rows" using h' by (simp add: all_waiting_def)
  show "be_id (he_email h') = ?k" by (rule h')
qed

lemma before_copy_step:
  assumes inv: "mail_inv d" and ok: "run_ok s d" and at: "sr_point s = NextCopy h (r # rows)"
    and res: "before_copy spent h r rows s d = (s', d')"
  shows "mail_inv d' \<and> run_ok s' d'"
proof -
  have p: "settled d (be_id (he_email h))" "all_waiting d h (r # rows)" using ok by (simp_all add: run_ok_def at)
  then have "sending d (be_id (he_email h))" by (simp add: all_waiting_def)
  note st = stop_or_spent [OF inv ok _ p(1) this]
  have "run_ok (s\<lparr>sr_point := Paced h r rows\<rparr>) d"
    by (rule run_ok_point [OF ok, where p = "Paced h r rows"]) (use p in \<open>simp_all add: at\<close>)
  then show ?thesis using res st inv by (auto simp: before_copy_def at split: if_splits)
qed

lemma after_pause_step:
  assumes inv: "mail_inv d" and ok: "run_ok s d" and at: "sr_point s = Paced h r rows"
    and res: "after_pause spent h r rows s d = (s', d')"
  shows "mail_inv d' \<and> run_ok s' d'"
proof -
  have p: "settled d (be_id (he_email h))" "all_waiting d h (r # rows)" using ok by (simp_all add: run_ok_def at)
  then have "sending d (be_id (he_email h))" by (simp add: all_waiting_def)
  note st = stop_or_spent [OF inv ok _ p(1) this]
  have trying: "run_ok (s\<lparr>sr_point := Trying h r rows 0\<rparr>) d"
    by (rule run_ok_point [OF ok, where p = "Trying h r rows 0"]) (use p in \<open>simp_all add: at\<close>)
  obtain h' d1 where sk: "skip_unsendable h r (copy_refusal d h r) d = (h', d1)" by fastforce
  note skip = skip_unsendable_step [OF inv p sk]
  have "run_ok (s\<lparr>sr_point := NextCopy h' rows, sr_counts := n\<rparr>) d1" for n
    by (rule run_ok_point [OF ok, where p = "NextCopy h' rows"]) (use skip in \<open>simp_all add: at\<close>)
  then show ?thesis using res st inv trying skip(1) sk by (auto simp: after_pause_def Let_def at split: if_splits)
qed

lemma others_waiting:
  \<comment> \<open>a change of one row leaves the others waiting\<close>
  assumes "all_waiting d h rows" and "i \<notin> cp_id ` set rows"
    and "md_copies d' = map (\<lambda>c. if cp_id c = i then g c else c) (md_copies d)"
    and "\<And>c. c \<in> set (md_copies d) \<Longrightarrow> cp_id c \<noteq> i \<Longrightarrow> went_out d' c = went_out d c"
    and "sending d' (be_id (he_email h)) = sending d (be_id (he_email h))"
  shows "all_waiting d' h rows"
proof (rule all_waiting_step [OF assms(1) _ assms(5)])
  fix c assume c: "c \<in> set (md_copies d)" "cp_id c \<in> cp_id ` set rows"
  then have "cp_id c \<noteq> i" using assms(2) by metis
  then show "c \<in> set (md_copies d') \<and> went_out d' c = went_out d c" using c(1) assms(4) by (force simp: assms(3))
qed

lemma save_message_id_step:
  assumes inv: "mail_inv d" and ok: "run_ok s d" and at: "sr_point s = Trying h r rows n"
    and res: "save_message_id spent h r rows n s d = (s', d')"
  shows "mail_inv d' \<and> run_ok s' d'"
proof (cases "n > 0 \<and> spent")
  case True
  then show ?thesis using res inv ok by (auto simp: save_message_id_def run_ok_def still_out_def)
next
  case False
  let ?k = "be_id (he_email h)"
  have w: "settled d ?k" "all_waiting d h (r # rows)" using ok by (simp_all add: run_ok_def at)
  obtain y where y: "y \<in> set (md_copies d)" "cp_id y = cp_id r" "cp_status y = CopyPending" "cp_bulk y = ?k"
    "cp_email y = cp_email r" "\<not> went_out d y" "sending d (cp_bulk y)" "cp_id r \<notin> cp_id ` set rows"
    using w(2) by (rule waiting_row)
  let ?m = "md_draws d"
  let ?h = "\<lambda>x. x\<lparr>cp_message := Some ?m\<rparr>"
  have out: "s' = s\<lparr>sr_point := Handing h (?h r) rows n\<rparr>" "d' = edit_copy (cp_id r) ?h (d\<lparr>md_draws := ?m + 1\<rparr>)"
    using res False by (auto simp: save_message_id_def Let_def)
  have copies: "md_copies d' = map (\<lambda>c. if cp_id c = cp_id y then ?h c else c) (md_copies d)"
    by (simp add: out edit_copy_def rows_update_def y(2))
  have emails: "md_emails d' = rows_update (\<lambda>r. be_id r = 0) (\<lambda>b. b) (md_emails d)" by (simp add: out edit_copy_def rows_update_def)
  have fresh: "\<not> accepted d ?m" using mail_invD(4) [OF inv] by (auto simp: messages_ok_def)
  have live: "live y" using y(3) by (simp add: live_def)
  note step = row_step [OF inv y(1) live y(7), of ?h, OF _ _ _ _ _ copies emails]
  have outs: "(arrived (?h y) \<or> went_out d (?h y)) = (arrived y \<or> went_out d y)" "\<not> went_out d (?h y)"
    using y(3,6) fresh by (simp_all add: arrived_def went_out_def)
  have inv': "mail_inv d'"
    by (rule step(1)) (use y(3) outs in \<open>auto simp: out edit_copy_def\<close>)
  have sending: "sending d' j = sending d j" for j
    by (rule step(2)) (use y(3) outs in \<open>auto simp: out edit_copy_def\<close>)
  have acc: "accepted d' m = accepted d m" for m by (simp add: accepted_def out edit_copy_def)
  then have went: "went_out d' c = went_out d c" for c by (simp add: went_out_def)
  have "settled d' ?k" using w(1) outs(2) copy_unique [OF mail_invD(1) [OF inv] y(1)]
    by (fastforce simp: settled_def copies went split: if_splits)
  moreover have "all_waiting d' h rows"
    by (rule others_waiting [OF all_waiting_tl [OF w(2)] y(8) copies [unfolded y(2)]]) (simp_all add: went sending)
  moreover have "?h y \<in> set (md_copies d')" using y(1) by (force simp: copies)
  moreover have "\<not> went_out d' (?h y)" using outs(2) went by simp
  ultimately have "point_ok d' (Handing h (?h r) rows n)" using y by auto
  then have "run_ok s' d'" by (rule run_ok_point [OF ok]) (simp_all add: at out(1) sending)
  then show ?thesis using inv' by simp
qed

lemma failed_entry_harmless: "harmless d (log_entry r LogFailed d)"
proof (rule harmless_map [where g = "\<lambda>c. c" and f = "\<lambda>b. b" and k = 0])
  show "mail_inv d \<Longrightarrow> one_copy (log_entry r LogFailed d)"
    using mail_invD(3) one_copy_cong [of "log_entry r LogFailed d" d] by (simp add: log_entry_def)
qed (auto simp: log_entry_def rows_update_def edit_ok_def accepted_def)

lemma taken_step:
  assumes inv: "mail_inv d" and ok: "run_ok s d" and at: "sr_point s = Handing h r rows n"
    and t: "t = \<lparr>ts_status = CopySent, ts_reason = [], ts_message = cp_message r\<rparr>"
    and d': "d' = (log_entry r LogSent d)\<lparr>md_taken := md_taken d @ [(cp_id r, cp_email r)]\<rparr>"
  shows "mail_inv d' \<and> run_ok (s\<lparr>sr_point := Answered h r rows t\<rparr>) d'"
proof -
  let ?k = "be_id (he_email h)"
  have w: "settled d ?k" "all_waiting d h rows" "cp_id r \<notin> cp_id ` set rows" "cp_message r \<noteq> None"
    using ok by (simp_all add: run_ok_def at)
  then obtain m where m: "cp_message r = Some m" by blast
  obtain y where y: "y \<in> set (md_copies d)" "cp_id y = cp_id r" "cp_status y = CopyPending" "cp_bulk y = ?k"
     "cp_email y = cp_email r" "cp_message y = cp_message r" "\<not> went_out d y" using ok by (auto simp: run_ok_def at)
  have send: "sending d ?k" using w(2) by (simp add: all_waiting_def)
  have same: "md_copies d' = md_copies d" "md_emails d' = md_emails d" "md_draws d' = md_draws d" "md_next_pk d' = md_next_pk d"
    "md_taken d' = md_taken d @ [(cp_id r, cp_email r)]" by (simp_all add: d' log_entry_def)
  have sending: "sending d' j = sending d j" "get_email d' j = get_email d j" for j by (simp_all add: sending_def get_email_def same)
  have acc: "accepted d' x = (accepted d x \<or> x = m)" for x by (auto simp: accepted_def d' log_entry_def m)
  have went: "went_out d' c = (if cp_id c = cp_id r then True else went_out d c)" if "c \<in> set (md_copies d)" for c
  proof (cases "cp_id c = cp_id r")
    case True
    then have "c = y" using copy_unique [OF mail_invD(1) [OF inv] y(1) that] y(2) by simp
    then show ?thesis using True y(6) m by (auto simp: went_out_def acc)
  next
    case False
    then have "cp_message c \<noteq> Some m" using mail_invD(4) [OF inv] that y(1,2,6) m unfolding messages_ok_def by metis
    then show ?thesis using False by (auto simp: went_out_def acc)
  qed
  note t0 = taken_okD [OF mail_invD(5) [OF inv]]
  have new: "cp_id r \<notin> taken_ids d"
  proof
    assume "cp_id r \<in> taken_ids d"
    then obtain a where "(cp_id r, a) \<in> set (md_taken d)" by (auto simp: taken_ids_def)
    then obtain c where c: "c \<in> set (md_copies d)" "cp_id c = cp_id r" "arrived c \<or> went_out d c" using t0(2) by blast
    then have "c = y" using copy_unique [OF mail_invD(1) [OF inv] y(1) c(1)] y(2) by simp
    then show False using c(3) y(3,7) by (simp add: arrived_def)
  qed
  have "rows_ok d'" by (rule rows_ok_same_keys [OF mail_invD(1) [OF inv]]) (simp_all add: same)
  moreover have "stages_ok d'" using mail_invD(2) [OF inv] by (simp add: stages_ok_def same sending)
  moreover have "one_copy d'" using mail_invD(3) [OF inv] one_copy_cong [OF same(1)] by simp
  moreover have "messages_ok d'"
  proof -
    have "m < md_draws d" using mail_invD(4) [OF inv] y(1,6) m by (simp add: messages_ok_def)
    then show ?thesis using mail_invD(4) [OF inv] unfolding messages_ok_def same acc by blast
  qed
  moreover have "taken_ok d'"
  proof (rule taken_okI)
    show "distinct (map fst (md_taken d'))" using t0(1) new by (simp add: same taken_ids_def)
    show "\<exists>c \<in> set (md_copies d'). cp_id c = i \<and> cp_email c = a
         \<and> (arrived c \<or> cp_status c = CopyPending \<and> sending d' (cp_bulk c) \<and> went_out d' c)" if i: "(i, a) \<in> set (md_taken d')" for i a
    proof (cases "(i, a) \<in> set (md_taken d)")
      case True
      from t0(2) [OF this] obtain c where "c \<in> set (md_copies d)" "cp_id c = i" "cp_email c = a"
        "arrived c \<or> cp_status c = CopyPending \<and> sending d (cp_bulk c) \<and> went_out d c" by blast
      moreover from this have "went_out d c \<Longrightarrow> went_out d' c" using went by simp
      ultimately show ?thesis unfolding same sending by blast
    next
      case False
      then have "i = cp_id r" "a = cp_email r" using i by (simp_all add: same)
      then show ?thesis using y send went [OF y(1)] unfolding same sending by auto
    qed
    show "cp_id c \<in> taken_ids d'" if c: "c \<in> set (md_copies d')" "arrived c \<or> went_out d' c" for c
      using c t0(3) [of c] went [of c] by (auto simp: same taken_ids_def split: if_splits)
  qed
  ultimately have inv': "mail_inv d'" by (simp add: mail_inv_def)
  have "settled_but d' ?k (cp_id r)" using w(1) went by (simp add: settled_but_def settled_def same)
  moreover have "all_waiting d' h rows"
    by (rule all_waiting_step [OF w(2)]) (use w(3) went in \<open>auto simp: same sending\<close>)
  moreover have "y \<in> set (md_copies d')" "went_out d' y" using y(1,2) went [OF y(1)] by (simp_all add: same)
  ultimately have "point_ok d' (Answered h r rows t)" using w(3) y t by auto
  then have "run_ok (s\<lparr>sr_point := Answered h r rows t\<rparr>) d'" by (rule run_ok_point [OF ok]) (simp_all add: at sending)
  then show ?thesis using inv' by simp
qed

lemma hand_copy_over_step:
  assumes inv: "mail_inv d" and ok: "run_ok s d" and at: "sr_point s = Handing h r rows n"
    and res: "hand_copy_over answer h r rows n s d = (s', d')"
  shows "mail_inv d' \<and> run_ok s' d'"
proof (cases "answer = Taken")
  case True
  then show ?thesis using taken_step [OF inv ok at refl refl] res by (simp add: hand_copy_over_def)
next
  case False
  let ?d = "log_entry r LogFailed d"
  have inv': "mail_inv ?d" and ok': "run_ok s ?d" using failed_entry_harmless [of d r] inv ok by (simp_all add: harmless_def)
  let ?k = "be_id (he_email h)"
  have w: "settled ?d ?k" "all_waiting ?d h rows" "cp_id r \<notin> cp_id ` set rows"
    using ok' by (simp_all add: run_ok_def at)
  obtain y where y: "y \<in> set (md_copies ?d)" "cp_id y = cp_id r" "cp_status y = CopyPending" "cp_bulk y = ?k"
     "cp_email y = cp_email r" "\<not> went_out ?d y" using ok' by (auto simp: run_ok_def at)
  have but: "settled_but ?d ?k (cp_id r)" using w(1) by (simp add: settled_def settled_but_def)
  have failed: "run_ok (s\<lparr>sr_point := Answered h r rows \<lparr>ts_status = CopyFailed, ts_reason = x, ts_message = None\<rparr>\<rparr>) ?d" for x
    by (rule run_ok_point [OF ok', where p = "Answered h r rows \<lparr>ts_status = CopyFailed, ts_reason = x, ts_message = None\<rparr>"])
      (use w y but in \<open>auto simp: at\<close>)
  have again: "run_ok (s\<lparr>sr_point := Trying h r rows j\<rparr>) ?d" for j
    by (rule run_ok_point [OF ok', where p = "Trying h r rows j"])
      (use w y in \<open>auto simp: at all_waiting_def waiting_def\<close>)
  have "d' = ?d" using res False by (cases answer) (auto simp: hand_copy_over_def)
  moreover have "run_ok s' ?d"
    using res False failed again by (cases answer) (auto simp: hand_copy_over_def split: if_splits)
  ultimately show ?thesis using inv' by simp
qed

lemma answered_step:
  assumes inv: "mail_inv d" and ok: "run_ok s d" and at: "sr_point s = Answered h r rows t"
  shows "mail_inv (record_row r t d) \<and> run_ok (s\<lparr>sr_point := Counting h r rows t\<rparr>) (record_row r t d)"
proof -
  let ?k = "be_id (he_email h)"
  have w: "settled_but d ?k (cp_id r)" "all_waiting d h rows" "cp_id r \<notin> cp_id ` set rows"
    using ok by (simp_all add: run_ok_def at)
  obtain y where y: "y \<in> set (md_copies d)" "cp_id y = cp_id r" "cp_status y = CopyPending" "cp_bulk y = ?k" "cp_email y = cp_email r"
    "ts_status t = CopySent \<and> ts_message t = cp_message y \<and> went_out d y
         \<or> ts_status t = CopyFailed \<and> ts_message t = None \<and> \<not> went_out d y" using ok by (auto simp: run_ok_def at)
  have send: "sending d (cp_bulk y)" using w(2) y(4) by (simp add: all_waiting_def)
  have "live y" "\<not> arrived y" using y(3) by (simp_all add: live_def arrived_def)
  then have tt: "ts_status t = CopySent \<and> ts_message t = cp_message y \<and> went_out d y
         \<or> ts_status t = CopyFailed \<and> ts_message t = None \<and> \<not> went_out d y \<and> \<not> arrived y" using y(6) by blast
  note step = record_row_step [OF inv y(1) \<open>live y\<close> send y(2) [symmetric] tt]
  let ?d = "record_row r t d"
  have went: "went_out ?d c = went_out d c" for c by (simp add: went_out_def step(3))
  have settled: "settled ?d ?k" unfolding settled_def
  proof (intro ballI impI)
    fix c' assume c': "c' \<in> set (md_copies ?d)" "cp_bulk c' = ?k" "cp_status c' = CopyPending"
    then have "c' \<in> set (md_copies d)" "cp_id c' \<noteq> cp_id r" using y(2,6) by (auto simp: step(4) split: if_splits)
    then show "\<not> went_out ?d c'" using w(1) c'(2,3) by (simp add: settled_but_def went)
  qed
  moreover have "all_waiting ?d h rows"
    by (rule others_waiting [OF w(2,3) step(4) [unfolded y(2)]]) (simp_all add: went step(2))
  ultimately have "point_ok ?d (Counting h r rows t)" by simp
  then have "run_ok (s\<lparr>sr_point := Counting h r rows t\<rparr>) ?d" by (rule run_ok_point [OF ok]) (simp_all add: at step(2))
  then show ?thesis using step(1) by simp
qed

lemma after_answer_step:
  assumes inv: "mail_inv d" and ok: "run_ok s d" and at: "sr_point s = Counting h r rows t"
    and res: "after_answer h r rows t s d = (s', d')"
  shows "mail_inv d' \<and> run_ok s' d'"
proof -
  let ?d = "record_count (he_email h) t d"
  have inv': "mail_inv ?d" and ok': "run_ok s ?d" using record_count_harmless [of d "he_email h" t] inv ok by (simp_all add: harmless_def)
  have "run_ok (s\<lparr>sr_point := p, sr_counts := n\<rparr>) ?d" if "p = NextEmail \<or> p = NextCopy h rows" for p n
    by (rule run_ok_point [OF ok', where p = p]) (use that ok' in \<open>auto simp: at run_ok_def\<close>)
  then show ?thesis using res inv' by (auto simp: after_answer_def)
qed

theorem sender_step_inv:
  assumes "mail_inv d" and "run_ok s d" and "sender_step cfg spent answer s d = (s', d')"
  shows "mail_inv d' \<and> run_ok s' d'"
proof (cases "sr_point s")
  case NextEmail
  then show ?thesis using next_email_step [OF assms(1,2)] assms(3) by (simp add: sender_step_def)
next
  case (Opened b)
  then show ?thesis using open_email_step [OF assms(1,2)] assms(3) by (simp add: sender_step_def)
next
  case (NextCopy h rows)
  show ?thesis
  proof (cases rows)
    case Nil
    have "sending d (be_id (he_email h))" "settled d (be_id (he_email h))"
      using assms(2) by (simp_all add: run_ok_def NextCopy all_waiting_def)
    from finish_email_step [OF assms(1,2) _ this] show ?thesis using assms(3) by (auto simp: sender_step_def NextCopy Nil)
  next
    case (Cons r rest)
    then show ?thesis using before_copy_step [OF assms(1,2)] assms(3) NextCopy by (simp add: sender_step_def)
  qed
next
  case (Paced h r rows)
  then show ?thesis using after_pause_step [OF assms(1,2)] assms(3) by (simp add: sender_step_def)
next
  case (Trying h r rows n)
  then show ?thesis using save_message_id_step [OF assms(1,2)] assms(3) by (simp add: sender_step_def)
next
  case (Handing h r rows n)
  then show ?thesis using hand_copy_over_step [OF assms(1,2)] assms(3) by (simp add: sender_step_def)
next
  case (Answered h r rows t)
  then show ?thesis using answered_step [OF assms(1,2)] assms(3) by (auto simp: sender_step_def)
next
  case (Counting h r rows t)
  then show ?thesis using after_answer_step [OF assms(1,2)] assms(3) by (simp add: sender_step_def)
next
  case Finished
  then show ?thesis using assms by (simp add: sender_step_def)
qed

lemma start_run_ok:
  assumes "mail_inv d" shows "run_ok (start_run now d) d"
proof -
  have "distinct (map be_id (filter (\<lambda>b. be_status b = SendingEmail) (md_emails d)))"
    using mail_invD(1) [OF assms] by (simp add: rows_ok_def distinct_map_filter)
  moreover have "sending d (be_id b)" if "b \<in> set (md_emails d)" "be_status b = SendingEmail" for b
    using get_email_row [OF mail_invD(1) [OF assms] that(1)] that(2) by (simp add: sending_def)
  ultimately show ?thesis by (auto simp: run_ok_def start_run_def distinct_map)
qed

end
