(* ===== verification/MailWorld.thy ===== *)
theory MailWorld
  imports SenderSafety
begin

text \<open>
  Bulk email as a whole: whatever people ask for while a run works or has died half-way.

  A world is the tables and the run that holds the lock, if any.  Its steps are the requests, the
  changes of people, a run's start, its steps and its end, which may come anywhere.  The mail server's
  taking a copy and the row of the email log that says so are one step, so a run does not die
  between the two.

  Proved: no address is sent a second copy of one round of an email, and a copy of an email that is not
  sending reads as sent or bounced exactly when the mail server took it.
\<close>

subsection \<open>Requests\<close>

datatype mail_request =
    OpenDraft account
  | EditDraft pk draft_edit account
  | DeleteDraft pk
  | AddPeople pk "account list" account "(string \<times> string) list" string
  | AddByFilters "(string \<times> string) list \<Rightarrow> account list" pk "(string \<times> string) list" account
  | RemovePerson pk pk account
  | ClearBatch pk account
  | QueueEmail pk "int option" "moment option" account
  | CancelEmail pk account
  | StopEmail pk account
  | ResumeEmail pk account
  | RetryFailed pk account
  | HideEmail pk bool account
  | AnswerCallout pk account answer_kind string
  | CloseCallout pk account
  | RemindCallout pk account
  | BounceReport nat string
  | DeleteAccount pk
  | ChangePeople account_db "(pk \<times> pk option) list" "email_type list" "opt_out list"

fun perform :: "mail_config \<Rightarrow> mail_request \<Rightarrow> mail_db \<Rightarrow> mail_db" where
  "perform cfg (OpenDraft u) d = snd (open_draft cfg u d)"
| "perform cfg (EditDraft k e u) d = snd (update_draft cfg k e u d)"
| "perform cfg (DeleteDraft k) d = snd (delete_draft k d)"
| "perform cfg (AddPeople k chosen u fs label) d = snd (add_accounts k chosen u fs label d)"
| "perform cfg (AddByFilters selected k fs u) d = snd (add_filters selected k fs u d)"
| "perform cfg (RemovePerson k r u) d = snd (remove_copy k r u d)"
| "perform cfg (ClearBatch k u) d = snd (clear_batch k u d)"
| "perform cfg (QueueEmail k typed start_at u) d = snd (queue_email cfg k typed start_at u d)"
| "perform cfg (CancelEmail k u) d = snd (cancel_email k u d)"
| "perform cfg (StopEmail k u) d = snd (stop_email k u d)"
| "perform cfg (ResumeEmail k u) d = snd (resume_email cfg k u d)"
| "perform cfg (RetryFailed k u) d = snd (retry_failed cfg k u d)"
| "perform cfg (HideEmail k hidden u) d = snd (set_hidden k hidden u d)"
| "perform cfg (AnswerCallout c u a note) d = snd (save_answer c u a note d)"
| "perform cfg (CloseCallout k u) d = snd (close_callout k u d)"
| "perform cfg (RemindCallout k u) d = snd (remind_callout cfg k u d)"
| "perform cfg (BounceReport m detail) d = bounce_entry m detail d"
| "perform cfg (DeleteAccount k) d = forget_account k d"
| "perform cfg (ChangePeople p ps ts os) d = d\<lparr>md_people := p, md_profiles := ps, md_types := ts, md_opt_outs := os\<rparr>"

lemma harmless_perform: "harmless d (perform cfg r d)"
  by (cases r) (simp_all add: harmless_intros)

subsection \<open>Worlds\<close>

type_synonym mail_world = "mail_db \<times> sender_run option"

definition unsent :: "mail_db \<Rightarrow> bool" where
  \<comment> \<open>tables in which no email has started\<close>
  "unsent d \<longleftrightarrow> rows_ok d \<and> md_taken d = [] \<and> md_entries d = []
     \<and> list_all (\<lambda>b. (be_status b = DraftEmail \<or> be_status b = QueuedEmail) \<and> be_started_at b = None) (md_emails d)
     \<and> list_all (\<lambda>c. cp_status c = Batched \<and> cp_round c = 0 \<and> cp_message c = None \<and> get_email d (cp_bulk c) \<noteq> None) (md_copies d)"

inductive mail_step :: "mail_world \<Rightarrow> mail_world \<Rightarrow> bool" where
  asked: "mail_step (d, run) (perform cfg r d, run)"
| begun: "mail_step (d, None) (d, Some (start_run (mail_now d) d))"
| worked: "sender_step cfg spent answer s d = (s', d') \<Longrightarrow> mail_step (d, Some s) (d', Some s')"
| ended: "mail_step (d, Some s) (d, None)"

inductive mail_reach :: "mail_world \<Rightarrow> bool" where
  fresh: "unsent d \<Longrightarrow> mail_reach (d, None)"
| step: "mail_reach w \<Longrightarrow> mail_step w w' \<Longrightarrow> mail_reach w'"

inductive_cases mail_stepE: "mail_step (d, run) w"

definition world_ok :: "mail_world \<Rightarrow> bool" where
  "world_ok w \<longleftrightarrow> mail_inv (fst w) \<and> (case snd w of None \<Rightarrow> True | Some s \<Rightarrow> run_ok s (fst w))"

lemma unsent_inv:
  assumes "unsent d" shows "mail_inv d"
proof -
  note u = assms [unfolded unsent_def list_all_iff]
  have stages: "stages_ok d" unfolding stages_ok_def
  proof (intro conjI ballI impI)
    fix c assume c: "c \<in> set (md_copies d)"
    then obtain b where b: "get_email d (cp_bulk c) = Some b" using u by fastforce
    moreover have "be_started_at b = None" using u get_email_SomeD [OF b] by blast
    ultimately show "\<exists>b. get_email d (cp_bulk c) = Some b \<and> stage_ok b c" using u c by (simp add: stage_ok_def)
  qed (use u in auto)
  have "\<not> arrived c" "\<not> went_out d c" "\<not> live c" "cp_message c = None" if "c \<in> set (md_copies d)" for c
    using u that by (auto simp: arrived_def went_out_def live_def)
  moreover have "\<not> accepted d m" for m using u by (simp add: accepted_def)
  ultimately show ?thesis
    using u stages unfolding mail_inv_def one_copy_def messages_ok_def taken_ok_def by simp
qed

lemma world_step_ok:
  assumes "world_ok w" and "mail_step w w'"
  shows "world_ok w'"
  using assms(2,1)
proof cases
  case (asked d run cfg r)
  then have "mail_inv d" using assms(1) by (simp add: world_ok_def)
  then have keep: "mail_inv (perform cfg r d)" "\<And>s. run_ok s d \<Longrightarrow> run_ok s (perform cfg r d)"
    using harmless_perform [of d cfg r] unfolding harmless_def by blast+
  show ?thesis using asked assms(1) keep by (cases run) (simp_all add: world_ok_def)
next
  case (begun d)
  then show ?thesis using assms(1) start_run_ok by (simp add: world_ok_def)
next
  case (worked cfg spent answer s d s' d')
  then have "mail_inv d" "run_ok s d" using assms(1) by (simp_all add: world_ok_def)
  then show ?thesis using worked sender_step_inv [of d s] by (simp add: world_ok_def)
next
  case (ended d s)
  then show ?thesis using assms(1) by (simp add: world_ok_def)
qed

lemma world_reach_ok: "mail_reach w \<Longrightarrow> world_ok w"
proof (induction rule: mail_reach.induct)
  case (fresh d)
  then show ?case by (simp add: world_ok_def unsent_inv)
qed (rule world_step_ok)

lemma reach_inv: "mail_reach (d, run) \<Longrightarrow> mail_inv d"
  using world_reach_ok [of "(d, run)"] by (simp add: world_ok_def)

subsection \<open>A run on one email\<close>

definition sample_mail_config :: mail_config where
  "sample_mail_config = \<lparr>text_order = (\<lambda>s. []), valid_address = (\<lambda>s. s \<noteq> []), slug_of = (\<lambda>s. s), plain_text = (\<lambda>s. s),
     message_problem = (\<lambda>s b. None), text_errors = (\<lambda>b. False), confirm_above = 25, undo_seconds = 10, reply_to_setting = [],
     from_address = ''x''\<rparr>"

definition sample_email :: bulk_email where
  "sample_email = \<lparr>be_id = 5, be_subject = ''s'', be_body = ''b'', be_status = QueuedEmail, be_sender = Some 1, be_type = Some 4,
     be_dart = None, be_reply_to = [], be_start_at = Some 900, be_scheduled = False, be_not_sent_reason = [],
     be_confirm_count = None, be_started_at = None, be_sent_at = None, be_stopped_at = None, be_stopped_by = None,
     be_stop_requested = False, be_sent_count = 0, be_failed_count = 0, be_skipped_count = 0, be_bounced_count = 0,
     be_hidden = False, be_is_callout = False\<rparr>"

definition sample_copy :: copy where
  "sample_copy = \<lparr>cp_id = 6, cp_bulk = 5, cp_user = Some 3, cp_name = [], cp_email = [], cp_added_by = None, cp_round = 0,
     cp_status = Batched, cp_reason = [], cp_message = None, cp_tried_at = None\<rparr>"

definition sample_mails :: mail_db where
  \<comment> \<open>an email of the system administrator's, queued to one member\<close>
  "sample_mails = \<lparr>md_people = sample_accounts, md_profiles = [], md_types = [\<lparr>et_id = 4, et_name = ''N'', et_slug = ''n'',
       et_description = [], et_allow_opt_out = False, et_sender_roles = [], et_position = 1\<rparr>],
     md_opt_outs = [], md_emails = [sample_email], md_adds = [], md_copies = [sample_copy], md_retries = [], md_callouts = [],
     md_answers = [], md_entries = [], md_next_pk = 7, md_draws = 0, md_taken = [], md_raised = []\<rparr>"

definition sample_end :: "sender_run \<times> mail_db" where
  "sample_end = run_steps 9 sample_mail_config (\<lambda>_. False) (\<lambda>_. Taken) (start_run 1000 sample_mails) sample_mails"

lemma sample_unsent: "unsent sample_mails"
  by code_simp

lemma reach_steps:
  assumes "mail_reach (d, Some s)"
  shows "mail_reach (snd (run_steps n cfg spent answers s d), Some (fst (run_steps n cfg spent answers s d)))"
proof (induction n)
  case (Suc n)
  obtain s1 d1 where s1: "run_steps n cfg spent answers s d = (s1, d1)" by fastforce
  obtain s2 d2 where s2: "sender_step cfg (spent n) (answers n) s1 d1 = (s2, d2)" by fastforce
  have "mail_step (d1, Some s1) (d2, Some s2)" by (rule worked) (rule s2)
  with Suc s1 have "mail_reach (d2, Some s2)" by (auto intro: mail_reach.step)
  then show ?case using s1 s2 by simp
qed (simp add: assms)

lemma sample_reached: "mail_reach (snd sample_end, Some (fst sample_end))"
proof -
  have now: "mail_now sample_mails = 1000" by code_simp
  have "mail_reach (sample_mails, None)" by (rule mail_reach.fresh [OF sample_unsent])
  then have "mail_reach (sample_mails, Some (start_run (mail_now sample_mails) sample_mails))" by (rule mail_reach.step [OF _ begun])
  then show ?thesis unfolding sample_end_def now [symmetric] by (rule reach_steps)
qed

lemma sample_sent: "md_taken (snd sample_end) = [(6, ''ann@x.org'')]"
  "map (\<lambda>c. (cp_id c, cp_bulk c, cp_status c, cp_email c)) (md_copies (snd sample_end)) = [(6, 5, CopySent, ''ann@x.org'')]"
  "map_option be_status (get_email (snd sample_end) 5) = Some SentEmail"
  by code_simp+

subsection \<open>What holds of every world\<close>

lemma taken_copy:
  assumes inv: "mail_inv d" and "(k, y) \<in> set (md_taken d)" and get: "get_copy d k = Some x"
  shows "x \<in> set (md_copies d) \<and> cp_id x = k \<and> cp_email x = y \<and> live x"
proof -
  from taken_okD(2) [OF mail_invD(5) [OF inv] assms(2)] obtain z where z: "z \<in> set (md_copies d)" "cp_id z = k" "cp_email z = y"
    "arrived z \<or> cp_status z = CopyPending" by blast
  have x: "x \<in> set (md_copies d)" "cp_id x = k" using get_copy_SomeD [OF get] by simp_all
  have "z = x" by (rule copy_unique [OF mail_invD(1) [OF inv] x(1) z(1)]) (simp add: x(2) z(2))
  then show ?thesis using z by (auto simp: live_def arrived_def)
qed



text \<open>C8:
  Sent means taken: in every world that can be reached, a copy of an email that is not sending reads as
  sent or bounced exactly when the mail server took it, and what the server took went to the address on
  the copy's row.\<close>

theorem sent_means_taken:
  assumes "mail_reach (d, run)" and "c \<in> set (md_copies d)" and "get_email d (cp_bulk c) = Some b" and "be_status b \<noteq> SendingEmail"
  shows "(cp_status c = CopySent \<or> cp_status c = CopyBounced) = ((cp_id c, cp_email c) \<in> set (md_taken d))"
proof -
  have inv: "mail_inv d" by (rule reach_inv [OF assms(1)])
  have not_sending: "\<not> sending d (cp_bulk c)" using assms(3,4) by (simp add: sending_def)
  have get: "get_copy d (cp_id c) = Some c" by (rule copy_row [OF mail_invD(1) [OF inv] assms(2)])
  show ?thesis
  proof
    assume "cp_status c = CopySent \<or> cp_status c = CopyBounced"
    then have "cp_id c \<in> taken_ids d" using taken_okD(3) [OF mail_invD(5) [OF inv] assms(2)] by (simp add: arrived_def)
    then obtain a where a: "(cp_id c, a) \<in> set (md_taken d)" by (auto simp: taken_ids_def)
    then show "(cp_id c, cp_email c) \<in> set (md_taken d)" using taken_copy [OF inv a get] by simp
  next
    assume "(cp_id c, cp_email c) \<in> set (md_taken d)"
    from taken_okD(2) [OF mail_invD(5) [OF inv] this] obtain x where x: "x \<in> set (md_copies d)" "cp_id x = cp_id c"
      "arrived x \<or> sending d (cp_bulk x)" by blast
    have "x = c" by (rule copy_unique [OF mail_invD(1) [OF inv] assms(2) x(1,2)])
    then show "cp_status c = CopySent \<or> cp_status c = CopyBounced" using x(3) not_sending by (simp add: arrived_def)
  qed
qed

theorem sent_means_taken_witness:
  "\<exists>c \<in> set (md_copies (snd sample_end)). cp_status c = CopySent \<and> (cp_id c, cp_email c) \<in> set (md_taken (snd sample_end))"
proof -
  obtain c where c: "c \<in> set (md_copies (snd sample_end))" "cp_id c = 6" "cp_bulk c = 5" "cp_status c = CopySent"
    using sample_sent(2) by (cases "md_copies (snd sample_end)") auto
  obtain b where b: "get_email (snd sample_end) (cp_bulk c) = Some b" "be_status b \<noteq> SendingEmail"
    using sample_sent(3) c(3) by auto
  show ?thesis using sent_means_taken [OF sample_reached c(1) b] c by blast
qed

end
