(* ===== verification/MailRules.thy ===== *)
theory MailRules
  imports MailWorld
begin

text \<open>
  What the requests of bulk email promise one by one: an email that has started is never edited, an
  email is queued only past every check (\<open>drafts.py\<close>), a failed copy goes again only to a person who may
  still be sent it (\<open>delivery.py\<close>), and a round of reminders goes to people who were reached and have not
  answered (\<open>callouts.py\<close>).
\<close>

subsection \<open>Emails that have started\<close>

text \<open>C30:
  Once an email has started sending, its text, its recipients and its place in the queue are closed to
  everybody: a change, a deletion, people added or removed, a second Send and a Cancel are all refused,
  and nothing of the tables changes but the audit log.\<close>

theorem started_email_closed:
  assumes "get_email d k = Some b" and "be_started_at b \<noteq> None"
  shows "update_draft cfg k e who d = (Inl (Domain not_editable_message), mail_rollback d d)
    \<and> delete_draft k d = (Inl (Domain not_editable_message), d)
    \<and> add_accounts k chosen who fs label d = (Inl (Domain not_editable_message), mail_rollback d d)
    \<and> remove_copy k r who d = (Inl (Domain not_editable_message), mail_rollback d d)
    \<and> clear_batch k who d = (Inl (Domain not_editable_message), mail_rollback d d)
    \<and> queue_email cfg k typed start_at who d = (Inl (Domain not_editable_message), mail_rollback d d)
    \<and> cancel_email k who d = (Inl (Domain started_message), d) \<and> mail_rollback d d = d"
proof -
  have l: "locked_for_edit d k = Inl (Domain not_editable_message)" using assms by (simp add: locked_for_edit_def can_edit_def)
  have "mail_rollback d d = d" by (simp add: mail_rollback_def)
  then show ?thesis
    using assms by (simp add: update_draft_def update_draft_body_def delete_draft_def add_accounts_def add_body_def remove_copy_def
        clear_batch_def queue_email_def queue_body_def cancel_email_def mail_atomic_def l)
qed

theorem started_email_closed_witness:
  "delete_draft 5 (snd sample_end) = (Inl (Domain not_editable_message), snd sample_end)"
proof -
  have "map_option be_started_at (get_email (snd sample_end) 5) = Some (Some 1000)" by code_simp
  then obtain b where "get_email (snd sample_end) 5 = Some b" "be_started_at b \<noteq> None" by auto
  from started_email_closed [OF this] show ?thesis by blast
qed

subsection \<open>Send\<close>

definition sample_draft :: mail_db where
  "sample_draft = sample_mails\<lparr>md_emails := [sample_email\<lparr>be_status := DraftEmail\<rparr>]\<rparr>"

definition sample_failed :: mail_db where
  \<comment> \<open>the mail server refused the copy for good\<close>
  "sample_failed = snd (run_steps 9 sample_mail_config (\<lambda>_. False) (\<lambda>_. RefusedWith (Some 550)) (start_run 1000 sample_mails) sample_mails)"

definition sample_callout :: mail_db where
  \<comment> \<open>the email was a callout that takes answers until noon\<close>
  "sample_callout = (snd sample_end)\<lparr>md_emails := map (\<lambda>b. b\<lparr>be_is_callout := True\<rparr>) (md_emails (snd sample_end)),
     md_callouts := [\<lparr>co_id = 8, co_bulk = 5, co_closes_at = 43200, co_closed_at = None, co_closed_by = None, co_reminded_at = None\<rparr>],
     md_next_pk := 9\<rparr>"

text \<open>C29:
  An email is queued only when it can still be edited, its subject and message are written, somebody on
  its recipient list can receive it, its type is one the sender may send, the checks of its text found no
  error, a scheduled time lies in the next year, and, for more people than the limit, exactly the number
  of people who will receive it was typed.\<close>

theorem queued_only_checked:
  assumes "queue_email cfg k typed start_at who d = (Inr b, d')"
  shows "\<exists>locked receiving. get_email d k = Some locked \<and> be_started_at locked = None
    \<and> receiving = fst (snd (batch_counts (batch_rows cfg d locked))) \<and> receiving > 0
    \<and> (int receiving > confirm_above cfg \<longrightarrow> typed = Some (int receiving))
    \<and> strip (be_subject locked) \<noteq> [] \<and> strip (plain_text cfg (be_body locked)) \<noteq> [] \<and> \<not> text_errors cfg locked
    \<and> (\<exists>t. get_type d (be_type locked) = Some t \<and> t \<in> set (sendable_types cfg d (Some who)))
    \<and> (\<forall>t. start_at = Some t \<longrightarrow> mail_now d < t \<and> t \<le> mail_now d + max_schedule_ahead)
    \<and> be_status b = QueuedEmail \<and> be_id b = k"
proof -
  have run: "queue_body cfg k typed start_at who d = (Inr b, d')"
    using assms by (auto simp: queue_email_def mail_atomic_def split: prod.splits sum.splits)
  then obtain locked where l: "locked_for_edit d k = Inr locked" by (auto simp: queue_body_def split: sum.splits)
  let ?n = "fst (snd (batch_counts (batch_rows cfg d locked)))"
  have none: "queue_refusal cfg d locked ?n typed start_at who = None"
    using run by (auto simp: queue_body_def l Let_def split: option.splits)
  have b: "be_status b = QueuedEmail" "be_id b = be_id locked" using run none by (auto simp: queue_body_def l Let_def)
  have g: "get_email d k = Some locked" "be_started_at locked = None" using l by (auto simp: locked_for_edit_Inr can_edit_def)
  have c: "check_content cfg locked = None" "check_type cfg d locked who = None" "\<not> text_errors cfg locked" "?n > 0"
    "int ?n > confirm_above cfg \<Longrightarrow> check_confirm_count typed ?n = None"
    "start_at \<noteq> None \<Longrightarrow> check_schedule (the start_at) (mail_now d) = None"
    using none by (auto simp: queue_refusal_def Let_def split: if_splits)
  have "strip (be_subject locked) \<noteq> [] \<and> strip (plain_text cfg (be_body locked)) \<noteq> []"
    using c(1) by (auto simp: check_content_def split: if_splits)
  moreover have "\<exists>t. get_type d (be_type locked) = Some t \<and> t \<in> set (sendable_types cfg d (Some who))"
    using c(2) by (auto simp: check_type_def split: option.splits if_splits)
  moreover have "int ?n > confirm_above cfg \<Longrightarrow> typed = Some (int ?n)"
    using c(5) by (auto simp: check_confirm_count_def split: option.splits if_splits)
  moreover have "start_at = Some t \<Longrightarrow> mail_now d < t \<and> t \<le> mail_now d + max_schedule_ahead" for t
    using c(6) by (auto simp: check_schedule_def split: if_splits)
  ultimately show ?thesis using b c(3,4) g get_email_SomeD [OF g(1)] by blast
qed

theorem queued_only_checked_witness:
  "\<exists>b d'. queue_email sample_mail_config 5 (Some 1) None (sample_account 1 ''admin@x.org'') sample_draft = (Inr b, d') \<and> be_status b = QueuedEmail"
proof -
  have "case fst (queue_email sample_mail_config 5 (Some 1) None (sample_account 1 ''admin@x.org'') sample_draft) of Inl e \<Rightarrow> False | Inr b \<Rightarrow> True"
    by code_simp
  then obtain b d' where q: "queue_email sample_mail_config 5 (Some 1) None (sample_account 1 ''admin@x.org'') sample_draft = (Inr b, d')"
    by (cases "queue_email sample_mail_config 5 (Some 1) None (sample_account 1 ''admin@x.org'') sample_draft") (auto split: sum.splits)
  then show ?thesis using queued_only_checked [OF q] by blast
qed

subsection \<open>Sending again\<close>

lemma recheck_allowed:
  assumes "s \<in> set (recheck_loop cfg d oo lim went ans seen q rows)" and "cp_status s = CopyPending"
  shows "\<exists>r \<in> set rows. \<exists>a. cp_id s = cp_id r \<and> cp_round s = cp_round r \<and> person d (cp_user r) = Some a \<and> cp_email s = u_email a
    \<and> u_is_active a \<and> a_email_bounced_at a = None \<and> \<not> went_later went (u_id a) (cp_round r)
    \<and> \<not> (cp_round r > 0 \<and> u_id a \<in> set ans) \<and> (\<forall>l. lim = Some l \<longrightarrow> allows d l (u_id a))
    \<and> (\<forall>os. oo = Some os \<longrightarrow> u_id a \<notin> set (to_user_ids os))"
  using assms(1)
proof (induction cfg d oo lim went ans seen q rows rule: recheck_loop.induct)
  case (2 cfg d oo lim went ans seen q r rows)
  let ?in_round = "map snd (filter (\<lambda>p. fst p = cp_round r) seen)"
  let ?reason = "recheck_reason cfg d oo lim went ans ?in_round q r"
  show ?case
  proof (cases "?reason = []")
    case True
    then obtain a where a: "person d (cp_user r) = Some a" "\<not> went_later went (u_id a) (cp_round r)"
      "\<not> (cp_round r > 0 \<and> u_id a \<in> set ans)" "copy_skip_reason cfg d (Some a) ?in_round oo lim = []"
      by (auto simp: recheck_reason_Nil)
    let ?rest = "recheck_loop cfg d oo lim went ans ((cp_round r, folded (u_email a)) # seen) (u_id a # q) rows"
    consider "s = (snapshot a r)\<lparr>cp_reason := take reason_max_length [], cp_status := CopyPending\<rparr>" | "s \<in> set ?rest"
      using "2.prems" True a(1) by (auto simp: Let_def)
    then show ?thesis
    proof cases
      case 1
      then show ?thesis using a by (auto simp: copy_skip_reason_Nil)
    next
      case 2
      then show ?thesis using "2.IH"(1) [OF refl refl refl refl True] a(1) by auto
    qed
  next
    case False
    then have "s \<in> set (recheck_loop cfg d oo lim went ans seen q rows)"
      using "2.prems" assms(2) by (auto simp: Let_def split: if_splits)
    then show ?thesis using "2.IH"(2) [OF refl refl refl refl False] by auto
  qed
qed simp

lemma retry_copies:
  assumes "get_email d k = Some b"
  shows "md_copies (snd (retry_failed cfg k who d)) = md_copies d
    \<or> md_copies (snd (retry_failed cfg k who d)) = md_copies (put_copies (fst (recheck_rows cfg d b
        (surname_order cfg d (filter (\<lambda>r. cp_bulk r = k \<and> cp_status r = CopyFailed) (md_copies d))))) d)"
proof -
  have body: "md_copies (snd (retry_body cfg k who d)) = md_copies d
    \<or> md_copies (snd (retry_body cfg k who d)) = md_copies (put_copies (fst (recheck_rows cfg d b
        (surname_order cfg d (filter (\<lambda>r. cp_bulk r = k \<and> cp_status r = CopyFailed) (md_copies d))))) d)"
  proof -
    let ?failed = "surname_order cfg d (filter (\<lambda>r. cp_bulk r = k \<and> cp_status r = CopyFailed) (md_copies d))"
    obtain checked retried skipped where r: "recheck_rows cfg d b ?failed = (checked, retried, skipped)" using prod_cases3 by blast
    have "md_copies (edit_email i f e) = md_copies e" for i f e by (simp add: edit_email_def)
    then have "md_copies (snd (retry_body cfg k who d)) = md_copies d
        \<or> md_copies (snd (retry_body cfg k who d)) = md_copies (put_copies checked d)"
      unfolding retry_body_def assms option.case r Let_def prod.case by (auto split: option.split)
    then show ?thesis by (simp add: r)
  qed
  have atomic: "md_copies (snd (mail_atomic f d)) = md_copies d \<or> md_copies (snd (mail_atomic f d)) = md_copies (snd (f d))"
    for f :: "mail_db \<Rightarrow> (mail_error + retry option \<times> nat \<times> nat) \<times> mail_db"
    by (auto simp: mail_atomic_def mail_rollback_def case_prod_unfold split: sum.split)
  have log: "md_copies (snd (retry_failed cfg k who d)) = md_copies (snd (mail_atomic (retry_body cfg k who) d))"
  proof -
    obtain x d1 where x: "mail_atomic (retry_body cfg k who) d = (x, d1)" by fastforce
    show ?thesis
    proof (cases x)
      case (Inr y)
      obtain new n m where "y = (new, n, m)" using prod_cases3 by blast
      then show ?thesis using x Inr by (cases new) (simp_all add: retry_failed_def mail_log_def Let_def)
    qed (simp add: retry_failed_def x)
  qed
  from atomic [of "retry_body cfg k who"] show ?thesis unfolding log
  proof
    assume "md_copies (snd (mail_atomic (retry_body cfg k who) d)) = md_copies (snd (retry_body cfg k who d))"
    then show "md_copies (snd (mail_atomic (retry_body cfg k who) d)) = md_copies d
      \<or> md_copies (snd (mail_atomic (retry_body cfg k who) d)) = md_copies (put_copies (fst (recheck_rows cfg d b
        (surname_order cfg d (filter (\<lambda>r. cp_bulk r = k \<and> cp_status r = CopyFailed) (md_copies d))))) d)"
      using body by simp
  qed (rule disjI1)
qed

text \<open>C31:
  A failed copy is queued again only for a person whose account is active and whose address has not
  bounced, who has not turned the type off and is within the sender's DART, who was sent no later copy of
  the email, and, for a reminder, who has not answered; and it then goes to the address the account has
  now.\<close>

theorem retried_only_to_allowed:
  assumes "c \<in> set (md_copies (snd (retry_failed cfg k who d)))" and "cp_status c = CopyPending" and "c \<notin> set (md_copies d)"
    and "get_email d k = Some b"
  shows "\<exists>r \<in> set (md_copies d). \<exists>a. cp_status r = CopyFailed \<and> cp_bulk r = k \<and> cp_id c = cp_id r \<and> person d (cp_user r) = Some a
    \<and> cp_email c = u_email a \<and> u_is_active a \<and> a_email_bounced_at a = None
    \<and> \<not> went_later (went_rows d k) (u_id a) (cp_round r) \<and> (cp_round r > 0 \<longrightarrow> u_id a \<notin> set (answered_users d k))
    \<and> (\<forall>l. dart_limit d b = Some l \<longrightarrow> allows d l (u_id a))
    \<and> (\<forall>os. type_opt_outs d b = Some os \<longrightarrow> u_id a \<notin> set (to_user_ids os))"
proof -
  let ?failed = "surname_order cfg d (filter (\<lambda>r. cp_bulk r = k \<and> cp_status r = CopyFailed) (md_copies d))"
  have k: "be_id b = k" using get_email_SomeD [OF assms(4)] by simp
  have "c \<in> set (md_copies (put_copies (fst (recheck_rows cfg d b ?failed)) d))"
    using retry_copies [OF assms(4), of cfg who] assms(1,3) by auto
  then have mem: "c \<in> set (fst (recheck_rows cfg d b ?failed))"
    using assms(3) row_get_SomeD by (fastforce simp: put_copies_def split: option.splits)
  let ?ans = "if list_ex (\<lambda>r. cp_round r > 0) ?failed then answered_users d k else []"
  have "c \<in> set (recheck_loop cfg d (type_opt_outs d b) (dart_limit d b) (went_rows d k) ?ans
      (map (\<lambda>r. (cp_round r, folded (cp_email r))) (went_rows d k)) [] (sort_key (\<lambda>r. - int (cp_round r)) ?failed))"
    using mem unfolding recheck_rows_def Let_def k by (simp only: fst_conv)
  from recheck_allowed [OF this assms(2)] obtain r a where r: "r \<in> set ?failed" "cp_id c = cp_id r" "person d (cp_user r) = Some a"
    "cp_email c = u_email a" "u_is_active a" "a_email_bounced_at a = None" "\<not> went_later (went_rows d k) (u_id a) (cp_round r)"
    "\<not> (cp_round r > 0 \<and> u_id a \<in> set ?ans)" "\<forall>l. dart_limit d b = Some l \<longrightarrow> allows d l (u_id a)"
    "\<forall>os. type_opt_outs d b = Some os \<longrightarrow> u_id a \<notin> set (to_user_ids os)" by auto
  have "cp_round r > 0 \<Longrightarrow> u_id a \<notin> set (answered_users d k)" using r(1,8) by (auto simp: list_ex_iff)
  then show ?thesis using r(2-7,9,10) failed_rows [OF r(1)] by (intro bexI [of _ r] exI [of _ a]) simp_all
qed

theorem retried_only_to_allowed_witness:
  "\<exists>c \<in> set (md_copies (snd (retry_failed sample_mail_config 5 (sample_account 1 ''admin@x.org'') sample_failed))).
     cp_status c = CopyPending \<and> cp_email c = ''ann@x.org'' \<and> (\<exists>a :: account. u_is_active a \<and> cp_email c = u_email a)"
proof -
  let ?d = "snd (retry_failed sample_mail_config 5 (sample_account 1 ''admin@x.org'') sample_failed)"
  have new: "map (\<lambda>c. (cp_status c, cp_email c)) (md_copies ?d) = [(CopyPending, ''ann@x.org'')]" by code_simp
  have old: "map cp_status (md_copies sample_failed) = [CopyFailed]" by code_simp
  have email: "map_option be_id (get_email sample_failed 5) = Some 5" by code_simp
  obtain c where c: "c \<in> set (md_copies ?d)" "cp_status c = CopyPending" "cp_email c = ''ann@x.org''"
    using new by (cases "md_copies ?d") auto
  have fresh: "c \<notin> set (md_copies sample_failed)" using old c(2) by (cases "md_copies sample_failed") auto
  obtain b where "get_email sample_failed 5 = Some b" using email by auto
  from retried_only_to_allowed [OF c(1,2) fresh this] obtain a :: account where "u_is_active a" "cp_email c = u_email a" by blast
  then show ?thesis using c by blast
qed

subsection \<open>Reminders\<close>

lemma reminder_users:
  "c \<in> set (reminder_rows cfg d oo lim k rnd seen n ws) \<Longrightarrow> \<exists>a \<in> set ws. cp_user c = Some (u_id a) \<and> cp_email c = u_email a
    \<and> (cp_status c = CopyPending \<longrightarrow> a_email_bounced_at a = None)"
proof (induction cfg d oo lim k rnd seen n ws rule: reminder_rows.induct)
  case (2 cfg d oo lim k rnd seen n a ws)
  then show ?case
    by (cases "copy_skip_reason cfg d (Some a) seen oo lim = []") (auto simp: Let_def copy_skip_reason_Nil)
qed simp

text \<open>C32:
  A round of reminders queues at least one copy, and each of its rows is for a person the callout reached,
  whose account is active, and who has given no answer.\<close>

theorem reminders_go_to_silent:
  assumes "remind_callout cfg k who d = (Inr (rnd, n), d')" and "c \<in> set (md_copies d')" and "cp_bulk c = k" and "cp_round c = rnd"
    and "find (\<lambda>x. co_bulk x = k) (md_callouts d) = Some call"
  shows "n > 0 \<and> (\<exists>a \<in> set (ad_accounts (md_people d)). cp_user c = Some (u_id a) \<and> cp_email c = u_email a \<and> u_is_active a
    \<and> u_id a \<in> set (reached_ids d k) \<and> \<not> (\<exists>x \<in> set (md_answers d). an_callout x = co_id call \<and> an_user x = u_id a))"
proof -
  have run: "remind_body cfg k who d = (Inr (rnd, n), d')"
    using assms(1) by (auto simp: remind_callout_def mail_atomic_def split: prod.splits sum.splits)
  then obtain b where b: "get_email d k = Some b" and check: "check_remind b call (mail_now d) = None"
    by (auto simp: remind_body_def assms(5) split: option.splits)
  define answered where "answered = map an_user (filter (\<lambda>a. an_callout a = co_id call) (md_answers d))"
  define ws where "ws = sort_key (\<lambda>a. (text_order cfg (u_last_name a), text_order cfg (u_first_name a), text_order cfg (u_email a), u_id a))
      (filter (\<lambda>a. u_id a \<in> set (reached_ids d k) \<and> u_is_active a \<and> u_id a \<notin> set answered) (ad_accounts (md_people d)))"
  define rows where "rows = reminder_rows cfg d (type_opt_outs d b) (dart_limit d b) k (top_round d k + 1)
      (map (\<lambda>a. folded (u_email a)) (filter (\<lambda>a. u_id a \<in> set answered) (ad_accounts (md_people d)))) (md_next_pk d) ws"
  have out: "rnd = top_round d k + 1" "n = length (filter (\<lambda>r. cp_status r = CopyPending) rows)" "n > 0"
    "md_copies d' = md_copies d @ rows"
  proof -
    have pick: "x = rnd \<and> q = n \<and> n > 0 \<and> y = d'"
      if "(if p then (Inl e, d) else if q = (0 :: nat) then (Inl e', d) else (Inr (x, q), y)) = (Inr (rnd, n), d')" for p q e e' x y
      using that by (cases p; cases "q = 0") auto
    note parts = pick [OF run [unfolded remind_body_def b assms(5) check option.case Let_def, folded answered_def, folded ws_def, folded rows_def]]
    show "rnd = top_round d k + 1" using parts by blast
    show "n = length (filter (\<lambda>r. cp_status r = CopyPending) rows)" using parts by blast
    show "n > 0" using parts by blast
    have logged: "mail_log a w t r fs e = d' \<Longrightarrow> md_copies d' = md_copies e" for a w t r fs e by (auto simp: mail_log_def)
    from logged [OF conjunct2 [OF conjunct2 [OF conjunct2 [OF parts]]]] show "md_copies d' = md_copies d @ rows"
      by (simp add: edit_email_def)
  qed
  have "c \<notin> set (md_copies d)" using top_round_bound [of c d k] assms(3,4) out(1) by auto
  then have "c \<in> set rows" using assms(2) out(4) by simp
  then obtain a where a: "a \<in> set ws" "cp_user c = Some (u_id a)" "cp_email c = u_email a" using reminder_users unfolding rows_def by blast
  have w: "a \<in> set (ad_accounts (md_people d))" "u_is_active a" "u_id a \<in> set (reached_ids d k)" "u_id a \<notin> set answered"
    using a(1) by (simp_all add: ws_def)
  have "\<not> (\<exists>x \<in> set (md_answers d). an_callout x = co_id call \<and> an_user x = u_id a)" using w(4) unfolding answered_def by force
  then show ?thesis using a(2,3) w(1-3) out(3) by blast
qed

theorem reminders_go_to_silent_witness:
  "\<exists>d' c. remind_callout sample_mail_config 5 (sample_account 1 ''admin@x.org'') sample_callout = (Inr (1, 1), d') \<and> c \<in> set (md_copies d')
     \<and> cp_round c = 1 \<and> (\<exists>a \<in> set (ad_accounts (md_people sample_callout)). cp_user c = Some (u_id a) \<and> u_is_active a)"
proof -
  let ?r = "remind_callout sample_mail_config 5 (sample_account 1 ''admin@x.org'') sample_callout"
  have fst: "fst ?r = Inr (1, 1)" by code_simp
  have rows: "map (\<lambda>c. (cp_bulk c, cp_round c)) (md_copies (snd ?r)) = [(5, 0), (5, 1)]" by code_simp
  have call: "map_option co_id (find (\<lambda>x. co_bulk x = 5) (md_callouts sample_callout)) = Some 8" by code_simp
  have run: "?r = (Inr (1, 1), snd ?r)" using fst by (cases ?r) simp
  have "(5, 1) \<in> set (map (\<lambda>c. (cp_bulk c, cp_round c)) (md_copies (snd ?r)))" unfolding rows by simp
  then obtain c where c: "c \<in> set (md_copies (snd ?r))" "cp_bulk c = 5" "cp_round c = 1" by auto
  obtain x where "find (\<lambda>x. co_bulk x = 5) (md_callouts sample_callout) = Some x" using call by auto
  from reminders_go_to_silent [OF run c this] c run show ?thesis by blast
qed

end
