(* ===== verification/SenderEnds.thy ===== *)
theory SenderEnds
  imports Sender
begin

text \<open>
  A run of the background sender that nothing comes between ends, whatever the mail server answers and
  whenever the time budget is spent, and unless the budget was spent no email is left queued whose time
  had come when the run started.

  The measure is lexicographic: the queued emails that are due, the emails a dead run left unfinished,
  and how far the run is from the end of the email it works on.  Every claim takes an email out of the
  queue, and nothing else a run does puts one in.
\<close>

subsection \<open>The queue only shrinks\<close>

definition due :: "moment \<Rightarrow> bulk_email \<Rightarrow> bool" where
  "due now b \<longleftrightarrow> be_status b = QueuedEmail \<and> (case be_start_at b of None \<Rightarrow> False | Some t \<Rightarrow> t \<le> now)"

definition queue_length :: "moment \<Rightarrow> mail_db \<Rightarrow> nat" where
  "queue_length now d = length (filter (due now) (md_emails d))"

lemma due_emails_queue: "due_emails now d = [] \<longleftrightarrow> queue_length now d = 0"
  by (simp add: due_emails_def queue_length_def due_def [abs_def] flip: length_0_conv)

lemma filter_edit_le:
  assumes "\<And>x. P (f x) \<Longrightarrow> P x"
  shows "length (filter P (rows_update Q f t)) \<le> length (filter P t)"
  using assms by (induction t) (auto simp: rows_update_def)

lemma filter_edit_less:
  assumes "\<And>x. P (f x) \<Longrightarrow> P x" and "x \<in> set t" and "P x" and "Q x" and "\<And>x. Q x \<Longrightarrow> \<not> P (f x)"
  shows "length (filter P (rows_update Q f t)) < length (filter P t)"
  using assms(2)
proof (induction t)
  case (Cons y t)
  have tail: "length (filter P (rows_update Q f t)) \<le> length (filter P t)" by (rule filter_edit_le) (rule assms(1))
  show ?case
  proof (cases "y = x")
    case True
    then show ?thesis using tail assms(3-5) by (simp add: rows_update_def less_Suc_eq_le)
  next
    case False
    then have "length (filter P (rows_update Q f t)) < length (filter P t)" using Cons by simp
    then show ?thesis using assms(1) [of y] by (auto simp: rows_update_def)
  qed
qed simp

lemma queue_edit_le: "(\<And>x. due now (f x) \<Longrightarrow> due now x) \<Longrightarrow> queue_length now (edit_email k f d) \<le> queue_length now d"
  by (simp add: queue_length_def edit_email_def filter_edit_le)

lemma queue_edit_less:
  assumes "\<And>x. be_status (f x) \<noteq> QueuedEmail" and "b \<in> set (md_emails d)" and "due now b"
  shows "queue_length now (edit_email (be_id b) f d) < queue_length now d"
proof -
  have "length (filter (due now) (rows_update (\<lambda>r. be_id r = be_id b) f (md_emails d))) < length (filter (due now) (md_emails d))"
    by (rule filter_edit_less [where x = b]) (use assms in \<open>auto simp: due_def\<close>)
  then show ?thesis by (simp add: queue_length_def edit_email_def)
qed

lemma queue_cong: "md_emails d' = md_emails d \<Longrightarrow> queue_length now d' = queue_length now d"
  by (simp add: queue_length_def)

lemma queue_log [simp]: "queue_length now (mail_log a w t r fs d) = queue_length now d"
  by (rule queue_cong) (simp add: mail_log_def)

lemma mail_log_copies [simp]: "md_copies (mail_log a w t r fs d) = md_copies d"
  by (simp add: mail_log_def)

subsection \<open>What each step does to the queue\<close>

lemma due_head:
  assumes "due_emails now d = b # rest" shows "b \<in> set (md_emails d) \<and> due now b"
proof -
  have "b \<in> set (due_emails now d)" using assms by simp
  then show ?thesis by (simp add: due_emails_def due_def)
qed

lemma refuse_shrinks:
  assumes "due_emails now d = b # rest"
  shows "queue_length now (refuse_email b r d) < queue_length now d"
proof -
  note b = due_head [OF assms]
  have "queue_length now (edit_email (be_id b) f d') < queue_length now d"
    if "\<And>x. be_status (f x) \<noteq> QueuedEmail" "md_emails d' = md_emails d" for f d'
    using queue_edit_less [OF that(1), of b d' now] b that(2) by (simp add: queue_length_def)
  then show ?thesis by (simp add: refuse_email_def Let_def)
qed

lemma freeze_emails [simp]: "md_emails (snd (freeze cfg b d)) = md_emails d"
  by (simp add: freeze_def put_copies_def Let_def)

lemma skip_if_closed_emails [simp]: "md_emails (snd (skip_if_closed b d)) = md_emails d"
  by (simp add: skip_if_closed_def skip_pending_def Let_def)

lemma claim_shrinks:
  assumes "claim_one cfg now d = (c, d')"
  shows "c = NothingDue \<and> d' = d \<and> due_emails now d = [] \<or> c \<noteq> NothingDue \<and> queue_length now d' < queue_length now d"
proof (cases "due_emails now d")
  case Nil
  then show ?thesis using assms by (simp add: claim_one_def)
next
  case (Cons b rest)
  show ?thesis
  proof (cases "sender_refusal cfg d b")
    case (Some r)
    then show ?thesis using assms refuse_shrinks [OF Cons] by (auto simp: claim_one_def Cons)
  next
    case None
    define b1 where "b1 = b\<lparr>be_status := SendingEmail,
               be_started_at := (case be_started_at b of None \<Rightarrow> Some (mail_now d) | Some t \<Rightarrow> Some t),
               be_dart := (if be_started_at b = None then limit_dart (dart_limit d b) else be_dart b),
               be_reply_to := claimed_reply_to cfg d b\<rparr>"
    define d2 where "d2 = snd (skip_if_closed b1 (snd (freeze cfg b1 d)))"
    define f :: "nat \<Rightarrow> nat \<Rightarrow> bulk_email \<Rightarrow> bulk_email" where
      "f = (\<lambda>n m x. let b2 = b1\<lparr>be_skipped_count := be_skipped_count b1 + int n + int m\<rparr>
        in x\<lparr>be_status := be_status b2, be_started_at := be_started_at b2,
              be_dart := be_dart b2, be_reply_to := be_reply_to b2, be_skipped_count := be_skipped_count b2\<rparr>)"
    have st: "be_status (f n m x) \<noteq> QueuedEmail" for n m x by (simp add: f_def b1_def Let_def)
    have "claim_one cfg now d = (Claimed (b1\<lparr>be_skipped_count := be_skipped_count b1 + int (fst (freeze cfg b1 d))
          + int (fst (skip_if_closed b1 (snd (freeze cfg b1 d))))\<rparr>)
        (fst (freeze cfg b1 d) + fst (skip_if_closed b1 (snd (freeze cfg b1 d)))),
      edit_email (be_id b) (f (fst (freeze cfg b1 d)) (fst (skip_if_closed b1 (snd (freeze cfg b1 d))))) d2)"
      by (simp only: claim_one_def Cons None list.case option.case Let_def case_prod_unfold b1_def d2_def f_def)
    then have "\<exists>n m. d' = edit_email (be_id b) (f n m) d2" and "c \<noteq> NothingDue" using assms by auto
    moreover have "md_emails d2 = md_emails d" by (simp add: d2_def)
    then have "queue_length now (edit_email (be_id b) (f n m) d2) < queue_length now d" for n m
      using queue_edit_less [OF st, of b d2 now] due_head [OF Cons] by (simp add: queue_length_def)
    ultimately show ?thesis by auto
  qed
qed

lemma recount_status [simp]: "be_status (recount d k b) = be_status b" "be_start_at (recount d k b) = be_start_at b"
  by (simp_all add: recount_def)

lemma apply_stop_queue: "queue_length now (apply_stop b d) \<le> queue_length now d"
proof -
  have "queue_length now (edit_email k (\<lambda>x. recount e k (x\<lparr>be_status := StoppedEmail, be_stopped_at := t, be_stop_requested := False\<rparr>)) d1)
      \<le> queue_length now d" if "md_emails d1 = md_emails d" for k e t d1
    using queue_edit_le [of now "\<lambda>x. recount e k (x\<lparr>be_status := StoppedEmail, be_stopped_at := t, be_stop_requested := False\<rparr>)" k d1]
      that by (simp add: due_def queue_length_def)
  then show ?thesis by (simp add: apply_stop_def Let_def)
qed

lemma finish_queue: "queue_length now (finish_email h d) \<le> queue_length now d"
proof -
  let ?k = "be_id (he_email h)"
  have edit: "queue_length now (edit_email ?k (\<lambda>x. recount d ?k (x\<lparr>be_status := SentEmail, be_sent_at := t,
      be_stop_requested := False, be_stopped_by := None\<rparr>)) d) \<le> queue_length now d" for t
    by (rule queue_edit_le) (simp add: due_def)
  have "queue_length now (reminder_finished b e) = queue_length now e" "queue_length now (retry_finished b e) = queue_length now e" for b e
    by (auto simp: reminder_finished_def retry_finished_def Let_def split: option.split)
  then show ?thesis using edit by (auto simp: finish_email_def Let_def)
qed

lemma record_count_queue: "queue_length now (record_count b t d) \<le> queue_length now d"
  unfolding record_count_def by (rule queue_edit_le) (auto simp: due_def split: if_splits)

lemma record_row_emails [simp]: "md_emails (record_row r t d) = md_emails d"
  by (simp add: record_row_def edit_copy_def)

lemma mark_bounced_queue: "queue_length now (snd (mark_bounced e d)) \<le> queue_length now d"
proof -
  have "queue_length now (edit_email k (\<lambda>b. b\<lparr>be_sent_count := max (be_sent_count b - 1) 0, be_bounced_count := be_bounced_count b + 1\<rparr>)
      (edit_copy i g d)) \<le> queue_length now d" for k i g
    using queue_edit_le [of now "\<lambda>b. b\<lparr>be_sent_count := max (be_sent_count b - 1) 0, be_bounced_count := be_bounced_count b + 1\<rparr>" k "edit_copy i g d"]
    by (simp add: due_def queue_length_def edit_copy_def)
  then show ?thesis by (auto simp: mark_bounced_def Let_def split: option.split)
qed

lemma rows_update_length [simp]: "length (rows_update P f t) = length t"
  by (simp add: rows_update_def)

lemma copies_kept:
  "length (md_copies (record_row r t d)) = length (md_copies d)"
  "length (md_copies (record_count b t d)) = length (md_copies d)"
  "length (md_copies (snd (mark_bounced e d))) = length (md_copies d)"
  by (auto simp: record_row_def edit_copy_def record_count_def edit_email_def mark_bounced_def Let_def split: option.split)

lemma recover_queue:
  "queue_length now (snd (recover_rows b L n d)) \<le> queue_length now d
    \<and> length (md_copies (snd (recover_rows b L n d))) = length (md_copies d)"
proof (induction b L n d rule: recover_rows.induct)
  case (2 b r e rest n d)
  let ?t = "\<lparr>ts_status = CopySent, ts_reason = [], ts_message = me_message e\<rparr>"
  let ?d1 = "snd (mark_bounced e (record_count b ?t (record_row r ?t d)))"
  have "queue_length now ?d1 \<le> queue_length now (record_count b ?t (record_row r ?t d))" by (rule mark_bounced_queue)
  also have "\<dots> \<le> queue_length now (record_row r ?t d)" by (rule record_count_queue)
  also have "\<dots> = queue_length now d" by (rule queue_cong) simp
  finally have "queue_length now ?d1 \<le> queue_length now d" .
  moreover have "length (md_copies ?d1) = length (md_copies d)" by (simp add: copies_kept)
  ultimately show ?case using "2.IH" [OF refl refl] by (simp add: Let_def)
qed simp

subsection \<open>How far a run is from its end\<close>

definition tries_left :: "nat \<Rightarrow> nat" where
  "tries_left n = length retry_delays - n"

fun distance :: "mail_db \<Rightarrow> point \<Rightarrow> nat" where
  "distance d Finished = 0"
| "distance d NextEmail = 1"
| "distance d (Opened b) = 3 + 20 * length (md_copies d)"
| "distance d (NextCopy h rows) = 2 + 20 * length rows"
| "distance d (Paced h r rows) = 21 + 20 * length rows"
| "distance d (Trying h r rows n) = 8 + 2 * tries_left n + 20 * length rows"
| "distance d (Handing h r rows n) = 7 + 2 * tries_left n + 20 * length rows"
| "distance d (Answered h r rows t) = 5 + 20 * length rows"
| "distance d (Counting h r rows t) = 4 + 20 * length rows"

definition run_measure :: "sender_run \<Rightarrow> mail_db \<Rightarrow> nat \<times> nat \<times> nat" where
  "run_measure s d = (queue_length (sr_moment s) d, length (sr_unfinished s), distance d (sr_point s))"

definition shorter :: "((nat \<times> nat \<times> nat) \<times> (nat \<times> nat \<times> nat)) set" where
  "shorter = less_than <*lex*> less_than <*lex*> less_than"

lemma wf_shorter: "wf shorter"
  by (simp add: shorter_def wf_lex_prod)

lemma shorterI:
  "q' < q \<or> q' = q \<and> u' < u \<or> q' = q \<and> u' = u \<and> k' < k \<Longrightarrow> ((q', u', k'), (q, u, k)) \<in> shorter"
  by (auto simp: shorter_def)

lemma closerI:
  assumes "queue_length (sr_moment s) d' \<le> queue_length (sr_moment s) d" and "sr_unfinished s' = sr_unfinished s"
    and "sr_moment s' = sr_moment s" and "distance d' (sr_point s') < distance d (sr_point s)"
  shows "(run_measure s' d', run_measure s d) \<in> shorter"
  unfolding run_measure_def by (rule shorterI) (use assms in auto)

lemma sender_step_shorter:
  assumes res: "sender_step cfg spent answer s d = (s', d')" and "sr_point s \<noteq> Finished"
  shows "(run_measure s' d', run_measure s d) \<in> shorter \<and> sr_moment s' = sr_moment s"
proof (cases "sr_point s")
  case at: NextEmail
  show ?thesis
  proof (cases "sr_unfinished s")
    case (Cons b rest)
    then have "s' = s\<lparr>sr_unfinished := rest, sr_point := Opened b\<rparr>" "d' = d" using res by (auto simp: sender_step_def at next_email_def)
    then show ?thesis using Cons by (auto simp: run_measure_def intro!: shorterI)
  next
    case Nil
    obtain c d1 where c: "claim_one cfg (sr_moment s) d = (c, d1)" by fastforce
    have d1: "d' = d1" "sr_moment s' = sr_moment s" using res c by (auto simp: sender_step_def at next_email_def Nil split: claimed.splits)
    show ?thesis
    proof (cases "c = NothingDue")
      case True
      then have "s' = s\<lparr>sr_point := Finished\<rparr>" "d' = d"
        using res c claim_shrinks [OF c] by (auto simp: sender_step_def at next_email_def Nil)
      then show ?thesis using at by (auto intro!: closerI)
    next
      case False
      then show ?thesis using claim_shrinks [OF c] d1 by (auto simp: run_measure_def intro!: shorterI)
    qed
  qed
next
  case at: (Opened b)
  let ?n = "(sr_counts s)\<lparr>sn_emails := sn_emails (sr_counts s) + 1\<rparr>"
  have d': "d' = snd (recover_rows b (logged_copies (be_id b) d) ?n d)" and same: "sr_moment s' = sr_moment s" "sr_unfinished s' = sr_unfinished s"
    and p: "\<exists>h. sr_point s' = NextCopy h (surname_order cfg d' (filter (\<lambda>r. cp_bulk r = be_id b \<and> cp_status r = CopyPending) (md_copies d')))"
    using res by (auto simp: sender_step_def at open_email_def recover_logged_copies_def Let_def case_prod_unfold)
  note rec = recover_queue [of "sr_moment s" b "logged_copies (be_id b) d" ?n d, folded d']
  have "length (filter (\<lambda>r. cp_bulk r = be_id b \<and> cp_status r = CopyPending) (md_copies d')) \<le> length (md_copies d)"
    using rec by (metis length_filter_le)
  then have "distance d' (sr_point s') < distance d (sr_point s)" using p at by (auto simp: surname_order_def)
  then show ?thesis using closerI [OF conjunct1 [OF rec] same(2,1)] same by simp
next
  case at: (NextCopy h rows)
  show ?thesis
  proof (cases rows)
    case Nil
    then show ?thesis using res finish_queue by (auto simp: sender_step_def at intro!: closerI)
  next
    case (Cons r rest)
    then show ?thesis using res apply_stop_queue
      by (auto simp: sender_step_def at before_copy_def still_out_def split: if_splits intro!: closerI)
  qed
next
  case at: (Paced h r rows)
  have skip: "queue_length now (snd (skip_unsendable h r x d)) \<le> queue_length now d" for now x
    using queue_edit_le [of now "\<lambda>x. x\<lparr>be_skipped_count := be_skipped_count (he_email h) + 1\<rparr>" "be_id (he_email h)"
        "edit_copy (cp_id r) (\<lambda>y. y\<lparr>cp_status := CopySkipped, cp_reason := x\<rparr>) d"]
    by (simp add: skip_unsendable_def Let_def due_def queue_length_def edit_copy_def)
  show ?thesis using res apply_stop_queue skip
    by (auto simp: sender_step_def at after_pause_def still_out_def tries_left_def retry_delays_def Let_def case_prod_unfold
        split: if_splits intro!: closerI)
next
  case at: (Trying h r rows n)
  show ?thesis using res
    by (auto simp: sender_step_def at save_message_id_def still_out_def Let_def queue_length_def edit_copy_def split: if_splits intro!: closerI)
next
  case at: (Handing h r rows n)
  have "queue_length now (log_entry r st d) = queue_length now d"
    "queue_length now (log_entry r st d\<lparr>md_taken := x\<rparr>) = queue_length now d" for now st x
    by (simp_all add: queue_length_def log_entry_def)
  then show ?thesis using res
    by (auto simp: sender_step_def at hand_copy_over_def tries_left_def split: server_answer.splits if_splits intro!: closerI)
next
  case at: (Answered h r rows t)
  have "queue_length now (record_row r t d) = queue_length now d" for now by (rule queue_cong) simp
  then show ?thesis using res by (auto simp: sender_step_def at intro!: closerI)
next
  case at: (Counting h r rows t)
  show ?thesis using res record_count_queue by (auto simp: sender_step_def at after_answer_def intro!: closerI)
qed (use assms(2) in simp)

subsection \<open>A run ends\<close>

lemma sender_step_finishes:
  assumes "sender_step cfg spent answer s d = (s', d')" and "sr_point s' = Finished"
  shows "spent \<or> (sr_point s = Finished \<and> d' = d) \<or> due_emails (sr_moment s) d' = []"
proof (cases "sr_point s")
  case at: NextEmail
  show ?thesis
  proof (cases "sr_unfinished s")
    case Nil
    obtain c d1 where c: "claim_one cfg (sr_moment s) d = (c, d1)" by fastforce
    then show ?thesis using assms at claim_shrinks [OF c]
      by (auto simp: sender_step_def next_email_def Nil split: claimed.splits)
  qed (use assms in \<open>auto simp: sender_step_def at next_email_def\<close>)
next
  case at: (NextCopy h rows)
  then show ?thesis using assms
    by (cases rows) (auto simp: sender_step_def before_copy_def split: if_splits)
qed (use assms in \<open>auto simp: sender_step_def open_email_def after_pause_def save_message_id_def hand_copy_over_def after_answer_def Let_def
    case_prod_unfold split: if_splits server_answer.splits\<close>)

lemma run_steps_moment: "sr_moment (fst (run_steps n cfg spent answers s d)) = sr_moment s"
proof (induction n)
  case (Suc n)
  obtain s1 d1 where s1: "run_steps n cfg spent answers s d = (s1, d1)" by fastforce
  obtain s2 d2 where s2: "sender_step cfg (spent n) (answers n) s1 d1 = (s2, d2)" by fastforce
  have "sr_moment s2 = sr_moment s1"
  proof (cases "sr_point s1 = Finished")
    case True
    then show ?thesis using s2 by (simp add: sender_step_def)
  next
    case False
    then show ?thesis using sender_step_shorter [OF s2] by simp
  qed
  then show ?case using Suc s1 s2 by simp
qed simp

lemma run_steps_end:
  assumes "sr_point s \<noteq> Finished"
  shows "\<exists>n. sr_point (fst (run_steps n cfg spent answers s d)) = Finished"
proof (rule ccontr)
  assume "\<nexists>n. sr_point (fst (run_steps n cfg spent answers s d)) = Finished"
  then have going: "sr_point (fst (run_steps n cfg spent answers s d)) \<noteq> Finished" for n by blast
  let ?m = "\<lambda>n. run_measure (fst (run_steps n cfg spent answers s d)) (snd (run_steps n cfg spent answers s d))"
  have down: "(?m (Suc n), ?m n) \<in> shorter" for n
  proof -
    obtain s1 d1 where s1: "run_steps n cfg spent answers s d = (s1, d1)" by fastforce
    obtain s2 d2 where s2: "sender_step cfg (spent n) (answers n) s1 d1 = (s2, d2)" by fastforce
    then show ?thesis using sender_step_shorter [OF s2] going [of n] s1 by simp
  qed
  have "\<exists>f. \<forall>i. (f (Suc i), f i) \<in> shorter" by (rule exI [of _ ?m]) (rule allI, rule down)
  then show False using wf_shorter unfolding wf_iff_no_infinite_down_chain by blast
qed

lemma run_steps_outcome:
  assumes "sr_point s \<noteq> Finished" and "sr_point (fst (run_steps n cfg spent answers s d)) = Finished"
  shows "(\<exists>i. i < n \<and> spent i) \<or> due_emails (sr_moment s) (snd (run_steps n cfg spent answers s d)) = []"
  using assms(2)
proof (induction n)
  case 0
  then show ?case using assms(1) by simp
next
  case (Suc n)
  obtain s1 d1 where s1: "run_steps n cfg spent answers s d = (s1, d1)" by fastforce
  obtain s2 d2 where s2: "sender_step cfg (spent n) (answers n) s1 d1 = (s2, d2)" by fastforce
  have fin: "sr_point s2 = Finished" using Suc.prems s1 s2 by simp
  have now: "sr_moment s1 = sr_moment s" using run_steps_moment [of n cfg spent answers s d] s1 by simp
  from sender_step_finishes [OF s2 fin] show ?case
  proof (elim disjE conjE)
    assume "spent n"
    then show ?thesis by blast
  next
    assume a: "sr_point s1 = Finished" "d2 = d1"
    then have "(\<exists>i. i < n \<and> spent i) \<or> due_emails (sr_moment s) d1 = []" using Suc.IH s1 by simp
    then show ?thesis using a s1 s2 by (auto intro: less_SucI)
  next
    assume "due_emails (sr_moment s1) d2 = []"
    then show ?thesis using s1 s2 now by simp
  qed
qed

text \<open>C9:
  A run of the sender that nothing comes between ends, whatever the mail server answers to each copy and
  whenever the time budget is spent; and unless the budget was spent before the end, it leaves no email
  queued whose time had come when it started.\<close>

theorem sender_run_ends:
  "\<exists>n s' d'. run_steps n cfg spent answers (start_run now d) d = (s', d') \<and> sr_point s' = Finished
    \<and> ((\<exists>i. i < n \<and> spent i) \<or> due_emails now d' = [])"
proof -
  have start: "sr_point (start_run now d) \<noteq> Finished" "sr_moment (start_run now d) = now" by (simp_all add: start_run_def)
  obtain n where n: "sr_point (fst (run_steps n cfg spent answers (start_run now d) d)) = Finished"
    using run_steps_end [OF start(1)] by blast
  show ?thesis
    using n run_steps_outcome [OF start(1) n] start(2)
    by (intro exI [of _ n] exI [of _ "fst (run_steps n cfg spent answers (start_run now d) d)"]
        exI [of _ "snd (run_steps n cfg spent answers (start_run now d) d)"]) simp
qed

end
