(* ===== verification/Spec2Isabelle.thy ===== *)
theory Spec2Isabelle
  imports Reminders Casing EmailChange Portal MailRules SenderEnds
begin

text \<open>
  CalDART is the membership portal of a volunteer organization: a Django back end
  (\<open>src/backend\<close>) that keeps accounts, sells membership terms, takes payments and donations, renews
  memberships by charging a saved card, reminds members whose term is running out, guards the
  sign-in of those who administer it, and sends bulk email and mission callouts to the members.  This development models the services that decide these
  things and proves what they promise.

  \<^bold>\<open>The model.\<close>  A Django model is a record with the columns of the model, a table the list of its
  rows, and the database one record of tables (\<open>Store.db\<close>; \<open>Accounts.account_db\<close> for the tables the
  account services write; \<open>Mailings.mail_db\<close> for those of bulk email).  A service is a function from its arguments and the database to its
  answer and the database after it; an exception is a value of a sum type, and \<open>atomic\<close> undoes what a
  failed transaction wrote.  Besides the tables the database carries what the services emit: audit
  lines, events, mail handed over or queued for the commit, and calls to a payment provider.  A
  service that works on an instance loaded earlier gets that instance as an argument of its own
  and writes single columns back, so a stale copy is a stale copy here too.  \<open>timezone.now()\<close> is a
  field of the database that the environment moves between operations.

  \<^bold>\<open>What is outside.\<close>  The payment provider (\<open>Charge.gateway\<close>), the mail server and the time zone
  (\<open>Store.config\<close>), password hashes, signed links, authenticator codes and digests
  (\<open>Accounts.account_config\<close>), the sanitizing and checking of a message's text and Django's email
  validator (\<open>Mailings.mail_config\<close>), and the advisory locks are arguments.  What the charge step
  relies on from a provider is the locale \<open>payment_gateway\<close>, interpreted on the model of
  \<open>payments/providers/mock.py\<close>; the laws of reading and writing a table are the locales \<open>store_table\<close> and
  \<open>editable_table\<close>, interpreted on every table with a primary key.

  \<^bold>\<open>The theories and the code they model.\<close>
  \<^item> \<open>Prelude\<close>, \<open>Store\<close>, \<open>Strings\<close>: tables, sorts, records of the models, Python's string methods.
  \<^item> \<open>Calendar\<close>: Python's calendar, \<open>advance_by_cadence\<close> of \<open>payments/renewals/schedule.py\<close>,
    \<open>reports/schedule.py\<close>, \<open>payments/dates.py\<close>.
  \<^item> \<open>Membership\<close>, \<open>Terms\<close>: \<open>members/services.py\<close> (who is a member until when, in Python and as SQL
    annotations; buying, granting, suspending and restoring terms).  \<open>Lifecycle\<close>: \<open>members/lifecycle.py\<close>.
  \<^item> \<open>Schedule\<close>, \<open>Mandates\<close>: \<open>payments/renewals/schedule.py\<close> and \<open>mandates.py\<close>, and the two requests of
    \<open>payments/api/renewal_views.py\<close> that change and confirm a mandate.
  \<^item> \<open>Payments\<close>, \<open>Refunds\<close>: \<open>payments/services.py\<close>, \<open>donations.py\<close>, \<open>refunds.py\<close>.
  \<^item> \<open>Charge\<close>, \<open>ChargeSafety\<close>: \<open>payments/renewals/charge.py\<close>.  \<open>Scan\<close>, \<open>ScanSafety\<close>:
    \<open>payments/renewals/scan.py\<close>, \<open>caldart/runs.py\<close>.
  \<^item> \<open>Reminders\<close>: \<open>reminders/services.py\<close> and \<open>models.py\<close>.
  \<^item> \<open>AuditText\<close>, \<open>Casing\<close>: \<open>caldart/audit.py\<close>, \<open>casing.py\<close>, \<open>phone.py\<close>.
  \<^item> \<open>Accounts\<close>, \<open>AccountStatus\<close>, \<open>TwoFactor\<close>, \<open>Lockout\<close>, \<open>EmailChange\<close>: \<open>accounts/models.py\<close>, \<open>roles.py\<close>,
    \<open>services.py\<close>, \<open>history.py\<close>, \<open>status.py\<close>, \<open>mfa.py\<close>, \<open>lockout.py\<close>, \<open>email_change.py\<close>.
  \<^item> \<open>Portal\<close>: the tables of accounts beside those of members: \<open>accounts/api/account_actions.py\<close>, \<open>deactivate\<close>
    and \<open>reactivate\<close> of \<open>accounts/api/views.py\<close>, registration and deletion of \<open>members/services.py\<close>.
  \<^item> \<open>Mailings\<close>: the tables of \<open>bulk_email/models.py\<close> and \<open>mail/models.py\<close>, \<open>mail/types.py\<close>,
    \<open>bulk_email/senders.py\<close>, \<open>reply_to.py\<close>, \<open>batch.py\<close>.  \<open>Callouts\<close>, \<open>Delivery\<close>, \<open>Drafts\<close>: the files of these names.
    \<open>Sender\<close>: \<open>bulk_email/job.py\<close> as a machine whose steps end where other transactions can come between.
    \<open>SenderEnds\<close>: a run ends.  \<open>MailingSafety\<close>, \<open>MailingRequests\<close>, \<open>SenderSafety\<close>: the invariant of the tables and of
    a run, kept by every request and every step.  \<open>MailWorld\<close>: all of it together.  \<open>MailRules\<close>: what
    single requests promise.

  \<^bold>\<open>How the parts meet.\<close>  A payment that succeeds buys a term (\<open>Payments\<close> calls \<open>Terms\<close>), which moves
  the charge day of the standing mandate (\<open>Mandates\<close>).  The daily scan announces what is due
  (\<open>Scan\<close>), claims and charges it (\<open>Charge\<close>), which ends in the same success.  The reminders skip
  whom the renewals charge (\<open>Reminders\<close> reads the mandates), and membership is read through one
  function everywhere (\<open>Membership\<close>).  Closing, opening and deleting an account act on its row, its
  mandates, its terms and its payments together (\<open>Portal\<close>).  Bulk email reads the accounts and roles of \<open>Accounts\<close>; its background
  sender works while people go on editing, stopping, retrying and answering, and a run that died is
  taken up by the next (\<open>MailWorld\<close>).

  \<^bold>\<open>What is shown.\<close>  Of money: a payment settles once and buys one term; refunds never exceed the
  payment however their transactions interleave; a charge is asked for at most once, and again only
  after the provider answered that it holds none.  Of membership: the status is current exactly on
  covered days, both statements of the rules agree, and the daily scans change nobody's status.  Of
  mandates: no sequence of operations puts a contribution in two places.  Of mail: each reminder
  goes once, a run logs exactly what the abstract promise says is due, and a notice goes once.  Of
  accounts: role writes stay within what their author may give, a system administrator always
  remains, a guarded role is never minted, a blocked account stays closed, no second factor is
  accepted twice, an address is locked out exactly after the configured number of failures, no
  address belongs to two accounts, and who loses a sign-in address can take the account back.  Closing
  an account withdraws every authority to charge it and opening it again brings its terms back, and
  deleting a person leaves the books as they were.  Of
  bulk email: however requests, runs and deaths of runs interleave no address is sent one round of
  an email twice, and a copy reads as sent exactly when the mail server took it; a run of the sender
  ends; an email is queued only past every check, and is closed to changes once it has started.
  Each group of lemmas states first what one operation does on each of its branches and then what
  sequences of operations keep.

  \<^bold>\<open>Bounds.\<close>  No definition runs on fuel: loops over rows are recursions over lists, and the two that
  are not structural (the walk along back-to-back terms, and the decimal digits of a number)
  terminate by a measure.  A run of the background sender is iterated step by step (\<open>run_steps\<close>), and
  \<open>sender_run_ends\<close> shows that some number of steps reaches its end, whatever the mail server answers.  Python's integers are unbounded, so are the model's; strings are of
  one-byte characters; moments are whole seconds; the calendar has no last year.

  \<^bold>\<open>What is not modelled.\<close>  The clients of Stripe and PayPal and what they say over the network; request
  parsing, serializers and permission classes of the API views, with the sign-in endpoints that call
  \<open>TwoFactor\<close> and \<open>Lockout\<close> around Django's sessions; an administrator's forms over a member record; the
  aircraft register, notifications and the records of background jobs; page content; PDF and email bodies;
  tables and exports of the reports; seed data; settings; the browser portal.  Two requests that run
  at once are modelled as the transactions they consist of, in any order, not below that; the
  database's own locks are taken to work.  The mail server's taking a copy of a bulk email and the row of
  the email log that says so are one step, because the log row is written by the call that hands the
  copy over.  The bounce check appears as what it does to a row of the email log; statements,
  reconciliation and the reports are read-only tables over the modelled rows.
\<close>

end
